(* ===== verification/GoLib.thy ===== *)
theory GoLib
  imports Main
    "HOL-Library.Word" "HOL-Library.Multiset" "HOL-Library.AList" "HOL-Library.Sublist"
    "HOL-Library.List_Lexorder" "HOL-Library.Char_ord" "HOL-Library.Product_Lexorder"
begin

text \<open>
  Prelude: what the Go sources use of the language and of its standard library.
  Strings are byte sequences (\<^typ>\<open>string\<close>), compared bytewise; an \<open>int\<close> is a 64-bit
  two's complement integer, kept as \<^typ>\<open>int\<close> with the wrap-around of \<open>wrap64\<close> written
  where the code adds or subtracts; a \<open>uint64\<close> is a \<open>64 word\<close>; a Go map is an association
  list with distinct keys; \<open>slices.SortFunc\<close> and \<open>sort.SliceStable\<close> are insertion sorts.
\<close>

named_theorems loop_simps \<open>unfolding rules for loops with an early error return\<close>
named_theorems order_keys \<open>comparison functions expressed through a key in a linear order\<close>

section \<open>Machine integers\<close>

definition wrap64 :: "int \<Rightarrow> int" where
  "wrap64 x = (x + 2 ^ 63) mod 2 ^ 64 - 2 ^ 63"

definition in64 :: "int \<Rightarrow> bool" where
  "in64 x \<longleftrightarrow> - (2 ^ 63) \<le> x \<and> x < 2 ^ 63"

lemma wrap64_id [simp]: "in64 x \<Longrightarrow> wrap64 x = x"
  by (simp add: wrap64_def in64_def)

lemma in64_wrap64 [simp]: "in64 (wrap64 x)"
  unfolding wrap64_def in64_def
  using pos_mod_sign [of "2 ^ 64 :: int" "x + 2 ^ 63"] pos_mod_bound [of "2 ^ 64 :: int" "x + 2 ^ 63"]
  by simp

lemma in64_small: "0 \<le> x \<Longrightarrow> x < 2 ^ 63 \<Longrightarrow> in64 x"
  by (simp add: in64_def)

text \<open>Go's integer division truncates towards zero.\<close>

definition quot :: "int \<Rightarrow> int \<Rightarrow> int" where
  "quot a b = sgn a * sgn b * (\<bar>a\<bar> div \<bar>b\<bar>)"

lemma quot_nonneg: "0 \<le> a \<Longrightarrow> 0 < b \<Longrightarrow> quot a b = a div b"
  by (cases "a = 0") (auto simp: quot_def)

lemma uint_le_neq: "x \<noteq> y \<Longrightarrow> uint y \<le> uint x \<longleftrightarrow> uint y < uint (x :: 'a :: len word)"
  by (auto simp: order_le_less word_uint_eq_iff)

section \<open>Maps\<close>

text \<open>
  A Go map: the association list keeps one entry per key. The order of the entries has no
  meaning; where the code ranges over a map, the model takes the order as an argument or
  the theorem quantifies over every permutation.
\<close>

type_synonym ('k, 'v) gomap = "('k \<times> 'v) list"

abbreviation keys :: "('k, 'v) gomap \<Rightarrow> 'k list" where
  "keys m \<equiv> map fst m"

abbreviation put :: "'k \<Rightarrow> 'v \<Rightarrow> ('k, 'v) gomap \<Rightarrow> ('k, 'v) gomap" where
  "put k v m \<equiv> AList.update k v m"

abbreviation del :: "'k \<Rightarrow> ('k, 'v) gomap \<Rightarrow> ('k, 'v) gomap" where
  "del k m \<equiv> AList.delete k m"

definition wf_map :: "('k, 'v) gomap \<Rightarrow> bool" where
  "wf_map m \<longleftrightarrow> distinct (keys m)"

text \<open>Indexing a map gives the zero value for a key that is absent.\<close>

definition mapGet :: "'v \<Rightarrow> ('k, 'v) gomap \<Rightarrow> 'k \<Rightarrow> 'v" where
  "mapGet zero m k = (case map_of m k of Some v \<Rightarrow> v | None \<Rightarrow> zero)"

lemma map_of_keys: "map_of m k = Some v \<Longrightarrow> k \<in> set (keys m)"
  by (metis domI dom_map_of_conv_image_fst list.set_map)

lemma wf_map_Nil [simp]: "wf_map []"
  by (simp add: wf_map_def)

lemma wf_map_put [simp]: "wf_map m \<Longrightarrow> wf_map (put k v m)"
  by (simp add: wf_map_def distinct_update)

lemma wf_map_del [simp]: "wf_map m \<Longrightarrow> wf_map (del k m)"
  by (simp add: wf_map_def distinct_delete)

lemma wf_map_filter [simp]: "wf_map m \<Longrightarrow> wf_map (filter P m)"
  by (simp add: wf_map_def distinct_map_filter)

lemma map_of_put [simp]: "map_of (put k v m) = (map_of m)(k \<mapsto> v)"
  by (simp add: update_conv')

lemma map_of_del [simp]: "map_of (del k m) = (map_of m)(k := None)"
  by (simp add: delete_conv')

lemma set_put: "kv \<in> set (put k v m) \<Longrightarrow> kv = (k, v) \<or> kv \<in> set m"
  by (induction m) (auto split: if_splits)

lemma map_of_filter:
  "wf_map m \<Longrightarrow> map_of (filter P m) k =
     (case map_of m k of None \<Rightarrow> None | Some v \<Rightarrow> if P (k, v) then Some v else None)"
proof (induction m)
  case (Cons kv m)
  then show ?case
    by (cases kv) (force simp: wf_map_def split: option.splits dest: map_of_SomeD)
qed simp

lemma wf_map_in: "wf_map m \<Longrightarrow> (k, v) \<in> set m \<longleftrightarrow> map_of m k = Some v"
  by (auto simp: wf_map_def dest: map_of_SomeD)

text \<open>Copying a map entry by entry into a new one.\<close>

definition copyMap :: "('k, 'v) gomap \<Rightarrow> ('k, 'v) gomap" where
  "copyMap m = foldl (\<lambda>out (k, v). put k v out) [] m"

lemma put_fresh: "k \<notin> set (keys m) \<Longrightarrow> put k v m = m @ [(k, v)]"
  by (induction m) auto

lemma copyMap_id [simp]: "wf_map m \<Longrightarrow> copyMap m = m"
proof (induction m rule: rev_induct)
  case (snoc kv m)
  obtain k v where kv: "kv = (k, v)" by (cases kv)
  with snoc.prems have "wf_map m" "k \<notin> set (keys m)" by (auto simp: wf_map_def)
  with snoc.IH kv show ?case by (simp add: copyMap_def put_fresh)
qed (simp add: copyMap_def)

lemma wf_copyMap [simp]: "wf_map (copyMap m)"
proof -
  have "wf_map out \<Longrightarrow> wf_map (foldl (\<lambda>out (k, v). put k v out) out m)" for out
    by (induction m arbitrary: out) auto
  then show ?thesis by (simp add: copyMap_def)
qed

lemma keys_copyMap [simp]: "set (keys (copyMap m)) = set (keys m)"
proof -
  have "set (keys (foldl (\<lambda>out (k, v). put k v out) out m)) = set (keys out) \<union> set (keys m)" for out
  proof (induction m arbitrary: out)
    case (Cons kv m)
    have "set (keys (put (fst kv) (snd kv) out)) = insert (fst kv) (set (keys out))"
      by (simp add: dom_update)
    then show ?case using Cons.IH by (simp add: split_beta)
  qed simp
  then show ?thesis by (simp add: copyMap_def)
qed

text \<open>An order in which a range loop may visit the entries of a map.\<close>

definition isIteration :: "(('k, 'v) gomap \<Rightarrow> ('k, 'v) gomap) \<Rightarrow> bool" where
  "isIteration it \<longleftrightarrow> (\<forall>m. mset (it m) = mset m)"

lemma isIteration_set: "isIteration it \<Longrightarrow> set (it m) = set m"
  by (metis isIteration_def set_mset_mset)

lemma isIteration_mset: "isIteration it \<Longrightarrow> mset (it m) = mset m"
  by (simp add: isIteration_def)

lemma isIteration_id [simp]: "isIteration (\<lambda>m. m)" and isIteration_rev [simp]: "isIteration rev"
  by (simp_all add: isIteration_def)

text \<open>Visiting the entries in another order gives the same map.\<close>

lemma map_of_iteration:
  assumes "isIteration it" and "wf_map m"
  shows "map_of (it m) = map_of m" and "wf_map (it m)"
proof -
  have m: "mset (it m) = mset m" using assms(1) by (rule isIteration_mset)
  then have "mset (map fst (it m)) = mset (map fst m)" by (metis mset_map)
  then show "wf_map (it m)" using assms(2) unfolding wf_map_def by (metis mset_eq_imp_distinct_iff)
  then show "map_of (it m) = map_of m"
    using assms(2) m by (intro map_of_inject_set [THEN iffD2]) (auto simp: wf_map_def dest: mset_eq_setD)
qed

section \<open>Loops that return on the first error\<close>

fun foldE :: "('s \<Rightarrow> 'a \<Rightarrow> 'e + 's) \<Rightarrow> 's \<Rightarrow> 'a list \<Rightarrow> 'e + 's" where
  "foldE f s [] = Inr s"
| "foldE f s (x # xs) = (case f s x of Inl e \<Rightarrow> Inl e | Inr s' \<Rightarrow> foldE f s' xs)"

lemma foldE_append:
  "foldE f s (xs @ ys) = (case foldE f s xs of Inl e \<Rightarrow> Inl e | Inr s' \<Rightarrow> foldE f s' ys)"
  by (induction xs arbitrary: s) (auto split: sum.splits)

text \<open>An invariant of the loop body that may speak of the elements handled so far.\<close>

lemma foldE_invariant:
  assumes "foldE f s xs = Inr t" and "I [] s"
    and "\<And>done x s s'. I done s \<Longrightarrow> x \<in> set xs \<Longrightarrow> f s x = Inr s' \<Longrightarrow> I (done @ [x]) s'"
  shows "I xs t"
  using assms
proof (induction xs arbitrary: t rule: rev_induct)
  case Nil
  then show ?case by simp
next
  case (snoc x xs)
  from snoc.prems(1) obtain s1 where s1: "foldE f s xs = Inr s1" and s2: "f s1 x = Inr t"
    by (auto simp: foldE_append split: sum.splits)
  have "I xs s1" using snoc.IH [OF s1 snoc.prems(2)] snoc.prems(3) by auto
  then show ?case using snoc.prems(3) s2 by auto
qed

text \<open>A loop whose errors depend on the element alone fails exactly when some element is bad.\<close>

lemma foldE_succeeds_iff:
  assumes "\<And>s x. (\<exists>s'. f s x = Inr s') \<longleftrightarrow> good x"
  shows "(\<exists>t. foldE f s xs = Inr t) \<longleftrightarrow> (\<forall>x \<in> set xs. good x)"
proof (induction xs arbitrary: s)
  case (Cons x xs)
  show ?case
  proof (cases "f s x")
    case (Inl e)
    then have "\<not> good x" using assms by (metis Inr_not_Inl)
    with Inl show ?thesis by simp
  next
    case (Inr s')
    then have "good x" using assms by blast
    with Inr Cons show ?thesis by simp
  qed
qed simp

text \<open>The loop that only checks: it keeps no state and stops at the first complaint.\<close>

fun firstErr :: "('a \<Rightarrow> 'e option) \<Rightarrow> 'a list \<Rightarrow> 'e option" where
  "firstErr f [] = None"
| "firstErr f (x # xs) = (case f x of Some e \<Rightarrow> Some e | None \<Rightarrow> firstErr f xs)"

lemma firstErr_None [simp]: "firstErr f xs = None \<longleftrightarrow> (\<forall>x \<in> set xs. f x = None)"
  by (induction xs) (auto split: option.splits)

lemma find_in: "find P xs = Some x \<Longrightarrow> x \<in> set xs \<and> P x"
  by (auto simp: find_Some_iff)

lemma firstErr_Some: "firstErr f xs = Some e \<Longrightarrow> \<exists>x \<in> set xs. f x = Some e"
  by (induction xs) (auto split: option.splits)

section \<open>Sorting\<close>

text \<open>
  Go sorts short slices (12 elements in \<open>slices.SortFunc\<close>, 20 in \<open>sort.SliceStable\<close>) by
  moving each element left past the larger ones; longer slices give the same result
  whenever the comparison is a strict weak order and either the sort is the stable one or
  the comparison separates distinct elements. \<open>insertLeft\<close> works on the sorted prefix in
  reverse, so that its first element is the right neighbour of the code's \<open>data[j]\<close>.
\<close>

fun insertLeft :: "('a \<Rightarrow> 'a \<Rightarrow> bool) \<Rightarrow> 'a \<Rightarrow> 'a list \<Rightarrow> 'a list" where
  "insertLeft lt x [] = [x]"
| "insertLeft lt x (y # ys) = (if lt x y then y # insertLeft lt x ys else x # y # ys)"

definition sortBy :: "('a \<Rightarrow> 'a \<Rightarrow> bool) \<Rightarrow> 'a list \<Rightarrow> 'a list" where
  "sortBy lt xs = rev (fold (insertLeft lt) xs [])"

definition sortFunc :: "('a \<Rightarrow> 'a \<Rightarrow> int) \<Rightarrow> 'a list \<Rightarrow> 'a list" where
  "sortFunc cmp xs = sortBy (\<lambda>x y. cmp x y < 0) xs"

lemma mset_insertLeft [simp]: "mset (insertLeft lt x ys) = add_mset x (mset ys)"
  by (induction ys) auto

lemma mset_fold_insertLeft: "mset (fold (insertLeft lt) xs ys) = mset xs + mset ys"
  by (induction xs arbitrary: ys) auto

lemma mset_sortBy [simp]: "mset (sortBy lt xs) = mset xs"
  by (simp add: sortBy_def mset_fold_insertLeft)

lemma set_sortBy [simp]: "set (sortBy lt xs) = set xs"
  by (metis mset_sortBy set_mset_mset)

lemma length_sortBy [simp]: "length (sortBy lt xs) = length xs"
  by (metis mset_sortBy size_mset)

lemma distinct_map_sortBy [simp]: "distinct (map f (sortBy lt xs)) = distinct (map f xs)"
  by (metis mset_map mset_sortBy mset_eq_imp_distinct_iff)

lemma distinct_sortBy [simp]: "distinct (sortBy lt xs) = distinct xs"
  by (metis mset_eq_imp_distinct_iff mset_sortBy)

lemma mset_sortFunc [simp]: "mset (sortFunc cmp xs) = mset xs"
  and set_sortFunc [simp]: "set (sortFunc cmp xs) = set xs"
  and length_sortFunc [simp]: "length (sortFunc cmp xs) = length xs"
  and distinct_map_sortFunc [simp]: "distinct (map f (sortFunc cmp xs)) = distinct (map f xs)"
  by (simp_all add: sortFunc_def)

lemma sortBy_Nil [simp]: "sortBy lt [] = []"
  by (simp add: sortBy_def)

lemma sortBy_singleton [simp]: "sortBy lt [x] = [x]"
  by (simp add: sortBy_def)

lemma insertLeft_cong:
  "(\<And>y. y \<in> set ys \<Longrightarrow> lt x y = lt' x y) \<Longrightarrow> insertLeft lt x ys = insertLeft lt' x ys"
  by (induction ys) auto

lemma sortBy_cong:
  assumes "\<And>x y. x \<in> set xs \<Longrightarrow> y \<in> set xs \<Longrightarrow> lt x y = lt' x y"
  shows "sortBy lt xs = sortBy lt' xs"
proof -
  have "fold (insertLeft lt) zs ys = fold (insertLeft lt') zs ys"
    if "set zs \<subseteq> set xs" "set ys \<subseteq> set xs" for zs ys
    using that
  proof (induction zs arbitrary: ys)
    case (Cons z zs)
    have "insertLeft lt z ys = insertLeft lt' z ys"
      by (rule insertLeft_cong) (use Cons.prems assms in auto)
    moreover have "set (insertLeft lt' z ys) = insert z (set ys)"
      by (metis mset_insertLeft set_mset_add_mset_insert set_mset_mset)
    ultimately show ?case using Cons by simp
  qed simp
  then show ?thesis by (simp add: sortBy_def)
qed

text \<open>Sorting commutes with a map that the comparison does not see.\<close>

lemma sortBy_map:
  assumes "\<And>x y. lt (f x) (f y) = lt' x y"
  shows "sortBy lt (map f xs) = map f (sortBy lt' xs)"
proof -
  have "insertLeft lt (f x) (map f ys) = map f (insertLeft lt' x ys)" for x ys
    by (induction ys) (simp_all add: assms)
  then have "fold (insertLeft lt) (map f xs) (map f ys) = map f (fold (insertLeft lt') xs ys)" for ys
    by (induction xs arbitrary: ys) simp_all
  from this [of "[]"] show ?thesis by (simp add: sortBy_def rev_map)
qed

text \<open>
  The contract between a sort and its comparison: a strict weak order. Its clients are the
  comparison functions of the model, each interpreted below or in its component.
\<close>

locale strict_weak =
  fixes lt :: "'a \<Rightarrow> 'a \<Rightarrow> bool"
  assumes asym: "lt x y \<Longrightarrow> \<not> lt y x"
    and neg_trans: "\<not> lt x y \<Longrightarrow> \<not> lt y z \<Longrightarrow> \<not> lt x z"
begin

abbreviation ordered :: "'a list \<Rightarrow> bool" where
  "ordered xs \<equiv> sorted_wrt (\<lambda>x y. \<not> lt y x) xs"

lemma insertLeft_ordered:
  "sorted_wrt (\<lambda>x y. \<not> lt x y) ys \<Longrightarrow> sorted_wrt (\<lambda>x y. \<not> lt x y) (insertLeft lt x ys)"
proof (induction ys)
  case (Cons y ys)
  have *: "set (insertLeft lt x ys) = insert x (set ys)"
    by (metis mset_insertLeft set_mset_add_mset_insert set_mset_mset)
  show ?case
  proof (cases "lt x y")
    case True
    then have "\<not> lt y x" by (rule asym)
    with True Cons show ?thesis by (simp add: *)
  next
    case False
    with Cons.prems have "\<forall>z \<in> set ys. \<not> lt x z" using neg_trans by auto
    with False Cons.prems show ?thesis by simp
  qed
qed simp

lemma fold_insertLeft_ordered:
  "sorted_wrt (\<lambda>x y. \<not> lt x y) ys \<Longrightarrow>
   sorted_wrt (\<lambda>x y. \<not> lt x y) (fold (insertLeft lt) xs ys)"
  by (induction xs arbitrary: ys) (auto intro: insertLeft_ordered)

lemma sortBy_ordered: "ordered (sortBy lt xs)"
  unfolding sortBy_def sorted_wrt_rev
  by (rule fold_insertLeft_ordered) simp

lemma insertLeft_id: "(\<forall>y \<in> set ys. \<not> lt x y) \<Longrightarrow> insertLeft lt x ys = x # ys"
  by (cases ys) auto

lemma fold_insertLeft_sorted:
  "ordered (rev ys @ xs) \<Longrightarrow> fold (insertLeft lt) xs ys = rev xs @ ys"
proof (induction xs arbitrary: ys)
  case (Cons x xs)
  from Cons.prems have "\<forall>y \<in> set ys. \<not> lt x y"
    by (auto simp: sorted_wrt_append)
  then have "insertLeft lt x ys = x # ys" by (rule insertLeft_id)
  with Cons.IH [of "x # ys"] Cons.prems show ?case by simp
qed simp

text \<open>Sorting a sorted list changes nothing, so a sort is idempotent.\<close>

lemma sortBy_sorted: "ordered xs \<Longrightarrow> sortBy lt xs = xs"
  using fold_insertLeft_sorted [of "[]" xs] by (simp add: sortBy_def)

lemma sortBy_idem [simp]: "sortBy lt (sortBy lt xs) = sortBy lt xs"
  by (rule sortBy_sorted) (rule sortBy_ordered)

text \<open>
  Where the comparison separates the elements of the list, the sorted arrangement is
  unique: any sort, and any order of the input, gives this result.
\<close>

lemma ordered_unique:
  assumes "mset xs = mset ys" and "ordered xs" and "ordered ys"
    and "\<And>x y. x \<in> set xs \<Longrightarrow> y \<in> set xs \<Longrightarrow> \<not> lt x y \<Longrightarrow> \<not> lt y x \<Longrightarrow> x = y"
  shows "xs = ys"
  using assms
proof (induction xs arbitrary: ys)
  case Nil
  then show ?case by simp
next
  case (Cons x xs)
  then obtain y ys' where ys: "ys = y # ys'"
    by (cases ys) auto
  have sets: "set (x # xs) = set ys"
    using Cons.prems(1) by (metis set_mset_mset)
  have "x = y"
  proof (cases "y \<in> set xs")
    case True
    then have yx: "\<not> lt y x" using Cons.prems(2) by simp
    show ?thesis
    proof (cases "x \<in> set ys'")
      case True
      then have "\<not> lt x y" using Cons.prems(3) ys by simp
      with yx Cons.prems(4) \<open>y \<in> set xs\<close> show ?thesis by simp
    next
      case False
      with sets ys show ?thesis by auto
    qed
  next
    case False
    with sets ys show ?thesis by auto
  qed
  moreover have "xs = ys'"
  proof (rule Cons.IH)
    show "mset xs = mset ys'" using Cons.prems(1) ys \<open>x = y\<close> by simp
    show "ordered xs" using Cons.prems(2) by simp
    show "ordered ys'" using Cons.prems(3) ys by simp
  qed (use Cons.prems(4) in auto)
  ultimately show ?case using ys by simp
qed

lemma sortBy_cong_mset:
  assumes "mset xs = mset ys"
    and "\<And>x y. x \<in> set xs \<Longrightarrow> y \<in> set xs \<Longrightarrow> \<not> lt x y \<Longrightarrow> \<not> lt y x \<Longrightarrow> x = y"
  shows "sortBy lt xs = sortBy lt ys"
  by (rule ordered_unique) (use assms sortBy_ordered in auto)

end

text \<open>A comparison through a key in a linear order is a strict weak order.\<close>

locale by_key =
  fixes lt :: "'a \<Rightarrow> 'a \<Rightarrow> bool" and key :: "'a \<Rightarrow> 'k :: linorder"
  assumes lt_key: "lt x y \<longleftrightarrow> key x < key y"
begin

sublocale strict_weak lt
  by unfold_locales (auto simp: lt_key)

lemma ordered_iff: "sorted_wrt (\<lambda>x y. \<not> lt y x) xs \<longleftrightarrow> sorted (map key xs)"
  by (simp add: lt_key sorted_map not_less)

lemma sorted_keys: "sorted (map key (sortBy lt xs))"
  using sortBy_ordered ordered_iff by blast

lemma sortBy_perm:
  assumes "mset xs = mset ys" and "inj_on key (set xs)"
  shows "sortBy lt xs = sortBy lt ys"
  by (rule sortBy_cong_mset) (use assms in \<open>auto simp: lt_key inj_on_def\<close>)

lemma sortBy_filter:
  assumes "inj_on key (set xs)"
  shows "filter P (sortBy lt xs) = sortBy lt (filter P xs)"
proof -
  have "filter P (sortBy lt xs) = sortBy lt (filter P (sortBy lt xs))"
    by (rule sortBy_sorted [symmetric]) (rule sorted_wrt_filter [OF sortBy_ordered])
  also have "\<dots> = sortBy lt (filter P xs)"
    by (rule sortBy_perm) (use assms in \<open>auto simp: inj_on_def\<close>)
  finally show ?thesis .
qed

end

interpretation string_order: by_key "\<lambda>x y :: string. x < y" "\<lambda>x. x"
  by unfold_locales simp

definition sortStrings :: "string list \<Rightarrow> string list" where
  "sortStrings xs = sortBy (\<lambda>x y. x < y) xs"

lemma set_sortStrings [simp]: "set (sortStrings xs) = set xs"
  and mset_sortStrings [simp]: "mset (sortStrings xs) = mset xs"
  and distinct_sortStrings [simp]: "distinct (sortStrings xs) = distinct xs"
  by (simp_all add: sortStrings_def)

lemma sorted_sortStrings [simp]: "sorted (sortStrings xs)"
  using string_order.sorted_keys [of xs] by (simp add: sortStrings_def)

lemma sortStrings_perm: "mset xs = mset ys \<Longrightarrow> sortStrings xs = sortStrings ys"
  unfolding sortStrings_def by (rule string_order.sortBy_perm) auto

text \<open>\<open>cmp.Compare\<close> and \<open>strings.Compare\<close>.\<close>

definition compare :: "'a :: linorder \<Rightarrow> 'a \<Rightarrow> int" where
  "compare x y = (if x < y then -1 else if x > y then 1 else 0)"

lemma compare_less [simp]: "compare x y < 0 \<longleftrightarrow> x < y"
  and compare_zero [simp]: "compare x y = 0 \<longleftrightarrow> x = y"
  by (auto simp: compare_def)

end
