(* ===== verification/GoStrings.thy ===== *)
theory GoStrings
  imports GoLib
begin

text \<open>
  The part of Go's \<open>strings\<close> package the sources use, on byte strings: \<open>TrimSpace\<close> over the
  UTF-8 encodings of Unicode's white space, prefixes and suffixes, \<open>LastIndex\<close>, lower-casing,
  and the decimal rendering and parsing of integers (\<open>fmt.Sprintf("%d")\<close>, \<open>strconv.Atoi\<close>).
\<close>

section \<open>TrimSpace\<close>

text \<open>
  The UTF-8 encodings of the code points for which \<open>unicode.IsSpace\<close> holds: U+0009..U+000D,
  U+0020, U+0085, U+00A0, U+1680, U+2000..U+200A, U+2028, U+2029, U+202F, U+205F, U+3000.
\<close>

definition spaceEncodings :: "string list" where
  "spaceEncodings =
     [[CHR 0x09], [CHR 0x0A], [CHR 0x0B], [CHR 0x0C], [CHR 0x0D], [CHR 0x20],
      [CHR 0xC2, CHR 0x85], [CHR 0xC2, CHR 0xA0], [CHR 0xE1, CHR 0x9A, CHR 0x80],
      [CHR 0xE2, CHR 0x80, CHR 0x80], [CHR 0xE2, CHR 0x80, CHR 0x81],
      [CHR 0xE2, CHR 0x80, CHR 0x82], [CHR 0xE2, CHR 0x80, CHR 0x83],
      [CHR 0xE2, CHR 0x80, CHR 0x84], [CHR 0xE2, CHR 0x80, CHR 0x85],
      [CHR 0xE2, CHR 0x80, CHR 0x86], [CHR 0xE2, CHR 0x80, CHR 0x87],
      [CHR 0xE2, CHR 0x80, CHR 0x88], [CHR 0xE2, CHR 0x80, CHR 0x89],
      [CHR 0xE2, CHR 0x80, CHR 0x8A], [CHR 0xE2, CHR 0x80, CHR 0xA8],
      [CHR 0xE2, CHR 0x80, CHR 0xA9], [CHR 0xE2, CHR 0x80, CHR 0xAF],
      [CHR 0xE2, CHR 0x81, CHR 0x9F], [CHR 0xE3, CHR 0x80, CHR 0x80]]"

fun dropEncoded :: "string list \<Rightarrow> string \<Rightarrow> string option" where
  "dropEncoded [] s = None"
| "dropEncoded (e # es) s =
     (if e \<noteq> [] \<and> prefix e s then Some (drop (length e) s) else dropEncoded es s)"

lemma dropEncoded_shorter: "dropEncoded es s = Some t \<Longrightarrow> length t < length s"
  by (induction es) (auto simp: prefix_def split: if_splits)

lemma dropEncoded_suffix: "dropEncoded es s = Some t \<Longrightarrow> suffix t s"
  by (induction es) (auto simp: suffix_drop split: if_splits)

lemma dropEncoded_None_iff: "dropEncoded es s = None \<longleftrightarrow> (\<forall>e \<in> set es. e \<noteq> [] \<longrightarrow> \<not> prefix e s)"
  by (induction es) auto

lemma dropEncoded_None_prefix: "dropEncoded es s = None \<Longrightarrow> prefix t s \<Longrightarrow> dropEncoded es t = None"
  by (auto simp: dropEncoded_None_iff dest: prefix_order.trans)

function trimWith :: "string list \<Rightarrow> string \<Rightarrow> string" where
  "trimWith es s = (case dropEncoded es s of None \<Rightarrow> s | Some t \<Rightarrow> trimWith es t)"
  by pat_completeness auto
termination
  by (relation "measure (\<lambda>(es, s). length s)") (auto dest: dropEncoded_shorter)

declare trimWith.simps [simp del]

definition TrimSpace :: "string \<Rightarrow> string" where
  "TrimSpace s = rev (trimWith (map rev spaceEncodings) (rev (trimWith spaceEncodings s)))"

lemma trimWith_dropped: "dropEncoded es (trimWith es s) = None"
proof (induction es s rule: trimWith.induct)
  case (1 es s)
  then show ?case
    by (cases "dropEncoded es s") (simp_all add: trimWith.simps [of es s])
qed

lemma trimWith_id: "dropEncoded es s = None \<Longrightarrow> trimWith es s = s"
  by (simp add: trimWith.simps)

lemma trimWith_suffix: "suffix (trimWith es s) s"
proof (induction es s rule: trimWith.induct)
  case (1 es s)
  show ?case
  proof (cases "dropEncoded es s")
    case None
    then show ?thesis by (simp add: trimWith.simps)
  next
    case (Some t)
    with 1 have "suffix (trimWith es t) t" by simp
    with Some show ?thesis
      using dropEncoded_suffix [OF Some] by (simp add: trimWith.simps [of es s])
  qed
qed

text \<open>A trimmed string has no white space at either end, so trimming it again keeps it.\<close>

lemma TrimSpace_left: "dropEncoded spaceEncodings (TrimSpace s) = None"
proof -
  have "prefix (TrimSpace s) (trimWith spaceEncodings s)"
    unfolding TrimSpace_def using trimWith_suffix [of "map rev spaceEncodings" "rev (trimWith spaceEncodings s)"]
    by (simp add: suffix_to_prefix)
  then show ?thesis by (rule dropEncoded_None_prefix [OF trimWith_dropped])
qed

lemma TrimSpace_idem [simp]: "TrimSpace (TrimSpace s) = TrimSpace s"
proof -
  have "trimWith spaceEncodings (TrimSpace s) = TrimSpace s"
    by (rule trimWith_id) (rule TrimSpace_left)
  moreover have "trimWith (map rev spaceEncodings) (rev (TrimSpace s)) = rev (TrimSpace s)"
    by (rule trimWith_id) (simp add: TrimSpace_def trimWith_dropped)
  ultimately show ?thesis by (simp add: TrimSpace_def [of "TrimSpace s"])
qed

lemma TrimSpace_Nil [simp]: "TrimSpace [] = []"
  by (simp add: TrimSpace_def trimWith.simps spaceEncodings_def)

definition blank :: "string \<Rightarrow> bool" where
  "blank s \<longleftrightarrow> TrimSpace s = []"

lemma blank_Nil [simp]: "blank []"
  by (simp add: blank_def)

lemma blank_TrimSpace [simp]: "blank (TrimSpace s) = blank s"
  by (simp add: blank_def)

lemma length_TrimSpace: "length (TrimSpace s) \<le> length s"
proof -
  have "length (trimWith es t) \<le> length t" for es t
    by (rule suffix_length_le) (rule trimWith_suffix)
  then show ?thesis unfolding TrimSpace_def by (metis length_rev order_trans)
qed

text \<open>Trimming keeps every character that is no part of an encoding of white space.\<close>

lemma trimWith_keeps:
  assumes "x \<in> set s" and "\<forall>e \<in> set es. x \<notin> set e"
  shows "x \<in> set (trimWith es s)"
  using assms
proof (induction es s rule: trimWith.induct)
  case (1 es s)
  have split: "dropEncoded es s = Some t \<Longrightarrow> \<exists>e \<in> set es. s = e @ t" for es s t
    by (induction es) (auto simp: prefix_def split: if_splits)
  show ?case
  proof (cases "dropEncoded es s")
    case None
    with 1 show ?thesis by (simp add: trimWith_id)
  next
    case (Some t)
    with split 1(2,3) have "x \<in> set t" by fastforce
    with 1 Some show ?thesis by (simp add: trimWith.simps [of es s])
  qed
qed

lemma nonspace_not_blank:
  assumes "x \<in> set s" and "\<forall>e \<in> set spaceEncodings. x \<notin> set e"
  shows "\<not> blank s"
proof -
  have "x \<in> set (trimWith (map rev spaceEncodings) (rev (trimWith spaceEncodings s)))"
    using assms by (intro trimWith_keeps) (simp_all add: trimWith_keeps)
  then show ?thesis by (auto simp: blank_def TrimSpace_def)
qed

section \<open>Prefixes, suffixes, indices\<close>

definition HasPrefix :: "string \<Rightarrow> string \<Rightarrow> bool" where
  "HasPrefix s p \<longleftrightarrow> prefix p s"

definition TrimPrefix :: "string \<Rightarrow> string \<Rightarrow> string" where
  "TrimPrefix s p = (if prefix p s then drop (length p) s else s)"

definition HasSuffix :: "string \<Rightarrow> string \<Rightarrow> bool" where
  "HasSuffix s p \<longleftrightarrow> suffix p s"

definition TrimSuffix :: "string \<Rightarrow> string \<Rightarrow> string" where
  "TrimSuffix s p = (if suffix p s then take (length s - length p) s else s)"

text \<open>What follows the last occurrence of a byte, the whole string when there is none.\<close>

definition afterLast :: "char \<Rightarrow> string \<Rightarrow> string" where
  "afterLast c s = rev (takeWhile (\<lambda>d. d \<noteq> c) (rev s))"

definition ContainsAny :: "string \<Rightarrow> string \<Rightarrow> bool" where
  "ContainsAny s cs \<longleftrightarrow> list_ex (\<lambda>c. c \<in> set cs) s"

lemma afterLast_notin [simp]: "c \<notin> set (afterLast c s)"
  by (auto simp: afterLast_def dest: set_takeWhileD)

lemma TrimPrefix_append [simp]: "TrimPrefix (p @ s) p = s"
  by (simp add: TrimPrefix_def)

text \<open>A separator that does not occur in the first part makes a joined text unambiguous.\<close>

lemma separator_inj:
  assumes "c \<notin> set a" and "c \<notin> set b" and "a @ [c] @ x = b @ [c] @ y"
  shows "a = b \<and> x = y"
proof -
  have "takeWhile (\<lambda>d. d \<noteq> c) (u @ [c] @ v) = u" if "c \<notin> set u" for u v
    using that by (subst takeWhile_append2) auto
  with assms have "a = b" by metis
  with assms(3) show ?thesis by simp
qed

section \<open>Lower case\<close>

text \<open>
  \<open>strings.ToLower\<close> maps ASCII strings byte by byte. For a string with a byte beyond ASCII it
  consults Unicode's case tables: these are the parameter \<open>uni\<close>.
\<close>

definition asciiLower :: "char \<Rightarrow> char" where
  "asciiLower c = (let n = of_char c :: nat in if 65 \<le> n \<and> n \<le> 90 then char_of (n + 32) else c)"

definition ToLower :: "(string \<Rightarrow> string) \<Rightarrow> string \<Rightarrow> string" where
  "ToLower uni s = (if list_all (\<lambda>c. (of_char c :: nat) < 128) s then map asciiLower s else uni s)"

lemma asciiLower_idem [simp]: "asciiLower (asciiLower c) = asciiLower c"
  by (auto simp: asciiLower_def Let_def)

section \<open>Decimal integers\<close>

fun digitsOf :: "nat \<Rightarrow> string" where
  "digitsOf n = (if n < 10 then [char_of (n + 48)] else digitsOf (n div 10) @ [char_of (n mod 10 + 48)])"

declare digitsOf.simps [simp del]

definition Itoa :: "int \<Rightarrow> string" where
  "Itoa i = (if i < 0 then CHR ''-'' # digitsOf (nat (- i)) else digitsOf (nat i))"

definition isDigit :: "char \<Rightarrow> bool" where
  "isDigit c \<longleftrightarrow> (let n = of_char c :: nat in 48 \<le> n \<and> n \<le> 57)"

definition digitVal :: "char \<Rightarrow> nat" where
  "digitVal c = of_char c - 48"

definition decVal :: "string \<Rightarrow> nat" where
  "decVal s = foldl (\<lambda>n c. 10 * n + digitVal c) 0 s"

text \<open>
  \<open>strconv.Atoi\<close> on 64 bits: an optional sign, at least one digit, digits only, and a value
  in range. (Both kinds of failure are errors of the caller, which never tells them apart.)
\<close>

definition Atoi :: "string \<Rightarrow> int option" where
  "Atoi s =
     (let neg = HasPrefix s ''-'';
          ds = (if neg \<or> HasPrefix s ''+'' then drop 1 s else s);
          v = (if neg then - int (decVal ds) else int (decVal ds))
      in if ds = [] \<or> \<not> list_all isDigit ds \<or> \<not> in64 v then None else Some v)"

lemma isDigit_char_of [simp]: "d < 10 \<Longrightarrow> isDigit (char_of (d + 48 :: nat))"
  by (simp add: isDigit_def)

lemma digitVal_char_of [simp]: "d < 10 \<Longrightarrow> digitVal (char_of (d + 48 :: nat)) = d"
  by (simp add: digitVal_def)

lemma digitsOf_digits: "list_all isDigit (digitsOf n)"
proof (induction n rule: digitsOf.induct)
  case (1 n)
  then show ?case by (subst digitsOf.simps) simp
qed

lemma digitsOf_not_Nil [simp]: "digitsOf n \<noteq> []"
  by (subst digitsOf.simps) simp

lemma decVal_digitsOf [simp]: "decVal (digitsOf n) = n"
proof (induction n rule: digitsOf.induct)
  case (1 n)
  then show ?case
    by (subst digitsOf.simps) (auto simp: decVal_def)
qed

lemma digitsOf_inj: "digitsOf m = digitsOf n \<Longrightarrow> m = n"
  by (metis decVal_digitsOf)

lemma digit_not_sign: "isDigit c \<Longrightarrow> c \<noteq> CHR ''-'' \<and> c \<noteq> CHR ''+''"
  by (auto simp: isDigit_def)

lemma digitsOf_no_sign: "\<not> HasPrefix (digitsOf n) ''-'' \<and> \<not> HasPrefix (digitsOf n) ''+''"
proof -
  obtain c cs where "digitsOf n = c # cs" by (cases "digitsOf n") auto
  moreover have "isDigit c" using digitsOf_digits [of n] \<open>digitsOf n = c # cs\<close> by simp
  ultimately show ?thesis using digit_not_sign [of c] by (auto simp: HasPrefix_def)
qed

text \<open>Rendering and parsing are inverse on 64-bit integers.\<close>

lemma Atoi_Itoa: "in64 i \<Longrightarrow> Atoi (Itoa i) = Some i"
  using digitsOf_no_sign [of "nat i"] digitsOf_digits [of "nat i"] digitsOf_digits [of "nat (- i)"]
  by (auto simp: Atoi_def Itoa_def Let_def HasPrefix_def)

lemma Itoa_inj: "Itoa i = Itoa j \<Longrightarrow> i = j"
proof -
  have head: "digitsOf n \<noteq> CHR ''-'' # cs" for n cs
    using digitsOf_no_sign [of n] by (auto simp: HasPrefix_def)
  assume "Itoa i = Itoa j"
  then show "i = j"
    using head [of "nat i"] head [of "nat j"]
    by (auto simp: Itoa_def dest!: digitsOf_inj split: if_splits) (metis head)+
qed

end
