(* ===== verification/Hierarchy.thy ===== *)
theory Hierarchy
  imports GoStrings
begin

text \<open>
  \<open>internal/domain/ids.go\<close> and \<open>internal/domain/hierarchy.go\<close>: the context hierarchy.
  \<open>NewTree\<close> builds a tree from a list of nodes or rejects it; \<open>Tree_Path\<close> and
  \<open>Tree_Children\<close> read it. Ranging over the map of nodes has no fixed order: the two loops
  that do so take their orders as the arguments \<open>it1\<close> and \<open>it2\<close>.
\<close>

section \<open>Data\<close>

definition validID :: "string \<Rightarrow> bool" where
  "validID nid \<longleftrightarrow> TrimSpace nid \<noteq> ''''"

definition NodeCategory :: string where "NodeCategory = ''category''"
definition NodeProject :: string where "NodeProject = ''project''"
definition NodeTask :: string where "NodeTask = ''task''"
definition NodeAction :: string where "NodeAction = ''action''"
definition NodeWidget :: string where "NodeWidget = ''widget''"
definition NodeQuery :: string where "NodeQuery = ''query''"

record Node =
  nID :: string
  nParent :: string
  nKind :: string
  nTitle :: string
  nOrder :: int
  nWorkspace :: string

definition zeroNode :: Node where
  "zeroNode = \<lparr>nID = '''', nParent = '''', nKind = '''', nTitle = '''', nOrder = 0, nWorkspace = ''''\<rparr>"

record Tree =
  tRoot :: string
  tNodes :: "(string, Node) gomap"
  tChildren :: "(string, string list) gomap"

datatype hierarchyError =
  NoNodes | IDRequired | EmptyTitle string | DuplicateID string | RootCount int
| MissingParent string string | CycleAt string | NotReachingRoot string string | UnknownNode string

text \<open>Reading a missing key of a Go map gives the zero value.\<close>

definition nodeAt :: "(string, Node) gomap \<Rightarrow> string \<Rightarrow> Node" where
  "nodeAt ns nid = (case map_of ns nid of Some n \<Rightarrow> n | None \<Rightarrow> zeroNode)"

definition childIDs :: "(string, string list) gomap \<Rightarrow> string \<Rightarrow> string list" where
  "childIDs ch p = (case map_of ch p of Some ids \<Rightarrow> ids | None \<Rightarrow> [])"

section \<open>NewTree\<close>

definition withKind :: "Node \<Rightarrow> Node" where
  "withKind node = (if nKind node = '''' then node\<lparr>nKind := NodeCategory\<rparr> else node)"

definition addNode ::
  "(string, Node) gomap \<times> string \<times> int \<Rightarrow> Node \<Rightarrow>
   hierarchyError + (string, Node) gomap \<times> string \<times> int" where
  "addNode st node =
     (case st of (ns, root, roots) \<Rightarrow>
       if \<not> validID (nID node) then Inl IDRequired
       else if TrimSpace (nTitle node) = '''' then Inl (EmptyTitle (nID node))
       else if map_of ns (nID node) \<noteq> None then Inl (DuplicateID (nID node))
       else let node = withKind node; ns' = put (nID node) node ns
            in if nParent node = '''' then Inr (ns', nID node, roots + 1) else Inr (ns', root, roots))"

definition linkChild ::
  "(string, Node) gomap \<Rightarrow> (string, string list) gomap \<Rightarrow> string \<times> Node \<Rightarrow>
   hierarchyError + (string, string list) gomap" where
  "linkChild ns ch entry =
     (let node = snd entry
      in if nParent node = '''' then Inr ch
         else if map_of ns (nParent node) = None then Inl (MissingParent (nID node) (nParent node))
         else Inr (put (nParent node) (childIDs ch (nParent node) @ [nID node]) ch))"

function validateLoop ::
  "(string, Node) gomap \<Rightarrow> string \<Rightarrow> string \<Rightarrow> string list \<Rightarrow> string \<Rightarrow> hierarchyError option" where
  "validateLoop ns root start seen current =
     (if current \<in> set seen then Some (CycleAt current)
      else if nParent (nodeAt ns current) = ''''
      then (if current \<noteq> root then Some (NotReachingRoot start root) else None)
      else validateLoop ns root start (current # seen) (nParent (nodeAt ns current)))"
  by pat_completeness auto
termination
proof (relation "measure (\<lambda>(ns, root, start, seen, current). card (set (keys ns) - set seen))",
    goal_cases)
  case (2 ns root start seen current)
  then have "current \<in> set (keys ns) - set seen"
    by (cases "map_of ns current") (auto simp: nodeAt_def zeroNode_def dest: map_of_keys)
  then have "set (keys ns) - set (current # seen) \<subset> set (keys ns) - set seen" by auto
  then show ?case by (simp add: psubset_card_mono)
qed simp

declare validateLoop.simps [simp del]

definition validatePathToRoot :: "(string, Node) gomap \<Rightarrow> string \<Rightarrow> string \<Rightarrow> hierarchyError option" where
  "validatePathToRoot ns root start = validateLoop ns root start [] start"

definition childLess :: "(string, Node) gomap \<Rightarrow> string \<Rightarrow> string \<Rightarrow> bool" where
  "childLess ns i j =
     (let left = nodeAt ns i; right = nodeAt ns j
      in if nOrder left \<noteq> nOrder right then nOrder left < nOrder right
         else if nTitle left \<noteq> nTitle right then nTitle left < nTitle right
         else nID left < nID right)"

type_synonym nodeOrder = "(string, Node) gomap \<Rightarrow> (string, Node) gomap"

definition NewTree :: "nodeOrder \<Rightarrow> nodeOrder \<Rightarrow> Node list \<Rightarrow> hierarchyError + Tree" where
  "NewTree it1 it2 input =
     (if input = [] then Inl NoNodes
      else case foldE addNode ([], '''', 0) input of
        Inl e \<Rightarrow> Inl e
      | Inr (ns, root, roots) \<Rightarrow>
          if roots \<noteq> 1 then Inl (RootCount roots)
          else case foldE (linkChild ns) [] (it1 ns) of
            Inl e \<Rightarrow> Inl e
          | Inr ch \<Rightarrow>
              (case firstErr (\<lambda>entry. validatePathToRoot ns root (fst entry)) (it2 ns) of
                 Some e \<Rightarrow> Inl e
               | None \<Rightarrow> Inr \<lparr>tRoot = root, tNodes = ns,
                   tChildren = map (\<lambda>(p, ids). (p, sortBy (childLess ns) ids)) ch\<rparr>))"

definition Tree_Root :: "Tree \<Rightarrow> Node" where
  "Tree_Root t = nodeAt (tNodes t) (tRoot t)"

definition Tree_Node :: "Tree \<Rightarrow> string \<Rightarrow> Node option" where
  "Tree_Node t nid = map_of (tNodes t) nid"

definition Tree_Children :: "Tree \<Rightarrow> string \<Rightarrow> Node list" where
  "Tree_Children t parent = map (nodeAt (tNodes t)) (childIDs (tChildren t) parent)"

text \<open>The loop of \<open>Path\<close> has no bound of its own: \<open>None\<close> is a loop that never ends.\<close>

partial_function (option) pathLoop :: "(string, Node) gomap \<Rightarrow> string \<Rightarrow> Node list \<Rightarrow> Node list option" where
  "pathLoop ns current reverse =
     (if current = '''' then Some reverse
      else pathLoop ns (nParent (nodeAt ns current)) (reverse @ [nodeAt ns current]))"

definition Tree_Path :: "Tree \<Rightarrow> string \<Rightarrow> (hierarchyError + Node list) option" where
  "Tree_Path t nid =
     (if map_of (tNodes t) nid = None then Some (Inl (UnknownNode nid))
      else map_option (\<lambda>reverse. Inr (rev reverse)) (pathLoop (tNodes t) nid []))"

section \<open>Chains of parents\<close>

text \<open>\<open>ancestry ns root nid ps\<close>: \<open>ps\<close> is the list of nodes from the root down to \<open>nid\<close>.\<close>

inductive ancestry :: "(string, Node) gomap \<Rightarrow> string \<Rightarrow> string \<Rightarrow> Node list \<Rightarrow> bool" for ns root where
  anc_root: "map_of ns root = Some n \<Longrightarrow> nParent n = '''' \<Longrightarrow> ancestry ns root root [n]"
| anc_step: "map_of ns nid = Some n \<Longrightarrow> nParent n \<noteq> '''' \<Longrightarrow> ancestry ns root (nParent n) ps \<Longrightarrow>
    ancestry ns root nid (ps @ [n])"

inductive_cases ancestryE: "ancestry ns root nid ps"

lemma ancestry_det: "ancestry ns root nid ps \<Longrightarrow> ancestry ns root nid qs \<Longrightarrow> ps = qs"
proof (induction arbitrary: qs rule: ancestry.induct)
  case (anc_root n)
  then show ?case by (auto elim: ancestryE)
next
  case (anc_step nid n ps)
  from anc_step.prems show ?case
  proof (cases rule: ancestry.cases)
    case (anc_root m)
    with anc_step.hyps show ?thesis by simp
  next
    case (anc_step m rs)
    with anc_step.hyps \<open>map_of ns nid = Some n\<close> have "m = n" by simp
    with anc_step anc_step.IH show ?thesis by simp
  qed
qed

lemma ancestry_last: "ancestry ns root nid ps \<Longrightarrow> ps \<noteq> [] \<and> map_of ns nid = Some (last ps)"
  by (induction rule: ancestry.induct) auto

lemma ancestry_hd: "ancestry ns root nid ps \<Longrightarrow> map_of ns root = Some (hd ps) \<and> nParent (hd ps) = ''''"
proof (induction rule: ancestry.induct)
  case (anc_step nid n ps)
  then show ?case using ancestry_last by (metis hd_append2)
qed simp

lemma ancestry_links:
  "ancestry ns root nid ps \<Longrightarrow> (\<And>i n. map_of ns i = Some n \<Longrightarrow> nID n = i) \<Longrightarrow>
   successively (\<lambda>p c. nParent c = nID p) ps"
proof (induction rule: ancestry.induct)
  case (anc_step nid n ps)
  then have "nID (last ps) = nParent n" using ancestry_last by metis
  with anc_step show ?case by (simp add: successively_append_iff)
qed simp

text \<open>Every node on the chain has the initial part of the chain that ends in it as its own.\<close>

lemma ancestry_prefix:
  assumes "ancestry ns root nid ps" and keyed: "\<And>i n. map_of ns i = Some n \<Longrightarrow> nID n = i"
    and "i < length ps"
  shows "ancestry ns root (nID (ps ! i)) (take (Suc i) ps)"
  using assms(1,3)
proof (induction rule: ancestry.induct)
  case (anc_root n)
  then have "nID n = root" using keyed by blast
  with anc_root ancestry.anc_root show ?case by simp
next
  case (anc_step nid n ps)
  show ?case
  proof (cases "i < length ps")
    case True
    then have "(ps @ [n]) ! i = ps ! i" and "take (Suc i) (ps @ [n]) = take (Suc i) ps"
      by (simp_all add: nth_append)
    with anc_step.IH [OF True] show ?thesis by simp
  next
    case False
    with anc_step.prems have "i = length ps" by simp
    moreover have "nID n = nid" using keyed anc_step.hyps(1) by blast
    moreover have "ancestry ns root nid (ps @ [n])"
      using anc_step.hyps by (rule ancestry.anc_step)
    ultimately show ?thesis by simp
  qed
qed

lemma ancestry_distinct:
  assumes "ancestry ns root nid ps" and "\<And>i n. map_of ns i = Some n \<Longrightarrow> nID n = i"
  shows "distinct (map nID ps)"
proof -
  have False if ij: "i < j" "j < length ps" and eq: "nID (ps ! i) = nID (ps ! j)" for i j
  proof -
    have "ancestry ns root (nID (ps ! i)) (take (Suc i) ps)"
      and "ancestry ns root (nID (ps ! j)) (take (Suc j) ps)"
      using ancestry_prefix [OF assms] ij by simp_all
    with eq have "take (Suc i) ps = take (Suc j) ps" by (metis ancestry_det)
    then have "length (take (Suc i) ps) = length (take (Suc j) ps)" by simp
    with ij show False by simp
  qed
  then show ?thesis by (fastforce simp: distinct_conv_nth nat_neq_iff)
qed

section \<open>The loops of NewTree\<close>

abbreviation entries :: "Node list \<Rightarrow> (string, Node) gomap" where
  "entries input \<equiv> map (\<lambda>n. (nID n, withKind n)) input"

abbreviation parentless :: "Node \<Rightarrow> bool" where
  "parentless n \<equiv> nParent n = ''''"

lemma keys_entries [simp]: "keys (entries input) = map nID input"
  by (simp add: comp_def)

definition goodNode :: "Node \<Rightarrow> bool" where
  "goodNode n \<longleftrightarrow> validID (nID n) \<and> TrimSpace (nTitle n) \<noteq> ''''"

lemma withKind_simps [simp]:
  "nID (withKind n) = nID n" "nParent (withKind n) = nParent n" "nTitle (withKind n) = nTitle n"
  "nOrder (withKind n) = nOrder n" "nWorkspace (withKind n) = nWorkspace n"
  "nKind (withKind n) \<noteq> ''''"
  by (simp_all add: withKind_def NodeCategory_def)

lemma validID_not_Nil: "validID nid \<Longrightarrow> nid \<noteq> ''''"
  by (auto simp: validID_def)

lemma update_new: "k \<notin> set (keys m) \<Longrightarrow> put k v m = m @ [(k, v)]"
  by (induction m) auto

lemma entries_None: "map_of (entries xs) i = None \<longleftrightarrow> i \<notin> nID ` set xs"
  by (induction xs) auto

definition nodesAdded :: "Node list \<Rightarrow> (string, Node) gomap \<times> string \<times> int \<Rightarrow> bool" where
  "nodesAdded seen st \<longleftrightarrow>
     fst st = entries seen \<and> distinct (map nID seen) \<and> (\<forall>n \<in> set seen. goodNode n) \<and>
     snd (snd st) = int (length (filter parentless seen)) \<and>
     (filter parentless seen \<noteq> [] \<longrightarrow> fst (snd st) = nID (last (filter parentless seen)))"

lemma addNode_step:
  assumes "nodesAdded seen s" and "addNode s x = Inr s'"
  shows "nodesAdded (seen @ [x]) s'"
proof -
  obtain ns root roots where s: "s = (ns, root, roots)" by (cases s) auto
  from assms(2) s have "nID x \<notin> set (keys ns)" and "goodNode x"
    and "s' = (put (nID x) (withKind x) ns, if parentless x then nID x else root,
               if parentless x then roots + 1 else roots)"
    by (auto simp: addNode_def goodNode_def Let_def map_of_eq_None_iff split: if_splits)
  with assms(1) show ?thesis
    by (auto simp: s nodesAdded_def update_new image_image)
qed

lemma addNode_loop: "foldE addNode ([], '''', 0) input = Inr st \<Longrightarrow> nodesAdded input st"
  by (erule foldE_invariant [where I = nodesAdded]) (simp add: nodesAdded_def, rule addNode_step)

lemma addNode_loop_ok:
  "distinct (map nID (seen @ xs)) \<Longrightarrow> \<forall>n \<in> set xs. goodNode n \<Longrightarrow>
   \<exists>st. foldE addNode (entries seen, root, roots) xs = Inr st"
proof (induction xs arbitrary: seen root roots)
  case (Cons x xs)
  have new: "nID x \<notin> nID ` set seen" using Cons.prems(1) by auto
  then have "nID x \<notin> set (keys (entries seen))" unfolding keys_entries by simp
  then have "put (nID x) (withKind x) (entries seen) = entries (seen @ [x])"
    by (subst update_new) simp_all
  moreover have "map_of (entries seen) (nID x) = None" using new by (simp only: entries_None) simp
  ultimately have "addNode (entries seen, root, roots) x =
      Inr (entries (seen @ [x]), if parentless x then nID x else root,
           if parentless x then roots + 1 else roots)"
    using Cons.prems(2) by (simp add: addNode_def goodNode_def Let_def)
  with Cons.IH [of "seen @ [x]"] Cons.prems show ?case by simp
qed simp

lemma linkChild_loop:
  "foldE (linkChild ns) [] es = Inr ch \<Longrightarrow>
   childIDs ch p = (if p = '''' then [] else map (nID \<circ> snd) (filter (\<lambda>e. nParent (snd e) = p) es))"
  by (erule foldE_invariant)
    (auto simp: linkChild_def Let_def childIDs_def split: if_splits option.splits)

lemma linkChild_loop_ok:
  "(\<exists>ch. foldE (linkChild ns) ch0 es = Inr ch) \<longleftrightarrow>
   (\<forall>e \<in> set es. parentless (snd e) \<or> map_of ns (nParent (snd e)) \<noteq> None)"
  by (rule foldE_succeeds_iff) (auto simp: linkChild_def Let_def)

section \<open>Path validation decides reachability of the root\<close>

definition keyed :: "(string, Node) gomap \<Rightarrow> bool" where
  "keyed ns \<longleftrightarrow> wf_map ns \<and> (\<forall>i n. map_of ns i = Some n \<longrightarrow> nID n = i \<and> i \<noteq> '''')"

definition closed :: "(string, Node) gomap \<Rightarrow> bool" where
  "closed ns \<longleftrightarrow> (\<forall>i n. map_of ns i = Some n \<longrightarrow> \<not> parentless n \<longrightarrow> map_of ns (nParent n) \<noteq> None)"

definition soleRoot :: "(string, Node) gomap \<Rightarrow> string \<Rightarrow> bool" where
  "soleRoot ns root \<longleftrightarrow>
     map_of ns root \<noteq> None \<and> (\<forall>i n. map_of ns i = Some n \<longrightarrow> (parentless n \<longleftrightarrow> i = root))"

lemma validateLoop_sound:
  "validateLoop ns root start seen cur = None \<Longrightarrow> closed ns \<Longrightarrow> map_of ns cur \<noteq> None \<Longrightarrow>
   \<exists>ps. ancestry ns root cur ps"
proof (induction ns root start seen cur rule: validateLoop.induct)
  case (1 ns root start seen cur)
  then obtain n where n: "map_of ns cur = Some n" and at: "nodeAt ns cur = n"
    by (auto simp: nodeAt_def)
  show ?case
  proof (cases "parentless n")
    case True
    with "1.prems" at have "cur = root" by (simp add: validateLoop.simps split: if_splits)
    with n True show ?thesis by (auto intro: ancestry.anc_root)
  next
    case False
    with "1.prems" at have "cur \<notin> set seen"
      and "validateLoop ns root start (cur # seen) (nParent n) = None"
      by (simp_all add: validateLoop.simps [of ns root start seen cur] split: if_splits)
    moreover have "map_of ns (nParent n) \<noteq> None" using "1.prems"(2) n False by (auto simp: closed_def)
    ultimately obtain ps where "ancestry ns root (nParent n) ps"
      using "1.IH" at False "1.prems"(2) by auto
    with n False show ?thesis by (auto intro: ancestry.anc_step)
  qed
qed

lemma validateLoop_complete:
  "ancestry ns root cur ps \<Longrightarrow> keyed ns \<Longrightarrow> set (map nID ps) \<inter> set seen = {} \<Longrightarrow>
   validateLoop ns root start seen cur = None"
proof (induction arbitrary: seen rule: ancestry.induct)
  case (anc_root n)
  then show ?case by (subst validateLoop.simps) (auto simp: nodeAt_def keyed_def)
next
  case (anc_step nid n ps)
  have chain: "ancestry ns root nid (ps @ [n])" using anc_step.hyps by (rule ancestry.anc_step)
  have "nID n = nid" using anc_step by (auto simp: keyed_def)
  moreover have "distinct (map nID (ps @ [n]))"
    using ancestry_distinct [OF chain] anc_step.prems(1) by (auto simp: keyed_def)
  ultimately have "set (map nID ps) \<inter> set (nid # seen) = {}"
    using anc_step.prems(2) by auto
  then have "validateLoop ns root start (nid # seen) (nParent n) = None"
    using anc_step.IH anc_step.prems(1) by blast
  then show ?case
    using anc_step.hyps anc_step.prems(2) \<open>nID n = nid\<close>
    by (subst validateLoop.simps) (auto simp: nodeAt_def)
qed

lemma validatePathToRoot_iff:
  "keyed ns \<Longrightarrow> closed ns \<Longrightarrow> map_of ns nid \<noteq> None \<Longrightarrow>
   validatePathToRoot ns root nid = None \<longleftrightarrow> (\<exists>ps. ancestry ns root nid ps)"
  unfolding validatePathToRoot_def
  by (auto intro: validateLoop_sound validateLoop_complete)

section \<open>Correctness of NewTree and of the operations that read the tree\<close>

definition nodeKey :: "Node \<Rightarrow> int \<times> string \<times> string" where
  "nodeKey n = (nOrder n, nTitle n, nID n)"

interpretation child_order: by_key "childLess ns" "\<lambda>i. nodeKey (nodeAt ns i)" for ns
  by unfold_locales (auto simp: childLess_def nodeKey_def Let_def)

definition childrenExact :: "Tree \<Rightarrow> string \<Rightarrow> bool" where
  "childrenExact t p \<longleftrightarrow>
     sorted (map nodeKey (Tree_Children t p)) \<and> distinct (map nID (Tree_Children t p)) \<and>
     set (Tree_Children t p) = {n. \<exists>i. map_of (tNodes t) i = Some n \<and> nParent n = p \<and> p \<noteq> ''''}"

definition wellFormedTree :: "Tree \<Rightarrow> bool" where
  "wellFormedTree t \<longleftrightarrow>
     keyed (tNodes t) \<and> closed (tNodes t) \<and> soleRoot (tNodes t) (tRoot t) \<and>
     (\<forall>i. map_of (tNodes t) i \<noteq> None \<longrightarrow> (\<exists>ps. ancestry (tNodes t) (tRoot t) i ps)) \<and>
     (\<forall>p. childrenExact t p)"

definition acceptable :: "Node list \<Rightarrow> bool" where
  "acceptable input \<longleftrightarrow>
     (\<forall>n \<in> set input. goodNode n) \<and> distinct (map nID input) \<and>
     (\<exists>r. filter parentless input = [r] \<and>
        (\<forall>n \<in> set input. \<exists>ps. ancestry (entries input) (nID r) (nID n) ps))"

lemma NewTree_Inr_iff:
  "NewTree it1 it2 input = Inr t \<longleftrightarrow>
     (\<exists>ns root ch. foldE addNode ([], '''', 0) input = Inr (ns, root, 1) \<and>
        foldE (linkChild ns) [] (it1 ns) = Inr ch \<and>
        (\<forall>e \<in> set (it2 ns). validatePathToRoot ns root (fst e) = None) \<and>
        t = \<lparr>tRoot = root, tNodes = ns,
             tChildren = map (\<lambda>(p, ids). (p, sortBy (childLess ns) ids)) ch\<rparr>)"
  by (cases "input = []")
    (auto simp: NewTree_def split: sum.splits option.splits dest!: firstErr_Some)

lemma goodNode_ID: "goodNode n \<Longrightarrow> nID n \<noteq> ''''"
  by (auto simp: goodNode_def validID_def)

lemma keyed_entries: "distinct (map nID xs) \<Longrightarrow> \<forall>n \<in> set xs. goodNode n \<Longrightarrow> keyed (entries xs)"
  unfolding keyed_def wf_map_def keys_entries
  by (auto dest!: map_of_SomeD) (metis goodNode_ID)

lemma entries_Some:
  "distinct (map nID xs) \<Longrightarrow> map_of (entries xs) i = Some m \<longleftrightarrow> (\<exists>n \<in> set xs. nID n = i \<and> m = withKind n)"
  using wf_map_in [of "entries xs" i m] unfolding wf_map_def keys_entries by auto


lemma soleRoot_entries:
  assumes "distinct (map nID xs)" and "filter parentless xs = [r]"
  shows "soleRoot (entries xs) (nID r)"
proof -
  have set: "{n \<in> set xs. parentless n} = {r}"
    using arg_cong [OF assms(2), of set] by simp
  then have r: "r \<in> set xs" "parentless r" by auto
  have only: "n = r" if "n \<in> set xs" "parentless n" for n
    using set that by auto
  have "map_of (entries xs) (nID r) \<noteq> None" using r by (simp add: entries_None)
  moreover have "parentless m \<longleftrightarrow> i = nID r" if "map_of (entries xs) i = Some m" for i m
  proof -
    from that assms(1) have "\<exists>n \<in> set xs. nID n = i \<and> m = withKind n"
      by (simp only: entries_Some)
    then obtain n where n: "n \<in> set xs" "nID n = i" "m = withKind n" by blast
    have "parentless n \<longleftrightarrow> n = r" using n(1) r only by blast
    also have "\<dots> \<longleftrightarrow> i = nID r"
      using n r(1) assms(1) by (auto simp: distinct_map inj_on_def)
    finally show ?thesis using n(3) by simp
  qed
  ultimately show ?thesis by (simp add: soleRoot_def)
qed

lemma ancestry_closed:
  "\<forall>n \<in> set xs. \<exists>ps. ancestry (entries xs) root (nID n) ps \<Longrightarrow> distinct (map nID xs) \<Longrightarrow> closed (entries xs)"
  unfolding closed_def
proof (intro allI impI)
  fix i n
  assume anc: "\<forall>n \<in> set xs. \<exists>ps. ancestry (entries xs) root (nID n) ps" and "distinct (map nID xs)"
    and i: "map_of (entries xs) i = Some n" and "\<not> parentless n"
  then obtain ps where "ancestry (entries xs) root i ps" by (metis entries_Some)
  then show "map_of (entries xs) (nParent n) \<noteq> None"
    by cases (use i \<open>\<not> parentless n\<close> in \<open>auto dest: ancestry_last\<close>)
qed

lemma sorted_child_nodes:
  "sorted (map nodeKey (map (nodeAt ns) (sortBy (childLess ns) ids)))"
  using child_order.sorted_keys [of ns ids] by (simp add: comp_def)

lemma childIDs_sorted:
  "childIDs (map (\<lambda>(p, ids). (p, sortBy lt ids)) ch) p = sortBy lt (childIDs ch p)"
  by (simp add: childIDs_def map_of_map split: option.splits)

text \<open>The children a successful \<open>NewTree\<close> stores, for any order of iteration.\<close>

lemma children_exact:
  assumes "keyed ns" and "isIteration it" and "foldE (linkChild ns) [] (it ns) = Inr ch"
  shows "childrenExact \<lparr>tRoot = root, tNodes = ns,
           tChildren = map (\<lambda>(p, ids). (p, sortBy (childLess ns) ids)) ch\<rparr> p" (is "childrenExact ?t p")
proof -
  let ?es = "filter (\<lambda>e. nParent (snd e) = p) (it ns)"
  have at: "nodeAt ns (nID n) = n" if "(i, n) \<in> set ns" for i n
    using that assms(1) by (auto simp: keyed_def nodeAt_def wf_map_in)
  have ids: "childIDs ch p = (if p = '''' then [] else map (nID \<circ> snd) ?es)"
    using assms(3) by (rule linkChild_loop)
  have kids: "Tree_Children ?t p = map (nodeAt ns) (sortBy (childLess ns) (childIDs ch p))"
    by (simp add: Tree_Children_def childIDs_sorted)
  have es: "set (it ns) = set ns" using assms(2) by (rule isIteration_set)
  have "set (Tree_Children ?t p) = {n. \<exists>i. map_of ns i = Some n \<and> nParent n = p \<and> p \<noteq> ''''}"
  proof (cases "p = ''''")
    case False
    have "set (Tree_Children ?t p) = (\<lambda>e. nodeAt ns (nID (snd e))) ` {e \<in> set ns. nParent (snd e) = p}"
      using False by (simp add: kids ids es image_image)
    also have "\<dots> = snd ` {e \<in> set ns. nParent (snd e) = p}"
      using at by (intro image_cong) auto
    also have "\<dots> = {n. \<exists>i. map_of ns i = Some n \<and> nParent n = p}"
      using assms(1) by (force simp: keyed_def wf_map_in image_iff)
    finally show ?thesis using False by simp
  next
    case True
    with ids have "childIDs ch p = []" by simp
    then have "Tree_Children ?t p = []" unfolding kids by simp
    then show ?thesis using True by simp
  qed
  moreover have "distinct (childIDs ch p)"
  proof -
    have "distinct (map fst (it ns))"
      using assms(1) isIteration_mset [OF assms(2), of ns] mset_eq_imp_distinct_iff mset_map
      by (metis keyed_def wf_map_def)
    then have "distinct (map fst ?es)" by (rule distinct_map_filter)
    moreover have "map (nID \<circ> snd) ?es = map fst ?es"
      using assms(1) es by (auto simp: keyed_def wf_map_in)
    ultimately have "distinct (map (nID \<circ> snd) ?es)" by (simp only:)
    then show ?thesis by (simp add: ids)
  qed
  then have "distinct (map nID (Tree_Children ?t p))"
  proof -
    have "map nID (Tree_Children ?t p) = sortBy (childLess ns) (childIDs ch p)"
    proof -
      have "nID (nodeAt ns i) = i" if "i \<in> set (childIDs ch p)" for i
        using that at es by (auto simp: ids split: if_splits)
      then have "map (\<lambda>i. nID (nodeAt ns i)) (sortBy (childLess ns) (childIDs ch p)) =
          sortBy (childLess ns) (childIDs ch p)"
        by (intro map_idI) simp
      then show ?thesis unfolding kids by (simp add: comp_def)
    qed
    then show ?thesis using \<open>distinct (childIDs ch p)\<close> by simp
  qed
  ultimately show ?thesis by (simp add: childrenExact_def kids sorted_child_nodes del: map_map)
qed

lemma links_closed:
  assumes "keyed ns" and "isIteration it"
  shows "(\<exists>ch. foldE (linkChild ns) ch0 (it ns) = Inr ch) \<longleftrightarrow> closed ns"
proof -
  have "(\<forall>e \<in> set (it ns). parentless (snd e) \<or> map_of ns (nParent (snd e)) \<noteq> None) \<longleftrightarrow>
        (\<forall>i n. (i, n) \<in> set ns \<longrightarrow> parentless n \<or> map_of ns (nParent n) \<noteq> None)"
    unfolding isIteration_set [OF assms(2), of ns] by (metis prod.collapse snd_conv)
  also have "\<dots> \<longleftrightarrow> closed ns"
    using assms(1) by (auto simp: closed_def keyed_def wf_map_in)
  finally show ?thesis by (simp add: linkChild_loop_ok)
qed

lemma paths_valid:
  assumes "keyed ns" and "closed ns" and "isIteration it"
  shows "(\<forall>e \<in> set (it ns). validatePathToRoot ns root (fst e) = None) \<longleftrightarrow>
         (\<forall>i. map_of ns i \<noteq> None \<longrightarrow> (\<exists>ps. ancestry ns root i ps))"
proof -
  have "(\<forall>e \<in> set (it ns). validatePathToRoot ns root (fst e) = None) \<longleftrightarrow>
        (\<forall>i n. (i, n) \<in> set ns \<longrightarrow> validatePathToRoot ns root i = None)"
    using isIteration_set [OF assms(3), of ns] by auto
  also have "\<dots> \<longleftrightarrow> (\<forall>i n. map_of ns i = Some n \<longrightarrow> validatePathToRoot ns root i = None)"
    using assms(1) by (auto simp: keyed_def wf_map_in)
  finally show ?thesis using validatePathToRoot_iff [OF assms(1,2)] by auto
qed

lemma NewTreeE:
  assumes "isIteration it1" and "isIteration it2" and "NewTree it1 it2 input = Inr t"
  obtains r ch where "filter parentless input = [r]" and "distinct (map nID input)"
    and "\<forall>n \<in> set input. goodNode n" and "keyed (entries input)" and "closed (entries input)"
    and "\<And>i. map_of (entries input) i \<noteq> None \<Longrightarrow> \<exists>ps. ancestry (entries input) (nID r) i ps"
    and "foldE (linkChild (entries input)) [] (it1 (entries input)) = Inr ch"
    and "t = \<lparr>tRoot = nID r, tNodes = entries input,
              tChildren = map (\<lambda>(p, ids). (p, sortBy (childLess (entries input)) ids)) ch\<rparr>"
proof -
  from assms(3) obtain ns root ch
    where loop: "foldE addNode ([], '''', 0) input = Inr (ns, root, 1)"
      and link: "foldE (linkChild ns) [] (it1 ns) = Inr ch"
      and valid: "\<forall>e \<in> set (it2 ns). validatePathToRoot ns root (fst e) = None"
      and t: "t = \<lparr>tRoot = root, tNodes = ns,
                tChildren = map (\<lambda>(p, ids). (p, sortBy (childLess ns) ids)) ch\<rparr>"
    by (auto simp: NewTree_Inr_iff)
  have added: "nodesAdded input (ns, root, 1)" using loop by (rule addNode_loop)
  then obtain r where r: "filter parentless input = [r]" and root: "root = nID r"
    by (auto simp: nodesAdded_def length_Suc_conv)
  from added have ns: "ns = entries input" and dist: "distinct (map nID input)"
    and good: "\<forall>n \<in> set input. goodNode n"
    by (auto simp: nodesAdded_def)
  have keyed: "keyed (entries input)" using dist good by (rule keyed_entries)
  moreover from this have "closed (entries input)"
    using links_closed [OF keyed assms(1)] link ns by blast
  ultimately show ?thesis
    using that [OF r dist good, of ch] paths_valid [OF keyed _ assms(2), of root] valid link ns root t
    by auto
qed

section \<open>Properties\<close>

lemma newTree_wf:
  assumes "isIteration it1" and "isIteration it2" and "NewTree it1 it2 input = Inr t"
  shows "wellFormedTree t \<and> tNodes t = map (\<lambda>n. (nID n, withKind n)) input"
proof (rule NewTreeE [OF assms], goal_cases)
  case (1 r ch)
  have "soleRoot (entries input) (nID r)" using 1(2,1) by (rule soleRoot_entries)
  moreover have "childrenExact t p" for p
    unfolding 1(8) using 1(4) assms(1) 1(7) by (rule children_exact)
  ultimately show ?case using 1 by (simp add: wellFormedTree_def)
qed

text \<open>
  C19. A tree that \<open>NewTree\<close> returns is well formed, whatever the order in which it ranges over
  its map: every node is stored under its own identifier, exactly one node has no parent and it
  is the root, every other parent is present, every node has a chain of parents to the root, and
  the children of each node are exactly the nodes that name it as parent, sorted by order, title
  and identifier.
\<close>

theorem NewTree_wellFormed:
  assumes "isIteration it1" and "isIteration it2" and "NewTree it1 it2 input = Inr t"
  shows "wellFormedTree t \<and> tNodes t = map (\<lambda>n. (nID n, withKind n)) input"
  by (rule newTree_wf [OF assms])

lemma newTree_accepts:
  assumes "isIteration it1" and "isIteration it2"
  shows "(\<exists>t. NewTree it1 it2 input = Inr t) \<longleftrightarrow> acceptable input"
proof
  assume "\<exists>t. NewTree it1 it2 input = Inr t"
  then obtain t where "NewTree it1 it2 input = Inr t" ..
  then show "acceptable input"
    by (rule NewTreeE [OF assms]) (auto simp: acceptable_def entries_None)
next
  assume "acceptable input"
  then obtain r where good: "\<forall>n \<in> set input. goodNode n" and dist: "distinct (map nID input)"
    and r: "filter parentless input = [r]"
    and anc: "\<forall>n \<in> set input. \<exists>ps. ancestry (entries input) (nID r) (nID n) ps"
    by (auto simp: acceptable_def)
  let ?ns = "entries input"
  have keyed: "keyed ?ns" using dist good by (rule keyed_entries)
  have closed: "closed ?ns" using anc dist by (rule ancestry_closed)
  obtain st where st: "foldE addNode ([], '''', 0) input = Inr st"
    using addNode_loop_ok [of "[]" input "''''" 0] dist good by auto
  with addNode_loop [OF st] r have "st = (?ns, nID r, 1)"
    by (cases st) (auto simp: nodesAdded_def)
  moreover obtain ch where "foldE (linkChild ?ns) [] (it1 ?ns) = Inr ch"
    using links_closed [OF keyed assms(1)] closed by blast
  moreover have "\<forall>e \<in> set (it2 ?ns). validatePathToRoot ?ns (nID r) (fst e) = None"
    using paths_valid [OF keyed closed assms(2)] anc by (auto simp: entries_None)
  ultimately show "\<exists>t. NewTree it1 it2 input = Inr t"
    using st by (fastforce simp: NewTree_Inr_iff)
qed

text \<open>
  C8. \<open>NewTree\<close> accepts exactly the inputs that describe a tree: identifiers and titles not
  blank, identifiers distinct, one node without parent, and every node connected to it by a chain
  of parents (so no missing parent and no cycle). Acceptance does not depend on map order.
\<close>

theorem NewTree_accepts_iff:
  assumes "isIteration it1" and "isIteration it2"
  shows "(\<exists>t. NewTree it1 it2 input = Inr t) \<longleftrightarrow> acceptable input"
  by (rule newTree_accepts [OF assms])

lemma keyed_unique:
  "keyed ns \<Longrightarrow> map_of ns i = Some n \<Longrightarrow> map_of ns j = Some m \<Longrightarrow> nID n = nID m \<Longrightarrow> n = m"
  unfolding keyed_def by (metis option.inject)

lemma children_unique:
  assumes "keyed (tNodes t)" and "tNodes t' = tNodes t"
    and "childrenExact t p" and "childrenExact t' p"
  shows "Tree_Children t' p = Tree_Children t p"
proof (rule map_sorted_distinct_set_unique [where f = nodeKey])
  let ?N = "{n. \<exists>i. map_of (tNodes t) i = Some n}"
  have "inj_on nodeKey ?N"
    using keyed_unique [OF assms(1)] by (fastforce simp: inj_on_def nodeKey_def)
  then show "inj_on nodeKey (set (Tree_Children t' p) \<union> set (Tree_Children t p))"
    by (rule inj_on_subset) (use assms in \<open>auto simp: childrenExact_def\<close>)
  show "distinct (map nodeKey (Tree_Children t p))" "distinct (map nodeKey (Tree_Children t' p))"
    using assms by (auto simp: childrenExact_def nodeKey_def distinct_map inj_on_def)
qed (use assms in \<open>auto simp: childrenExact_def\<close>)

text \<open>
  The tree does not depend on the order in which Go ranges over the map of nodes: two runs on
  the same input give the same root, the same nodes and the same list of children for every node.
\<close>

lemma NewTree_order_independent:
  assumes "isIteration it1" and "isIteration it2" and "isIteration it1'" and "isIteration it2'"
    and "NewTree it1 it2 input = Inr t"
  shows "\<exists>t'. NewTree it1' it2' input = Inr t' \<and> tRoot t' = tRoot t \<and> tNodes t' = tNodes t \<and>
    (\<forall>p. Tree_Children t' p = Tree_Children t p)"
proof -
  have ok: "acceptable input" using newTree_accepts [OF assms(1,2)] assms(5) by blast
  then obtain t' where t': "NewTree it1' it2' input = Inr t'"
    using newTree_accepts [OF assms(3,4)] by blast
  have wf: "wellFormedTree t" "wellFormedTree t'" and nodes: "tNodes t' = tNodes t"
    using newTree_wf [OF assms(1,2,5)] newTree_wf [OF assms(3,4) t'] by auto
  then have "tRoot t' = tRoot t" by (auto simp: wellFormedTree_def soleRoot_def)
  moreover have "Tree_Children t' p = Tree_Children t p" for p
    using wf nodes by (intro children_unique) (auto simp: wellFormedTree_def)
  ultimately show ?thesis using t' nodes by blast
qed

text \<open>Along a chain of parents the loop of \<open>Path\<close> ends and collects the chain.\<close>

lemma pathLoop_ancestry:
  "ancestry ns root nid ps \<Longrightarrow> keyed ns \<Longrightarrow> pathLoop ns nid acc = Some (acc @ rev ps)"
proof (induction arbitrary: acc rule: ancestry.induct)
  case (anc_root n)
  then have "root \<noteq> ''''" by (auto simp: keyed_def)
  with anc_root show ?case by (simp add: pathLoop.simps nodeAt_def)
next
  case (anc_step nid n ps)
  then have "nid \<noteq> ''''" by (auto simp: keyed_def)
  with anc_step show ?case by (subst pathLoop.simps) (simp add: nodeAt_def)
qed

lemma Tree_Path_ancestry:
  "wellFormedTree t \<Longrightarrow> ancestry (tNodes t) (tRoot t) nid ps \<Longrightarrow> Tree_Path t nid = Some (Inr ps)"
  using pathLoop_ancestry [of "tNodes t" "tRoot t" nid ps "[]"] ancestry_last
  by (fastforce simp: Tree_Path_def wellFormedTree_def)

lemma tree_path_cases:
  assumes "isIteration it1" and "isIteration it2" and "NewTree it1 it2 input = Inr t"
  shows "case Tree_Node t nid of
     None \<Rightarrow> Tree_Path t nid = Some (Inl (UnknownNode nid))
   | Some n \<Rightarrow> (\<exists>ps. Tree_Path t nid = Some (Inr ps) \<and> ps \<noteq> [] \<and> hd ps = Tree_Root t \<and>
        last ps = n \<and> successively (\<lambda>p c. nParent c = nID p) ps \<and> distinct (map nID ps))"
proof (cases "map_of (tNodes t) nid")
  case None
  then show ?thesis by (simp add: Tree_Node_def Tree_Path_def)
next
  case (Some n)
  have wf: "wellFormedTree t" using newTree_wf [OF assms] by simp
  with Some obtain ps where ps: "ancestry (tNodes t) (tRoot t) nid ps"
    by (auto simp: wellFormedTree_def)
  have keyed: "\<And>i n. map_of (tNodes t) i = Some n \<Longrightarrow> nID n = i"
    using wf by (auto simp: wellFormedTree_def keyed_def)
  show ?thesis
    using Some Tree_Path_ancestry [OF wf ps] ancestry_last [OF ps] ancestry_hd [OF ps]
      ancestry_links [OF ps keyed] ancestry_distinct [OF ps keyed]
    by (simp add: Tree_Node_def Tree_Root_def nodeAt_def)
qed

text \<open>
  C31. In a tree that \<open>NewTree\<close> built, \<open>Path\<close> always returns: for an unknown identifier the error,
  otherwise a list without repetitions that starts at the root, ends at the node asked for, and in
  which each node is the parent of the next.
\<close>

theorem Tree_Path_total:
  assumes "isIteration it1" and "isIteration it2" and "NewTree it1 it2 input = Inr t"
  shows "case Tree_Node t nid of
     None \<Rightarrow> Tree_Path t nid = Some (Inl (UnknownNode nid))
   | Some n \<Rightarrow> (\<exists>ps. Tree_Path t nid = Some (Inr ps) \<and> ps \<noteq> [] \<and> hd ps = Tree_Root t \<and>
        last ps = n \<and> successively (\<lambda>p c. nParent c = nID p) ps \<and> distinct (map nID ps))"
  by (rule tree_path_cases [OF assms])

section \<open>Witnesses\<close>

text \<open>The input of \<open>TestTreePathAndStableChildren\<close>.\<close>

definition testNodes :: "Node list" where
  "testNodes =
     [\<lparr>nID = ''root'', nParent = '''', nKind = ''category'', nTitle = ''Home'', nOrder = 0, nWorkspace = ''''\<rparr>,
      \<lparr>nID = ''projects'', nParent = ''root'', nKind = '''', nTitle = ''Projects'', nOrder = 2, nWorkspace = ''''\<rparr>,
      \<lparr>nID = ''dev'', nParent = ''root'', nKind = '''', nTitle = ''Development'', nOrder = 1, nWorkspace = ''''\<rparr>,
      \<lparr>nID = ''hws'', nParent = ''dev'', nKind = ''project'', nTitle = ''HWS'', nOrder = 0, nWorkspace = ''''\<rparr>]"

definition testTree :: Tree where
  "testTree =
     \<lparr>tRoot = ''root'', tNodes = map (\<lambda>n. (nID n, withKind n)) testNodes,
      tChildren = [(''dev'', [''hws'']), (''root'', [''dev'', ''projects''])]\<rparr>"

lemma testTree_built: "NewTree rev (\<lambda>m. m) testNodes = Inr testTree"
  by code_simp

theorem NewTree_wellFormed_witness:
  "wellFormedTree testTree \<and> tNodes testTree = map (\<lambda>n. (nID n, withKind n)) testNodes"
  by (rule NewTree_wellFormed [OF isIteration_rev isIteration_id testTree_built])

theorem NewTree_accepts_iff_witness: "acceptable testNodes"
  using NewTree_accepts_iff [OF isIteration_rev isIteration_id, of testNodes] testTree_built by blast


theorem Tree_Path_total_witness:
  "\<exists>ps. Tree_Path testTree ''hws'' = Some (Inr ps) \<and> hd ps = Tree_Root testTree \<and> distinct (map nID ps)"
proof -
  have "Tree_Node testTree ''hws'' \<noteq> None" by code_simp
  then show ?thesis
    using Tree_Path_total [OF isIteration_rev isIteration_id testTree_built, of "''hws''"] by auto
qed

end
