(* ===== verification/GoFloat.thy ===== *)
theory GoFloat
  imports Complex_Main GoLib
begin

text \<open>
  Go's \<open>float64\<close>: IEEE 754 binary64 with round-to-nearest-even. \<open>Fin m e\<close> is the number
  \<open>m * 2 ^ e\<close> in the format's own form (53-bit significand, least exponent -1074), so equal
  numbers are equal values; the sign of a zero is not kept (no comparison or conversion the
  sources make can see it; only an encoder, which writes it as \<open>-0\<close>, would). A comparison with NaN is false, which is what makes
  \<open>if v < 0\<close> / \<open>if v > 1\<close> clamps let a NaN through.
\<close>

datatype f64 = NaN | Inf bool | Fin int int

section \<open>Rounding\<close>

function bitlen :: "int \<Rightarrow> int" where
  "bitlen n = (if n \<le> 0 then 0 else 1 + bitlen (n div 2))"
  by pat_completeness auto
termination
  by (relation "measure nat") auto

declare bitlen.simps [simp del]

text \<open>Round \<open>n / d\<close>, for positive \<open>d\<close>, to the nearest integer, ties to even.\<close>

definition roundHalfEven :: "int \<Rightarrow> int \<Rightarrow> int" where
  "roundHalfEven n d =
     (let q = n div d; r = n mod d
      in if 2 * r < d then q else if 2 * r > d then q + 1 else if even q then q else q + 1)"

definition fzero :: f64 where
  "fzero = Fin 0 (-1074)"

text \<open>The float nearest to \<open>m * 2 ^ e\<close>.\<close>

definition significand :: "int \<Rightarrow> int \<Rightarrow> int" where
  "significand m s = (if s \<le> 0 then m * 2 ^ nat (- s) else roundHalfEven m (2 ^ nat s))"

definition pack :: "int \<Rightarrow> int \<Rightarrow> f64" where
  "pack m e =
     (if m = 0 then fzero
      else if \<bar>m\<bar> = 2 ^ 53 then (if 970 < e then Inf (m < 0) else Fin (m div 2) (e + 1))
      else if 971 < e then Inf (m < 0) else Fin m e)"

definition rnd :: "int \<Rightarrow> int \<Rightarrow> f64" where
  "rnd m e =
     (if m = 0 then fzero
      else let s = max (bitlen \<bar>m\<bar> - 53) (-1074 - e)
           in pack (significand m s) (e + s))"

text \<open>
  The float nearest to the fraction \<open>n / d\<close>, for positive \<open>d\<close>: a quotient with more bits
  than the significand holds, and a last bit that records a remainder.
\<close>

definition rndDiv :: "int \<Rightarrow> int \<Rightarrow> int \<Rightarrow> f64" where
  "rndDiv n d e =
     (let k = 55 + bitlen d;
          a = \<bar>n\<bar> * 2 ^ nat k;
          q = 2 * (a div d) + (if a mod d = 0 then 0 else 1)
      in rnd (sgn n * q) (e - k - 1))"

definition lit :: "int \<Rightarrow> int \<Rightarrow> f64" where
  \<comment> \<open>the literal \<open>n / d\<close>\<close>
  "lit n d = rndDiv n d 0"

definition ofInt :: "int \<Rightarrow> f64" where
  "ofInt i = rnd i 0"

section \<open>Operations\<close>

definition ltVal :: "int \<Rightarrow> int \<Rightarrow> int \<Rightarrow> int \<Rightarrow> bool" where
  "ltVal m e n f =
     (if m = 0 \<or> n = 0 then m < n
      else m * 2 ^ nat (e - min e f) < n * 2 ^ nat (f - min e f))"

fun flt :: "f64 \<Rightarrow> f64 \<Rightarrow> bool" where
  "flt NaN _ = False"
| "flt _ NaN = False"
| "flt (Inf s) (Inf t) = (s \<and> \<not> t)"
| "flt (Inf s) (Fin _ _) = s"
| "flt (Fin _ _) (Inf t) = (\<not> t)"
| "flt (Fin m e) (Fin n f) = ltVal m e n f"

fun fle :: "f64 \<Rightarrow> f64 \<Rightarrow> bool" where
  "fle NaN _ = False"
| "fle _ NaN = False"
| "fle x y = (\<not> flt y x)"

fun fadd :: "f64 \<Rightarrow> f64 \<Rightarrow> f64" where
  "fadd NaN _ = NaN"
| "fadd _ NaN = NaN"
| "fadd (Inf s) (Inf t) = (if s = t then Inf s else NaN)"
| "fadd (Inf s) (Fin _ _) = Inf s"
| "fadd (Fin _ _) (Inf t) = Inf t"
| "fadd (Fin m e) (Fin n f) =
     (if m = 0 then Fin n f else if n = 0 then Fin m e
      else rnd (m * 2 ^ nat (e - min e f) + n * 2 ^ nat (f - min e f)) (min e f))"

fun fmul :: "f64 \<Rightarrow> f64 \<Rightarrow> f64" where
  "fmul NaN _ = NaN"
| "fmul _ NaN = NaN"
| "fmul (Inf s) (Inf t) = Inf (s \<noteq> t)"
| "fmul (Inf s) (Fin n _) = (if n = 0 then NaN else Inf (s \<noteq> (n < 0)))"
| "fmul (Fin m _) (Inf t) = (if m = 0 then NaN else Inf (t \<noteq> (m < 0)))"
| "fmul (Fin m e) (Fin n f) = rnd (m * n) (e + f)"

fun fdiv :: "f64 \<Rightarrow> f64 \<Rightarrow> f64" where
  "fdiv NaN _ = NaN"
| "fdiv _ NaN = NaN"
| "fdiv (Inf s) (Inf t) = NaN"
| "fdiv (Inf s) (Fin n _) = Inf (s \<noteq> (n < 0))"
| "fdiv (Fin _ _) (Inf t) = fzero"
| "fdiv (Fin m e) (Fin n f) =
     (if n = 0 then (if m = 0 then NaN else Inf (m < 0))
      else rndDiv (m * sgn n) \<bar>n\<bar> (e - f))"

text \<open>
  \<open>math.Round\<close> (halves away from zero), and \<open>int(f)\<close>, which truncates; out of range the
  conversion is implementation-defined: on amd64 it is the least integer.
\<close>

fun mathRound :: "f64 \<Rightarrow> f64" where
  "mathRound (Fin m e) =
     (if m = 0 \<or> 0 \<le> e then Fin m e
      else ofInt (sgn m * ((2 * \<bar>m\<bar> + 2 ^ nat (- e)) div 2 ^ nat (1 - e))))"
| "mathRound x = x"

fun toInt :: "f64 \<Rightarrow> int" where
  "toInt (Fin m e) =
     (let i = (if m = 0 then 0 else if 0 \<le> e then m * 2 ^ nat e
               else sgn m * (\<bar>m\<bar> div 2 ^ nat (- e)))
      in if in64 i then i else - (2 ^ 63))"
| "toInt _ = - (2 ^ 63)"

fun isFinite :: "f64 \<Rightarrow> bool" where
  "isFinite (Fin _ _) = True"
| "isFinite _ = False"

definition feq :: "f64 \<Rightarrow> f64 \<Rightarrow> bool" where
  "feq x y \<longleftrightarrow> fle x y \<and> fle y x"

section \<open>Facts\<close>

text \<open>The comparison is the one of the real values.\<close>

definition valR :: "int \<Rightarrow> int \<Rightarrow> real" where
  "valR m e = of_int m * 2 powr of_int e"

lemma ltVal_valR: "ltVal m e n f \<longleftrightarrow> valR m e < valR n f"
proof (cases "m = 0 \<or> n = 0")
  case True
  then show ?thesis
    by (auto simp: ltVal_def valR_def zero_less_mult_iff mult_less_0_iff)
next
  case False
  have scale: "valR k g = of_int (k * 2 ^ nat (g - min e f)) * 2 powr of_int (min e f)"
    if "min e f \<le> g" for k g
  proof -
    have "(2::real) powr of_int g = 2 powr of_int (g - min e f) * 2 powr of_int (min e f)"
      by (simp flip: powr_add)
    also have "(2::real) powr of_int (g - min e f) = 2 ^ nat (g - min e f)"
      using that powr_realpow [of "2 :: real" "nat (g - min e f)"] by simp
    finally show ?thesis by (simp add: valR_def)
  qed
  from False show ?thesis
    by (simp only: ltVal_def if_False scale [of e m, OF min.cobounded1]
        scale [of f n, OF min.cobounded2] mult_less_cancel_right_pos powr_gt_zero)
      (simp only: of_int_less_iff if_False)
qed

lemma fle_refl_finite: "isFinite x \<Longrightarrow> fle x x"
  by (cases x) (auto simp: ltVal_valR)

lemma fle_trans: "fle x y \<Longrightarrow> fle y z \<Longrightarrow> fle x z"
  by (cases x; cases y; cases z) (auto simp: ltVal_valR)

lemma fle_not_flt: "fle x y \<Longrightarrow> \<not> flt y x"
  by (cases x; cases y) auto

lemma flt_not_fle: "x \<noteq> NaN \<Longrightarrow> y \<noteq> NaN \<Longrightarrow> \<not> flt y x \<Longrightarrow> fle x y"
  by (cases x; cases y) auto

lemma flt_trans: "flt x y \<Longrightarrow> flt y z \<Longrightarrow> flt x z"
  by (cases x; cases y; cases z) (auto simp: ltVal_valR)

lemma roundHalfEven_nonneg: "0 \<le> n \<Longrightarrow> 0 < d \<Longrightarrow> 0 \<le> roundHalfEven n d"
  by (auto simp: roundHalfEven_def Let_def pos_imp_zdiv_nonneg_iff add_nonneg_nonneg)

lemma significand_nonneg: "0 \<le> m \<Longrightarrow> 0 \<le> significand m s"
  unfolding significand_def by (simp add: roundHalfEven_nonneg)

lemma pack_nonneg: "0 \<le> m \<Longrightarrow> pack m e = Fin n f \<Longrightarrow> 0 \<le> n"
  unfolding pack_def fzero_def by (auto split: if_splits simp del: power_numeral)

lemma pack_nonneg_not: "0 \<le> m \<Longrightarrow> pack m e \<noteq> NaN \<and> pack m e \<noteq> Inf True"
  unfolding pack_def fzero_def by (simp del: power_numeral)

lemma rnd_pack: "m \<noteq> 0 \<Longrightarrow> \<exists>s. rnd m e = pack (significand m s) (e + s)"
  unfolding rnd_def Let_def by auto

lemma rnd_nonneg:
  assumes "0 \<le> m"
  shows "rnd m e = Fin n f \<Longrightarrow> 0 \<le> n" and "rnd m e \<noteq> NaN" and "rnd m e \<noteq> Inf True"
proof -
  have *: "(rnd m e = Fin n f \<longrightarrow> 0 \<le> n) \<and> rnd m e \<noteq> NaN \<and> rnd m e \<noteq> Inf True"
  proof (cases "m = 0")
    case True
    then show ?thesis by (auto simp: rnd_def fzero_def)
  next
    case False
    then obtain s where "rnd m e = pack (significand m s) (e + s)" using rnd_pack by blast
    then show ?thesis
      using pack_nonneg pack_nonneg_not significand_nonneg [OF assms] by metis
  qed
  then show "rnd m e = Fin n f \<Longrightarrow> 0 \<le> n" "rnd m e \<noteq> NaN" "rnd m e \<noteq> Inf True" by simp_all
qed

text \<open>The clamp \<open>if v < 0 { v = 0 }; if v > 1 { v = 1 }\<close> of the progress fields.\<close>

definition fone :: f64 where
  "fone = Fin (2 ^ 52) (-52)"

lemma fone_lit: "fone = lit 1 1" "fone = ofInt 1"
  by code_simp+

definition clamp01 :: "f64 \<Rightarrow> f64" where
  "clamp01 v = (let v = (if flt v fzero then fzero else v) in if flt fone v then fone else v)"

definition unitInterval :: "f64 \<Rightarrow> bool" where
  "unitInterval v \<longleftrightarrow> fle fzero v \<and> fle v fone"

lemma fzero_unit [simp]: "unitInterval fzero" and fone_unit [simp]: "unitInterval fone"
  and not_one_lt_zero [simp]: "\<not> flt fone fzero"
  by (simp_all add: unitInterval_def fzero_def fone_def ltVal_def)

lemma clamp01_unit: "v \<noteq> NaN \<Longrightarrow> unitInterval (clamp01 v)"
proof -
  assume "v \<noteq> NaN"
  moreover have "fzero \<noteq> NaN" "fone \<noteq> NaN" by (simp_all add: fzero_def fone_def)
  ultimately show ?thesis
    by (auto simp: clamp01_def Let_def unitInterval_def [of v] intro: flt_not_fle)
qed

lemma clamp01_NaN [simp]: "clamp01 NaN = NaN"
  by (simp add: clamp01_def fone_def)

lemma clamp01_id: "unitInterval v \<Longrightarrow> clamp01 v = v"
  by (auto simp: clamp01_def unitInterval_def Let_def dest: fle_not_flt)

lemma unit_finite: "unitInterval v \<Longrightarrow> isFinite v"
  by (cases v) (auto simp: unitInterval_def fzero_def fone_def)

end
