(* ===== verification/WorkspaceSpec.thy ===== *)
theory WorkspaceSpec
  imports Hierarchy GoFloat
begin

text \<open>
  \<open>internal/domain/workspace.go\<close> and \<open>internal/domain/reconcile.go\<close>: the desired state of a
  workspace and its validation, the observed state of its resources, the plan that leads from
  the one to the other and the evaluation that compares them.
\<close>

section \<open>Data\<close>

definition ResourceDesktopApp :: string where "ResourceDesktopApp = ''desktop_app''"
definition ResourceProcess :: string where "ResourceProcess = ''process''"
definition ResourceTerminal :: string where "ResourceTerminal = ''terminal''"

definition OwnershipManaged :: string where "OwnershipManaged = ''managed''"
definition OwnershipAdopted :: string where "OwnershipAdopted = ''adopted''"
definition OwnershipExternal :: string where "OwnershipExternal = ''external''"

lemmas ownership_defs = OwnershipManaged_def OwnershipAdopted_def OwnershipExternal_def
lemmas resource_kind_defs = ResourceDesktopApp_def ResourceProcess_def ResourceTerminal_def

record NormalizedRect =
  nrX :: f64
  nrY :: f64
  nrWidth :: f64
  nrHeight :: f64

definition NormalizedRect_Valid :: "NormalizedRect \<Rightarrow> bool" where
  "NormalizedRect_Valid r \<longleftrightarrow>
     fle fzero (nrX r) \<and> fle fzero (nrY r) \<and> flt fzero (nrWidth r) \<and> flt fzero (nrHeight r) \<and>
     fle (fadd (nrX r) (nrWidth r)) fone \<and> fle (fadd (nrY r) (nrHeight r)) fone"

record LogicalRect =
  lrX :: int
  lrY :: int
  lrWidth :: int
  lrHeight :: int

definition LogicalRect_Valid :: "LogicalRect \<Rightarrow> bool" where
  "LogicalRect_Valid r \<longleftrightarrow> lrWidth r > 0 \<and> lrHeight r > 0"

definition zeroRect :: LogicalRect where
  "zeroRect = \<lparr>lrX = 0, lrY = 0, lrWidth = 0, lrHeight = 0\<rparr>"

record PlacementIntent =
  piMonitorRole :: string
  piWorkspace :: int
  piRect :: NormalizedRect

record ResolvedPlacement =
  rpTopologyRevision :: string
  rpMonitorRef :: string
  rpMonitorIndex :: int
  rpWorkspace :: int
  rpRect :: LogicalRect

record PlacementObservation =
  poTopologyRevision :: string
  poMonitorRef :: string
  poWorkspace :: int
  poRect :: LogicalRect
  poReached :: bool

record ResourceSpec =
  rsID :: string
  rsKind :: string
  rsRequired :: bool
  rsOwnership :: string
  rsDesktopAppID :: string
  rsExecutable :: string
  rsArgs :: "string list"
  rsWorkingDirectory :: string
  rsPlacement :: "PlacementIntent option"

record DesiredState =
  dsWorkspaceID :: string
  dsRevision :: string
  dsResources :: "ResourceSpec list"

record ResourceObservation =
  roResourceID :: string
  roPresent :: bool
  roReady :: bool
  roOwnership :: string
  roSessionRef :: string
  roAppID :: string
  roReasonCode :: string
  roPlacement :: "PlacementObservation option"

definition zeroObservation :: ResourceObservation where
  "zeroObservation = \<lparr>roResourceID = '''', roPresent = False, roReady = False, roOwnership = '''',
     roSessionRef = '''', roAppID = '''', roReasonCode = '''', roPlacement = None\<rparr>"

record ObservedState =
  osWorkspaceID :: string
  osTopologyRevision :: string
  osResources :: "(string, ResourceObservation) gomap"

section \<open>Validation\<close>

datatype workspaceError =
  WorkspaceIDRequired | RevisionRequired | ResourceIDRequired | DuplicateResource string
| InvalidOwnership string string | DesktopAppIDRequired string | ExecutableRequired string
| UnsupportedKind string string | InvalidPlacement string | InvalidWorkspaceIndex string

definition checkKind :: "ResourceSpec \<Rightarrow> workspaceError option" where
  "checkKind r =
     (if rsKind r = ResourceDesktopApp
      then (if TrimSpace (rsDesktopAppID r) = '''' then Some (DesktopAppIDRequired (rsID r)) else None)
      else if rsKind r = ResourceProcess \<or> rsKind r = ResourceTerminal
      then (if TrimSpace (rsExecutable r) = '''' then Some (ExecutableRequired (rsID r)) else None)
      else Some (UnsupportedKind (rsID r) (rsKind r)))"

definition checkPlacement :: "ResourceSpec \<Rightarrow> workspaceError option" where
  "checkPlacement r =
     (case rsPlacement r of
        None \<Rightarrow> None
      | Some p \<Rightarrow> if \<not> NormalizedRect_Valid (piRect p) then Some (InvalidPlacement (rsID r))
                  else if piWorkspace p < 0 then Some (InvalidWorkspaceIndex (rsID r))
                  else None)"

definition checkResource :: "string list \<Rightarrow> ResourceSpec \<Rightarrow> workspaceError + string list" where
  "checkResource seen r =
     (if \<not> validID (rsID r) then Inl ResourceIDRequired
      else if rsID r \<in> set seen then Inl (DuplicateResource (rsID r))
      else if rsOwnership r \<notin> {OwnershipManaged, OwnershipAdopted, OwnershipExternal}
      then Inl (InvalidOwnership (rsID r) (rsOwnership r))
      else case checkKind r of
        Some e \<Rightarrow> Inl e
      | None \<Rightarrow> (case checkPlacement r of Some e \<Rightarrow> Inl e | None \<Rightarrow> Inr (rsID r # seen)))"

definition DesiredState_Validate :: "DesiredState \<Rightarrow> workspaceError option" where
  "DesiredState_Validate d =
     (if \<not> validID (dsWorkspaceID d) then Some WorkspaceIDRequired
      else if TrimSpace (dsRevision d) = '''' then Some RevisionRequired
      else case foldE checkResource [] (dsResources d) of Inl e \<Rightarrow> Some e | Inr _ \<Rightarrow> None)"

section \<open>Plan and evaluation\<close>

definition ActionEnsure :: string where "ActionEnsure = ''ensure''"

record ReconcileAction =
  raKind :: string
  raResource :: ResourceSpec

record ReconcilePlan =
  planActions :: "ReconcileAction list"
  planUnmanagedUnreached :: "string list"

definition idLess :: "ResourceSpec \<Rightarrow> ResourceSpec \<Rightarrow> bool" where
  "idLess i j \<longleftrightarrow> rsID i < rsID j"

definition planStep :: "ObservedState \<Rightarrow> ReconcilePlan \<Rightarrow> ResourceSpec \<Rightarrow> ReconcilePlan" where
  "planStep observed plan resource =
     (if (case map_of (osResources observed) (rsID resource) of
            Some observation \<Rightarrow> roPresent observation \<and> roReady observation | None \<Rightarrow> False)
      then plan
      else if rsOwnership resource = OwnershipExternal
      then plan\<lparr>planUnmanagedUnreached := planUnmanagedUnreached plan @ [rsID resource]\<rparr>
      else plan\<lparr>planActions := planActions plan @ [\<lparr>raKind = ActionEnsure, raResource = resource\<rparr>]\<rparr>)"

definition BuildReconcilePlan :: "DesiredState \<Rightarrow> ObservedState \<Rightarrow> ReconcilePlan" where
  "BuildReconcilePlan desired observed =
     foldl (planStep observed) \<lparr>planActions = [], planUnmanagedUnreached = []\<rparr>
       (sortBy idLess (dsResources desired))"

record ReconcileEvaluation =
  evRequiredTotal :: int
  evRequiredReached :: int
  evOptionalTotal :: int
  evOptionalReached :: int
  evMissingRequired :: "string list"
  evMissingOptional :: "string list"

definition zeroEvaluation :: ReconcileEvaluation where
  "zeroEvaluation = \<lparr>evRequiredTotal = 0, evRequiredReached = 0, evOptionalTotal = 0,
     evOptionalReached = 0, evMissingRequired = [], evMissingOptional = []\<rparr>"

definition observationAt :: "ObservedState \<Rightarrow> string \<Rightarrow> ResourceObservation" where
  "observationAt observed rid =
     (case map_of (osResources observed) rid of Some ob \<Rightarrow> ob | None \<Rightarrow> zeroObservation)"

definition evalStep :: "ObservedState \<Rightarrow> ReconcileEvaluation \<Rightarrow> ResourceSpec \<Rightarrow> ReconcileEvaluation" where
  "evalStep observed ev resource =
     (let observation = observationAt observed (rsID resource);
          reached = roPresent observation \<and> roReady observation
      in if rsRequired resource
         then let ev = ev\<lparr>evRequiredTotal := evRequiredTotal ev + 1\<rparr>
              in if reached then ev\<lparr>evRequiredReached := evRequiredReached ev + 1\<rparr>
                 else ev\<lparr>evMissingRequired := evMissingRequired ev @ [rsID resource]\<rparr>
         else let ev = ev\<lparr>evOptionalTotal := evOptionalTotal ev + 1\<rparr>
              in if reached then ev\<lparr>evOptionalReached := evOptionalReached ev + 1\<rparr>
                 else ev\<lparr>evMissingOptional := evMissingOptional ev @ [rsID resource]\<rparr>)"

definition EvaluateReconcile :: "DesiredState \<Rightarrow> ObservedState \<Rightarrow> ReconcileEvaluation" where
  "EvaluateReconcile desired observed =
     foldl (evalStep observed) zeroEvaluation (sortBy idLess (dsResources desired))"

section \<open>Validation accepts exactly the valid definitions\<close>

definition validResource :: "ResourceSpec \<Rightarrow> bool" where
  "validResource r \<longleftrightarrow>
     validID (rsID r) \<and> rsOwnership r \<in> {OwnershipManaged, OwnershipAdopted, OwnershipExternal} \<and>
     ((rsKind r = ResourceDesktopApp \<and> \<not> blank (rsDesktopAppID r)) \<or>
      (rsKind r \<in> {ResourceProcess, ResourceTerminal} \<and> \<not> blank (rsExecutable r))) \<and>
     (\<forall>p. rsPlacement r = Some p \<longrightarrow> NormalizedRect_Valid (piRect p) \<and> 0 \<le> piWorkspace p)"

definition validDesired :: "DesiredState \<Rightarrow> bool" where
  "validDesired d \<longleftrightarrow>
     validID (dsWorkspaceID d) \<and> \<not> blank (dsRevision d) \<and>
     distinct (map rsID (dsResources d)) \<and> (\<forall>r \<in> set (dsResources d). validResource r)"

lemma checkResource_Inr:
  "checkResource seen r = Inr s \<longleftrightarrow> validResource r \<and> rsID r \<notin> set seen \<and> s = rsID r # seen"
  by (auto simp: checkResource_def validResource_def checkKind_def checkPlacement_def blank_def
      resource_kind_defs split: option.splits if_splits)

lemma checkResource_loop:
  "(\<exists>s. foldE checkResource seen rs = Inr s) \<longleftrightarrow>
   (\<forall>r \<in> set rs. validResource r) \<and> distinct (map rsID rs) \<and> set (map rsID rs) \<inter> set seen = {}"
proof (induction rs arbitrary: seen)
  case (Cons r rs)
  show ?case
  proof (cases "checkResource seen r")
    case (Inl e)
    then have "\<not> (validResource r \<and> rsID r \<notin> set seen)"
      using checkResource_Inr by (metis Inr_not_Inl)
    with Inl show ?thesis by auto
  next
    case (Inr s)
    then have "validResource r \<and> rsID r \<notin> set seen \<and> s = rsID r # seen"
      by (simp add: checkResource_Inr)
    with Inr show ?thesis by (simp add: Cons.IH) blast
  qed
qed simp

text \<open>
  \<open>DesiredState.Validate\<close> accepts a workspace definition exactly when its identifier and
  revision are not blank, its resource identifiers are not blank and distinct, and every resource
  has a known ownership, a known kind with the field that kind needs, and, if it is placed, a
  rectangle inside the unit square and a workspace index that is not negative.
\<close>

lemma DesiredState_Validate_iff: "DesiredState_Validate d = None \<longleftrightarrow> validDesired d"
  using checkResource_loop [of "[]" "dsResources d"]
  by (auto simp: DesiredState_Validate_def validDesired_def blank_def split: sum.splits)

section \<open>Closed forms of the plan and the evaluation\<close>

definition reached :: "ObservedState \<Rightarrow> ResourceSpec \<Rightarrow> bool" where
  "reached observed r \<longleftrightarrow>
     (\<exists>ob. map_of (osResources observed) (rsID r) = Some ob \<and> roPresent ob \<and> roReady ob)"

lemma reached_observationAt:
  "roPresent (observationAt observed (rsID r)) \<and> roReady (observationAt observed (rsID r)) \<longleftrightarrow>
   reached observed r"
  by (auto simp: observationAt_def reached_def zeroObservation_def split: option.splits)

interpretation id_order: by_key idLess rsID
  by unfold_locales (simp add: idLess_def)

lemma planStep_reached:
  "planStep observed plan r =
     (if reached observed r then plan
      else if rsOwnership r = OwnershipExternal
      then plan\<lparr>planUnmanagedUnreached := planUnmanagedUnreached plan @ [rsID r]\<rparr>
      else plan\<lparr>planActions := planActions plan @ [\<lparr>raKind = ActionEnsure, raResource = r\<rparr>]\<rparr>)"
  by (auto simp: planStep_def reached_def split: option.splits)

lemma foldl_planStep:
  "foldl (planStep observed) plan rs =
     plan\<lparr>planActions := planActions plan @
            map (\<lambda>r. \<lparr>raKind = ActionEnsure, raResource = r\<rparr>)
              (filter (\<lambda>r. \<not> reached observed r \<and> rsOwnership r \<noteq> OwnershipExternal) rs),
          planUnmanagedUnreached := planUnmanagedUnreached plan @
            map rsID (filter (\<lambda>r. \<not> reached observed r \<and> rsOwnership r = OwnershipExternal) rs)\<rparr>"
  by (induction rs arbitrary: plan) (auto simp: planStep_reached)

lemma BuildReconcilePlan_closed:
  "BuildReconcilePlan desired observed =
     (let rs = filter (\<lambda>r. \<not> reached observed r) (sortBy idLess (dsResources desired))
      in \<lparr>planActions = map (\<lambda>r. \<lparr>raKind = ActionEnsure, raResource = r\<rparr>)
            (filter (\<lambda>r. rsOwnership r \<noteq> OwnershipExternal) rs),
          planUnmanagedUnreached = map rsID (filter (\<lambda>r. rsOwnership r = OwnershipExternal) rs)\<rparr>)"
  by (simp add: BuildReconcilePlan_def foldl_planStep conj_commute)

lemma evalStep_reached:
  "evalStep observed ev r =
     (if rsRequired r
      then ev\<lparr>evRequiredTotal := evRequiredTotal ev + 1,
              evRequiredReached := evRequiredReached ev + (if reached observed r then 1 else 0),
              evMissingRequired := evMissingRequired ev @ (if reached observed r then [] else [rsID r])\<rparr>
      else ev\<lparr>evOptionalTotal := evOptionalTotal ev + 1,
              evOptionalReached := evOptionalReached ev + (if reached observed r then 1 else 0),
              evMissingOptional := evMissingOptional ev @ (if reached observed r then [] else [rsID r])\<rparr>)"
  unfolding evalStep_def Let_def reached_observationAt by simp

lemma foldl_evalStep:
  "foldl (evalStep observed) ev rs =
     \<lparr>evRequiredTotal = evRequiredTotal ev + int (length (filter rsRequired rs)),
      evRequiredReached = evRequiredReached ev +
        int (length (filter (\<lambda>r. rsRequired r \<and> reached observed r) rs)),
      evOptionalTotal = evOptionalTotal ev + int (length (filter (\<lambda>r. \<not> rsRequired r) rs)),
      evOptionalReached = evOptionalReached ev +
        int (length (filter (\<lambda>r. \<not> rsRequired r \<and> reached observed r) rs)),
      evMissingRequired = evMissingRequired ev @
        map rsID (filter (\<lambda>r. rsRequired r \<and> \<not> reached observed r) rs),
      evMissingOptional = evMissingOptional ev @
        map rsID (filter (\<lambda>r. \<not> rsRequired r \<and> \<not> reached observed r) rs)\<rparr>"
  by (induction rs arbitrary: ev) (simp_all add: evalStep_reached)

lemma sorted_map_filter_ids: "sorted (map rsID (filter P (sortBy idLess rs)))"
  using id_order.sorted_keys [of rs] by (rule sorted_filter)

section \<open>Properties of the plan and the evaluation\<close>

text \<open>
  C32. The reconcile plan asks to ensure exactly the resources that are not observed present and
  ready and are not external; the external ones among the unreached are reported instead, never
  acted on. Both lists come in the order of the resource identifiers.
\<close>

theorem BuildReconcilePlan_exact:
  "mset (planActions (BuildReconcilePlan desired observed)) =
     image_mset (\<lambda>r. \<lparr>raKind = ActionEnsure, raResource = r\<rparr>)
       {#r \<in># mset (dsResources desired). \<not> reached observed r \<and> rsOwnership r \<noteq> OwnershipExternal#} \<and>
   mset (planUnmanagedUnreached (BuildReconcilePlan desired observed)) =
     image_mset rsID
       {#r \<in># mset (dsResources desired). \<not> reached observed r \<and> rsOwnership r = OwnershipExternal#} \<and>
   sorted (map (rsID \<circ> raResource) (planActions (BuildReconcilePlan desired observed))) \<and>
   sorted (planUnmanagedUnreached (BuildReconcilePlan desired observed))"
  unfolding BuildReconcilePlan_closed Let_def
  by (simp add: sorted_map_filter_ids comp_def conj_commute)

lemma length_filter_split:
  "length (filter P rs) = length (filter (\<lambda>r. P r \<and> Q r) rs) + length (filter (\<lambda>r. P r \<and> \<not> Q r) rs)"
  by (induction rs) auto

lemma evaluation_totals:
  "evRequiredTotal (EvaluateReconcile desired observed) =
     evRequiredReached (EvaluateReconcile desired observed) +
     int (length (evMissingRequired (EvaluateReconcile desired observed)))"
  "evOptionalTotal (EvaluateReconcile desired observed) =
     evOptionalReached (EvaluateReconcile desired observed) +
     int (length (evMissingOptional (EvaluateReconcile desired observed)))"
  using length_filter_split [of rsRequired "sortBy idLess (dsResources desired)" "reached observed"]
    length_filter_split [of "\<lambda>r. \<not> rsRequired r" "sortBy idLess (dsResources desired)" "reached observed"]
  by (simp_all add: EvaluateReconcile_def foldl_evalStep zeroEvaluation_def)

text \<open>
  The evaluation counts: the required total is the number of required resources, the reached
  and the missing ones add up to it, the missing list holds exactly the required resources that
  are not observed present and ready, in the order of their identifiers; the same for the optional
  resources.
\<close>

lemma EvaluateReconcile_exact:
  "evRequiredTotal (EvaluateReconcile desired observed) =
     evRequiredReached (EvaluateReconcile desired observed) +
     int (length (evMissingRequired (EvaluateReconcile desired observed))) \<and>
   evOptionalTotal (EvaluateReconcile desired observed) =
     evOptionalReached (EvaluateReconcile desired observed) +
     int (length (evMissingOptional (EvaluateReconcile desired observed))) \<and>
   evRequiredTotal (EvaluateReconcile desired observed) =
     int (length (filter rsRequired (dsResources desired))) \<and>
   0 \<le> evRequiredReached (EvaluateReconcile desired observed) \<and>
   mset (evMissingRequired (EvaluateReconcile desired observed)) =
     image_mset rsID {#r \<in># mset (dsResources desired). rsRequired r \<and> \<not> reached observed r#} \<and>
   mset (evMissingOptional (EvaluateReconcile desired observed)) =
     image_mset rsID {#r \<in># mset (dsResources desired). \<not> rsRequired r \<and> \<not> reached observed r#} \<and>
   sorted (evMissingRequired (EvaluateReconcile desired observed)) \<and>
   sorted (evMissingOptional (EvaluateReconcile desired observed))"
proof -
  have len: "length (filter P (sortBy idLess (dsResources desired))) = length (filter P (dsResources desired))" for P
    by (metis mset_filter mset_sortBy size_mset)
  note totals = evaluation_totals [of desired observed, unfolded EvaluateReconcile_def foldl_evalStep]
  show ?thesis
    unfolding EvaluateReconcile_def foldl_evalStep
    using totals len [of rsRequired]
    by (simp add: zeroEvaluation_def sorted_map_filter_ids)
qed

text \<open>
  Plan and evaluation do not depend on the order in which a definition lists its resources,
  as long as their identifiers are distinct.
\<close>

lemma reconcile_order_independent:
  assumes "mset (dsResources d1) = mset (dsResources d2)" and "distinct (map rsID (dsResources d1))"
  shows "BuildReconcilePlan d1 observed = BuildReconcilePlan d2 observed \<and>
    EvaluateReconcile d1 observed = EvaluateReconcile d2 observed"
proof -
  have "sortBy idLess (dsResources d1) = sortBy idLess (dsResources d2)"
    using assms by (intro id_order.sortBy_perm) (simp_all add: distinct_map)
  then show ?thesis by (simp add: BuildReconcilePlan_def EvaluateReconcile_def)
qed

text \<open>
  The plan closes the gap it sees: once every resource it asks to ensure is observed present
  and ready, and what was ready has stayed so, the only required resources still missing are the
  external ones it reported.
\<close>

lemma plan_closes_gap:
  assumes "\<And>a. a \<in> set (planActions (BuildReconcilePlan desired before)) \<Longrightarrow> reached after (raResource a)"
    and "\<And>r. r \<in> set (dsResources desired) \<Longrightarrow> reached before r \<Longrightarrow> reached after r"
  shows "set (evMissingRequired (EvaluateReconcile desired after)) \<subseteq>
    set (planUnmanagedUnreached (BuildReconcilePlan desired before))"
proof
  fix i
  assume "i \<in> set (evMissingRequired (EvaluateReconcile desired after))"
  then obtain r where r: "r \<in> set (dsResources desired)" "rsID r = i" "\<not> reached after r"
    by (auto simp: EvaluateReconcile_def foldl_evalStep zeroEvaluation_def)
  then have "\<not> reached before r" using assms(2) by blast
  moreover have "rsOwnership r = OwnershipExternal"
  proof (rule ccontr)
    assume "rsOwnership r \<noteq> OwnershipExternal"
    then have "\<lparr>raKind = ActionEnsure, raResource = r\<rparr> \<in> set (planActions (BuildReconcilePlan desired before))"
      using r \<open>\<not> reached before r\<close> by (auto simp: BuildReconcilePlan_closed Let_def)
    from assms(1) [OF this] r(3) show False by simp
  qed
  ultimately show "i \<in> set (planUnmanagedUnreached (BuildReconcilePlan desired before))"
    using r by (auto simp: BuildReconcilePlan_closed Let_def)
qed

section \<open>Witnesses\<close>

definition testResource :: "string \<Rightarrow> string \<Rightarrow> ResourceSpec" where
  "testResource rid own = \<lparr>rsID = rid, rsKind = ResourceProcess, rsRequired = True, rsOwnership = own,
     rsDesktopAppID = '''', rsExecutable = rid, rsArgs = [], rsWorkingDirectory = '''', rsPlacement = None\<rparr>"

text \<open>The desired state of \<open>TestBuildReconcilePlanIsDeterministicAndSkipsExternal\<close>.\<close>

definition testDesired :: DesiredState where
  "testDesired = \<lparr>dsWorkspaceID = ''w'', dsRevision = ''1'', dsResources =
     [testResource ''z'' OwnershipManaged, testResource ''a'' OwnershipManaged,
      testResource ''external'' OwnershipExternal]\<rparr>"

definition testObserved :: "string list \<Rightarrow> ObservedState" where
  "testObserved ready = \<lparr>osWorkspaceID = ''w'', osTopologyRevision = '''', osResources =
     map (\<lambda>i. (i, zeroObservation\<lparr>roResourceID := i, roPresent := True, roReady := True\<rparr>)) ready\<rparr>"

theorem reconcile_order_independent_witness:
  "BuildReconcilePlan testDesired (testObserved []) =
     BuildReconcilePlan (testDesired\<lparr>dsResources := rev (dsResources testDesired)\<rparr>) (testObserved []) \<and>
   map (rsID \<circ> raResource) (planActions (BuildReconcilePlan testDesired (testObserved []))) = [''a'', ''z'']"
proof
  show "BuildReconcilePlan testDesired (testObserved []) =
     BuildReconcilePlan (testDesired\<lparr>dsResources := rev (dsResources testDesired)\<rparr>) (testObserved [])"
    using reconcile_order_independent [of testDesired
        "testDesired\<lparr>dsResources := rev (dsResources testDesired)\<rparr>" "testObserved []"]
    by (simp add: testDesired_def testResource_def)
  show "map (rsID \<circ> raResource) (planActions (BuildReconcilePlan testDesired (testObserved []))) = [''a'', ''z'']"
    by code_simp
qed

theorem plan_closes_gap_witness:
  "set (evMissingRequired (EvaluateReconcile testDesired (testObserved [''a'', ''z'']))) \<subseteq>
     set (planUnmanagedUnreached (BuildReconcilePlan testDesired (testObserved [])))"
proof (rule plan_closes_gap)
  fix a
  assume "a \<in> set (planActions (BuildReconcilePlan testDesired (testObserved [])))"
  then show "reached (testObserved [''a'', ''z'']) (raResource a)"
    by (auto simp: BuildReconcilePlan_closed Let_def testDesired_def testResource_def testObserved_def
        reached_def ownership_defs)
qed (auto simp: testDesired_def testObserved_def reached_def)

end
