(* ===== verification/Reconciler.thy ===== *)
theory Reconciler
  imports WorkspaceSpec
begin

text \<open>
  \<open>internal/platform/desktop.go\<close>, \<open>internal/application/reconcile/reconciler.go\<close> and
  \<open>internal/adapters/fake/desktop.go\<close>: the interface of a desktop, the reconciler that drives
  it, and the in-memory desktop of \<open>hwsctl demo\<close> and the tests. A desktop is a record of its
  operations over a state \<open>'s\<close>; the locale \<open>desktop\<close> holds the laws that make a reconciliation
  converge, and the in-memory desktop is interpreted in it.
\<close>

section \<open>The interface\<close>

record ('s, 'e) Desktop =
  dkObserve :: "'s \<Rightarrow> DesiredState \<Rightarrow> ('e + ObservedState) \<times> 's"
  dkEnsure :: "'s \<Rightarrow> DesiredState \<Rightarrow> ResourceSpec \<Rightarrow> ('e + ResourceObservation) \<times> 's"
  dkClose :: "'s \<Rightarrow> DesiredState \<Rightarrow> ResourceSpec \<Rightarrow> ResourceObservation \<Rightarrow> 'e option \<times> 's"

section \<open>The reconciler\<close>

record 'e Failure =
  failResourceID :: string
  failCode :: string
  failErr :: 'e

record 'e Result =
  resObserved :: ObservedState
  resEvaluation :: ReconcileEvaluation
  resFailures :: "'e Failure list"

datatype 'e reconcileError =
  InvalidDesired workspaceError | ObserveBefore 'e | ObserveAfter 'e | CloseObserve 'e

definition TargetStatus :: "'e Result \<Rightarrow> string" where
  "TargetStatus r =
     (let ev = resEvaluation r
      in if evRequiredTotal ev = 0 \<or> evRequiredReached ev = evRequiredTotal ev then ''active''
         else if evRequiredReached ev > 0 then ''degraded''
         else ''failed'')"

definition FailureCode :: "'e Result \<Rightarrow> string" where
  "FailureCode r =
     (case resFailures r of
        f # _ \<Rightarrow> failCode f
      | [] \<Rightarrow> if evMissingRequired (resEvaluation r) \<noteq> [] then ''required_resource_unreached'' else '''')"

fun ensureActions ::
  "('s, 'e) Desktop \<Rightarrow> DesiredState \<Rightarrow> 's \<Rightarrow> 'e Failure list \<Rightarrow> ReconcileAction list \<Rightarrow>
   'e Failure list \<times> 's" where
  "ensureActions dk desired s failures [] = (failures, s)"
| "ensureActions dk desired s failures (a # as) =
     (if raKind a = ActionEnsure
      then (case dkEnsure dk s desired (raResource a) of
          (Inl err, s') \<Rightarrow> ensureActions dk desired s'
             (failures @ [\<lparr>failResourceID = rsID (raResource a), failCode = ''ensure_failed'', failErr = err\<rparr>]) as
        | (Inr _, s') \<Rightarrow> ensureActions dk desired s' failures as)
      else ensureActions dk desired s failures as)"

definition Reconcile ::
  "('s, 'e) Desktop \<Rightarrow> 's \<Rightarrow> DesiredState \<Rightarrow> ('e reconcileError + 'e Result) \<times> 's" where
  "Reconcile dk s desired =
     (case DesiredState_Validate desired of
        Some e \<Rightarrow> (Inl (InvalidDesired e), s)
      | None \<Rightarrow>
        (case dkObserve dk s desired of
          (Inl e, s1) \<Rightarrow> (Inl (ObserveBefore e), s1)
        | (Inr before, s1) \<Rightarrow>
          (case ensureActions dk desired s1 [] (planActions (BuildReconcilePlan desired before)) of
            (failures, s2) \<Rightarrow>
            (case dkObserve dk s2 desired of
              (Inl e, s3) \<Rightarrow> (Inl (ObserveAfter e), s3)
            | (Inr after, s3) \<Rightarrow>
                (Inr \<lparr>resObserved = after, resEvaluation = EvaluateReconcile desired after,
                      resFailures = failures\<rparr>, s3)))))"

fun closeResources ::
  "('s, 'e) Desktop \<Rightarrow> DesiredState \<Rightarrow> ObservedState \<Rightarrow> 's \<Rightarrow> 'e Failure list \<Rightarrow> ResourceSpec list \<Rightarrow>
   'e Failure list \<times> 's" where
  "closeResources dk desired observed s failures [] = (failures, s)"
| "closeResources dk desired observed s failures (r # rs) =
     (if rsOwnership r \<noteq> OwnershipManaged then closeResources dk desired observed s failures rs
      else case map_of (osResources observed) (rsID r) of
        None \<Rightarrow> closeResources dk desired observed s failures rs
      | Some observation \<Rightarrow>
          if \<not> roPresent observation then closeResources dk desired observed s failures rs
          else case dkClose dk s desired r observation of
            (Some err, s') \<Rightarrow> closeResources dk desired observed s'
               (failures @ [\<lparr>failResourceID = rsID r, failCode = ''close_failed'', failErr = err\<rparr>]) rs
          | (None, s') \<Rightarrow> closeResources dk desired observed s' failures rs)"

definition CloseManaged ::
  "('s, 'e) Desktop \<Rightarrow> 's \<Rightarrow> DesiredState \<Rightarrow> ('e reconcileError + 'e Failure list) \<times> 's" where
  "CloseManaged dk s desired =
     (case DesiredState_Validate desired of
        Some e \<Rightarrow> (Inl (InvalidDesired e), s)
      | None \<Rightarrow>
        (case dkObserve dk s desired of
          (Inl e, s1) \<Rightarrow> (Inl (CloseObserve e), s1)
        | (Inr observed, s1) \<Rightarrow>
            (case closeResources dk desired observed s1 [] (dsResources desired) of
               (failures, s2) \<Rightarrow> (Inr failures, s2))))"

section \<open>What holds for every desktop\<close>

lemma Reconcile_Inr:
  "Reconcile dk s desired = (Inr res, s') \<Longrightarrow>
   DesiredState_Validate desired = None \<and>
   (\<exists>before s1 s2. dkObserve dk s desired = (Inr before, s1) \<and>
      ensureActions dk desired s1 [] (planActions (BuildReconcilePlan desired before)) = (resFailures res, s2) \<and>
      dkObserve dk s2 desired = (Inr (resObserved res), s') \<and>
      resEvaluation res = EvaluateReconcile desired (resObserved res))"
  by (auto simp: Reconcile_def split: option.splits prod.splits sum.splits)

lemma required_reached_total:
  "evRequiredReached (EvaluateReconcile desired observed) = evRequiredTotal (EvaluateReconcile desired observed) \<longleftrightarrow>
   (\<forall>r \<in> set (dsResources desired). rsRequired r \<longrightarrow> reached observed r)"
  using evaluation_totals [of desired observed]
  by (auto simp: EvaluateReconcile_def foldl_evalStep zeroEvaluation_def filter_empty_conv)

lemma required_reached_pos:
  "0 < evRequiredReached (EvaluateReconcile desired observed) \<longleftrightarrow>
   (\<exists>r \<in> set (dsResources desired). rsRequired r \<and> reached observed r)"
  by (auto simp: EvaluateReconcile_def foldl_evalStep zeroEvaluation_def filter_empty_conv)

lemma required_total_zero:
  "evRequiredTotal (EvaluateReconcile desired observed) = 0 \<longleftrightarrow>
   (\<forall>r \<in> set (dsResources desired). \<not> rsRequired r)"
  by (auto simp: EvaluateReconcile_def foldl_evalStep zeroEvaluation_def filter_empty_conv)


lemma ensureActions_cong:
  assumes "\<And>s a. a \<in> set as \<Longrightarrow> dkEnsure dk s desired (raResource a) = dkEnsure dk' s desired (raResource a)"
  shows "ensureActions dk desired s failures as = ensureActions dk' desired s failures as"
  using assms
proof (induction as arbitrary: s failures)
  case (Cons a as)
  have "dkEnsure dk s desired (raResource a) = dkEnsure dk' s desired (raResource a)"
    using Cons.prems by simp
  moreover have "ensureActions dk desired s' fs as = ensureActions dk' desired s' fs as" for s' fs
    by (rule Cons.IH) (use Cons.prems in simp)
  ultimately show ?case by (simp split: sum.splits prod.splits)
qed simp

text \<open>
  Reconciliation never acts on an external resource: its result and its effect are the same
  for two desktops that differ only in what \<open>Ensure\<close> does to external resources.
\<close>

lemma Reconcile_ignores_external:
  assumes "\<And>s r. rsOwnership r \<noteq> OwnershipExternal \<Longrightarrow> dkEnsure dk s desired r = dkEnsure dk' s desired r"
    and "dkObserve dk = dkObserve dk'"
  shows "Reconcile dk s desired = Reconcile dk' s desired"
proof -
  have "ensureActions dk desired s1 [] (planActions (BuildReconcilePlan desired before)) =
        ensureActions dk' desired s1 [] (planActions (BuildReconcilePlan desired before))" for s1 before
    by (rule ensureActions_cong) (auto simp: BuildReconcilePlan_closed Let_def assms(1))
  then show ?thesis
    by (simp add: Reconcile_def assms(2) split: option.split prod.split sum.split)
qed

lemma closeResources_cong:
  assumes "\<And>s r ob. rsOwnership r = OwnershipManaged \<Longrightarrow> roPresent ob \<Longrightarrow>
      dkClose dk s desired r ob = dkClose dk' s desired r ob"
  shows "closeResources dk desired observed s failures rs = closeResources dk' desired observed s failures rs"
  by (induction rs arbitrary: s failures) (simp_all add: assms split: option.splits prod.splits)

text \<open>
  Closing a workspace touches only resources that its definition owns as managed and that are
  observed present: the outcome is the same for two desktops that differ only in what \<open>Close\<close>
  does to adopted, external or absent resources.
\<close>

lemma CloseManaged_only_managed:
  assumes "\<And>s r ob. rsOwnership r = OwnershipManaged \<Longrightarrow> roPresent ob \<Longrightarrow>
      dkClose dk s desired r ob = dkClose dk' s desired r ob"
    and "dkObserve dk = dkObserve dk'"
  shows "CloseManaged dk s desired = CloseManaged dk' s desired"
  using closeResources_cong [of dk desired dk', OF assms(1)]
  by (simp add: CloseManaged_def assms(2) split: option.split prod.split sum.split)

section \<open>The laws of a desktop\<close>

text \<open>
  \<open>view s w i\<close> is what the desktop holds of resource \<open>i\<close> of workspace \<open>w\<close>. A desktop reports
  its view, an \<open>Ensure\<close> that succeeds makes the resource present and ready and changes nothing
  else, and \<open>Close\<close> removes nothing but a managed resource whose observation is managed too.
\<close>

locale desktop =
  fixes dk :: "('s, 'e) Desktop"
    and view :: "'s \<Rightarrow> string \<Rightarrow> string \<Rightarrow> ResourceObservation option"
  assumes observe_ok: "dkObserve dk s d = (Inr st, s') \<Longrightarrow>
      map_of (osResources st) = view s (dsWorkspaceID d) \<and> view s' = view s"
    and observe_err: "dkObserve dk s d = (Inl e, s') \<Longrightarrow> view s' = view s"
    and ensure_ok: "dkEnsure dk s d r = (Inr ob, s') \<Longrightarrow> roPresent ob \<and> roReady ob \<and>
      view s' = (view s)(dsWorkspaceID d := (view s (dsWorkspaceID d))(rsID r \<mapsto> ob))"
    and ensure_err: "dkEnsure dk s d r = (Inl e, s') \<Longrightarrow> view s' = view s"
    and close_keeps: "dkClose dk s d r ob = (res, s') \<Longrightarrow>
      (w, i) \<noteq> (dsWorkspaceID d, rsID r) \<or> rsOwnership r \<noteq> OwnershipManaged \<or>
      roOwnership ob \<noteq> OwnershipManaged \<Longrightarrow> view s' w i = view s w i"
begin

definition holds :: "'s \<Rightarrow> string \<Rightarrow> ResourceSpec \<Rightarrow> bool" where
  "holds s w r \<longleftrightarrow> (\<exists>ob. view s w (rsID r) = Some ob \<and> roPresent ob \<and> roReady ob)"

lemma observed_holds: "dkObserve dk s d = (Inr ob, s') \<Longrightarrow> reached ob r \<longleftrightarrow> holds s (dsWorkspaceID d) r"
  using observe_ok [of s d ob s'] by (simp add: reached_def holds_def)

lemma ensureActions_laws:
  "ensureActions dk d s failures as = (failures', s') \<Longrightarrow>
   (\<forall>r. holds s (dsWorkspaceID d) r \<longrightarrow> holds s' (dsWorkspaceID d) r) \<and> prefix failures failures' \<and>
   (failures' = failures \<longrightarrow> (\<forall>a \<in> set as. raKind a = ActionEnsure \<longrightarrow> holds s' (dsWorkspaceID d) (raResource a)))"
proof (induction as arbitrary: s failures)
  case (Cons a as)
  show ?case
  proof (cases "raKind a = ActionEnsure")
    case False
    with Cons.prems have run: "ensureActions dk d s failures as = (failures', s')" by simp
    show ?thesis using Cons.IH [OF run] False by auto
  next
    case ensure: True
    obtain out s1 where out: "dkEnsure dk s d (raResource a) = (out, s1)" by fastforce
    show ?thesis
    proof (cases out)
      case (Inl err)
      with Cons.prems ensure out
      have run: "ensureActions dk d s1 (failures @ [\<lparr>failResourceID = rsID (raResource a),
          failCode = ''ensure_failed'', failErr = err\<rparr>]) as = (failures', s')" by simp
      moreover have "view s1 = view s" using out Inl ensure_err by blast
      ultimately show ?thesis
        using Cons.IH [OF run] by (auto simp: holds_def prefix_def)
    next
      case (Inr ob)
      with Cons.prems ensure out
      have run: "ensureActions dk d s1 failures as = (failures', s')" by simp
      have "holds s1 (dsWorkspaceID d) r" if "holds s (dsWorkspaceID d) r \<or> r = raResource a" for r
        using that out Inr ensure_ok [of s d "raResource a" ob s1] by (auto simp: holds_def)
      then show ?thesis using Cons.IH [OF run] by auto
    qed
  qed
qed simp

text \<open>A reconciliation without failures leaves nothing to do but what is external.\<close>

lemma reconcile_converges:
  assumes run: "Reconcile dk s desired = (Inr res, s')" and "resFailures res = []"
  shows "planActions (BuildReconcilePlan desired (resObserved res)) = []"
    and "\<And>r. r \<in> set (dsResources desired) \<Longrightarrow> rsOwnership r \<noteq> OwnershipExternal \<Longrightarrow> reached (resObserved res) r"
proof -
  from Reconcile_Inr [OF run] assms(2) obtain before s1 s2
    where before: "dkObserve dk s desired = (Inr before, s1)"
      and acts: "ensureActions dk desired s1 [] (planActions (BuildReconcilePlan desired before)) = ([], s2)"
      and after: "dkObserve dk s2 desired = (Inr (resObserved res), s')"
    by auto
  have s1: "holds s1 = holds s" using observe_ok [OF before] by (simp add: holds_def fun_eq_iff)
  show *: "reached (resObserved res) r"
    if r: "r \<in> set (dsResources desired)" "rsOwnership r \<noteq> OwnershipExternal" for r
  proof (cases "reached before r")
    case True
    then show ?thesis
      using ensureActions_laws [OF acts] s1 observed_holds [OF before] observed_holds [OF after] by auto
  next
    case False
    then have "\<lparr>raKind = ActionEnsure, raResource = r\<rparr> \<in> set (planActions (BuildReconcilePlan desired before))"
      using r by (auto simp: BuildReconcilePlan_closed Let_def)
    then show ?thesis
      using ensureActions_laws [OF acts] observed_holds [OF after] by fastforce
  qed
  then show "planActions (BuildReconcilePlan desired (resObserved res)) = []"
    by (auto simp: BuildReconcilePlan_closed Let_def filter_empty_conv)
qed

text \<open>Closing keeps every resource that is not a managed one of this definition.\<close>

lemma closeResources_keeps:
  assumes "closeResources dk d observed s failures rs = (failures', s')"
    and "w \<noteq> dsWorkspaceID d \<or> (\<forall>r \<in> set rs. rsID r = i \<longrightarrow> rsOwnership r \<noteq> OwnershipManaged) \<or>
      (\<forall>ob. map_of (osResources observed) i = Some ob \<longrightarrow> roOwnership ob \<noteq> OwnershipManaged)"
  shows "view s' w i = view s w i"
  using assms
proof (induction rs arbitrary: s failures)
  case (Cons r rs)
  show ?case
  proof (cases "\<exists>ob. rsOwnership r = OwnershipManaged \<and> map_of (osResources observed) (rsID r) = Some ob \<and> roPresent ob")
    case False
    with Cons show ?thesis by (fastforce split: option.splits if_splits)
  next
    case True
    then obtain ob where ob: "rsOwnership r = OwnershipManaged"
      "map_of (osResources observed) (rsID r) = Some ob" "roPresent ob" by blast
    obtain out s1 where out: "dkClose dk s d r ob = (out, s1)" by fastforce
    with ob Cons.prems(1) obtain fs where "closeResources dk d observed s1 fs rs = (failures', s')"
      by (auto split: option.splits)
    moreover have "view s1 w i = view s w i"
      using close_keeps [OF out, of w i] ob Cons.prems(2) by auto
    ultimately show ?thesis using Cons.IH Cons.prems(2) by fastforce
  qed
qed simp

lemma closeManaged_keeps:
  assumes "CloseManaged dk s d = (Inr failures, s')"
    and "w \<noteq> dsWorkspaceID d \<or> (\<forall>r \<in> set (dsResources d). rsID r = i \<longrightarrow> rsOwnership r \<noteq> OwnershipManaged) \<or>
      (\<forall>ob. view s (dsWorkspaceID d) i = Some ob \<longrightarrow> roOwnership ob \<noteq> OwnershipManaged)"
  shows "view s' w i = view s w i"
proof -
  from assms(1) obtain observed s1 where obs: "dkObserve dk s d = (Inr observed, s1)"
    and close: "closeResources dk d observed s1 [] (dsResources d) = (failures, s')"
    by (auto simp: CloseManaged_def split: option.splits prod.splits sum.splits)
  then show ?thesis
    using closeResources_keeps [OF close, of w i] assms(2) observe_ok [OF obs] by auto
qed

end

end
