(* ===== verification/FakeDesktop.thy ===== *)
theory FakeDesktop
  imports Reconciler
begin

text \<open>
  \<open>internal/adapters/fake/desktop.go\<close>: the in-memory desktop with injected failures, an
  interpretation of the locale \<open>desktop\<close>. An operation under the mutex is one step on the
  record of the maps; an error is its message.
\<close>

record FakeState =
  fdResources :: "(string, (string, ResourceObservation) gomap) gomap"
  fdEnsureFailures :: "(string, int) gomap"
  fdEnsureAttempts :: "(string, int) gomap"
  fdTopologyRevision :: string
  fdObserveFailure :: "string option"

definition NewDesktop :: FakeState where
  "NewDesktop = \<lparr>fdResources = [], fdEnsureFailures = [], fdEnsureAttempts = [],
     fdTopologyRevision = ''fake-topology-v1'', fdObserveFailure = None\<rparr>"

definition FailEnsure :: "string \<Rightarrow> int \<Rightarrow> FakeState \<Rightarrow> FakeState" where
  "FailEnsure i attempts d = d\<lparr>fdEnsureFailures := put i attempts (fdEnsureFailures d)\<rparr>"

definition FailObserve :: "string option \<Rightarrow> FakeState \<Rightarrow> FakeState" where
  "FailObserve err d = d\<lparr>fdObserveFailure := err\<rparr>"

text \<open>Reading an absent key of a map of integers gives 0.\<close>

definition intAt :: "(string, int) gomap \<Rightarrow> string \<Rightarrow> int" where
  "intAt m k = (case map_of m k of Some n \<Rightarrow> n | None \<Rightarrow> 0)"

definition EnsureAttempts :: "string \<Rightarrow> FakeState \<Rightarrow> int" where
  "EnsureAttempts i d = intAt (fdEnsureAttempts d) i"

text \<open>The inner map of a workspace, created and stored when it is missing.\<close>

definition ensureWorkspace :: "string \<Rightarrow> FakeState \<Rightarrow> (string, ResourceObservation) gomap \<times> FakeState" where
  "ensureWorkspace w d =
     (case map_of (fdResources d) w of
        Some resources \<Rightarrow> (resources, d)
      | None \<Rightarrow> ([], d\<lparr>fdResources := put w [] (fdResources d)\<rparr>))"

definition Seed :: "string \<Rightarrow> ResourceObservation \<Rightarrow> FakeState \<Rightarrow> FakeState" where
  "Seed w ob d =
     (case ensureWorkspace w d of
        (resources, d') \<Rightarrow> d'\<lparr>fdResources := put w (put (roResourceID ob) ob resources) (fdResources d')\<rparr>)"

definition fakeObserve :: "FakeState \<Rightarrow> DesiredState \<Rightarrow> (string + ObservedState) \<times> FakeState" where
  "fakeObserve d desired =
     (case fdObserveFailure d of
        Some err \<Rightarrow> (Inl err, d)
      | None \<Rightarrow>
          (case ensureWorkspace (dsWorkspaceID desired) d of
             (resources, d') \<Rightarrow>
               (Inr \<lparr>osWorkspaceID = dsWorkspaceID desired, osTopologyRevision = fdTopologyRevision d',
                     osResources = resources\<rparr>, d')))"

definition fakeEnsure ::
  "FakeState \<Rightarrow> DesiredState \<Rightarrow> ResourceSpec \<Rightarrow> (string + ResourceObservation) \<times> FakeState" where
  "fakeEnsure d desired resource =
     (let i = rsID resource;
          d1 = d\<lparr>fdEnsureAttempts := put i (wrap64 (intAt (fdEnsureAttempts d) i + 1)) (fdEnsureAttempts d)\<rparr>;
          remaining = intAt (fdEnsureFailures d1) i
      in if remaining > 0
         then (Inl (''fake desktop: injected ensure failure for '' @ i),
               d1\<lparr>fdEnsureFailures := put i (wrap64 (remaining - 1)) (fdEnsureFailures d1)\<rparr>)
         else let ob = zeroObservation\<lparr>roResourceID := i, roPresent := True, roReady := True,
                    roOwnership := rsOwnership resource,
                    roSessionRef := ''fake:'' @ dsWorkspaceID desired @ '':'' @ i,
                    roAppID := rsDesktopAppID resource\<rparr>
              in case ensureWorkspace (dsWorkspaceID desired) d1 of
                   (resources, d2) \<Rightarrow>
                     (Inr ob, d2\<lparr>fdResources := put (dsWorkspaceID desired) (put i ob resources) (fdResources d2)\<rparr>))"

definition fakeClose ::
  "FakeState \<Rightarrow> DesiredState \<Rightarrow> ResourceSpec \<Rightarrow> ResourceObservation \<Rightarrow> string option \<times> FakeState" where
  "fakeClose d desired resource observed =
     (if rsOwnership resource \<noteq> OwnershipManaged \<or> roOwnership observed \<noteq> OwnershipManaged then (None, d)
      else case ensureWorkspace (dsWorkspaceID desired) d of
        (resources, d') \<Rightarrow>
          (None, d'\<lparr>fdResources := put (dsWorkspaceID desired) (del (rsID resource) resources) (fdResources d')\<rparr>))"

definition fakeDesktop :: "(FakeState, string) Desktop" where
  "fakeDesktop = \<lparr>dkObserve = fakeObserve, dkEnsure = fakeEnsure, dkClose = fakeClose\<rparr>"

definition fakeView :: "FakeState \<Rightarrow> string \<Rightarrow> string \<Rightarrow> ResourceObservation option" where
  "fakeView d w i = (case map_of (fdResources d) w of Some resources \<Rightarrow> map_of resources i | None \<Rightarrow> None)"

section \<open>The in-memory desktop obeys the laws\<close>

lemma ensureWorkspace_view:
  assumes "ensureWorkspace w d = (resources, d')"
  shows "fakeView d' = fakeView d" and "map_of resources = fakeView d w"
    and "fdEnsureFailures d' = fdEnsureFailures d" and "fdObserveFailure d' = fdObserveFailure d"
  using assms by (auto simp: ensureWorkspace_def fakeView_def fun_eq_iff split: option.splits if_splits)

lemma fakeView_put:
  "fakeView (d\<lparr>fdResources := put w m (fdResources d)\<rparr>) = (fakeView d)(w := map_of m)"
  by (auto simp: fakeView_def fun_eq_iff)

lemma fakeView_other [simp]:
  "fakeView (d\<lparr>fdEnsureAttempts := x\<rparr>) = fakeView d" "fakeView (d\<lparr>fdEnsureFailures := y\<rparr>) = fakeView d"
  by (simp_all add: fakeView_def fun_eq_iff)

lemma fakeObserve_Inr:
  assumes "fakeObserve d desired = (Inr st, d')"
  shows "map_of (osResources st) = fakeView d (dsWorkspaceID desired) \<and> fakeView d' = fakeView d \<and>
    fdEnsureFailures d' = fdEnsureFailures d \<and> fdObserveFailure d' = None \<and> fdObserveFailure d = None"
proof -
  obtain m d1 where m: "ensureWorkspace (dsWorkspaceID desired) d = (m, d1)" by fastforce
  then show ?thesis
    using assms ensureWorkspace_view [OF m] by (auto simp: fakeObserve_def split: option.splits)
qed

lemma fakeEnsure_Inr:
  assumes "fakeEnsure d desired r = (Inr ob, d')"
  shows "roPresent ob \<and> roReady ob \<and> fdEnsureFailures d' = fdEnsureFailures d \<and>
    fdObserveFailure d' = fdObserveFailure d \<and>
    fakeView d' = (fakeView d)(dsWorkspaceID desired := (fakeView d (dsWorkspaceID desired))(rsID r \<mapsto> ob))"
proof -
  define d1 where
    "d1 = d\<lparr>fdEnsureAttempts := put (rsID r) (wrap64 (intAt (fdEnsureAttempts d) (rsID r) + 1)) (fdEnsureAttempts d)\<rparr>"
  obtain m d2 where m: "ensureWorkspace (dsWorkspaceID desired) d1 = (m, d2)" by fastforce
  have "ob = zeroObservation\<lparr>roResourceID := rsID r, roPresent := True, roReady := True,
         roOwnership := rsOwnership r, roSessionRef := ''fake:'' @ dsWorkspaceID desired @ '':'' @ rsID r,
         roAppID := rsDesktopAppID r\<rparr>"
    and d': "d' = d2\<lparr>fdResources := put (dsWorkspaceID desired) (put (rsID r) ob m) (fdResources d2)\<rparr>"
    using assms m by (auto simp: fakeEnsure_def Let_def d1_def split: if_splits)
  then have "roPresent ob" "roReady ob" by simp_all
  moreover have "fakeView d' = (fakeView d)(dsWorkspaceID desired := (fakeView d (dsWorkspaceID desired))(rsID r \<mapsto> ob))"
    using ensureWorkspace_view [OF m] by (simp add: d' fakeView_put) (simp add: d1_def)
  ultimately show ?thesis
    using ensureWorkspace_view [OF m] by (simp add: d' d1_def)
qed

lemma fakeEnsure_Inl: "fakeEnsure d desired r = (Inl e, d') \<Longrightarrow> fakeView d' = fakeView d"
  by (auto simp: fakeEnsure_def Let_def split: if_splits prod.splits)

lemma fakeClose_keeps:
  assumes "fakeClose d desired r ob = (res, d')"
    and "(w, i) \<noteq> (dsWorkspaceID desired, rsID r) \<or> rsOwnership r \<noteq> OwnershipManaged \<or>
      roOwnership ob \<noteq> OwnershipManaged"
  shows "fakeView d' w i = fakeView d w i"
proof -
  obtain m d1 where m: "ensureWorkspace (dsWorkspaceID desired) d = (m, d1)" by fastforce
  then show ?thesis
    using assms ensureWorkspace_view [OF m]
    by (auto simp: fakeClose_def fakeView_put split: if_splits)
qed

lemma fakeObserve_Inl: "fakeObserve d desired = (Inl e, d') \<Longrightarrow> d' = d"
  by (auto simp: fakeObserve_def split: option.splits prod.splits)

interpretation fd: desktop fakeDesktop fakeView
proof unfold_locales
  fix s d st s' assume "dkObserve fakeDesktop s d = (Inr st, s')"
  then show "map_of (osResources st) = fakeView s (dsWorkspaceID d) \<and> fakeView s' = fakeView s"
    using fakeObserve_Inr [of s d st s'] by (simp add: fakeDesktop_def)
next
  fix s d e s' assume "dkObserve fakeDesktop s d = (Inl e, s')"
  then show "fakeView s' = fakeView s"
    using fakeObserve_Inl [of s d e s'] by (simp add: fakeDesktop_def)
next
  fix s d r ob s' assume "dkEnsure fakeDesktop s d r = (Inr ob, s')"
  then show "roPresent ob \<and> roReady ob \<and>
      fakeView s' = (fakeView s)(dsWorkspaceID d := (fakeView s (dsWorkspaceID d))(rsID r \<mapsto> ob))"
    using fakeEnsure_Inr [of s d r ob s'] by (simp add: fakeDesktop_def)
next
  fix s d r e s' assume "dkEnsure fakeDesktop s d r = (Inl e, s')"
  then show "fakeView s' = fakeView s"
    using fakeEnsure_Inl [of s d r e s'] by (simp add: fakeDesktop_def)
next
  fix s d r ob res s' w i
  assume "dkClose fakeDesktop s d r ob = (res, s')"
    "(w, i) \<noteq> (dsWorkspaceID d, rsID r) \<or> rsOwnership r \<noteq> OwnershipManaged \<or> roOwnership ob \<noteq> OwnershipManaged"
  then show "fakeView s' w i = fakeView s w i"
    using fakeClose_keeps [of s d r ob res s' w i] by (simp add: fakeDesktop_def)
qed

section \<open>Without injected failures a reconciliation succeeds\<close>

lemma ensureActions_fake:
  assumes "\<forall>a \<in> set as. intAt (fdEnsureFailures d) (rsID (raResource a)) \<le> 0"
    and "fdObserveFailure d = None"
  shows "\<exists>d'. ensureActions fakeDesktop desired d fs as = (fs, d') \<and> fdObserveFailure d' = None"
  using assms
proof (induction as arbitrary: d)
  case (Cons a as)
  show ?case
  proof (cases "raKind a = ActionEnsure")
    case True
    obtain out d1 where out: "fakeEnsure d desired (raResource a) = (out, d1)" by fastforce
    with Cons.prems(1) obtain ob where ob: "out = Inr ob"
      by (auto simp: fakeEnsure_def Let_def split: if_splits prod.splits)
    have "\<exists>d'. ensureActions fakeDesktop desired d1 fs as = (fs, d') \<and> fdObserveFailure d' = None"
      by (rule Cons.IH) (use Cons.prems fakeEnsure_Inr [OF out [unfolded ob]] in auto)
    with True out ob show ?thesis by (auto simp: fakeDesktop_def)
  qed (use Cons in auto)
qed simp

lemma fakeObserve_ok:
  "fdObserveFailure d = None \<Longrightarrow> \<exists>st d'. fakeObserve d desired = (Inr st, d')"
  by (auto simp: fakeObserve_def split: prod.splits)

text \<open>
  C17. On the in-memory desktop, when no failure is injected for the resources of a valid definition, a
  reconciliation returns without failures and with every resource that is not external reached, required
  or not, and leaves nothing to do: reconciling the state it observed gives an empty plan of actions. The
  workspace is then active exactly when its required external resources are there, which the desktop
  never creates; in particular when it has none.
\<close>

theorem fake_reconcile_converges:
  assumes "DesiredState_Validate desired = None"
    and "fdObserveFailure d = None"
    and "\<And>r. r \<in> set (dsResources desired) \<Longrightarrow> intAt (fdEnsureFailures d) (rsID r) \<le> 0"
  shows "\<exists>res d'. Reconcile fakeDesktop d desired = (Inr res, d') \<and> resFailures res = [] \<and>
    (\<forall>r \<in> set (dsResources desired). rsOwnership r \<noteq> OwnershipExternal \<longrightarrow> reached (resObserved res) r) \<and>
    planActions (BuildReconcilePlan desired (resObserved res)) = [] \<and>
    (TargetStatus res = ''active'' \<longleftrightarrow>
      (\<forall>r \<in> set (dsResources desired). rsRequired r \<and> rsOwnership r = OwnershipExternal \<longrightarrow> reached (resObserved res) r)) \<and>
    (TargetStatus res = ''active'' \<longrightarrow> FailureCode res = '''')"
proof -
  obtain before d1 where before: "fakeObserve d desired = (Inr before, d1)"
    using fakeObserve_ok [OF assms(2)] by blast
  let ?acts = "planActions (BuildReconcilePlan desired before)"
  have "\<forall>a \<in> set ?acts. intAt (fdEnsureFailures d1) (rsID (raResource a)) \<le> 0"
    using assms(3) fakeObserve_Inr [OF before] by (auto simp: BuildReconcilePlan_closed Let_def)
  then obtain d2 where d2: "ensureActions fakeDesktop desired d1 [] ?acts = ([], d2)"
    "fdObserveFailure d2 = None"
    using ensureActions_fake fakeObserve_Inr [OF before] by blast
  obtain after d3 where after: "fakeObserve d2 desired = (Inr after, d3)"
    using fakeObserve_ok [OF d2(2)] by blast
  define res where "res = \<lparr>resObserved = after, resEvaluation = EvaluateReconcile desired after, resFailures = [] :: string Failure list\<rparr>"
  have run: "Reconcile fakeDesktop d desired = (Inr res, d3)"
    using assms(1) before d2(1) after by (simp add: Reconcile_def fakeDesktop_def res_def)
  have none: "resFailures res = []" by (simp add: res_def)
  note conv = fd.reconcile_converges [OF run none]
  have active: "TargetStatus res = ''active'' \<longleftrightarrow> (\<forall>r \<in> set (dsResources desired). rsRequired r \<longrightarrow> reached after r)"
    by (auto simp: TargetStatus_def Let_def res_def required_reached_total required_total_zero)
  have "evMissingRequired (EvaluateReconcile desired after) = []" if "TargetStatus res = ''active''"
    using that active evaluation_totals [of desired after]
    by (auto simp: EvaluateReconcile_def foldl_evalStep zeroEvaluation_def filter_empty_conv)
  then have code: "TargetStatus res = ''active'' \<longrightarrow> FailureCode res = ''''"
    by (auto simp: FailureCode_def res_def)
  have "TargetStatus res = ''active'' \<longleftrightarrow>
      (\<forall>r \<in> set (dsResources desired). rsRequired r \<and> rsOwnership r = OwnershipExternal \<longrightarrow> reached (resObserved res) r)"
    unfolding active using conv(2) by (auto simp: res_def)
  with run none conv code show ?thesis by blast
qed

text \<open>
  C33. Closing a workspace on the in-memory desktop removes no resource that the user or another
  program owns: whatever the definition does not own as managed, whatever was adopted or external
  when it was observed, and every resource of another workspace is still there, unchanged.
\<close>

theorem fake_close_keeps_foreign:
  assumes "CloseManaged fakeDesktop d desired = (Inr failures, d')"
    and "w \<noteq> dsWorkspaceID desired \<or>
      (\<forall>r \<in> set (dsResources desired). rsID r = i \<longrightarrow> rsOwnership r \<noteq> OwnershipManaged) \<or>
      (\<forall>ob. fakeView d (dsWorkspaceID desired) i = Some ob \<longrightarrow> roOwnership ob \<noteq> OwnershipManaged)"
  shows "fakeView d' w i = fakeView d w i"
  by (rule fd.closeManaged_keeps [OF assms])

section \<open>Sample inputs\<close>

definition sampleResource :: "string \<Rightarrow> string \<Rightarrow> ResourceSpec" where
  "sampleResource i ownership = \<lparr>rsID = i, rsKind = ''process'', rsRequired = True, rsOwnership = ownership,
     rsDesktopAppID = '''', rsExecutable = ''/bin/sh'', rsArgs = [], rsWorkingDirectory = '''', rsPlacement = None\<rparr>"

definition sampleDesired :: DesiredState where
  "sampleDesired = \<lparr>dsWorkspaceID = ''w'', dsRevision = ''1'',
     dsResources = [sampleResource ''b'' ''managed'', sampleResource ''a'' ''adopted'']\<rparr>"

definition sampleExternal :: DesiredState where
  "sampleExternal = sampleDesired\<lparr>dsResources := [sampleResource ''b'' ''managed'', sampleResource ''x'' ''external'']\<rparr>"

definition failingEnsure :: "(FakeState, string) Desktop" where
  "failingEnsure = fakeDesktop\<lparr>dkEnsure := \<lambda>d desired r.
     if rsOwnership r = OwnershipExternal then (Inl ''refused'', d) else fakeEnsure d desired r\<rparr>"

definition failingClose :: "(FakeState, string) Desktop" where
  "failingClose = fakeDesktop\<lparr>dkClose := \<lambda>d desired r ob.
     if rsOwnership r = OwnershipManaged \<and> roPresent ob then fakeClose d desired r ob else (Some ''refused'', d)\<rparr>"

lemma fake_reconcile_converges_witness:
  "\<exists>res d'. Reconcile fakeDesktop NewDesktop sampleExternal = (Inr res, d') \<and> resFailures res = [] \<and>
    reached (resObserved res) (sampleResource ''b'' ''managed'') \<and>
    planActions (BuildReconcilePlan sampleExternal (resObserved res)) = [] \<and> TargetStatus res = ''degraded''"
proof -
  have "DesiredState_Validate sampleExternal = None" by code_simp
  moreover have "fdObserveFailure NewDesktop = None" by code_simp
  moreover have "intAt (fdEnsureFailures NewDesktop) (rsID r) \<le> 0" for r
    by (simp add: NewDesktop_def intAt_def)
  ultimately obtain res d' where res: "Reconcile fakeDesktop NewDesktop sampleExternal = (Inr res, d')" "resFailures res = []"
    "\<forall>r \<in> set (dsResources sampleExternal). rsOwnership r \<noteq> OwnershipExternal \<longrightarrow> reached (resObserved res) r"
    "planActions (BuildReconcilePlan sampleExternal (resObserved res)) = []"
    using fake_reconcile_converges [of sampleExternal NewDesktop] by blast
  have "case fst (Reconcile fakeDesktop NewDesktop sampleExternal) of Inr res \<Rightarrow> TargetStatus res = ''degraded'' | Inl _ \<Rightarrow> False"
    by code_simp
  with res show ?thesis
    by (auto simp: sampleExternal_def sampleResource_def ownership_defs)
qed

lemma fake_close_keeps_foreign_witness:
  "fst (CloseManaged fakeDesktop (snd (Reconcile fakeDesktop NewDesktop sampleDesired)) sampleDesired) = Inr [] \<and>
   fakeView (snd (CloseManaged fakeDesktop (snd (Reconcile fakeDesktop NewDesktop sampleDesired)) sampleDesired)) ''w'' ''a'' =
   fakeView (snd (Reconcile fakeDesktop NewDesktop sampleDesired)) ''w'' ''a''"
proof -
  let ?d = "snd (Reconcile fakeDesktop NewDesktop sampleDesired)"
  let ?c = "CloseManaged fakeDesktop ?d sampleDesired"
  have inr: "fst ?c = Inr []" by code_simp
  then have "?c = (Inr [], snd ?c)" by (metis prod.collapse)
  then have "fakeView (snd ?c) ''w'' ''a'' = fakeView ?d ''w'' ''a''"
    by (rule fake_close_keeps_foreign) (auto simp: sampleDesired_def sampleResource_def ownership_defs)
  with inr show ?thesis by simp
qed


end
