(* ===== verification/ConfigFiles.thy ===== *)
theory ConfigFiles
  imports GoStrings
begin

text \<open>
  What the three configuration managers (\<open>internal/catalog\<close>, \<open>internal/contexttree\<close>,
  \<open>internal/panel/dsl\<close>) share: the JSON decoder and the file operations they call, as records of
  functions, and the locale \<open>last_known_good\<close>, the contract of a manager that compiles what it is
  given and keeps the last good result.
\<close>

section \<open>The library calls\<close>

text \<open>A text of lines, with a vertical bar for the double quote.\<close>

definition quotedLines :: "string list \<Rightarrow> string" where
  "quotedLines ls = concat (map (\<lambda>l. map (\<lambda>c. if c = CHR ''|'' then CHR 0x22 else c) l @ [CHR 0x0A]) ls)"

text \<open>
  \<open>json.Decoder\<close> with \<open>DisallowUnknownFields\<close>: what decoding the first value gives, and what a
  second \<open>Decode\<close> finds after it (the end of the input, another value, or an error).
\<close>

datatype trailing = AtEOF | TrailingValue | TrailingData string

record 'd Decoder =
  decDocument :: "string \<Rightarrow> string + 'd"
  decTrailing :: "string \<Rightarrow> trailing"

datatype decodeError = DecodeFailed string | TrailingJSONValue | TrailingJSONData string

definition decodeSingle :: "'d Decoder \<Rightarrow> string \<Rightarrow> decodeError + 'd" where
  "decodeSingle dec data =
     (case decDocument dec data of
        Inl e \<Rightarrow> Inl (DecodeFailed e)
      | Inr document \<Rightarrow>
          (case decTrailing dec data of
             TrailingValue \<Rightarrow> Inl TrailingJSONValue
           | TrailingData e \<Rightarrow> Inl (TrailingJSONData e)
           | AtEOF \<Rightarrow> Inr document))"

text \<open>
  The file system: operations of package \<open>os\<close> over a state \<open>'w\<close>. A modification time is an
  instant, compared with \<open>Equal\<close>.
\<close>

datatype statError = NotExist | StatError string

definition statText :: "statError \<Rightarrow> string" where
  "statText e = (case e of NotExist \<Rightarrow> ''file does not exist'' | StatError t \<Rightarrow> t)"

record FileInfo =
  fiModTime :: int
  fiSize :: int

record 'w FS =
  fsDir :: "string \<Rightarrow> string"
  fsMkdirAll :: "string \<Rightarrow> 'w \<Rightarrow> string option \<times> 'w"
  fsStat :: "string \<Rightarrow> 'w \<Rightarrow> statError + FileInfo"
  fsReadFile :: "string \<Rightarrow> 'w \<Rightarrow> string + string"
  fsWriteFile :: "string \<Rightarrow> string \<Rightarrow> 'w \<Rightarrow> string option \<times> 'w"

text \<open>
  What a reload that runs in world \<open>w\<close> gives to the compiler, and when a poll reloads: the size or
  the modification time differs from the recorded one.
\<close>

definition reloadSource :: "'w FS \<Rightarrow> string \<Rightarrow> 'w \<Rightarrow> string option" where
  "reloadSource fs path w =
     (if path = '''' then None
      else case (fsReadFile fs path w, fsStat fs path w) of (Inr data, Inr _) \<Rightarrow> Some data | _ \<Rightarrow> None)"

definition pollDue :: "'w FS \<Rightarrow> string \<Rightarrow> int \<Rightarrow> int \<Rightarrow> 'w \<Rightarrow> bool" where
  "pollDue fs path sz modTime w \<longleftrightarrow>
     (case fsStat fs path w of Inr info \<Rightarrow> fiSize info \<noteq> sz \<or> fiModTime info \<noteq> modTime | Inl _ \<Rightarrow> False)"

section \<open>Keeping the last good configuration\<close>

text \<open>
  \<open>submitted s i\<close> is the source that input \<open>i\<close> makes the manager compile in state \<open>s\<close>, if any.
  The laws: a source that compiles replaces the value, advances the revision and clears the
  error; a source that does not only records its error; anything else changes nothing.
\<close>

locale last_known_good =
  fixes step :: "'s \<Rightarrow> 'i \<Rightarrow> 's"
    and submitted :: "'s \<Rightarrow> 'i \<Rightarrow> string option"
    and compile :: "string \<Rightarrow> 'e + 'v"
    and current :: "'s \<Rightarrow> 'v option"
    and revision :: "'s \<Rightarrow> 64 word"
    and lastErr :: "'s \<Rightarrow> 'e option"
  assumes accept: "submitted s i = Some src \<Longrightarrow> compile src = Inr v \<Longrightarrow>
      current (step s i) = Some v \<and> revision (step s i) = revision s + 1 \<and> lastErr (step s i) = None"
    and reject: "submitted s i = Some src \<Longrightarrow> compile src = Inl e \<Longrightarrow>
      current (step s i) = current s \<and> revision (step s i) = revision s \<and> lastErr (step s i) = Some e"
    and idle: "submitted s i = None \<Longrightarrow>
      current (step s i) = current s \<and> revision (step s i) = revision s \<and> lastErr (step s i) = lastErr s"
begin

text \<open>The sources compiled in the course of a sequence of inputs, and the good ones among them.\<close>

fun submissions :: "'s \<Rightarrow> 'i list \<Rightarrow> string list" where
  "submissions s [] = []"
| "submissions s (i # is) =
     (case submitted s i of Some src \<Rightarrow> src # submissions (step s i) is | None \<Rightarrow> submissions (step s i) is)"

definition good :: "string \<Rightarrow> bool" where
  "good src \<longleftrightarrow> (\<exists>v. compile src = Inr v)"

definition value_of :: "string \<Rightarrow> 'v option" where
  "value_of src = (case compile src of Inr v \<Rightarrow> Some v | Inl _ \<Rightarrow> None)"

definition error_of :: "string \<Rightarrow> 'e option" where
  "error_of src = (case compile src of Inr _ \<Rightarrow> None | Inl e \<Rightarrow> Some e)"

lemma run_laws:
  "current (foldl step s is) =
     (let srcs = filter good (submissions s is) in if srcs = [] then current s else value_of (last srcs)) \<and>
   revision (foldl step s is) = revision s + of_nat (length (filter good (submissions s is))) \<and>
   lastErr (foldl step s is) =
     (let srcs = submissions s is in if srcs = [] then lastErr s else error_of (last srcs))"
proof (induction "is" arbitrary: s)
  case (Cons i "is")
  show ?case
  proof (cases "submitted s i")
    case None
    with Cons.IH [of "step s i"] idle [OF None] show ?thesis by (simp add: Let_def)
  next
    case (Some src)
    show ?thesis
    proof (cases "compile src")
      case (Inl e)
      with Some have "\<not> good src" by (simp add: good_def)
      with Some Inl Cons.IH [of "step s i"] reject [OF Some Inl] show ?thesis
        by (simp add: error_of_def Let_def)
    next
      case (Inr v)
      with Some have "good src" by (simp add: good_def)
      with Some Inr Cons.IH [of "step s i"] accept [OF Some Inr] show ?thesis
        by (simp add: error_of_def value_of_def Let_def)
    qed
  qed
qed simp

text \<open>Whatever holds of every compiled value holds of the current one, at any time.\<close>

lemma current_invariant:
  assumes "current s = None" and "\<And>src v. compile src = Inr v \<Longrightarrow> P v"
    and "current (foldl step s is) = Some v"
  shows "P v"
proof -
  let ?srcs = "filter good (submissions s is)"
  have "?srcs \<noteq> []" using assms(1,3) run_laws [of s "is"] by (auto simp: Let_def)
  moreover from this have "good (last ?srcs)" using last_in_set by force
  ultimately show ?thesis
    using assms(2,3) run_laws [of s "is"]
    by (auto simp: Let_def value_of_def good_def split: sum.splits)
qed

text \<open>A new manager has a value and no error exactly when the last source it tried is good.\<close>

lemma healthy_iff:
  assumes "current s = None" and "lastErr s = None"
  shows "current (foldl step s is) \<noteq> None \<and> lastErr (foldl step s is) = None \<longleftrightarrow>
    submissions s is \<noteq> [] \<and> good (last (submissions s is))"
proof (cases "submissions s is = []")
  case True
  with assms run_laws [of s "is"] show ?thesis by simp
next
  case False
  let ?tried = "submissions s is" and ?ok = "filter good (submissions s is)"
  have err: "lastErr (foldl step s is) = None \<longleftrightarrow> good (last ?tried)"
    using False run_laws [of s "is"] by (simp add: Let_def error_of_def good_def split: sum.split)
  have "current (foldl step s is) \<noteq> None" if "good (last ?tried)"
  proof -
    have "?ok \<noteq> []" using that False last_in_set by (auto simp: filter_empty_conv)
    moreover from this have "good (last ?ok)" using last_in_set by force
    ultimately show ?thesis using run_laws [of s "is"] by (auto simp: Let_def value_of_def good_def)
  qed
  with err False show ?thesis by blast
qed

text \<open>Once a configuration is available it stays available.\<close>

lemma current_stays: "current s \<noteq> None \<Longrightarrow> current (foldl step s is) \<noteq> None"
proof -
  let ?srcs = "filter good (submissions s is)"
  assume cur: "current s \<noteq> None"
  show ?thesis
  proof (cases "?srcs = []")
    case False
    then have "good (last ?srcs)" using last_in_set by force
    with False show ?thesis
      using run_laws [of s "is"] by (auto simp: Let_def value_of_def good_def)
  qed (use cur run_laws [of s "is"] in \<open>simp add: Let_def\<close>)
qed

end

end
