(* ===== verification/Catalog.thy ===== *)
theory Catalog
  imports WorkspaceSpec ConfigFiles
begin

text \<open>
  \<open>internal/catalog\<close>: the workspace definitions. \<open>memory.go\<close> is a map of definitions;
  \<open>file.go\<close> compiles a JSON document into definitions and active revisions and keeps the last
  good ones. The decoder and the file system are the records of \<open>ConfigFiles\<close>; the loop over the
  map of active revisions runs in the order \<open>it\<close>. An operation that takes the mutex twice
  (\<open>Reload\<close>) is composed of its two critical sections.
\<close>

section \<open>Documents\<close>

definition WorkspaceSchemaVersion :: "32 word" where "WorkspaceSchemaVersion = 1"

definition DefaultWorkspaceSource :: string where
  "DefaultWorkspaceSource = quotedLines [
     ''{'',
     ''  |schema|: 1,'',
     ''  |active|: {},'',
     ''  |workspaces|: []'',
     ''}'']"

record placementDocument =
  pdMonitorRole :: string
  pdWorkspace :: int
  pdRect :: NormalizedRect

record workspaceResourceDocument =
  rdID :: string
  rdKind :: string
  rdRequired :: bool
  rdOwnership :: string
  rdDesktopAppID :: string
  rdExecutable :: string
  rdArgs :: "string list"
  rdWorkingDirectory :: string
  rdPlacement :: "placementDocument option"

record workspaceDocument =
  wdID :: string
  wdRevision :: string
  wdResources :: "workspaceResourceDocument list"

record workspaceFileDocument =
  wfSchema :: "32 word"
  wfActive :: "(string, string) gomap"
  wfWorkspaces :: "workspaceDocument list"

record WorkspaceSnapshot =
  wsSchema :: "32 word"
  wsRevision :: "64 word"
  wsActive :: "(string, string) gomap"
  wsDefinitionCount :: int

datatype catalogError =
  CatalogDecode decodeError | UnsupportedSchema "32 word" | SizeLimitExceeded
| InvalidDefinition workspaceError | DuplicateDefinition string | ActiveFieldsRequired
| MissingRevision string string
| PathRequired | BuiltInInvalid catalogError | PathNotConfigured | IOError string
| NotFound string string | NoActiveRevision string | ActiveUnavailable string string

definition definitionKey :: "string \<Rightarrow> string \<Rightarrow> string" where
  "definitionKey wid revision = wid @ ''@'' @ revision"

section \<open>Compiling a document\<close>

definition placementOf :: "placementDocument \<Rightarrow> PlacementIntent" where
  "placementOf p = \<lparr>piMonitorRole = TrimSpace (pdMonitorRole p), piWorkspace = pdWorkspace p, piRect = pdRect p\<rparr>"

definition resourceOf :: "workspaceResourceDocument \<Rightarrow> ResourceSpec" where
  "resourceOf r = \<lparr>rsID = TrimSpace (rdID r), rsKind = rdKind r, rsRequired = rdRequired r,
     rsOwnership = rdOwnership r, rsDesktopAppID = TrimSpace (rdDesktopAppID r),
     rsExecutable = TrimSpace (rdExecutable r), rsArgs = rdArgs r,
     rsWorkingDirectory = TrimSpace (rdWorkingDirectory r), rsPlacement = map_option placementOf (rdPlacement r)\<rparr>"

definition desiredOf :: "workspaceDocument \<Rightarrow> DesiredState" where
  "desiredOf raw = \<lparr>dsWorkspaceID = TrimSpace (wdID raw), dsRevision = TrimSpace (wdRevision raw),
     dsResources = map resourceOf (wdResources raw)\<rparr>"

definition addDefinition ::
  "(string, DesiredState) gomap \<Rightarrow> workspaceDocument \<Rightarrow> catalogError + (string, DesiredState) gomap" where
  "addDefinition definitions raw =
     (let desired = desiredOf raw
      in case DesiredState_Validate desired of
           Some e \<Rightarrow> Inl (InvalidDefinition e)
         | None \<Rightarrow>
             (let key = definitionKey (dsWorkspaceID desired) (dsRevision desired)
              in if map_of definitions key \<noteq> None then Inl (DuplicateDefinition key)
                 else Inr (put key desired definitions)))"

definition addActive ::
  "(string, DesiredState) gomap \<Rightarrow> (string, string) gomap \<Rightarrow> string \<times> string \<Rightarrow>
   catalogError + (string, string) gomap" where
  "addActive definitions active entry =
     (let wid = TrimSpace (fst entry); revision = TrimSpace (snd entry)
      in if wid = '''' \<or> revision = '''' then Inl ActiveFieldsRequired
         else if map_of definitions (definitionKey wid revision) = None then Inl (MissingRevision wid revision)
         else Inr (put wid revision active))"

type_synonym compiledCatalog = "(string, DesiredState) gomap \<times> (string, string) gomap"

definition compileDocument ::
  "((string, string) gomap \<Rightarrow> (string, string) gomap) \<Rightarrow> workspaceFileDocument \<Rightarrow> catalogError + compiledCatalog" where
  "compileDocument it document =
     (if wfSchema document \<noteq> WorkspaceSchemaVersion then Inl (UnsupportedSchema (wfSchema document))
      else if length (wfWorkspaces document) > 4096 \<or> length (wfActive document) > 2048 then Inl SizeLimitExceeded
      else case foldE addDefinition [] (wfWorkspaces document) of
        Inl e \<Rightarrow> Inl e
      | Inr definitions \<Rightarrow>
          (case foldE (addActive definitions) [] (it (wfActive document)) of
             Inl e \<Rightarrow> Inl e
           | Inr active \<Rightarrow> Inr (definitions, active)))"

definition compileWorkspaceFile ::
  "workspaceFileDocument Decoder \<Rightarrow> ((string, string) gomap \<Rightarrow> (string, string) gomap) \<Rightarrow> string \<Rightarrow>
   catalogError + compiledCatalog" where
  "compileWorkspaceFile dec it data =
     (case decodeSingle dec data of
        Inl e \<Rightarrow> Inl (CatalogDecode e)
      | Inr document \<Rightarrow> compileDocument it document)"

section \<open>The catalogue of a file\<close>

record File =
  cfPath :: string
  cfModTime :: int
  cfSize :: int
  cfRevision :: "64 word"
  cfValid :: bool
  cfLastErr :: "catalogError option"
  cfDefinitions :: "(string, DesiredState) gomap"
  cfActive :: "(string, string) gomap"

definition NewFile :: File where
  "NewFile = \<lparr>cfPath = '''', cfModTime = 0, cfSize = 0, cfRevision = 0, cfValid = False, cfLastErr = None,
     cfDefinitions = [], cfActive = []\<rparr>"

text \<open>The assignments that \<open>Apply\<close> and \<open>Reload\<close> make once a source has compiled.\<close>

definition install :: "compiledCatalog \<Rightarrow> File \<Rightarrow> File" where
  "install compiled f = f\<lparr>cfDefinitions := fst compiled, cfActive := snd compiled,
     cfRevision := cfRevision f + 1, cfValid := True, cfLastErr := None\<rparr>"

definition File_Apply ::
  "(string \<Rightarrow> catalogError + compiledCatalog) \<Rightarrow> string \<Rightarrow> File \<Rightarrow> (64 word \<times> catalogError option) \<times> File" where
  "File_Apply cpl data f =
     (case cpl data of
        Inl e \<Rightarrow> ((cfRevision f, Some e), f\<lparr>cfLastErr := Some e\<rparr>)
      | Inr compiled \<Rightarrow> (let f' = install compiled f in ((cfRevision f', None), f')))"

definition reloadCommit ::
  "64 word \<Rightarrow> FileInfo \<Rightarrow> catalogError + compiledCatalog \<Rightarrow> File \<Rightarrow> (catalogError + bool) \<times> File" where
  "reloadCommit before info result f =
     (let f = f\<lparr>cfModTime := fiModTime info, cfSize := fiSize info\<rparr>
      in case result of
           Inl e \<Rightarrow> (Inl e, f\<lparr>cfLastErr := Some e\<rparr>)
         | Inr compiled \<Rightarrow> (let f' = install compiled f in (Inr (cfRevision f' \<noteq> before), f')))"

definition statMessage :: "statError \<Rightarrow> string" where
  "statMessage e = (case e of NotExist \<Rightarrow> ''file does not exist'' | StatError m \<Rightarrow> m)"

definition File_Reload ::
  "(string \<Rightarrow> catalogError + compiledCatalog) \<Rightarrow> 'w FS \<Rightarrow> 'w \<Rightarrow> File \<Rightarrow> (catalogError + bool) \<times> File" where
  "File_Reload cpl fs w f =
     (if cfPath f = '''' then (Inl PathNotConfigured, f)
      else case fsReadFile fs (cfPath f) w of
        Inl e \<Rightarrow> (Inl (IOError e), f)
      | Inr data \<Rightarrow>
          (case fsStat fs (cfPath f) w of
             Inl e \<Rightarrow> (Inl (IOError (statMessage e)), f)
           | Inr info \<Rightarrow> reloadCommit (cfRevision f) info (cpl data) f))"

definition File_Poll ::
  "(string \<Rightarrow> catalogError + compiledCatalog) \<Rightarrow> 'w FS \<Rightarrow> 'w \<Rightarrow> File \<Rightarrow> (catalogError + bool) \<times> File" where
  "File_Poll cpl fs w f =
     (if cfPath f = '''' then (Inr False, f)
      else case fsStat fs (cfPath f) w of
        Inl e \<Rightarrow> (Inl (IOError (statMessage e)), f)
      | Inr info \<Rightarrow>
          if fiSize info = cfSize f \<and> fiModTime info = cfModTime f then (Inr False, f)
          else File_Reload cpl fs w f)"

definition File_Configure ::
  "(string \<Rightarrow> catalogError + compiledCatalog) \<Rightarrow> 'w FS \<Rightarrow> string \<Rightarrow> 'w \<Rightarrow> File \<Rightarrow>
   catalogError option \<times> 'w \<times> File" where
  "File_Configure cpl fs path w f =
     (if TrimSpace path = '''' then (Some PathRequired, w, f)
      else case File_Apply cpl DefaultWorkspaceSource f of
        ((_, Some e), f) \<Rightarrow> (Some (BuiltInInvalid e), w, f)
      | ((_, None), f) \<Rightarrow>
         (let f = f\<lparr>cfPath := path\<rparr>;
              reload = (\<lambda>w. case File_Reload cpl fs w f of
                  (Inl e, f) \<Rightarrow> (Some e, w, f) | (Inr _, f) \<Rightarrow> (None, w, f))
          in case fsMkdirAll fs (fsDir fs path) w of
               (Some e, w) \<Rightarrow> (Some (IOError e), w, f)
             | (None, w) \<Rightarrow>
                 (case fsStat fs path w of
                    Inl NotExist \<Rightarrow>
                      (case fsWriteFile fs path DefaultWorkspaceSource w of
                         (Some e, w) \<Rightarrow> (Some (IOError e), w, f)
                       | (None, w) \<Rightarrow> reload w)
                  | Inl (StatError e) \<Rightarrow> (Some (IOError e), w, f)
                  | Inr _ \<Rightarrow> reload w)))"

definition cloneDesired :: "DesiredState \<Rightarrow> DesiredState" where
  "cloneDesired d = d\<lparr>dsResources := map (\<lambda>r. r\<lparr>rsArgs := [] @ rsArgs r, rsPlacement := map_option (\<lambda>p. p) (rsPlacement r)\<rparr>)
     (dsResources d)\<rparr>"

definition File_Resolve :: "File \<Rightarrow> string \<Rightarrow> string \<Rightarrow> catalogError + DesiredState" where
  "File_Resolve f wid revision =
     (case map_of (cfDefinitions f) (definitionKey wid revision) of
        None \<Rightarrow> Inl (NotFound wid revision)
      | Some desired \<Rightarrow> Inr (cloneDesired desired))"

definition File_Current :: "File \<Rightarrow> string \<Rightarrow> catalogError + DesiredState" where
  "File_Current f wid =
     (case map_of (cfActive f) wid of
        None \<Rightarrow> Inl (NoActiveRevision wid)
      | Some revision \<Rightarrow>
          (case map_of (cfDefinitions f) (definitionKey wid revision) of
             None \<Rightarrow> Inl (ActiveUnavailable wid revision)
           | Some desired \<Rightarrow> Inr (cloneDesired desired)))"

definition File_Snapshot :: "File \<Rightarrow> WorkspaceSnapshot" where
  "File_Snapshot f = \<lparr>wsSchema = WorkspaceSchemaVersion, wsRevision = cfRevision f,
     wsActive = copyMap (cfActive f),
     wsDefinitionCount = int (length (cfDefinitions f))\<rparr>"

definition File_Valid :: "File \<Rightarrow> bool" where
  "File_Valid f \<longleftrightarrow> cfValid f \<and> cfLastErr f = None"

section \<open>The catalogue in memory\<close>

type_synonym Memory = "(string, DesiredState) gomap"

definition Memory_Put :: "DesiredState \<Rightarrow> Memory \<Rightarrow> workspaceError option \<times> Memory" where
  "Memory_Put desired m =
     (case DesiredState_Validate desired of
        Some e \<Rightarrow> (Some e, m)
      | None \<Rightarrow> (None, put (definitionKey (dsWorkspaceID desired) (dsRevision desired)) desired m))"

definition Memory_Resolve :: "Memory \<Rightarrow> string \<Rightarrow> string \<Rightarrow> catalogError + DesiredState" where
  "Memory_Resolve m wid revision =
     (case map_of m (definitionKey wid revision) of
        None \<Rightarrow> Inl (NotFound wid revision) | Some desired \<Rightarrow> Inr desired)"

section \<open>What a compiled catalogue satisfies\<close>

lemma cloneDesired_id [simp]: "cloneDesired d = d"
  by (simp add: cloneDesired_def option.map_ident)

definition goodCatalog :: "compiledCatalog \<Rightarrow> bool" where
  "goodCatalog c \<longleftrightarrow>
     wf_map (fst c) \<and> wf_map (snd c) \<and>
     (\<forall>key d. map_of (fst c) key = Some d \<longrightarrow>
        DesiredState_Validate d = None \<and> key = definitionKey (dsWorkspaceID d) (dsRevision d)) \<and>
     (\<forall>wid rev. map_of (snd c) wid = Some rev \<longrightarrow>
        wid \<noteq> '''' \<and> rev \<noteq> '''' \<and> map_of (fst c) (definitionKey wid rev) \<noteq> None)"

lemma definitions_good:
  assumes "foldE addDefinition [] ws = Inr definitions"
  shows "goodCatalog (definitions, [])"
  using assms
  by (rule foldE_invariant [where I = "\<lambda>_ definitions. goodCatalog (definitions, [])"])
    (auto simp: goodCatalog_def addDefinition_def Let_def split: option.splits if_splits)

lemma active_good:
  assumes "goodCatalog (definitions, [])" and "foldE (addActive definitions) [] xs = Inr active"
  shows "goodCatalog (definitions, active)"
  using assms(2)
  by (rule foldE_invariant [where I = "\<lambda>_ active. goodCatalog (definitions, active)"])
    (use assms(1) in \<open>auto simp: goodCatalog_def addActive_def Let_def split: option.splits if_splits,
      blast+\<close>)

lemma compile_good: "compileWorkspaceFile dec it data = Inr c \<Longrightarrow> goodCatalog c"
  by (auto simp: compileWorkspaceFile_def compileDocument_def split: sum.splits if_splits
      intro!: active_good definitions_good)

lemma definitionKey_inj:
  "CHR ''@'' \<notin> set w \<Longrightarrow> CHR ''@'' \<notin> set w' \<Longrightarrow> definitionKey w r = definitionKey w' r' \<Longrightarrow> w = w' \<and> r = r'"
  unfolding definitionKey_def by (rule separator_inj)

section \<open>The last good catalogue\<close>

text \<open>\<open>SetPath\<close> is the assignment of the path in \<open>Configure\<close>, which is made of such events.\<close>

datatype 'w fileEvent = ApplySource string | SetPath string | ReloadFile 'w | PollFile 'w

definition fileStep ::
  "(string \<Rightarrow> catalogError + compiledCatalog) \<Rightarrow> 'w FS \<Rightarrow> File \<Rightarrow> 'w fileEvent \<Rightarrow> File" where
  "fileStep cpl fs f ev =
     (case ev of
        ApplySource data \<Rightarrow> snd (File_Apply cpl data f)
      | SetPath path \<Rightarrow> f\<lparr>cfPath := path\<rparr>
      | ReloadFile w \<Rightarrow> snd (File_Reload cpl fs w f)
      | PollFile w \<Rightarrow> snd (File_Poll cpl fs w f))"

definition fileSubmitted :: "'w FS \<Rightarrow> File \<Rightarrow> 'w fileEvent \<Rightarrow> string option" where
  "fileSubmitted fs f ev =
     (case ev of
        ApplySource data \<Rightarrow> Some data
      | SetPath _ \<Rightarrow> None
      | ReloadFile w \<Rightarrow> reloadSource fs (cfPath f) w
      | PollFile w \<Rightarrow> if pollDue fs (cfPath f) (cfSize f) (cfModTime f) w then reloadSource fs (cfPath f) w else None)"

definition fileCurrent :: "File \<Rightarrow> compiledCatalog option" where
  "fileCurrent f = (if cfValid f then Some (cfDefinitions f, cfActive f) else None)"

lemmas file_ops = fileStep_def fileSubmitted_def fileCurrent_def File_Apply_def File_Reload_def File_Poll_def
  reloadCommit_def install_def reloadSource_def pollDue_def

text \<open>Configuring: the built-in catalogue, the path, and then the file, as far as each succeeds.\<close>

lemma File_Configure_events:
  "\<exists>w'. snd (snd (File_Configure cpl fs path w f)) \<in>
     {f, foldl (fileStep cpl fs) f [ApplySource DefaultWorkspaceSource],
      foldl (fileStep cpl fs) f [ApplySource DefaultWorkspaceSource, SetPath path],
      foldl (fileStep cpl fs) f [ApplySource DefaultWorkspaceSource, SetPath path, ReloadFile w']}"
proof -
  obtain r e f1 where a: "File_Apply cpl DefaultWorkspaceSource f = ((r, e), f1)" by (metis prod.collapse)
  let ?m = "f1\<lparr>cfPath := path\<rparr>"
  obtain e1 w1 where d: "fsMkdirAll fs (fsDir fs path) w = (e1, w1)" by fastforce
  obtain e2 w2 where wr: "fsWriteFile fs path DefaultWorkspaceSource w1 = (e2, w2)" by fastforce
  have reload: "snd (snd (case File_Reload cpl fs w' ?m of (Inl e, x) \<Rightarrow> (Some e, w', x) | (Inr _, x) \<Rightarrow> (None, w', x))) =
      snd (File_Reload cpl fs w' ?m)" for w'
    by (simp split: prod.split sum.split)
  have "snd (snd (File_Configure cpl fs path w f)) \<in>
      {f, f1, ?m, snd (File_Reload cpl fs w1 ?m), snd (File_Reload cpl fs w2 ?m)}"
    using a d wr reload [of w1] reload [of w2]
    by (cases e; cases e1; cases e2; cases "fsStat fs path w1")
      (auto simp: File_Configure_def Let_def split: statError.split)
  then show ?thesis using a by (auto simp: fileStep_def)
qed

interpretation catalog_file: last_known_good "fileStep cpl fs" "fileSubmitted fs" cpl
    fileCurrent cfRevision cfLastErr for cpl and fs :: "'w FS"
  by unfold_locales
    (auto simp: file_ops Let_def split: fileEvent.splits sum.splits if_splits)

text \<open>The catalogue counts as valid exactly when the last source that was tried is accepted.\<close>

lemma File_Valid_run:
  "File_Valid (foldl (fileStep cpl fs) NewFile evs) \<longleftrightarrow>
    (let tried = catalog_file.submissions cpl fs NewFile evs in tried \<noteq> [] \<and> (\<exists>c. cpl (last tried) = Inr c))"
proof -
  have "File_Valid f \<longleftrightarrow> fileCurrent f \<noteq> None \<and> cfLastErr f = None" for f
    by (simp add: File_Valid_def fileCurrent_def)
  then show ?thesis
    using catalog_file.healthy_iff [of NewFile cpl fs evs]
    by (simp add: Let_def catalog_file.good_def) (simp add: fileCurrent_def NewFile_def)
qed

text \<open>
  C26. Any sequence of \<open>Apply\<close>, assignments of the path, \<open>Reload\<close> and \<open>Poll\<close> on a new catalogue (\<open>Configure\<close> is such a sequence) leaves exactly the last
  source that compiled: rejected sources, failed reads and unchanged files never disturb it. The
  revision counts the sources accepted, and the recorded error belongs to the last source tried.
\<close>

theorem File_last_known_good:
  "let f = foldl (fileStep cpl fs) NewFile evs;
       tried = catalog_file.submissions cpl fs NewFile evs;
       accepted = filter (\<lambda>src. \<exists>c. cpl src = Inr c) tried
   in cfRevision f = of_nat (length accepted) \<and>
      (cfValid f \<longleftrightarrow> accepted \<noteq> []) \<and>
      (accepted \<noteq> [] \<longrightarrow> cpl (last accepted) = Inr (cfDefinitions f, cfActive f)) \<and>
      cfLastErr f = (if tried = [] then None
                     else case cpl (last tried) of Inl e \<Rightarrow> Some e | Inr _ \<Rightarrow> None)"
proof -
  let ?f = "foldl (fileStep cpl fs) NewFile evs"
  let ?tried = "catalog_file.submissions cpl fs NewFile evs"
  let ?acc = "filter (\<lambda>src. \<exists>c. cpl src = Inr c) ?tried"
  have new: "fileCurrent NewFile = None" "cfRevision NewFile = 0" "cfLastErr NewFile = None"
    by (simp_all add: fileCurrent_def NewFile_def)
  note laws = catalog_file.run_laws [of cpl fs NewFile evs, unfolded catalog_file.good_def
      catalog_file.value_of_def catalog_file.error_of_def new Let_def]
  show ?thesis
  proof (cases "?acc = []")
    case True
    with laws show ?thesis
      by (simp add: Let_def fileCurrent_def split: if_splits)
  next
    case False
    then have "\<exists>c. cpl (last ?acc) = Inr c" using last_in_set [OF False] by auto
    with False laws show ?thesis
      by (auto simp: Let_def fileCurrent_def split: if_splits)
  qed
qed

lemma goodCatalog_definition:
  "goodCatalog (definitions, active) \<Longrightarrow> map_of definitions key = Some d \<Longrightarrow>
   DesiredState_Validate d = None \<and> key = definitionKey (dsWorkspaceID d) (dsRevision d)"
  by (simp add: goodCatalog_def)

lemma goodCatalog_active:
  "goodCatalog (definitions, active) \<Longrightarrow> map_of active wid = Some r \<Longrightarrow>
   \<exists>d. map_of definitions (definitionKey wid r) = Some d"
  by (simp add: goodCatalog_def)

text \<open>What every catalogue reached from a new one satisfies.\<close>

lemma reachable_good:
  assumes "\<And>src c. cpl src = Inr c \<Longrightarrow> goodCatalog c"
  shows "goodCatalog (cfDefinitions (foldl (fileStep cpl fs) NewFile evs), cfActive (foldl (fileStep cpl fs) NewFile evs))"
proof -
  have "goodCatalog (cfDefinitions (fileStep cpl fs f ev), cfActive (fileStep cpl fs f ev))"
    if "goodCatalog (cfDefinitions f, cfActive f)" for f ev
    using that assms by (auto simp: file_ops Let_def split: fileEvent.splits sum.splits)
  moreover have "goodCatalog (cfDefinitions NewFile, cfActive NewFile)"
    by (simp add: NewFile_def goodCatalog_def)
  ultimately show ?thesis
    by (induction evs rule: rev_induct) simp_all
qed

text \<open>
  C27. Whatever is applied, reloaded or polled, asking a catalogue for the current definition of a
  workspace fails only because the workspace has no active revision: the revision named as active
  is always there, its definition is valid, and it is stored under its own identity.
\<close>

theorem File_Current_total:
  "let f = foldl (fileStep (compileWorkspaceFile dec it) fs) NewFile evs
   in case map_of (cfActive f) wid of
        None \<Rightarrow> File_Current f wid = Inl (NoActiveRevision wid)
      | Some r \<Rightarrow> (case File_Current f wid of
          Inl e \<Rightarrow> False
        | Inr d \<Rightarrow> DesiredState_Validate d = None \<and>
            definitionKey (dsWorkspaceID d) (dsRevision d) = definitionKey wid r \<and>
            File_Resolve f wid r = Inr d)"
proof -
  define f where "f = foldl (fileStep (compileWorkspaceFile dec it) fs) NewFile evs"
  have good: "goodCatalog (cfDefinitions f, cfActive f)"
    unfolding f_def by (rule reachable_good) (rule compile_good)
  show ?thesis
  proof (cases "map_of (cfActive f) wid")
    case None
    then show ?thesis by (simp add: Let_def File_Current_def flip: f_def)
  next
    case (Some r)
    from goodCatalog_active [OF good Some] obtain d
      where d: "map_of (cfDefinitions f) (definitionKey wid r) = Some d" ..
    from goodCatalog_definition [OF good d] Some d show ?thesis
      by (simp add: Let_def File_Current_def File_Resolve_def flip: f_def)
  qed
qed

text \<open>
  Where no workspace identifier of the catalogue contains an at sign, the definition returned
  as current belongs to the workspace asked for, at its active revision. The side condition is
  needed: definitions are filed under the text \<open>id@revision\<close>.
\<close>

lemma File_Current_own_definition:
  assumes "f = foldl (fileStep (compileWorkspaceFile dec it) fs) NewFile evs"
    and "File_Current f wid = Inr d"
    and "CHR ''@'' \<notin> set wid" and "CHR ''@'' \<notin> set (dsWorkspaceID d)"
  shows "dsWorkspaceID d = wid \<and> map_of (cfActive f) wid = Some (dsRevision d)"
proof -
  have good: "goodCatalog (cfDefinitions f, cfActive f)"
    unfolding assms(1) by (rule reachable_good) (rule compile_good)
  from assms(2) obtain r where r: "map_of (cfActive f) wid = Some r"
    and d: "map_of (cfDefinitions f) (definitionKey wid r) = Some d"
    by (auto simp: File_Current_def split: option.splits)
  from goodCatalog_definition [OF good d]
  have "definitionKey (dsWorkspaceID d) (dsRevision d) = definitionKey wid r" by simp
  from definitionKey_inj [OF assms(4,3) this] r show ?thesis by simp
qed

section \<open>The order of the active revisions\<close>

text \<open>\<open>addActive\<close> runs over the entries of a map, in any order.\<close>

definition activeOK :: "(string, DesiredState) gomap \<Rightarrow> string \<times> string \<Rightarrow> bool" where
  "activeOK definitions entry \<longleftrightarrow>
     TrimSpace (fst entry) \<noteq> '''' \<and> TrimSpace (snd entry) \<noteq> '''' \<and>
     map_of definitions (definitionKey (TrimSpace (fst entry)) (TrimSpace (snd entry))) \<noteq> None"

definition trimEntry :: "string \<times> string \<Rightarrow> string \<times> string" where
  "trimEntry entry = (TrimSpace (fst entry), TrimSpace (snd entry))"

lemma addActive_ok:
  "addActive definitions active entry = Inr active' \<longleftrightarrow>
     activeOK definitions entry \<and> active' = put (TrimSpace (fst entry)) (TrimSpace (snd entry)) active"
  by (auto simp: addActive_def activeOK_def Let_def)

lemma foldE_addActive:
  assumes "\<forall>x \<in> set xs. activeOK definitions x"
  shows "\<exists>active'. foldE (addActive definitions) active xs = Inr active' \<and>
    map_of active' = map_of active ++ map_of (rev (map trimEntry xs))"
  using assms
proof (induction xs arbitrary: active)
  case (Cons x xs)
  let ?a = "put (TrimSpace (fst x)) (TrimSpace (snd x)) active"
  have "addActive definitions active x = Inr ?a"
    using Cons.prems by (simp add: addActive_ok)
  moreover have "\<exists>active'. foldE (addActive definitions) ?a xs = Inr active' \<and>
    map_of active' = map_of ?a ++ map_of (rev (map trimEntry xs))"
    by (rule Cons.IH) (use Cons.prems in simp)
  ultimately show ?case by (auto simp: trimEntry_def [of x])
qed simp

lemma foldE_addActive_iff:
  "(\<exists>active'. foldE (addActive definitions) active xs = Inr active') \<longleftrightarrow> (\<forall>x \<in> set xs. activeOK definitions x)"
  by (rule foldE_succeeds_iff) (auto simp: addActive_ok)

text \<open>
  When the identifiers listed as active differ after trimming, the result of compiling a
  document does not depend on the order in which Go visits the map of active revisions: the same
  documents compile, to the same definitions and the same active revision of every workspace.
\<close>

lemma compileDocument_order_independent:
  assumes "isIteration it1" and "isIteration it2"
    and "distinct (map (TrimSpace \<circ> fst) (wfActive document))"
    and "compileDocument it1 document = Inr (definitions, active1)"
  shows "\<exists>active2. compileDocument it2 document = Inr (definitions, active2) \<and> map_of active2 = map_of active1"
proof -
  let ?xs = "it1 (wfActive document)" and ?ys = "it2 (wfActive document)"
  have m: "mset ?xs = mset ?ys" using assms(1,2) by (simp add: isIteration_def)
  have defs: "foldE addDefinition [] (wfWorkspaces document) = Inr definitions"
    and act: "foldE (addActive definitions) [] ?xs = Inr active1"
    using assms(4) by (auto simp: compileDocument_def split: sum.splits if_splits)
  have ok: "\<forall>x \<in> set ?xs. activeOK definitions x"
    using act foldE_addActive_iff by blast
  with m have ok2: "\<forall>x \<in> set ?ys. activeOK definitions x" by (metis set_mset_mset)
  from foldE_addActive [OF ok, of "[]"] act
  have a1: "map_of active1 = map_of (rev (map trimEntry ?xs))" by auto
  from foldE_addActive [OF ok2, of "[]"] obtain active2 where
    a2: "foldE (addActive definitions) [] ?ys = Inr active2" "map_of active2 = map_of (rev (map trimEntry ?ys))"
    by auto
  have mk: "map fst (map trimEntry zs) = map (TrimSpace \<circ> fst) zs" for zs
    by (simp add: trimEntry_def comp_def)
  have d: "distinct (map fst (map trimEntry zs))" if "mset zs = mset (wfActive document)" for zs
    unfolding mk using assms(3) that by (metis mset_eq_imp_distinct_iff mset_map)
  have "map_of (rev (map trimEntry ?xs)) = map_of (rev (map trimEntry ?ys))"
  proof (rule map_of_eqI)
    show "\<forall>x \<in> set (map fst (rev (map trimEntry ?xs))).
        map_of (rev (map trimEntry ?xs)) x = map_of (rev (map trimEntry ?ys)) x"
      using m d [of ?xs] d [of ?ys] assms(1,2)
      by (metis (no_types, lifting) distinct_rev isIteration_mset map_of_inject_set mset_map rev_map
          set_mset_mset set_rev)
    show "set (map fst (rev (map trimEntry ?xs))) = set (map fst (rev (map trimEntry ?ys)))"
      using m by (metis mset_map mset_rev set_mset_mset)
  qed
  with a1 a2 defs assms(4) show ?thesis
    by (auto simp: compileDocument_def split: sum.splits if_splits)
qed

section \<open>Sample documents\<close>

definition sampleDocument :: "(string \<times> string) list \<Rightarrow> (string \<times> string) list \<Rightarrow> workspaceFileDocument" where
  "sampleDocument act ws = \<lparr>wfSchema = 1, wfActive = act,
     wfWorkspaces = map (\<lambda>(wid, r). \<lparr>wdID = wid, wdRevision = r,
       wdResources = [\<lparr>rdID = '' term '', rdKind = ''terminal'', rdRequired = True, rdOwnership = ''managed'',
         rdDesktopAppID = '''', rdExecutable = ''/bin/sh'', rdArgs = [], rdWorkingDirectory = '''',
         rdPlacement = None\<rparr>]\<rparr>) ws\<rparr>"

text \<open>A decoder of one source only, \<open>good\<close>.\<close>

definition sampleDecoder :: "'d \<Rightarrow> 'd Decoder" where
  "sampleDecoder document = \<lparr>decDocument = \<lambda>s. if s = ''good'' then Inr document else Inl ''syntax'',
     decTrailing = \<lambda>_. AtEOF\<rparr>"

definition sampleFS :: "string FS" where
  "sampleFS = \<lparr>fsDir = \<lambda>p. p, fsMkdirAll = \<lambda>p w. (None, w),
     fsStat = \<lambda>p w. Inr \<lparr>fiModTime = 1, fiSize = int (length w)\<rparr>, fsReadFile = \<lambda>p w. Inr w,
     fsWriteFile = \<lambda>p data w. (None, data)\<rparr>"

abbreviation "sampleCompile \<equiv> compileWorkspaceFile (sampleDecoder (sampleDocument [(''a'', '' 1'')] [(''a '', ''1'')])) (\<lambda>m. m)"

lemma File_last_known_good_witness:
  "cfRevision (foldl (fileStep sampleCompile sampleFS) NewFile [ApplySource ''good'', ApplySource ''bad'']) = 1 \<and>
   cfLastErr (foldl (fileStep sampleCompile sampleFS) NewFile [ApplySource ''good'', ApplySource ''bad'']) =
     Some (CatalogDecode (DecodeFailed ''syntax'')) \<and>
   sampleCompile ''good'' =
     Inr (cfDefinitions (foldl (fileStep sampleCompile sampleFS) NewFile [ApplySource ''good'', ApplySource ''bad'']),
          cfActive (foldl (fileStep sampleCompile sampleFS) NewFile [ApplySource ''good'', ApplySource ''bad'']))"
proof -
  let ?evs = "[ApplySource ''good'', ApplySource ''bad''] :: string fileEvent list"
  have tried: "catalog_file.submissions sampleCompile sampleFS NewFile ?evs = [''good'', ''bad'']"
    by (simp add: fileSubmitted_def)
  have good: "(\<exists>c. sampleCompile ''good'' = Inr c) = True"
  proof -
    have "case sampleCompile ''good'' of Inr _ \<Rightarrow> True | Inl _ \<Rightarrow> False" by code_simp
    then show ?thesis by (auto split: sum.splits)
  qed
  have bad: "sampleCompile ''bad'' = Inl (CatalogDecode (DecodeFailed ''syntax''))"
    by (simp add: compileWorkspaceFile_def decodeSingle_def sampleDecoder_def)
  have bad': "(\<exists>c. sampleCompile ''bad'' = Inr c) = False" by (simp add: bad)
  have acc: "filter (\<lambda>src. \<exists>c. sampleCompile src = Inr c) [''good'', ''bad''] = [''good'']"
    by (simp only: filter.simps good bad' if_True if_False)
  show ?thesis
    using File_last_known_good [of sampleCompile sampleFS ?evs]
    unfolding tried Let_def acc
    by (simp only: last.simps list.distinct list.size of_nat_1 if_False not_False_eq_True simp_thms bad
        sum.case if_True) simp
qed

text \<open>
  Without the side condition the current definition can be another workspace's: here \<open>a\<close> at
  \<open>b@c\<close> is answered with the definition of \<open>a@b\<close> at \<open>c\<close>.
\<close>

lemma File_Current_confuses_keys:
  "let f = snd (File_Apply (compileWorkspaceFile (sampleDecoder (sampleDocument [(''a'', ''b@c'')] [(''a@b'', ''c'')]))
                  (\<lambda>m. m)) ''good'' NewFile)
   in map_option dsWorkspaceID (case File_Current f ''a'' of Inr d \<Rightarrow> Some d | Inl _ \<Rightarrow> None) = Some ''a@b''"
  by code_simp

text \<open>Two identifiers that trim to the same one make the active revision depend on the map's order.\<close>

lemma active_revision_depends_on_order:
  "let document = sampleDocument [(''a'', ''1''), ('' a'', ''2'')] [(''a'', ''1''), (''a'', ''2'')]
   in map_option snd (case compileDocument (\<lambda>m. m) document of Inr c \<Rightarrow> Some c | Inl _ \<Rightarrow> None) = Some [(''a'', ''2'')] \<and>
      map_option snd (case compileDocument rev document of Inr c \<Rightarrow> Some c | Inl _ \<Rightarrow> None) = Some [(''a'', ''1'')]"
  by code_simp

end
