(* ===== verification/ContextTree.thy ===== *)
theory ContextTree
  imports Hierarchy ConfigFiles
begin

text \<open>
  \<open>internal/contexttree/manager.go\<close>: the hierarchy configuration. A document is normalised node by
  node, built into a tree by \<open>NewTree\<close>, and its nodes are listed in a canonical order; the manager
  keeps the last good tree. The orders in which \<open>NewTree\<close> visits its maps are the arguments
  \<open>it1\<close> and \<open>it2\<close>; decoder and file system are the records of \<open>ConfigFiles\<close>.
\<close>

section \<open>Documents\<close>

definition SchemaVersion :: "32 word" where "SchemaVersion = 1"

definition DefaultSource :: string where
  "DefaultSource = quotedLines [
     ''{'',
     ''  |schema|: 1,'',
     ''  |nodes|: ['',
     ''    {|id|:|root|,|kind|:|category|,|title|:|Home|,|order|:0},'',
     ''    {|id|:|dev|,|parentId|:|root|,|kind|:|category|,|title|:|Development|,|order|:10},'',
     ''    {|id|:|cad|,|parentId|:|root|,|kind|:|category|,|title|:|CAD|,|order|:20},'',
     ''    {|id|:|research|,|parentId|:|root|,|kind|:|category|,|title|:|Research|,|order|:30},'',
     ''    {|id|:|system|,|parentId|:|root|,|kind|:|category|,|title|:|System|,|order|:40},'',
     ''    {|id|:|personal|,|parentId|:|root|,|kind|:|category|,|title|:|Personal|,|order|:50},'',
     ''    {|id|:|dev-projects|,|parentId|:|dev|,|kind|:|category|,|title|:|Projects|,|order|:10},'',
     ''    {|id|:|dev-tools|,|parentId|:|dev|,|kind|:|category|,|title|:|Tools|,|order|:20},'',
     ''    {|id|:|cad-modeling|,|parentId|:|cad|,|kind|:|category|,|title|:|Modeling|,|order|:10},'',
     ''    {|id|:|cad-automation|,|parentId|:|cad|,|kind|:|category|,|title|:|Automation|,|order|:20},'',
     ''    {|id|:|research-literature|,|parentId|:|research|,|kind|:|category|,|title|:|Literature|,|order|:10},'',
     ''    {|id|:|research-experiments|,|parentId|:|research|,|kind|:|category|,|title|:|Experiments|,|order|:20},'',
     ''    {|id|:|system-network|,|parentId|:|system|,|kind|:|category|,|title|:|Network|,|order|:10},'',
     ''    {|id|:|system-services|,|parentId|:|system|,|kind|:|category|,|title|:|Services|,|order|:20},'',
     ''    {|id|:|system-logs|,|parentId|:|system|,|kind|:|category|,|title|:|Logs|,|order|:30},'',
     ''    {|id|:|personal-notes|,|parentId|:|personal|,|kind|:|category|,|title|:|Notes|,|order|:10},'',
     ''    {|id|:|personal-routines|,|parentId|:|personal|,|kind|:|category|,|title|:|Routines|,|order|:20}'',
     ''  ]'',
     ''}'']"

record ctNode =
  ctID :: string
  ctParentID :: string
  ctKind :: string
  ctTitle :: string
  ctOrder :: int
  ctWorkspaceID :: string

record ctDocument =
  cdSchema :: "32 word"
  cdNodes :: "ctNode list"

record ctSnapshot =
  snSchema :: "32 word"
  snRevision :: "64 word"
  snRootID :: string
  snNodes :: "ctNode list"

datatype contextError =
  ContextDecode decodeError | ContextSchema "32 word" | NodeCount | NodeIDLength | FieldLength string
| InvalidKind string string | BadHierarchy hierarchyError
| ConfigPathRequired | BuiltInHierarchy contextError | ConfigPathNotConfigured | ConfigIO string
| HierarchyUnavailable

definition normalizeNode :: "ctNode \<Rightarrow> contextError + ctNode" where
  "normalizeNode node =
     (let n1 = node\<lparr>ctID := TrimSpace (ctID node), ctParentID := TrimSpace (ctParentID node),
            ctKind := TrimSpace (ctKind node), ctTitle := TrimSpace (ctTitle node),
            ctWorkspaceID := TrimSpace (ctWorkspaceID node)\<rparr>;
          n2 = (if ctKind n1 = '''' then n1\<lparr>ctKind := NodeCategory\<rparr> else n1)
      in if length (ctID n2) = 0 \<or> length (ctID n2) > 128 then Inl NodeIDLength
         else if length (ctParentID n2) > 128 \<or> length (ctTitle n2) = 0 \<or> length (ctTitle n2) > 256 \<or>
                 length (ctWorkspaceID n2) > 128 then Inl (FieldLength (ctID n2))
         else if ctKind n2 \<notin> {NodeCategory, NodeProject, NodeTask, NodeAction, NodeWidget, NodeQuery}
         then Inl (InvalidKind (ctID n2) (ctKind n2))
         else Inr n2)"

definition toDomain :: "ctNode \<Rightarrow> Node" where
  "toDomain n = \<lparr>nID = ctID n, nParent = ctParentID n, nKind = ctKind n, nTitle = ctTitle n,
     nOrder = ctOrder n, nWorkspace = ctWorkspaceID n\<rparr>"

definition fromDomain :: "Node \<Rightarrow> ctNode" where
  "fromDomain n = \<lparr>ctID = nID n, ctParentID = nParent n, ctKind = nKind n, ctTitle = nTitle n,
     ctOrder = nOrder n, ctWorkspaceID = nWorkspace n\<rparr>"

definition nodeCompare :: "ctNode \<Rightarrow> ctNode \<Rightarrow> int" where
  "nodeCompare a b =
     (if ctParentID a \<noteq> ctParentID b then compare (ctParentID a) (ctParentID b)
      else if ctOrder a \<noteq> ctOrder b then wrap64 (ctOrder a - ctOrder b)
      else if ctTitle a \<noteq> ctTitle b then compare (ctTitle a) (ctTitle b)
      else compare (ctID a) (ctID b))"

definition addNormalized :: "ctNode list \<times> Node list \<Rightarrow> ctNode \<Rightarrow> contextError + ctNode list \<times> Node list" where
  "addNormalized st raw =
     (case normalizeNode raw of
        Inl e \<Rightarrow> Inl e
      | Inr node \<Rightarrow> Inr (fst st @ [node], snd st @ [toDomain node]))"

definition compileHierarchy :: "nodeOrder \<Rightarrow> nodeOrder \<Rightarrow> ctDocument \<Rightarrow> contextError + Tree \<times> ctNode list" where
  "compileHierarchy it1 it2 document =
     (if cdSchema document \<noteq> SchemaVersion then Inl (ContextSchema (cdSchema document))
      else if length (cdNodes document) = 0 \<or> length (cdNodes document) > 4096 then Inl NodeCount
      else case foldE addNormalized ([], []) (cdNodes document) of
        Inl e \<Rightarrow> Inl e
      | Inr (nodes, domainNodes) \<Rightarrow>
          (case NewTree it1 it2 domainNodes of
             Inl e \<Rightarrow> Inl (BadHierarchy e)
           | Inr t \<Rightarrow> Inr (t, sortFunc nodeCompare nodes)))"

definition compile ::
  "ctDocument Decoder \<Rightarrow> nodeOrder \<Rightarrow> nodeOrder \<Rightarrow> string \<Rightarrow> contextError + Tree \<times> ctNode list" where
  "compile dec it1 it2 data =
     (case decodeSingle dec data of
        Inl e \<Rightarrow> Inl (ContextDecode e)
      | Inr document \<Rightarrow> compileHierarchy it1 it2 document)"

section \<open>The manager\<close>

record Manager =
  cmPath :: string
  cmModTime :: int
  cmSize :: int
  cmTree :: "Tree option"
  cmNodes :: "ctNode list"
  cmRevision :: "64 word"
  cmValid :: bool
  cmLastErr :: "contextError option"

definition zeroManager :: Manager where
  "zeroManager = \<lparr>cmPath = '''', cmModTime = 0, cmSize = 0, cmTree = None, cmNodes = [], cmRevision = 0,
     cmValid = False, cmLastErr = None\<rparr>"

type_synonym treeCompiler = "string \<Rightarrow> contextError + Tree \<times> ctNode list"

definition installTree :: "Tree \<times> ctNode list \<Rightarrow> Manager \<Rightarrow> Manager" where
  "installTree c m = m\<lparr>cmTree := Some (fst c), cmNodes := snd c, cmRevision := cmRevision m + 1,
     cmValid := True, cmLastErr := None\<rparr>"

definition Manager_Apply :: "treeCompiler \<Rightarrow> string \<Rightarrow> Manager \<Rightarrow> (64 word \<times> contextError option) \<times> Manager" where
  "Manager_Apply cpl data m =
     (case cpl data of
        Inl e \<Rightarrow> ((cmRevision m, Some e), m\<lparr>cmLastErr := Some e\<rparr>)
      | Inr c \<Rightarrow> (let m' = installTree c m in ((cmRevision m', None), m')))"

definition treeCommit ::
  "64 word \<Rightarrow> FileInfo \<Rightarrow> contextError + Tree \<times> ctNode list \<Rightarrow> Manager \<Rightarrow> (contextError + bool) \<times> Manager" where
  "treeCommit before info result m =
     (let m = m\<lparr>cmModTime := fiModTime info, cmSize := fiSize info\<rparr>
      in case result of
           Inl e \<Rightarrow> (Inl e, m\<lparr>cmLastErr := Some e\<rparr>)
         | Inr c \<Rightarrow> (let m' = installTree c m in (Inr (cmRevision m' \<noteq> before), m')))"

definition Manager_Reload :: "treeCompiler \<Rightarrow> 'w FS \<Rightarrow> 'w \<Rightarrow> Manager \<Rightarrow> (contextError + bool) \<times> Manager" where
  "Manager_Reload cpl fs w m =
     (if cmPath m = '''' then (Inl ConfigPathNotConfigured, m)
      else case fsReadFile fs (cmPath m) w of
        Inl e \<Rightarrow> (Inl (ConfigIO e), m)
      | Inr data \<Rightarrow>
          (case fsStat fs (cmPath m) w of
             Inl e \<Rightarrow> (Inl (ConfigIO (statText e)), m)
           | Inr info \<Rightarrow> treeCommit (cmRevision m) info (cpl data) m))"

definition Manager_Poll :: "treeCompiler \<Rightarrow> 'w FS \<Rightarrow> 'w \<Rightarrow> Manager \<Rightarrow> (contextError + bool) \<times> Manager" where
  "Manager_Poll cpl fs w m =
     (if cmPath m = '''' then (Inr False, m)
      else case fsStat fs (cmPath m) w of
        Inl e \<Rightarrow> (Inl (ConfigIO (statText e)), m)
      | Inr info \<Rightarrow>
          if fiSize info = cmSize m \<and> fiModTime info = cmModTime m then (Inr False, m)
          else Manager_Reload cpl fs w m)"

definition Manager_Configure ::
  "treeCompiler \<Rightarrow> 'w FS \<Rightarrow> string \<Rightarrow> 'w \<Rightarrow> Manager \<Rightarrow> contextError option \<times> 'w \<times> Manager" where
  "Manager_Configure cpl fs path w m =
     (if TrimSpace path = '''' then (Some ConfigPathRequired, w, m)
      else case Manager_Apply cpl DefaultSource m of
        ((_, Some e), m) \<Rightarrow> (Some (BuiltInHierarchy e), w, m)
      | ((_, None), m) \<Rightarrow>
         (let m = m\<lparr>cmPath := path\<rparr>;
              reload = (\<lambda>w. case Manager_Reload cpl fs w m of
                  (Inl e, m) \<Rightarrow> (Some e, w, m) | (Inr _, m) \<Rightarrow> (None, w, m))
          in case fsMkdirAll fs (fsDir fs path) w of
               (Some e, w) \<Rightarrow> (Some (ConfigIO e), w, m)
             | (None, w) \<Rightarrow>
                 (case fsStat fs path w of
                    Inl NotExist \<Rightarrow>
                      (case fsWriteFile fs path DefaultSource w of
                         (Some e, w) \<Rightarrow> (Some (ConfigIO e), w, m)
                       | (None, w) \<Rightarrow> reload w)
                  | Inl (StatError e) \<Rightarrow> (Some (ConfigIO e), w, m)
                  | Inr _ \<Rightarrow> reload w)))"

definition Manager_Snapshot :: "Manager \<Rightarrow> ctSnapshot option" where
  "Manager_Snapshot m =
     (if \<not> cmValid m then None
      else case cmTree m of
        None \<Rightarrow> None
      | Some t \<Rightarrow> Some \<lparr>snSchema = SchemaVersion, snRevision = cmRevision m,
          snRootID = nID (Tree_Root t), snNodes = cmNodes m\<rparr>)"

text \<open>The outer \<open>None\<close> is a path that is never found because the loop does not end.\<close>

definition Manager_Path :: "Manager \<Rightarrow> string \<Rightarrow> (contextError + ctNode list) option" where
  "Manager_Path m nid =
     (case (cmValid m, cmTree m) of
        (True, Some t) \<Rightarrow>
          map_option (\<lambda>r. case r of Inl e \<Rightarrow> Inl (BadHierarchy e) | Inr path \<Rightarrow> Inr (map fromDomain path))
            (Tree_Path t nid)
      | _ \<Rightarrow> Some (Inl HierarchyUnavailable))"

definition Manager_Valid :: "Manager \<Rightarrow> bool" where
  "Manager_Valid m \<longleftrightarrow> cmValid m \<and> cmLastErr m = None"

section \<open>The last good hierarchy\<close>

text \<open>\<open>SetTreePath\<close> is the assignment of the path in \<open>Configure\<close>, which is made of such events.\<close>

datatype 'w treeEvent = ApplyTree string | SetTreePath string | ReloadTree 'w | PollTree 'w

definition treeStep :: "treeCompiler \<Rightarrow> 'w FS \<Rightarrow> Manager \<Rightarrow> 'w treeEvent \<Rightarrow> Manager" where
  "treeStep cpl fs m ev =
     (case ev of
        ApplyTree data \<Rightarrow> snd (Manager_Apply cpl data m)
      | SetTreePath path \<Rightarrow> m\<lparr>cmPath := path\<rparr>
      | ReloadTree w \<Rightarrow> snd (Manager_Reload cpl fs w m)
      | PollTree w \<Rightarrow> snd (Manager_Poll cpl fs w m))"

definition treeSubmitted :: "'w FS \<Rightarrow> Manager \<Rightarrow> 'w treeEvent \<Rightarrow> string option" where
  "treeSubmitted fs m ev =
     (case ev of
        ApplyTree data \<Rightarrow> Some data
      | SetTreePath _ \<Rightarrow> None
      | ReloadTree w \<Rightarrow> reloadSource fs (cmPath m) w
      | PollTree w \<Rightarrow> if pollDue fs (cmPath m) (cmSize m) (cmModTime m) w then reloadSource fs (cmPath m) w else None)"

definition treeCurrent :: "Manager \<Rightarrow> (Tree \<times> ctNode list) option" where
  "treeCurrent m = (if cmValid m then map_option (\<lambda>t. (t, cmNodes m)) (cmTree m) else None)"

lemmas tree_ops = treeStep_def treeSubmitted_def treeCurrent_def Manager_Apply_def Manager_Reload_def
  Manager_Poll_def treeCommit_def installTree_def reloadSource_def pollDue_def

text \<open>Configuring: the built-in hierarchy, the path, and then the file, as far as each succeeds.\<close>

lemma Manager_Configure_events:
  "\<exists>w'. snd (snd (Manager_Configure cpl fs path w m)) \<in>
     {m, foldl (treeStep cpl fs) m [ApplyTree DefaultSource],
      foldl (treeStep cpl fs) m [ApplyTree DefaultSource, SetTreePath path],
      foldl (treeStep cpl fs) m [ApplyTree DefaultSource, SetTreePath path, ReloadTree w']}"
proof -
  obtain r e m1 where a: "Manager_Apply cpl DefaultSource m = ((r, e), m1)" by (metis prod.collapse)
  let ?m = "m1\<lparr>cmPath := path\<rparr>"
  obtain e1 w1 where d: "fsMkdirAll fs (fsDir fs path) w = (e1, w1)" by fastforce
  obtain e2 w2 where wr: "fsWriteFile fs path DefaultSource w1 = (e2, w2)" by fastforce
  have reload: "snd (snd (case Manager_Reload cpl fs w' ?m of (Inl e, x) \<Rightarrow> (Some e, w', x) | (Inr _, x) \<Rightarrow> (None, w', x))) =
      snd (Manager_Reload cpl fs w' ?m)" for w'
    by (simp split: prod.split sum.split)
  have "snd (snd (Manager_Configure cpl fs path w m)) \<in>
      {m, m1, ?m, snd (Manager_Reload cpl fs w1 ?m), snd (Manager_Reload cpl fs w2 ?m)}"
    using a d wr reload [of w1] reload [of w2]
    by (cases e; cases e1; cases e2; cases "fsStat fs path w1")
      (auto simp: Manager_Configure_def Let_def split: statError.split)
  then show ?thesis using a by (auto simp: treeStep_def)
qed

interpretation tree_manager: last_known_good "treeStep cpl fs" "treeSubmitted fs" cpl
    treeCurrent cmRevision cmLastErr for cpl and fs :: "'w FS"
  by unfold_locales
    (auto simp: tree_ops Let_def split: treeEvent.splits sum.splits if_splits)

text \<open>The hierarchy counts as valid exactly when the last source that was tried is accepted.\<close>

lemma Manager_Valid_run:
  "Manager_Valid (foldl (treeStep cpl fs) zeroManager evs) \<longleftrightarrow>
    (let tried = tree_manager.submissions cpl fs zeroManager evs in tried \<noteq> [] \<and> (\<exists>c. cpl (last tried) = Inr c))"
proof -
  let ?m = "foldl (treeStep cpl fs) zeroManager evs"
  have "cmTree (treeStep cpl fs m ev) \<noteq> None" if "cmValid m \<longrightarrow> cmTree m \<noteq> None" "cmValid (treeStep cpl fs m ev)" for m ev
    using that by (auto simp: tree_ops Let_def split: treeEvent.splits sum.splits if_splits)
  then have "cmValid ?m \<longrightarrow> cmTree ?m \<noteq> None"
    by (induction evs rule: rev_induct) (simp_all add: zeroManager_def)
  then have "Manager_Valid ?m \<longleftrightarrow> treeCurrent ?m \<noteq> None \<and> cmLastErr ?m = None"
    by (auto simp: Manager_Valid_def treeCurrent_def)
  then show ?thesis
    using tree_manager.healthy_iff [of zeroManager cpl fs evs]
    by (simp add: Let_def tree_manager.good_def) (simp add: treeCurrent_def zeroManager_def)
qed

text \<open>What holds of every compiled hierarchy.\<close>

lemma normalizeNode_Inr:
  assumes "normalizeNode raw = Inr n"
  shows "ctID n = TrimSpace (ctID raw) \<and> ctID n \<noteq> '''' \<and> length (ctID n) \<le> 128 \<and> ctTitle n \<noteq> '''' \<and>
    length (ctTitle n) \<le> 256 \<and>
    ctKind n \<in> {NodeCategory, NodeProject, NodeTask, NodeAction, NodeWidget, NodeQuery}"
  using assms by (auto simp: normalizeNode_def Let_def split: if_splits)

lemma normalize_loop:
  assumes "foldE addNormalized ([], []) raws = Inr (nodes, domainNodes)"
  shows "domainNodes = map toDomain nodes \<and> (\<forall>n \<in> set nodes. \<exists>raw \<in> set raws. normalizeNode raw = Inr n)"
proof -
  have "snd (nodes, domainNodes) = map toDomain (fst (nodes, domainNodes)) \<and>
      (\<forall>n \<in> set (fst (nodes, domainNodes)). \<exists>raw \<in> set raws. normalizeNode raw = Inr n)"
    by (rule foldE_invariant [where I = "\<lambda>done st. snd st = map toDomain (fst st) \<and>
      (\<forall>n \<in> set (fst st). \<exists>raw \<in> set raws. normalizeNode raw = Inr n)", OF assms])
      (auto simp: addNormalized_def split: sum.splits)
  then show ?thesis by simp
qed

lemma kind_nonempty: "normalizeNode raw = Inr n \<Longrightarrow> ctKind n \<noteq> ''''"
  by (drule normalizeNode_Inr)
    (auto simp: NodeCategory_def NodeProject_def NodeTask_def NodeAction_def NodeWidget_def NodeQuery_def)

lemma fromDomain_toDomain [simp]: "fromDomain (toDomain n) = n" and toDomain_fromDomain [simp]: "toDomain (fromDomain m) = m"
  by (simp_all add: fromDomain_def toDomain_def)

lemma domain_fields [simp]:
  "ctID (fromDomain m) = nID m" "ctParentID (fromDomain m) = nParent m"
  "nID (toDomain n) = ctID n" "nParent (toDomain n) = ctParentID n"
  by (simp_all add: fromDomain_def toDomain_def)

text \<open>\<open>pathOK root path n\<close>: the path starts at the root, ends at \<open>n\<close>, and each node is the parent of the next.\<close>

definition pathOK :: "string \<Rightarrow> ctNode list \<Rightarrow> ctNode \<Rightarrow> bool" where
  "pathOK root path n \<longleftrightarrow> path \<noteq> [] \<and> ctID (hd path) = root \<and> last path = n \<and>
     successively (\<lambda>p c. ctParentID c = ctID p) path \<and> distinct (map ctID path)"

definition hierarchyOK :: "Tree \<times> ctNode list \<Rightarrow> bool" where
  "hierarchyOK c \<longleftrightarrow>
     (\<forall>nid. case Tree_Node (fst c) nid of
        None \<Rightarrow> nid \<notin> ctID ` set (snd c) \<and> Tree_Path (fst c) nid = Some (Inl (UnknownNode nid))
      | Some m \<Rightarrow> fromDomain m \<in> set (snd c) \<and> ctID (fromDomain m) = nid \<and>
          (\<exists>ps. Tree_Path (fst c) nid = Some (Inr ps) \<and>
             pathOK (nID (Tree_Root (fst c))) (map fromDomain ps) (fromDomain m)))"

lemma compile_ok:
  assumes "isIteration it1" and "isIteration it2" and "compileHierarchy it1 it2 document = Inr c"
  shows "hierarchyOK c"
proof -
  obtain t nodes ds where c: "c = (t, sortFunc nodeCompare nodes)"
    and loop: "foldE addNormalized ([], []) (cdNodes document) = Inr (nodes, ds)"
    and ds: "NewTree it1 it2 ds = Inr t"
    using assms(3) by (auto simp: compileHierarchy_def split: if_splits sum.splits)
  have tree: "NewTree it1 it2 (map toDomain nodes) = Inr t"
    using ds normalize_loop [OF loop] by simp
  have kinds: "\<forall>n \<in> set nodes. withKind (toDomain n) = toDomain n"
    using normalize_loop [OF loop] kind_nonempty by (auto simp: withKind_def toDomain_def)
  have nodes: "tNodes t = map (\<lambda>n. (ctID n, toDomain n)) nodes"
    using newTree_wf [OF assms(1,2) tree] kinds by (simp add: comp_def toDomain_def)
  have "case Tree_Node t nid of
        None \<Rightarrow> nid \<notin> ctID ` set nodes \<and> Tree_Path t nid = Some (Inl (UnknownNode nid))
      | Some m \<Rightarrow> fromDomain m \<in> set nodes \<and> ctID (fromDomain m) = nid \<and>
          (\<exists>ps. Tree_Path t nid = Some (Inr ps) \<and>
             pathOK (nID (Tree_Root t)) (map fromDomain ps) (fromDomain m))" for nid
  proof (cases "Tree_Node t nid")
    case None
    then have "nid \<notin> ctID ` set nodes"
      using nodes by (auto simp: Tree_Node_def map_of_eq_None_iff image_iff)
    with None show ?thesis using tree_path_cases [OF assms(1,2) tree, of nid] by simp
  next
    case (Some m)
    then obtain n where n: "n \<in> set nodes" "m = toDomain n" "nid = ctID n"
      using nodes by (auto simp: Tree_Node_def dest!: map_of_SomeD)
    from Some tree_path_cases [OF assms(1,2) tree, of nid] obtain ps where
      "Tree_Path t nid = Some (Inr ps)" "ps \<noteq> []" "hd ps = Tree_Root t" "last ps = m"
      "successively (\<lambda>p c. nParent c = nID p) ps" "distinct (map nID ps)"
      by auto
    then show ?thesis
      using Some n by (auto simp: pathOK_def hd_map last_map successively_map comp_def)
  qed
  then show ?thesis unfolding hierarchyOK_def c fst_conv snd_conv set_sortFunc by blast
qed

text \<open>
  C34. After any sequence of configuration events, whenever the manager offers a snapshot, a path
  query answers for exactly the nodes of the snapshot: with a list that leads from its root to the
  node asked for along the parent links, without repetition; for any other identifier with the
  error that it is unknown. A rejected reload in between does not take the hierarchy away.
\<close>

theorem Manager_paths_of_snapshot:
  assumes "isIteration it1" and "isIteration it2"
    and "m = foldl (treeStep (compile dec it1 it2) fs) zeroManager evs"
    and "Manager_Snapshot m = Some s"
  shows "if nid \<in> ctID ` set (snNodes s)
    then \<exists>path n. n \<in> set (snNodes s) \<and> ctID n = nid \<and> Manager_Path m nid = Some (Inr path) \<and> pathOK (snRootID s) path n
    else Manager_Path m nid = Some (Inl (BadHierarchy (UnknownNode nid)))"
proof -
  obtain t where t: "cmTree m = Some t" "cmValid m"
    and s: "snNodes s = cmNodes m" "snRootID s = nID (Tree_Root t)"
    using assms(4) by (auto simp: Manager_Snapshot_def split: if_splits option.splits)
  have "hierarchyOK (t, cmNodes m)"
  proof (rule tree_manager.current_invariant [where s = zeroManager and P = hierarchyOK])
    show "treeCurrent zeroManager = None" by (simp add: treeCurrent_def zeroManager_def)
    show "hierarchyOK c" if "compile dec it1 it2 src = Inr c" for src c
      using that compile_ok [OF assms(1,2)] by (auto simp: compile_def split: sum.splits)
    show "treeCurrent (foldl (treeStep (compile dec it1 it2) fs) zeroManager evs) = Some (t, cmNodes m)"
      using t by (simp add: treeCurrent_def flip: assms(3))
  qed
  then have "case Tree_Node t nid of
        None \<Rightarrow> nid \<notin> ctID ` set (cmNodes m) \<and> Tree_Path t nid = Some (Inl (UnknownNode nid))
      | Some n \<Rightarrow> fromDomain n \<in> set (cmNodes m) \<and> ctID (fromDomain n) = nid \<and>
          (\<exists>ps. Tree_Path t nid = Some (Inr ps) \<and>
             pathOK (nID (Tree_Root t)) (map fromDomain ps) (fromDomain n))"
    unfolding hierarchyOK_def fst_conv snd_conv by blast
  note found = this
  have path: "Manager_Path m nid = map_option (\<lambda>r. case r of Inl e \<Rightarrow> Inl (BadHierarchy e)
      | Inr path \<Rightarrow> Inr (map fromDomain path)) (Tree_Path t nid)"
    by (simp add: Manager_Path_def t)
  show ?thesis
  proof (cases "Tree_Node t nid")
    case None
    with found show ?thesis by (simp add: path s)
  next
    case (Some n)
    with found have n: "fromDomain n \<in> set (snNodes s)" "ctID (fromDomain n) = nid" by (simp_all add: s)
    then have "nid \<in> ctID ` set (snNodes s)" by (metis imageI)
    moreover have "\<exists>path. Manager_Path m nid = Some (Inr path) \<and> pathOK (snRootID s) path (fromDomain n)"
      using Some found by (auto simp: path s)
    ultimately show ?thesis using n by (simp only: if_True) blast
  qed
qed

section \<open>The canonical order\<close>

definition ctKey :: "ctNode \<Rightarrow> string \<times> int \<times> string \<times> string" where
  "ctKey n = (ctParentID n, ctOrder n, ctTitle n, ctID n)"

interpretation ct_order: by_key "\<lambda>a b. ctKey a < ctKey b" ctKey
  by unfold_locales simp

definition smallOrder :: "ctNode \<Rightarrow> bool" where
  "smallOrder n \<longleftrightarrow> - (2 ^ 62) \<le> ctOrder n \<and> ctOrder n < 2 ^ 62"

lemma nodeCompare_key:
  assumes "smallOrder a" and "smallOrder b"
  shows "nodeCompare a b < 0 \<longleftrightarrow> ctKey a < ctKey b"
proof -
  have "in64 (ctOrder a - ctOrder b)" using assms by (simp add: smallOrder_def in64_def)
  then show ?thesis by (auto simp: nodeCompare_def ctKey_def)
qed

lemma sortFunc_nodeCompare:
  assumes "\<forall>n \<in> set nodes. smallOrder n"
  shows "sortFunc nodeCompare nodes = sortBy (\<lambda>a b. ctKey a < ctKey b) nodes"
  unfolding sortFunc_def by (rule sortBy_cong) (use assms nodeCompare_key in auto)

text \<open>
  While the order fields stay within 62 bits, the nodes of a compiled hierarchy are listed in
  the order of parent, order field, title and identifier, and listing the same nodes in another
  order in the document gives the same list.
\<close>

lemma compile_nodes_canonical:
  assumes "compileHierarchy it1 it2 document = Inr (t, nodes)"
    and "compileHierarchy it1' it2' document' = Inr (t', nodes')"
    and "mset (cdNodes document) = mset (cdNodes document')"
    and "\<And>n. n \<in> set (cdNodes document) \<Longrightarrow> smallOrder n"
  shows "sorted (map ctKey nodes) \<and> nodes' = nodes"
proof -
  have norm: "foldE addNormalized (as, bs) raws = Inr (ns, ds) \<Longrightarrow>
      ns = as @ map (projr \<circ> normalizeNode) raws" for as bs raws ns ds
    by (induction raws arbitrary: as bs) (fastforce simp: addNormalized_def split: sum.splits)+
  obtain ns ds where ns: "foldE addNormalized ([], []) (cdNodes document) = Inr (ns, ds)"
    and nodes: "nodes = sortFunc nodeCompare ns"
    using assms(1) by (auto simp: compileHierarchy_def split: if_splits sum.splits)
  obtain ns' ds' where ns': "foldE addNormalized ([], []) (cdNodes document') = Inr (ns', ds')"
    and nodes': "nodes' = sortFunc nodeCompare ns'"
    using assms(2) by (auto simp: compileHierarchy_def split: if_splits sum.splits)
  have m: "mset ns = mset ns'"
    using norm [OF ns] norm [OF ns'] assms(3) by (simp only: append_Nil mset_map)
  have order: "normalizeNode raw = Inr n \<Longrightarrow> ctOrder n = ctOrder raw" for raw n
    by (auto simp: normalizeNode_def Let_def split: if_splits)
  have small: "\<forall>n \<in> set ns. smallOrder n"
    using normalize_loop [OF ns] assms(4) order by (fastforce simp: smallOrder_def)
  with m have small': "\<forall>n \<in> set ns'. smallOrder n" by (metis set_mset_mset)
  have "distinct (map ctID ns)"
    using assms(1) ns normalize_loop [OF ns] addNode_loop
    by (fastforce simp: compileHierarchy_def NewTree_Inr_iff nodesAdded_def comp_def toDomain_def
        split: if_splits sum.splits)
  then have inj: "inj_on ctKey (set ns)"
    by (auto simp: inj_on_def ctKey_def distinct_map)
  show ?thesis
    using ct_order.sorted_keys ct_order.sortBy_perm [OF m inj]
    unfolding nodes nodes' sortFunc_nodeCompare [OF small] sortFunc_nodeCompare [OF small'] by simp
qed

text \<open>
  The difference of two large order fields wraps around: the comparison then has a cycle, and
  listing depends on the sort.
\<close>

lemma nodeCompare_overflow:
  "let n = (\<lambda>i v. \<lparr>ctID = i, ctParentID = ''r'', ctKind = ''task'', ctTitle = i, ctOrder = v, ctWorkspaceID = ''''\<rparr>);
       a = n ''a'' (- (2 ^ 62)); b = n ''b'' 1; c = n ''c'' (2 ^ 62)
   in nodeCompare a b < 0 \<and> nodeCompare b c < 0 \<and> nodeCompare c a < 0"
  by code_simp

section \<open>Witnesses\<close>

definition sampleTreeDocument :: "int \<Rightarrow> ctDocument" where
  "sampleTreeDocument v = \<lparr>cdSchema = 1, cdNodes =
     [\<lparr>ctID = ''task'', ctParentID = ''home '', ctKind = ''task'', ctTitle = ''Task'', ctOrder = v, ctWorkspaceID = ''w''\<rparr>,
      \<lparr>ctID = '' home'', ctParentID = '''', ctKind = '''', ctTitle = ''Home'', ctOrder = 0, ctWorkspaceID = ''''\<rparr>]\<rparr>"

definition sampleTreeDecoder :: "ctDocument Decoder" where
  "sampleTreeDecoder = \<lparr>decDocument = \<lambda>s. if s = ''good'' then Inr (sampleTreeDocument 5) else Inl ''syntax'',
     decTrailing = \<lambda>_. AtEOF\<rparr>"

definition sampleTreeFS :: "string FS" where
  "sampleTreeFS = \<lparr>fsDir = \<lambda>p. p, fsMkdirAll = \<lambda>p w. (None, w),
     fsStat = \<lambda>p w. Inr \<lparr>fiModTime = 1, fiSize = int (length w)\<rparr>, fsReadFile = \<lambda>p w. Inr w,
     fsWriteFile = \<lambda>p data w. (None, data)\<rparr>"

definition sampleManager :: Manager where
  "sampleManager = foldl (treeStep (compile sampleTreeDecoder (\<lambda>m. m) rev) sampleTreeFS) zeroManager
     [ApplyTree ''good'', ApplyTree ''bad'']"

lemma Manager_paths_of_snapshot_witness:
  "cmLastErr sampleManager = Some (ContextDecode (DecodeFailed ''syntax'')) \<and>
   (\<exists>path n. ctID n = ''task'' \<and> Manager_Path sampleManager ''task'' = Some (Inr path) \<and> pathOK ''home'' path n) \<and>
   Manager_Path sampleManager ''other'' = Some (Inl (BadHierarchy (UnknownNode ''other'')))"
proof -
  have "case Manager_Snapshot sampleManager of Some s \<Rightarrow> map ctID (snNodes s) = [''home'', ''task''] \<and> snRootID s = ''home'' | None \<Rightarrow> False"
    by code_simp
  then obtain s where s: "Manager_Snapshot sampleManager = Some s" "map ctID (snNodes s) = [''home'', ''task'']"
    "snRootID s = ''home''"
    by (auto split: option.splits)
  have ids: "ctID ` set (snNodes s) = {''home'', ''task''}" using s(2) by (metis list.set list.set_map)
  have "cmLastErr sampleManager = Some (ContextDecode (DecodeFailed ''syntax''))" by code_simp
  moreover note Manager_paths_of_snapshot [OF isIteration_id isIteration_rev sampleManager_def s(1), unfolded ids, of "''task''"]
    Manager_paths_of_snapshot [OF isIteration_id isIteration_rev sampleManager_def s(1), unfolded ids, of "''other''"]
  ultimately show ?thesis using s(3) by auto
qed

end
