(* ===== verification/Surface.thy ===== *)
theory Surface
  imports GoStrings GoFloat
begin

text \<open>
  \<open>internal/surface/model.go\<close>: applications, their windows and views, and the status of an
  application. Pointers to optional values are options; the maps of capabilities, revisions and
  metadata are association lists.
\<close>

section \<open>Data\<close>

definition LifecycleStopped :: string where "LifecycleStopped = ''stopped''"
definition LifecycleStarting :: string where "LifecycleStarting = ''starting''"
definition LifecycleRunning :: string where "LifecycleRunning = ''running''"
definition LifecycleCrashed :: string where "LifecycleCrashed = ''crashed''"
definition AttentionNormal :: string where "AttentionNormal = ''normal''"
definition AttentionWanted :: string where "AttentionWanted = ''attention''"
definition AttentionUrgent :: string where "AttentionUrgent = ''urgent''"
definition ActivityIdle :: string where "ActivityIdle = ''idle''"
definition ActivityWorking :: string where "ActivityWorking = ''working''"
definition ActivityProgress :: string where "ActivityProgress = ''progress''"
definition ActivityWaiting :: string where "ActivityWaiting = ''waiting''"
definition ActivityBlocked :: string where "ActivityBlocked = ''blocked''"
definition ResourceClean :: string where "ResourceClean = ''clean''"
definition ResourceDirty :: string where "ResourceDirty = ''dirty''"
definition ResourceSyncing :: string where "ResourceSyncing = ''syncing''"
definition ResourceConflict :: string where "ResourceConflict = ''conflict''"
definition ResourceError :: string where "ResourceError = ''error''"
definition ViewTab :: string where "ViewTab = ''tab''"
definition ViewEditor :: string where "ViewEditor = ''editor''"
definition ViewTerminal :: string where "ViewTerminal = ''terminal''"
definition ViewMedia :: string where "ViewMedia = ''media''"

lemmas attention_defs = AttentionNormal_def AttentionWanted_def AttentionUrgent_def

definition ConfidenceLow :: "8 word" where "ConfidenceLow = 1"
definition ConfidenceMedium :: "8 word" where "ConfidenceMedium = 2"
definition ConfidenceHigh :: "8 word" where "ConfidenceHigh = 3"
definition ConfidenceAuthoritative :: "8 word" where "ConfidenceAuthoritative = 4"

definition CapabilityWindowObserve :: string where "CapabilityWindowObserve = ''window.observe''"
definition CapabilityWindowPreview :: string where "CapabilityWindowPreview = ''window.preview''"
definition CapabilityWindowActivate :: string where "CapabilityWindowActivate = ''window.activate''"
definition CapabilityViewObserve :: string where "CapabilityViewObserve = ''view.observe''"
definition CapabilityViewActivate :: string where "CapabilityViewActivate = ''view.activate''"
definition CapabilityViewClose :: string where "CapabilityViewClose = ''view.close''"
definition CapabilityViewReorder :: string where "CapabilityViewReorder = ''view.reorder''"
definition CapabilityViewProgress :: string where "CapabilityViewProgress = ''view.progress''"
definition CapabilityViewDirty :: string where "CapabilityViewDirty = ''view.dirty''"
definition CapabilityMediaObserve :: string where "CapabilityMediaObserve = ''media.observe''"

record AppStatus =
  stLifecycle :: string
  stFocused :: bool
  stBusy :: bool
  stAttention :: string
  stActivity :: string
  stResource :: string
  stSummary :: string
  stDetail :: string
  stProgress :: "f64 option"
  stBadge :: string
  stUpdatedAt :: int
  stSource :: string
  stConfidence :: "8 word"

record StatusPatch =
  spLifecycle :: "string option"
  spFocused :: "bool option"
  spBusy :: "bool option"
  spAttention :: "string option"
  spActivity :: "string option"
  spResource :: "string option"
  spSummary :: "string option"
  spDetail :: "string option"
  spProgress :: "f64 option"
  spBadge :: "string option"

definition emptyPatch :: StatusPatch where
  "emptyPatch = \<lparr>spLifecycle = None, spFocused = None, spBusy = None, spAttention = None, spActivity = None,
     spResource = None, spSummary = None, spDetail = None, spProgress = None, spBadge = None\<rparr>"

definition emptyStatus :: AppStatus where
  "emptyStatus = \<lparr>stLifecycle = '''', stFocused = False, stBusy = False, stAttention = '''', stActivity = '''',
     stResource = '''', stSummary = '''', stDetail = '''', stProgress = None, stBadge = '''', stUpdatedAt = 0,
     stSource = '''', stConfidence = 0\<rparr>"

record View =
  vID :: string
  vProviderID :: string
  vProviderWindowID :: string
  vKind :: string
  vTitle :: string
  vActive :: bool
  vDirty :: bool
  vPinned :: bool
  vAttention :: string
  vProgress :: "f64 option"
  vResourceRef :: string
  vMRU :: "64 word"
  vMetadata :: "(string, string) gomap"

record Window =
  wID :: string
  wTitle :: string
  wWorkspaceID :: string
  wMonitorRef :: string
  wFocused :: bool
  wMinimized :: bool
  wMRU :: "64 word"
  wProviderOnly :: bool
  wViews :: "View list"

record ApplicationSurface =
  asAppID :: string
  asName :: string
  asIconName :: string
  asDesktopAppID :: string
  asWindows :: "Window list"
  asStatus :: AppStatus
  asCapabilities :: "(string, bool) gomap"
  asSourceRevision :: "(string, 64 word) gomap"

section \<open>Status\<close>

definition orElse :: "'a option \<Rightarrow> 'a \<Rightarrow> 'a" where
  "orElse p old = (case p of Some v \<Rightarrow> v | None \<Rightarrow> old)"

definition AppStatus_Apply :: "AppStatus \<Rightarrow> StatusPatch \<Rightarrow> string \<Rightarrow> 8 word \<Rightarrow> int \<Rightarrow> AppStatus" where
  "AppStatus_Apply s p source confidence now =
     s\<lparr>stLifecycle := orElse (spLifecycle p) (stLifecycle s),
       stFocused := orElse (spFocused p) (stFocused s),
       stBusy := orElse (spBusy p) (stBusy s),
       stAttention := orElse (spAttention p) (stAttention s),
       stActivity := orElse (spActivity p) (stActivity s),
       stResource := orElse (spResource p) (stResource s),
       stSummary := orElse (spSummary p) (stSummary s),
       stDetail := orElse (spDetail p) (stDetail s),
       stProgress := (case spProgress p of Some v \<Rightarrow> Some (clamp01 v) | None \<Rightarrow> stProgress s),
       stBadge := orElse (spBadge p) (stBadge s),
       stSource := source, stConfidence := confidence, stUpdatedAt := now\<rparr>"

section \<open>Surfaces\<close>

definition ApplicationSurface_Clone :: "ApplicationSurface \<Rightarrow> ApplicationSurface" where
  "ApplicationSurface_Clone a = a\<lparr>asWindows := map (\<lambda>w. w\<lparr>wViews := [] @ wViews w\<rparr>) (asWindows a),
     asCapabilities := copyMap (asCapabilities a), asSourceRevision := copyMap (asSourceRevision a)\<rparr>"

definition attentionRank :: "string \<Rightarrow> int" where
  "attentionRank a = (if a = AttentionUrgent then 3 else if a = AttentionWanted then 2 else 1)"

definition viewCompare :: "View \<Rightarrow> View \<Rightarrow> int" where
  "viewCompare x y =
     (if vActive x \<noteq> vActive y then (if vActive x then -1 else 1)
      else if vAttention x \<noteq> vAttention y then compare (attentionRank (vAttention y)) (attentionRank (vAttention x))
      else if vPinned x \<noteq> vPinned y then (if vPinned x then -1 else 1)
      else if vDirty x \<noteq> vDirty y then (if vDirty x then -1 else 1)
      else if vMRU x \<noteq> vMRU y then compare (vMRU y) (vMRU x)
      else compare (vID x) (vID y))"

definition windowCompare :: "Window \<Rightarrow> Window \<Rightarrow> int" where
  "windowCompare x y =
     (if wFocused x \<noteq> wFocused y then (if wFocused x then -1 else 1)
      else if wMRU x \<noteq> wMRU y then compare (wMRU y) (wMRU x)
      else if wProviderOnly x \<noteq> wProviderOnly y then (if \<not> wProviderOnly x then -1 else 1)
      else compare (wID x) (wID y))"

definition ApplicationSurface_Normalize :: "ApplicationSurface \<Rightarrow> ApplicationSurface" where
  "ApplicationSurface_Normalize a =
     (let sorted_views = map (\<lambda>w. w\<lparr>wViews := sortFunc viewCompare (wViews w)\<rparr>) (asWindows a)
      in a\<lparr>asWindows := sortFunc windowCompare sorted_views\<rparr>)"

definition WindowCount :: "ApplicationSurface \<Rightarrow> int" where
  "WindowCount a = int (length (asWindows a))"

definition ViewCount :: "ApplicationSurface \<Rightarrow> int" where
  "ViewCount a = foldl (\<lambda>n w. n + int (length (wViews w))) 0 (asWindows a)"

fun activeIn :: "View list \<Rightarrow> View option" where
  "activeIn [] = None"
| "activeIn (v # vs) = (if vActive v then Some v else activeIn vs)"

fun activeViewLoop :: "Window list \<Rightarrow> View option" where
  "activeViewLoop [] = None"
| "activeViewLoop (w # ws) = (case activeIn (wViews w) of Some v \<Rightarrow> Some v | None \<Rightarrow> activeViewLoop ws)"

definition ActiveView :: "ApplicationSurface \<Rightarrow> View option" where
  "ActiveView a = activeViewLoop (asWindows a)"

section \<open>Applying a patch\<close>

text \<open>
  Applying a status patch touches exactly the fields it names; the source, the confidence and
  the time are always the new ones, and a progress value that is a number ends up between 0 and 1,
  unchanged when it was there already.
\<close>

lemma AppStatus_Apply_spec:
  "let s' = AppStatus_Apply s p source confidence now
   in stSource s' = source \<and> stConfidence s' = confidence \<and> stUpdatedAt s' = now \<and>
      stLifecycle s' = (case spLifecycle p of Some v \<Rightarrow> v | None \<Rightarrow> stLifecycle s) \<and>
      stFocused s' = (case spFocused p of Some v \<Rightarrow> v | None \<Rightarrow> stFocused s) \<and>
      stBusy s' = (case spBusy p of Some v \<Rightarrow> v | None \<Rightarrow> stBusy s) \<and>
      stAttention s' = (case spAttention p of Some v \<Rightarrow> v | None \<Rightarrow> stAttention s) \<and>
      stActivity s' = (case spActivity p of Some v \<Rightarrow> v | None \<Rightarrow> stActivity s) \<and>
      stResource s' = (case spResource p of Some v \<Rightarrow> v | None \<Rightarrow> stResource s) \<and>
      stSummary s' = (case spSummary p of Some v \<Rightarrow> v | None \<Rightarrow> stSummary s) \<and>
      stDetail s' = (case spDetail p of Some v \<Rightarrow> v | None \<Rightarrow> stDetail s) \<and>
      stBadge s' = (case spBadge p of Some v \<Rightarrow> v | None \<Rightarrow> stBadge s) \<and>
      (case spProgress p of
         None \<Rightarrow> stProgress s' = stProgress s
       | Some v \<Rightarrow> (\<exists>v'. stProgress s' = Some v' \<and> (v \<noteq> NaN \<longrightarrow> unitInterval v') \<and> (unitInterval v \<longrightarrow> v' = v)))"
  by (auto simp: AppStatus_Apply_def orElse_def clamp01_unit clamp01_id Let_def split: option.split)

text \<open>A NaN passes the two comparisons of the clamp.\<close>

lemma AppStatus_Apply_NaN:
  "spProgress p = Some NaN \<Longrightarrow> stProgress (AppStatus_Apply s p source confidence now) = Some NaN"
  by (simp add: AppStatus_Apply_def)

section \<open>The order of views and windows\<close>

definition viewKey :: "View \<Rightarrow> bool \<times> int \<times> bool \<times> bool \<times> int \<times> string" where
  "viewKey v = (\<not> vActive v, - attentionRank (vAttention v), \<not> vPinned v, \<not> vDirty v, - uint (vMRU v), vID v)"

definition windowKey :: "Window \<Rightarrow> bool \<times> int \<times> bool \<times> string" where
  "windowKey w = (\<not> wFocused w, - uint (wMRU w), wProviderOnly w, wID w)"

interpretation view_order: by_key "\<lambda>x y. viewKey x < viewKey y" viewKey
  by unfold_locales simp

interpretation window_order: by_key "\<lambda>x y. windowCompare x y < 0" windowKey
  by unfold_locales (auto simp: windowCompare_def windowKey_def word_less_def uint_le_neq)

definition knownAttention :: "View \<Rightarrow> bool" where
  "knownAttention v \<longleftrightarrow> vAttention v \<in> {AttentionNormal, AttentionWanted, AttentionUrgent}"

lemma attentionRank_inj:
  "knownAttention x \<Longrightarrow> knownAttention y \<Longrightarrow>
   attentionRank (vAttention x) = attentionRank (vAttention y) \<longleftrightarrow> vAttention x = vAttention y"
  by (auto simp: knownAttention_def attentionRank_def attention_defs)

lemma viewCompare_key:
  "knownAttention x \<Longrightarrow> knownAttention y \<Longrightarrow> viewCompare x y < 0 \<longleftrightarrow> viewKey x < viewKey y"
  using attentionRank_inj [of x y]
  by (auto simp: viewCompare_def viewKey_def word_less_def uint_le_neq)

lemma sortFunc_viewCompare:
  "\<forall>v \<in> set vs. knownAttention v \<Longrightarrow> sortFunc viewCompare vs = sortBy (\<lambda>x y. viewKey x < viewKey y) vs"
  unfolding sortFunc_def by (rule sortBy_cong) (simp add: viewCompare_key)

lemma viewCompare_not_transitive:
  "let v = (\<lambda>i att pin. \<lparr>vID = i, vProviderID = '''', vProviderWindowID = '''', vKind = ''tab'', vTitle = '''',
         vActive = False, vDirty = False, vPinned = pin, vAttention = att, vProgress = None, vResourceRef = '''',
         vMRU = 0, vMetadata = []\<rparr>);
       a = v ''a'' ''normal'' False; b = v ''b'' '''' False; c = v ''c'' ''normal'' True
   in viewCompare a b = 0 \<and> viewCompare b c = 0 \<and> viewCompare c a < 0 \<and>
      sortFunc viewCompare [a, b, c] = [a, b, c] \<and> sortFunc viewCompare [c, b, a] = [c, b, a]"
  by code_simp

text \<open>Surfaces that list the same windows and views, perhaps in another order.\<close>

definition sameWindow :: "Window \<Rightarrow> Window \<Rightarrow> bool" where
  "sameWindow w w' \<longleftrightarrow> w'\<lparr>wViews := []\<rparr> = w\<lparr>wViews := []\<rparr> \<and> mset (wViews w') = mset (wViews w)"

definition sameContent :: "ApplicationSurface \<Rightarrow> ApplicationSurface \<Rightarrow> bool" where
  "sameContent a b \<longleftrightarrow> b\<lparr>asWindows := []\<rparr> = a\<lparr>asWindows := []\<rparr> \<and>
     (\<exists>ws. mset ws = mset (asWindows b) \<and> list_all2 sameWindow (asWindows a) ws)"

definition regular :: "ApplicationSurface \<Rightarrow> bool" where
  "regular a \<longleftrightarrow> distinct (map wID (asWindows a)) \<and>
     (\<forall>w \<in> set (asWindows a). distinct (map vID (wViews w)) \<and> (\<forall>v \<in> set (wViews w). knownAttention v))"

definition sortViews :: "Window \<Rightarrow> Window" where
  "sortViews w = w\<lparr>wViews := sortFunc viewCompare (wViews w)\<rparr>"

lemma Normalize_windows:
  "ApplicationSurface_Normalize a = a\<lparr>asWindows := sortFunc windowCompare (map sortViews (asWindows a))\<rparr>"
proof -
  have "(\<lambda>w. w\<lparr>wViews := sortFunc viewCompare (wViews w)\<rparr>) = sortViews"
    by (simp add: fun_eq_iff sortViews_def)
  then show ?thesis by (simp add: ApplicationSurface_Normalize_def Let_def)
qed

lemma sortViews_simps [simp]: "wID (sortViews w) = wID w" "windowKey (sortViews w) = windowKey w"
  "mset (wViews (sortViews w)) = mset (wViews w)" "set (wViews (sortViews w)) = set (wViews w)"
  by (simp_all add: sortViews_def windowKey_def)

lemma viewKey_inj: "distinct (map vID vs) \<Longrightarrow> inj_on viewKey (set vs)"
  by (auto simp: inj_on_def viewKey_def distinct_map)

lemma sortViews_same:
  assumes "sameWindow w w'" and "distinct (map vID (wViews w))" and "\<forall>v \<in> set (wViews w). knownAttention v"
  shows "sortViews w' = sortViews w"
proof -
  have m: "mset (wViews w') = mset (wViews w)" using assms(1) by (simp add: sameWindow_def)
  then have s: "set (wViews w') = set (wViews w)" by (metis set_mset_mset)
  have "sortFunc viewCompare (wViews w') = sortFunc viewCompare (wViews w)"
    using view_order.sortBy_perm [OF m] viewKey_inj [OF assms(2)] s assms(3)
      sortFunc_viewCompare [of "wViews w"] sortFunc_viewCompare [of "wViews w'"]
    by metis
  moreover have "w'\<lparr>wViews := vs\<rparr> = w\<lparr>wViews := vs\<rparr>" for vs
  proof -
    have "w'\<lparr>wViews := []\<rparr> = w\<lparr>wViews := []\<rparr>"
      using assms(1) unfolding sameWindow_def by blast
    from arg_cong [OF this, of "\<lambda>u. u\<lparr>wViews := vs\<rparr>"] show ?thesis by simp
  qed
  ultimately show ?thesis by (simp add: sortViews_def)
qed

lemma map_sortViews_same:
  "list_all2 sameWindow xs ws \<Longrightarrow>
   \<forall>w \<in> set xs. distinct (map vID (wViews w)) \<and> (\<forall>v \<in> set (wViews w). knownAttention v) \<Longrightarrow>
   map sortViews ws = map sortViews xs"
proof (induction rule: list_all2_induct)
  case (Cons x xs y ys)
  have "sortViews y = sortViews x"
    by (rule sortViews_same [OF Cons.hyps(1)]) (use Cons.prems in simp_all)
  moreover have "map sortViews ys = map sortViews xs"
    by (rule Cons.IH) (use Cons.prems in simp)
  ultimately show ?case by simp
qed simp

lemma sortViews_idem:
  "\<forall>v \<in> set (wViews w). knownAttention v \<Longrightarrow> sortViews (sortViews w) = sortViews w"
  by (simp add: sortViews_def sortFunc_viewCompare)

lemma Normalize_sameContent:
  assumes "regular a" and "sameContent a b"
  shows "ApplicationSurface_Normalize b = ApplicationSurface_Normalize a"
proof -
  have inj: "inj_on windowKey (set (map sortViews (asWindows a)))"
    using assms(1) by (auto simp: regular_def distinct_map inj_on_def windowKey_def)
  from assms(2) [unfolded sameContent_def]
  have content: "b\<lparr>asWindows := []\<rparr> = a\<lparr>asWindows := []\<rparr>"
    and "\<exists>ws. mset ws = mset (asWindows b) \<and> list_all2 sameWindow (asWindows a) ws"
    by (rule conjunct1, rule conjunct2)
  from this(2) obtain ws where ws: "mset ws = mset (asWindows b)" "list_all2 sameWindow (asWindows a) ws"
    by (elim exE conjE)
  have eq: "map sortViews ws = map sortViews (asWindows a)"
    by (rule map_sortViews_same [OF ws(2)]) (use assms(1) in \<open>simp add: regular_def\<close>)
  have m: "mset (map sortViews (asWindows a)) = mset (map sortViews (asWindows b))"
    unfolding eq [symmetric] mset_map ws(1) ..
  have "b\<lparr>asWindows := vs\<rparr> = a\<lparr>asWindows := vs\<rparr>" for vs
  proof -
    from arg_cong [OF content, of "\<lambda>u. u\<lparr>asWindows := vs\<rparr>"] show ?thesis by simp
  qed
  then show ?thesis
    using window_order.sortBy_perm [OF m inj] by (simp add: Normalize_windows sortFunc_def)
qed

text \<open>
  Normalising a surface whose window and view identifiers are distinct gives a canonical form:
  the same windows and views, windows ordered by focus, recency, provider-only and identifier,
  views by activity, attention, pinned, dirty, recency and identifier; listing windows and views
  in another order gives the same result, and normalising twice changes nothing.
\<close>

lemma Normalize_canonical:
  assumes "regular a"
  shows "mset (map sortViews (asWindows a)) = mset (asWindows (ApplicationSurface_Normalize a)) \<and>
    sorted (map windowKey (asWindows (ApplicationSurface_Normalize a))) \<and>
    (\<forall>w \<in> set (asWindows (ApplicationSurface_Normalize a)). sorted (map viewKey (wViews w))) \<and>
    (\<forall>b. sameContent a b \<longrightarrow> ApplicationSurface_Normalize b = ApplicationSurface_Normalize a) \<and>
    ApplicationSurface_Normalize (ApplicationSurface_Normalize a) = ApplicationSurface_Normalize a"
proof (intro conjI allI impI ballI)
  let ?n = "asWindows (ApplicationSurface_Normalize a)"
  have n: "?n = sortBy (\<lambda>x y. windowCompare x y < 0) (map sortViews (asWindows a))"
    by (simp add: Normalize_windows sortFunc_def)
  show "mset (map sortViews (asWindows a)) = mset ?n" by (simp add: n)
  show "sorted (map windowKey ?n)" unfolding n by (rule window_order.sorted_keys)
  have views: "\<exists>w' \<in> set (asWindows a). w = sortViews w'" if "w \<in> set ?n" for w
    using that by (auto simp: n)
  show "sorted (map viewKey (wViews w))" if "w \<in> set ?n" for w
    using views [OF that] assms view_order.sorted_keys
    by (auto simp: regular_def sortViews_def sortFunc_viewCompare)
  show "ApplicationSurface_Normalize b = ApplicationSurface_Normalize a" if "sameContent a b" for b
    by (rule Normalize_sameContent [OF assms that])
  have "map sortViews ?n = ?n"
    by (rule map_idI) (use views assms sortViews_idem in \<open>fastforce simp: regular_def\<close>)
  then show "ApplicationSurface_Normalize (ApplicationSurface_Normalize a) = ApplicationSurface_Normalize a"
    using n by (simp add: Normalize_windows [of "ApplicationSurface_Normalize a"] sortFunc_def)
qed

section \<open>Samples\<close>

definition emptyView :: View where
  "emptyView = \<lparr>vID = '''', vProviderID = '''', vProviderWindowID = '''', vKind = '''', vTitle = '''',
     vActive = False, vDirty = False, vPinned = False, vAttention = '''', vProgress = None, vResourceRef = '''',
     vMRU = 0, vMetadata = []\<rparr>"

definition emptyWindow :: Window where
  "emptyWindow = \<lparr>wID = '''', wTitle = '''', wWorkspaceID = '''', wMonitorRef = '''', wFocused = False,
     wMinimized = False, wMRU = 0, wProviderOnly = False, wViews = []\<rparr>"

definition emptySurface :: ApplicationSurface where
  "emptySurface = \<lparr>asAppID = '''', asName = '''', asIconName = '''', asDesktopAppID = '''', asWindows = [],
     asStatus = emptyStatus, asCapabilities = [], asSourceRevision = []\<rparr>"

definition sampleSurface :: ApplicationSurface where
  "sampleSurface = emptySurface\<lparr>asAppID := ''app'', asWindows :=
     [emptyWindow\<lparr>wID := ''w1'', wMRU := 3\<rparr>,
      emptyWindow\<lparr>wID := ''w2'', wMRU := 3, wFocused := True,
        wViews := [emptyView\<lparr>vID := ''b'', vAttention := ''normal''\<rparr>,
                   emptyView\<lparr>vID := ''a'', vAttention := ''urgent''\<rparr>]\<rparr>]\<rparr>"

lemma AppStatus_Apply_spec_witness:
  "\<exists>v'. stProgress (AppStatus_Apply emptyStatus (emptyPatch\<lparr>spProgress := Some (Inf False)\<rparr>) ''p'' 2 7) = Some v' \<and>
        unitInterval v'"
  using AppStatus_Apply_spec [of emptyStatus "emptyPatch\<lparr>spProgress := Some (Inf False)\<rparr>" "''p''" 2 7]
  by (simp add: Let_def emptyPatch_def) blast

end
