(* ===== verification/Panel.thy ===== *)
theory Panel
  imports Surface
begin

text \<open>
  \<open>internal/panel\<close>: the panel specification and its validation (\<open>model.go\<close>), the layout of the
  application cards in a given width (\<open>layout.go\<close>), and the projection of application surfaces
  to cards (\<open>project.go\<close>).
\<close>

section \<open>The specification\<close>

definition EdgeTop :: string where "EdgeTop = ''top''"
definition EdgeBottom :: string where "EdgeBottom = ''bottom''"
definition EdgeLeft :: string where "EdgeLeft = ''left''"
definition EdgeRight :: string where "EdgeRight = ''right''"
definition OverflowPopover :: string where "OverflowPopover = ''popover''"
definition OverflowScroll :: string where "OverflowScroll = ''scroll''"
definition OverflowNone :: string where "OverflowNone = ''none''"
definition DensityAdaptive :: string where "DensityAdaptive = ''adaptive''"
definition DensityFull :: string where "DensityFull = ''full''"
definition DensityCompact :: string where "DensityCompact = ''compact''"
definition DensityMicro :: string where "DensityMicro = ''micro''"

lemmas density_defs = DensityAdaptive_def DensityFull_def DensityCompact_def DensityMicro_def
lemmas edge_defs = EdgeTop_def EdgeBottom_def EdgeLeft_def EdgeRight_def
lemmas overflow_defs = OverflowPopover_def OverflowScroll_def OverflowNone_def

record SurfaceConfig =
  scMode :: string
  scMaxVisible :: int
  scOverflow :: string

record AppConfig =
  acDensity :: string
  acMinWidth :: int
  acPreferredWidth :: int
  acMaxWidth :: int
  acSurfaces :: SurfaceConfig

record Widget =
  wgID :: string
  wgVariant :: string
  wgFormat :: string

record Group =
  grID :: string
  grSource :: string
  grApp :: "AppConfig option"
  grWidgets :: "Widget list"
  grInteractions :: "(string, string) gomap"

record PanelSpec =
  psID :: string
  psEdge :: string
  psHeight :: int
  psGap :: int
  psOverflow :: string
  psGroups :: "Group list"

datatype specError =
    PanelIDRequired | InvalidEdge string | HeightOutOfRange | GapOutOfRange | InvalidOverflow string
  | GroupIDRequired | InvalidAppWidths string | MaxVisibleOutOfRange string

definition DefaultSpec :: "string \<Rightarrow> PanelSpec" where
  "DefaultSpec i = \<lparr>psID = i, psEdge = EdgeTop, psHeight = 40, psGap = 6, psOverflow = OverflowPopover, psGroups = []\<rparr>"

definition checkGroup :: "Group \<Rightarrow> specError option" where
  "checkGroup g =
     (if grID g = '''' then Some GroupIDRequired
      else case grApp g of
        None \<Rightarrow> None
      | Some a \<Rightarrow>
          if acMinWidth a \<le> 0 \<or> acPreferredWidth a < acMinWidth a \<or> acMaxWidth a < acPreferredWidth a
          then Some (InvalidAppWidths (grID g))
          else if scMaxVisible (acSurfaces a) < 0 \<or> scMaxVisible (acSurfaces a) > 20
          then Some (MaxVisibleOutOfRange (grID g))
          else None)"

definition Spec_Validate :: "PanelSpec \<Rightarrow> specError option" where
  "Spec_Validate s =
     (if psID s = '''' then Some PanelIDRequired
      else if psEdge s \<notin> {EdgeTop, EdgeBottom, EdgeLeft, EdgeRight} then Some (InvalidEdge (psEdge s))
      else if psHeight s < 24 \<or> psHeight s > 160 then Some HeightOutOfRange
      else if psGap s < 0 \<or> psGap s > 64 then Some GapOutOfRange
      else if psOverflow s \<notin> {OverflowPopover, OverflowScroll, OverflowNone} then Some (InvalidOverflow (psOverflow s))
      else firstErr checkGroup (psGroups s))"

section \<open>Layout\<close>

record Card =
  cdID :: string
  cdPriority :: int
  cdUrgent :: bool
  cdMinWidth :: int
  cdPreferredWidth :: int
  cdMaxWidth :: int

record Placement =
  plID :: string
  plDensity :: string
  plWidth :: int

record LayoutResult =
  lrVisible :: "Placement list"
  lrOverflow :: "string list"
  lrUsedWidth :: int
  lrOverfull :: bool

definition normalizeWidths :: "Card \<Rightarrow> int \<times> int \<times> int" where
  "normalizeWidths c =
     (let mn = (if cdMinWidth c \<le> 0 then 48 else cdMinWidth c);
          pref = (if cdPreferredWidth c < mn then mn else cdPreferredWidth c);
          mx = (if cdMaxWidth c < pref then pref else cdMaxWidth c)
      in (mn, pref, mx))"

definition usedWidth :: "Placement list \<Rightarrow> int \<Rightarrow> int" where
  "usedWidth ps gap =
     (let n = foldl (\<lambda>n p. wrap64 (n + plWidth p)) 0 ps
      in if length ps > 1 then wrap64 (n + wrap64 (gap * (int (length ps) - 1))) else n)"

fun panelIndexOf :: "Card list \<Rightarrow> string \<Rightarrow> nat" where
  "panelIndexOf [] i = 0"
| "panelIndexOf (c # cs) i = (if cdID c = i then 0 else Suc (panelIndexOf cs i))"

definition workCompare :: "Card \<Rightarrow> Card \<Rightarrow> int" where
  "workCompare a b =
     (if cdPriority a \<noteq> cdPriority b then compare (cdPriority b) (cdPriority a) else compare (cdID a) (cdID b))"

definition initialPlacement :: "Card \<Rightarrow> Placement" where
  "initialPlacement c =
     (case normalizeWidths c of (_, pref, mx) \<Rightarrow>
        \<lparr>plID = cdID c, plDensity = DensityFull, plWidth = (if pref > mx then mx else pref)\<rparr>)"

definition collapseCompare :: "Card list \<Rightarrow> nat \<Rightarrow> nat \<Rightarrow> int" where
  "collapseCompare work i j =
     (let a = work ! i; b = work ! j
      in if cdUrgent a \<noteq> cdUrgent b then (if \<not> cdUrgent a then -1 else 1)
         else if cdPriority a \<noteq> cdPriority b then compare (cdPriority a) (cdPriority b)
         else compare (cdID a) (cdID b))"

definition compactWidth :: "Card \<Rightarrow> int" where
  "compactWidth c =
     (case normalizeWidths c of (mn, pref, _) \<Rightarrow>
        let compact = wrap64 (mn + quot (wrap64 (pref - mn)) 2)
        in if compact < mn then mn else compact)"

fun compactLoop :: "int \<Rightarrow> int \<Rightarrow> Card list \<Rightarrow> nat list \<Rightarrow> Placement list \<Rightarrow> Placement list" where
  "compactLoop available gap work [] ps = ps"
| "compactLoop available gap work (i # is) ps =
     (if usedWidth ps gap \<le> available then ps
      else compactLoop available gap work is
             (ps[i := (ps ! i)\<lparr>plDensity := DensityCompact, plWidth := compactWidth (work ! i)\<rparr>]))"

fun microLoop :: "int \<Rightarrow> int \<Rightarrow> Card list \<Rightarrow> nat list \<Rightarrow> Placement list \<Rightarrow> Placement list" where
  "microLoop available gap work [] ps = ps"
| "microLoop available gap work (i # is) ps =
     (if usedWidth ps gap \<le> available then ps
      else microLoop available gap work is
             (ps[i := (ps ! i)\<lparr>plDensity := DensityMicro, plWidth := fst (normalizeWidths (work ! i))\<rparr>]))"

text \<open>The first placement with the identifier is cut out; none is found when it is gone already.\<close>

fun cutFirst :: "string \<Rightarrow> Placement list \<Rightarrow> Placement list option" where
  "cutFirst i [] = None"
| "cutFirst i (p # ps) = (if plID p = i then Some ps else map_option ((#) p) (cutFirst i ps))"

fun overflowLoop ::
  "int \<Rightarrow> int \<Rightarrow> Card list \<Rightarrow> nat list \<Rightarrow> Placement list \<times> string list \<Rightarrow> Placement list \<times> string list" where
  "overflowLoop available gap work [] st = st"
| "overflowLoop available gap work (i # is) (visible, overflow) =
     (if usedWidth visible gap \<le> available then (visible, overflow)
      else if cdUrgent (work ! i) then overflowLoop available gap work is (visible, overflow)
      else case cutFirst (cdID (work ! i)) visible of
             Some visible' \<Rightarrow> overflowLoop available gap work is (visible', overflow @ [cdID (work ! i)])
           | None \<Rightarrow> overflowLoop available gap work is (visible, overflow))"

definition visibleCompare :: "Card list \<Rightarrow> Placement \<Rightarrow> Placement \<Rightarrow> int" where
  "visibleCompare work a b = compare (panelIndexOf work (plID a)) (panelIndexOf work (plID b))"

definition Layout :: "int \<Rightarrow> int \<Rightarrow> Card list \<Rightarrow> LayoutResult" where
  "Layout available0 gap0 cards =
     (let available = (if available0 < 0 then 0 else available0);
          gap = (if gap0 < 0 then 0 else gap0);
          work = sortFunc workCompare cards;
          placements = map initialPlacement work;
          collapseOrder = sortFunc (collapseCompare work) [0..<length work];
          placements = compactLoop available gap work collapseOrder placements;
          placements = microLoop available gap work collapseOrder placements;
          (visible, overflow) = overflowLoop available gap work collapseOrder (placements, []);
          visible = sortFunc (visibleCompare work) visible
      in \<lparr>lrVisible = visible, lrOverflow = overflow, lrUsedWidth = usedWidth visible gap,
          lrOverfull = available < usedWidth visible gap\<rparr>)"

section \<open>The projection of surfaces to cards\<close>

record Segment =
  sgID :: string
  sgKind :: string
  sgTitle :: string
  sgActive :: bool
  sgDirty :: bool
  sgAttention :: string

record AppCard =
  cardID :: string
  cardName :: string
  cardIconName :: string
  cardTitle :: string
  cardSubtitle :: string
  cardProgress :: "f64 option"
  cardWindowCount :: int
  cardSurfaceCount :: int
  cardFocused :: bool
  cardAttention :: string
  cardDensity :: string
  cardMinWidth :: int
  cardPreferredWidth :: int
  cardMaxWidth :: int
  cardSegments :: "Segment list"
  cardOverflowCount :: int

record RenderConfig =
  rcEdge :: string
  rcHeight :: int
  rcGap :: int
  rcOverflow :: string

record PanelSnapshot =
  pnRevision :: "64 word"
  pnGeneratedAt :: int
  pnRender :: RenderConfig
  pnCards :: "AppCard list"

fun focusedWindow :: "Window list \<Rightarrow> Window option" where
  "focusedWindow [] = None"
| "focusedWindow (w # ws) = (if wFocused w then Some w else focusedWindow ws)"

definition projectedSegments :: "ApplicationSurface \<Rightarrow> Segment list" where
  "projectedSegments app =
     (let views = concat (map wViews (asWindows app))
      in if length views > 0 then
           map (\<lambda>v. \<lparr>sgID = vID v, sgKind = ''view'', sgTitle = vTitle v, sgActive = vActive v,
                  sgDirty = vDirty v, sgAttention = vAttention v\<rparr>) views
         else
           map (\<lambda>w. \<lparr>sgID = wID w, sgKind = ''window'', sgTitle = wTitle w, sgActive = wFocused w,
                  sgDirty = False, sgAttention = AttentionNormal\<rparr>) (asWindows app))"

definition cardTitleOf :: "ApplicationSurface \<Rightarrow> string" where
  "cardTitleOf a =
     (case ActiveView a of
        Some v \<Rightarrow> vTitle v
      | None \<Rightarrow>
          (case focusedWindow (asWindows a) of
             Some w \<Rightarrow> wTitle w
           | None \<Rightarrow> (case asWindows a of w # _ \<Rightarrow> wTitle w | [] \<Rightarrow> asName a)))"

definition projectCard :: "AppConfig \<Rightarrow> int \<Rightarrow> ApplicationSurface \<Rightarrow> AppCard" where
  "projectCard config maxSegments a =
     (let whole = projectedSegments a;
          limit = (if int (length whole) > maxSegments then maxSegments else int (length whole))
      in \<lparr>cardID = asAppID a, cardName = asName a, cardIconName = asIconName a, cardTitle = cardTitleOf a,
          cardSubtitle = stSummary (asStatus a), cardProgress = stProgress (asStatus a),
          cardWindowCount = WindowCount a, cardSurfaceCount = ViewCount a,
          cardFocused = stFocused (asStatus a), cardAttention = stAttention (asStatus a),
          cardDensity = acDensity config, cardMinWidth = acMinWidth config,
          cardPreferredWidth = acPreferredWidth config, cardMaxWidth = acMaxWidth config,
          cardSegments = take (nat limit) whole, cardOverflowCount = int (length whole) - limit\<rparr>)"

definition defaultAppConfig :: AppConfig where
  "defaultAppConfig = \<lparr>acDensity = DensityAdaptive, acMinWidth = 64, acPreferredWidth = 156, acMaxWidth = 240,
     acSurfaces = \<lparr>scMode = '''', scMaxVisible = 4, scOverflow = ''''\<rparr>\<rparr>"

fun firstAppConfig :: "AppConfig \<Rightarrow> Group list \<Rightarrow> AppConfig" where
  "firstAppConfig config [] = config"
| "firstAppConfig config (g # gs) = (case grApp g of Some a \<Rightarrow> a | None \<Rightarrow> firstAppConfig config gs)"

definition ProjectWithSpec :: "ApplicationSurface list \<Rightarrow> PanelSpec \<Rightarrow> 64 word \<Rightarrow> int \<Rightarrow> PanelSnapshot" where
  "ProjectWithSpec surfaces spec revision now =
     (let config = firstAppConfig defaultAppConfig (psGroups spec);
          maxSegments = (if scMaxVisible (acSurfaces config) < 0 then 0 else scMaxVisible (acSurfaces config))
      in \<lparr>pnRevision = revision, pnGeneratedAt = now,
          pnRender = \<lparr>rcEdge = psEdge spec, rcHeight = psHeight spec, rcGap = psGap spec, rcOverflow = psOverflow spec\<rparr>,
          pnCards = map (projectCard config maxSegments) surfaces\<rparr>)"

definition Project :: "ApplicationSurface list \<Rightarrow> int \<Rightarrow> 64 word \<Rightarrow> int \<Rightarrow> PanelSnapshot" where
  "Project surfaces maxSegments revision now =
     ProjectWithSpec surfaces
       ((DefaultSpec ''runtime'')\<lparr>psGroups :=
          [\<lparr>grID = ''applications'', grSource = '''',
            grApp = Some \<lparr>acDensity = DensityAdaptive, acMinWidth = 64, acPreferredWidth = 156, acMaxWidth = 240,
                      acSurfaces = \<lparr>scMode = '''', scMaxVisible = maxSegments, scOverflow = ''''\<rparr>\<rparr>,
            grWidgets = [], grInteractions = []\<rparr>]\<rparr>)
       revision now"

section \<open>The orders of the layout\<close>

definition workKey :: "Card \<Rightarrow> int \<times> string" where
  "workKey c = (- cdPriority c, cdID c)"

definition collapseKey :: "Card \<Rightarrow> bool \<times> int \<times> string" where
  "collapseKey c = (cdUrgent c, cdPriority c, cdID c)"

interpretation work_order: by_key "\<lambda>a b. workCompare a b < 0" workKey
  by unfold_locales (auto simp: workCompare_def workKey_def)

interpretation collapse_order: by_key "\<lambda>a b. collapseKey a < collapseKey b" collapseKey
  by unfold_locales simp

interpretation visible_order: by_key "\<lambda>a b. visibleCompare work a b < 0" "\<lambda>p. panelIndexOf work (plID p)"
  for work
  by unfold_locales (simp add: visibleCompare_def)

lemma collapseCompare_key: "collapseCompare work i j < 0 \<longleftrightarrow> collapseKey (work ! i) < collapseKey (work ! j)"
  by (auto simp: collapseCompare_def collapseKey_def Let_def)

definition collapseOrder :: "Card list \<Rightarrow> nat list" where
  "collapseOrder work = sortFunc (collapseCompare work) [0..<length work]"

lemma collapseOrder_set [simp]: "set (collapseOrder work) = {..<length work}"
  and collapseOrder_distinct [simp]: "distinct (collapseOrder work)"
  by (auto simp: collapseOrder_def sortFunc_def)

lemma cardKeys_inj: "distinct (map cdID cs) \<Longrightarrow> inj_on workKey (set cs) \<and> inj_on collapseKey (set cs)"
  by (auto simp: inj_on_def workKey_def collapseKey_def distinct_map)

lemma collapseOrder_cards:
  assumes "distinct (map cdID cards)"
  shows "map ((!) (sortFunc workCompare cards)) (collapseOrder (sortFunc workCompare cards)) =
    sortBy (\<lambda>a b. collapseKey a < collapseKey b) cards"
proof -
  let ?work = "sortFunc workCompare cards"
  have "map ((!) ?work) (collapseOrder ?work) =
      sortBy (\<lambda>a b. collapseKey a < collapseKey b) (map ((!) ?work) [0..<length ?work])"
    unfolding collapseOrder_def sortFunc_def [of "collapseCompare _"] collapseCompare_key
    by (rule sortBy_map [symmetric]) simp
  also have "\<dots> = sortBy (\<lambda>a b. collapseKey a < collapseKey b) ?work"
    by (simp only: map_nth)
  also have "\<dots> = sortBy (\<lambda>a b. collapseKey a < collapseKey b) cards"
    by (rule collapse_order.sortBy_perm) (use cardKeys_inj [OF assms] in simp_all)
  finally show ?thesis .
qed

section \<open>The collapse loops\<close>

lemma normalizeWidths_order:
  "normalizeWidths c = (mn, pref, mx) \<Longrightarrow> 0 < mn \<and> mn \<le> pref \<and> pref \<le> mx"
  by (auto simp: normalizeWidths_def Let_def split: if_splits)

definition cardInRange :: "Card \<Rightarrow> bool" where
  "cardInRange c \<longleftrightarrow> in64 (cdMinWidth c) \<and> in64 (cdPreferredWidth c) \<and> in64 (cdMaxWidth c)"

abbreviation minWidth :: "Card \<Rightarrow> int" where
  "minWidth c \<equiv> fst (normalizeWidths c)"

abbreviation preferredWidth :: "Card \<Rightarrow> int" where
  "preferredWidth c \<equiv> fst (snd (normalizeWidths c))"

lemma minWidth_pref: "0 < minWidth c \<and> minWidth c \<le> preferredWidth c"
  using normalizeWidths_order [of c] by (cases "normalizeWidths c") auto

lemma initialPlacement_simps [simp]: "plID (initialPlacement c) = cdID c"
  "plDensity (initialPlacement c) = DensityFull" "plWidth (initialPlacement c) = preferredWidth c"
  using normalizeWidths_order [of c] by (auto simp: initialPlacement_def split: prod.splits)

lemma compactWidth_bounds:
  assumes "cardInRange c"
  shows "minWidth c \<le> compactWidth c \<and> compactWidth c \<le> preferredWidth c"
proof -
  obtain mn pref mx where w: "normalizeWidths c = (mn, pref, mx)" by (metis prod_cases3)
  have o: "0 < mn" "mn \<le> pref" using normalizeWidths_order [OF w] by auto
  have i: "pref < 2 ^ 63"
    using w assms by (auto simp: normalizeWidths_def Let_def cardInRange_def in64_def split: if_splits)
  have h: "(pref - mn) div 2 \<le> pref - mn" "0 \<le> (pref - mn) div 2" using o by auto
  have "wrap64 (pref - mn) = pref - mn" using o i by (intro wrap64_id in64_small) auto
  moreover have "wrap64 (mn + (pref - mn) div 2) = mn + (pref - mn) div 2"
    using o i h by (intro wrap64_id in64_small) linarith+
  ultimately show ?thesis using w o h by (simp add: compactWidth_def quot_nonneg Let_def)
qed

text \<open>What every placement satisfies while the cards are being collapsed.\<close>

definition placed :: "Card list \<Rightarrow> Placement list \<Rightarrow> bool" where
  "placed work ps \<longleftrightarrow> length ps = length work \<and>
     (\<forall>i < length work. plID (ps ! i) = cdID (work ! i) \<and>
        minWidth (work ! i) \<le> plWidth (ps ! i) \<and> plWidth (ps ! i) \<le> preferredWidth (work ! i))"

lemma placed_update:
  "placed work ps \<Longrightarrow> i < length work \<Longrightarrow> minWidth (work ! i) \<le> w \<Longrightarrow> w \<le> preferredWidth (work ! i) \<Longrightarrow>
   placed work (ps[i := (ps ! i)\<lparr>plDensity := d, plWidth := w\<rparr>])"
  by (auto simp: placed_def nth_list_update)

lemma placed_initial: "placed work (map initialPlacement work)"
  using minWidth_pref by (auto simp: placed_def)

lemma placed_compactLoop:
  "placed work ps \<Longrightarrow> \<forall>i \<in> set is. i < length work \<Longrightarrow> \<forall>c \<in> set work. cardInRange c \<Longrightarrow>
   placed work (compactLoop available gap work is ps)"
proof (induction "is" arbitrary: ps)
  case (Cons i "is")
  have "minWidth (work ! i) \<le> compactWidth (work ! i) \<and> compactWidth (work ! i) \<le> preferredWidth (work ! i)"
    by (rule compactWidth_bounds) (use Cons.prems in simp)
  with Cons show ?case by (simp add: placed_update)
qed simp

lemma placed_microLoop:
  "placed work ps \<Longrightarrow> \<forall>i \<in> set is. i < length work \<Longrightarrow> placed work (microLoop available gap work is ps)"
proof (induction "is" arbitrary: ps)
  case (Cons i "is")
  have "minWidth (work ! i) \<le> preferredWidth (work ! i)" using minWidth_pref by blast
  with Cons show ?case by (simp add: placed_update)
qed simp

lemma compactLoop_fits: "usedWidth ps gap \<le> available \<Longrightarrow> compactLoop available gap work is ps = ps"
  and microLoop_fits: "usedWidth ps gap \<le> available \<Longrightarrow> microLoop available gap work is ps = ps"
  by (cases "is"; simp)+

definition microPlacement :: "Card \<Rightarrow> Placement" where
  "microPlacement c = \<lparr>plID = cdID c, plDensity = DensityMicro, plWidth = minWidth c\<rparr>"

definition isMicro :: "Card \<Rightarrow> Placement \<Rightarrow> bool" where
  "isMicro c p \<longleftrightarrow> p = microPlacement c"

lemmas micro_defs = isMicro_def microPlacement_def

text \<open>The loop that ends without fitting has shrunk every card it was given.\<close>

lemma microLoop_exhausted:
  "placed work ps \<Longrightarrow> \<forall>i \<in> set is. i < length work \<Longrightarrow>
   \<not> usedWidth (microLoop available gap work is ps) gap \<le> available \<Longrightarrow> i < length work \<Longrightarrow>
   i \<in> set is \<or> isMicro (work ! i) (ps ! i) \<Longrightarrow>
   isMicro (work ! i) (microLoop available gap work is ps ! i)"
proof (induction "is" arbitrary: ps)
  case (Cons k "is")
  have nf: "\<not> usedWidth ps gap \<le> available"
    using Cons.prems(3) microLoop_fits [of ps gap available work "k # is"] by metis
  let ?ps = "ps[k := (ps ! k)\<lparr>plDensity := DensityMicro, plWidth := minWidth (work ! k)\<rparr>]"
  have k: "k < length work" and ids: "plID (ps ! k) = cdID (work ! k)"
    using Cons.prems(1,2) by (auto simp: placed_def)
  have p: "placed work ?ps"
    using placed_update [OF Cons.prems(1) k, of "minWidth (work ! k)"] minWidth_pref by blast
  have upd: "isMicro (work ! i) (?ps ! i)" if "i = k \<or> isMicro (work ! i) (ps ! i)"
    using that ids k Cons.prems(1) by (cases "i = k") (auto simp: micro_defs placed_def)
  show ?case
    using Cons.IH [OF p] Cons.prems nf upd by auto
qed simp

section \<open>The overflow loop\<close>

lemma cutFirst_Some:
  "i \<in> set (map plID ps) \<Longrightarrow> distinct (map plID ps) \<Longrightarrow> cutFirst i ps = Some (filter (\<lambda>p. plID p \<noteq> i) ps)"
proof (induction ps)
  case (Cons p ps)
  show ?case
  proof (cases "plID p = i")
    case True
    have "plID q \<noteq> i" if "q \<in> set ps" for q
      using Cons.prems(2) True imageI [OF that, of plID] by auto
    then have "filter (\<lambda>p. plID p \<noteq> i) ps = ps" by (simp add: filter_id_conv)
    with True show ?thesis by simp
  qed (use Cons in auto)
qed simp

lemma overflowLoop_fits: "usedWidth vis gap \<le> available \<Longrightarrow> overflowLoop available gap work is (vis, ov) = (vis, ov)"
  by (cases "is") simp_all

text \<open>
  What the loop drops: a prefix of the cards it may drop, in its order, and all of them unless the
  rest fits.
\<close>

lemma overflowLoop_drops:
  assumes "distinct (map plID vis)"
    and "distinct (map (\<lambda>i. cdID (work ! i)) is)"
    and "\<forall>i \<in> set is. cdID (work ! i) \<in> set (map plID vis)"
  obtains ids where "prefix ids (map (\<lambda>i. cdID (work ! i)) (filter (\<lambda>i. \<not> cdUrgent (work ! i)) is))"
    and "overflowLoop available gap work is (vis, ov) = (filter (\<lambda>p. plID p \<notin> set ids) vis, ov @ ids)"
    and "usedWidth (filter (\<lambda>p. plID p \<notin> set ids) vis) gap \<le> available \<or>
      ids = map (\<lambda>i. cdID (work ! i)) (filter (\<lambda>i. \<not> cdUrgent (work ! i)) is)"
    and "ids \<noteq> [] \<Longrightarrow> \<not> usedWidth (filter (\<lambda>p. plID p \<notin> set (butlast ids)) vis) gap \<le> available"
  using assms
proof (induction "is" arbitrary: vis ov thesis)
  case Nil
  show ?case by (rule Nil.prems(1) [of "[]"]) simp_all
next
  case (Cons i "is")
  show ?case
  proof (cases "usedWidth vis gap \<le> available")
    case True
    then show ?thesis by (intro Cons.prems(1) [of "[]"]) simp_all
  next
    case nf: False
    show ?thesis
    proof (cases "cdUrgent (work ! i)")
      case True
      obtain ids where "prefix ids (map (\<lambda>i. cdID (work ! i)) (filter (\<lambda>i. \<not> cdUrgent (work ! i)) is))"
        and "overflowLoop available gap work is (vis, ov) = (filter (\<lambda>p. plID p \<notin> set ids) vis, ov @ ids)"
        and "usedWidth (filter (\<lambda>p. plID p \<notin> set ids) vis) gap \<le> available \<or>
          ids = map (\<lambda>i. cdID (work ! i)) (filter (\<lambda>i. \<not> cdUrgent (work ! i)) is)"
        and "ids \<noteq> [] \<Longrightarrow> \<not> usedWidth (filter (\<lambda>p. plID p \<notin> set (butlast ids)) vis) gap \<le> available"
        by (rule Cons.IH [of vis ov]) (use Cons.prems in auto)
      with True nf show ?thesis by (intro Cons.prems(1) [of ids]) simp_all
    next
      case False
      let ?id = "cdID (work ! i)" and ?vis = "filter (\<lambda>p. plID p \<noteq> cdID (work ! i)) vis"
      have cut: "cutFirst ?id vis = Some ?vis"
        by (rule cutFirst_Some) (use Cons.prems in auto)
      have d1: "distinct (map plID ?vis)" using Cons.prems(2) by (rule distinct_map_filter)
      have d2: "distinct (map (\<lambda>i. cdID (work ! i)) is)" using Cons.prems(3) by simp
      have d3: "\<forall>j \<in> set is. cdID (work ! j) \<in> set (map plID ?vis)"
      proof
        fix j assume j: "j \<in> set is"
        have ne: "cdID (work ! j) \<noteq> ?id"
          using Cons.prems(3) imageI [OF j, of "\<lambda>i. cdID (work ! i)"] by auto
        from j Cons.prems(4) obtain p where "p \<in> set vis" "plID p = cdID (work ! j)" by force
        with ne show "cdID (work ! j) \<in> set (map plID ?vis)" by force
      qed
      obtain ids where ids: "prefix ids (map (\<lambda>i. cdID (work ! i)) (filter (\<lambda>i. \<not> cdUrgent (work ! i)) is))"
        "overflowLoop available gap work is (?vis, ov @ [?id]) =
          (filter (\<lambda>p. plID p \<notin> set ids) ?vis, (ov @ [?id]) @ ids)"
        "usedWidth (filter (\<lambda>p. plID p \<notin> set ids) ?vis) gap \<le> available \<or>
          ids = map (\<lambda>i. cdID (work ! i)) (filter (\<lambda>i. \<not> cdUrgent (work ! i)) is)"
        "ids \<noteq> [] \<Longrightarrow> \<not> usedWidth (filter (\<lambda>p. plID p \<notin> set (butlast ids)) ?vis) gap \<le> available"
        by (rule Cons.IH [OF _ d1 d2 d3]) (rule that)
      have step: "filter (\<lambda>p. plID p \<notin> set js) ?vis = filter (\<lambda>p. plID p \<notin> set (?id # js)) vis" for js
        by (simp add: conj_commute)
      show ?thesis
        by (rule Cons.prems(1) [of "?id # ids"]) (use ids False nf cut step in auto)
    qed
  qed
qed

section \<open>The stages of the collapse\<close>

text \<open>
  How a card is placed when the first \<open>j\<close> steps of the collapse have been taken: in ascending order of
  rank every card becomes compact, halfway between its two widths, and then every card becomes minimal.
\<close>

definition collapseRank :: "Card list \<Rightarrow> Card \<Rightarrow> nat" where
  "collapseRank cards c = length (filter (\<lambda>d. collapseKey d < collapseKey c) cards)"

definition compactPlacement :: "Card \<Rightarrow> Placement" where
  "compactPlacement c = \<lparr>plID = cdID c, plDensity = DensityCompact,
     plWidth = minWidth c + (preferredWidth c - minWidth c) div 2\<rparr>"

definition collapsedTo :: "Card list \<Rightarrow> nat \<Rightarrow> Card \<Rightarrow> Placement" where
  "collapsedTo cards j c =
     (if length cards + collapseRank cards c < j then microPlacement c
      else if collapseRank cards c < j then compactPlacement c else initialPlacement c)"

lemma compactWidth_eq:
  assumes "cardInRange c"
  shows "compactWidth c = minWidth c + (preferredWidth c - minWidth c) div 2"
proof -
  obtain mn pref mx where w: "normalizeWidths c = (mn, pref, mx)" by (metis prod_cases3)
  have o: "0 < mn" "mn \<le> pref" using normalizeWidths_order [OF w] by auto
  have i: "pref < 2 ^ 63"
    using w assms by (auto simp: normalizeWidths_def Let_def cardInRange_def in64_def split: if_splits)
  have h: "(pref - mn) div 2 \<le> pref - mn" "0 \<le> (pref - mn) div 2" using o by auto
  have "wrap64 (pref - mn) = pref - mn" using o i by (intro wrap64_id in64_small) auto
  moreover have "wrap64 (mn + (pref - mn) div 2) = mn + (pref - mn) div 2"
    using o i h by (intro wrap64_id in64_small) linarith+
  ultimately show ?thesis using w o h by (simp add: compactWidth_def quot_nonneg Let_def)
qed

lemma sorted_rank:
  assumes "sorted_wrt (<) (map collapseKey cs)" and "p < length cs"
  shows "collapseRank cs (cs ! p) = p"
proof -
  have "filter (\<lambda>d. collapseKey d < collapseKey (cs ! p)) cs = take p cs"
  proof -
    have "collapseKey (cs ! i) < collapseKey (cs ! p)" if "i < p" for i
      using sorted_wrt_nth_less [OF assms(1), of i p] that assms(2) by simp
    then have "filter (\<lambda>d. collapseKey d < collapseKey (cs ! p)) (take p cs) = take p cs"
      by (auto simp: filter_id_conv in_set_conv_nth)
    moreover have "filter (\<lambda>d. collapseKey d < collapseKey (cs ! p)) (drop p cs) = []"
    proof -
      have "\<not> collapseKey (cs ! (p + i)) < collapseKey (cs ! p)" if "p + i < length cs" for i
        using sorted_wrt_nth_less [OF assms(1), of p "p + i"] that by (cases i) (simp_all add: not_less_iff_gr_or_eq)
      then show ?thesis by (auto simp: filter_empty_conv in_set_conv_nth)
    qed
    ultimately show ?thesis
      by (metis append_Nil2 append_take_drop_id filter_append)
  qed
  with assms(2) show ?thesis by (simp add: collapseRank_def)
qed

lemma collapseRank_mset: "mset cs = mset ds \<Longrightarrow> collapseRank cs = collapseRank ds"
  by (rule ext) (metis collapseRank_def mset_filter size_mset)

lemma order_rank:
  assumes "distinct (map cdID cards)"
  defines "work \<equiv> sortFunc workCompare cards"
  assumes "i < length work" and "p < length work"
  shows "collapseRank cards (work ! i) = p \<longleftrightarrow> i = collapseOrder work ! p" and "collapseRank cards (work ! i) < length work"
proof -
  let ?S = "sortBy (\<lambda>a b. collapseKey a < collapseKey b) cards"
  have S: "map ((!) work) (collapseOrder work) = ?S"
    unfolding work_def by (rule collapseOrder_cards [OF assms(1)])
  have len: "length (collapseOrder work) = length work" by (simp add: collapseOrder_def sortFunc_def)
  have "distinct (map collapseKey ?S)"
    using cardKeys_inj [OF assms(1)] assms(1) by (auto simp: distinct_map inj_on_def)
  then have strict: "sorted_wrt (<) (map collapseKey ?S)"
    using collapse_order.sorted_keys [of cards] unfolding strict_sorted_iff by blast
  have rank: "collapseRank cards (work ! (collapseOrder work ! q)) = q" if "q < length work" for q
  proof -
    have "work ! (collapseOrder work ! q) = ?S ! q" unfolding S [symmetric] using that len by simp
    moreover have "length ?S = length work" by (simp add: work_def sortFunc_def)
    ultimately show ?thesis
      using sorted_rank [OF strict, of q] that collapseRank_mset [of cards ?S] by simp
  qed
  from assms(3) obtain q where "q < length work" "i = collapseOrder work ! q"
    using collapseOrder_set [of work] len by (metis in_set_conv_nth lessThan_iff)
  then show "collapseRank cards (work ! i) = p \<longleftrightarrow> i = collapseOrder work ! p" "collapseRank cards (work ! i) < length work"
    using rank assms(4) nth_eq_iff_index_eq [OF collapseOrder_distinct [of work]] len by metis+
qed

lemma collapse_step:
  assumes "distinct (map cdID cards)" and "\<forall>c \<in> set cards. cardInRange c" 
  defines "work \<equiv> sortFunc workCompare cards"
  assumes "p < length work"
  shows "(map (collapsedTo cards p) work)[collapseOrder work ! p := (map (collapsedTo cards p) work ! (collapseOrder work ! p))
      \<lparr>plDensity := DensityCompact, plWidth := compactWidth (work ! (collapseOrder work ! p))\<rparr>] =
    map (collapsedTo cards (Suc p)) work" (is "?compact")
   and "(map (collapsedTo cards (length cards + p)) work)[collapseOrder work ! p :=
      (map (collapsedTo cards (length cards + p)) work ! (collapseOrder work ! p))
      \<lparr>plDensity := DensityMicro, plWidth := minWidth (work ! (collapseOrder work ! p))\<rparr>] =
    map (collapsedTo cards (Suc (length cards + p))) work" (is "?micro")
proof -
  let ?o = "collapseOrder work ! p"
  have len: "length work = length cards" by (simp add: work_def sortFunc_def)
  have o: "?o < length work" using assms(4) collapseOrder_set [of work]
    by (metis collapseOrder_def length_sortBy length_upt minus_nat.diff_0 lessThan_iff nth_mem sortFunc_def)
  have rank: "collapseRank cards (work ! i) = p \<longleftrightarrow> i = ?o" if "i < length work" for i
    using order_rank(1) [OF assms(1), folded work_def, OF that assms(4)] .
  have cw: "compactWidth (work ! ?o) = minWidth (work ! ?o) + (preferredWidth (work ! ?o) - minWidth (work ! ?o)) div 2"
    by (rule compactWidth_eq) (use assms(2) o nth_mem [OF o] in \<open>simp add: work_def sortFunc_def\<close>)
  show ?compact
  proof (intro nth_equalityI)
    fix i assume "i < length ((map (collapsedTo cards p) work)[?o := (map (collapsedTo cards p) work ! ?o)
      \<lparr>plDensity := DensityCompact, plWidth := compactWidth (work ! ?o)\<rparr>])"
    then have i: "i < length work" by simp
    with rank [OF i] rank [OF o] o assms(4) len show "(map (collapsedTo cards p) work)[?o := (map (collapsedTo cards p) work ! ?o)
      \<lparr>plDensity := DensityCompact, plWidth := compactWidth (work ! ?o)\<rparr>] ! i = map (collapsedTo cards (Suc p)) work ! i"
      by (cases "i = ?o") (auto simp: collapsedTo_def compactPlacement_def cw)
  qed simp
  show ?micro
  proof (intro nth_equalityI)
    fix i assume "i < length ((map (collapsedTo cards (length cards + p)) work)[?o := (map (collapsedTo cards (length cards + p)) work ! ?o)
      \<lparr>plDensity := DensityMicro, plWidth := minWidth (work ! ?o)\<rparr>])"
    then have i: "i < length work" by simp
    show "(map (collapsedTo cards (length cards + p)) work)[?o := (map (collapsedTo cards (length cards + p)) work ! ?o)
      \<lparr>plDensity := DensityMicro, plWidth := minWidth (work ! ?o)\<rparr>] ! i = map (collapsedTo cards (Suc (length cards + p))) work ! i"
      using i rank [OF i] rank [OF o] o assms(4) len order_rank(2) [OF assms(1), folded work_def, OF i assms(4)]
      by (cases "i = ?o") (auto simp: collapsedTo_def compactPlacement_def microPlacement_def)
  qed simp
qed

text \<open>The loops stop at the first stage that fits.\<close>

lemma compactLoop_stage:
  assumes "distinct (map cdID cards)" and "\<forall>c \<in> set cards. cardInRange c" 
  defines "work \<equiv> sortFunc workCompare cards"
  shows "p \<le> length cards \<Longrightarrow>
    \<exists>j. p \<le> j \<and> j \<le> length cards \<and>
      compactLoop available gap work (drop p (collapseOrder work)) (map (collapsedTo cards p) work) = map (collapsedTo cards j) work \<and>
      (\<forall>i. p \<le> i \<and> i < j \<longrightarrow> \<not> usedWidth (map (collapsedTo cards i) work) gap \<le> available) \<and>
      (j < length cards \<longrightarrow> usedWidth (map (collapsedTo cards j) work) gap \<le> available)"
proof (induction "length cards - p" arbitrary: p)
  case 0
  have "length (collapseOrder work) = length cards" by (simp add: collapseOrder_def sortFunc_def work_def)
  with 0 show ?case by (intro exI [of _ p]) simp
next
  case (Suc m)
  have len: "length (collapseOrder work) = length cards" by (simp add: collapseOrder_def sortFunc_def work_def)
  have p: "p < length work" using Suc.hyps(2) by (simp add: work_def sortFunc_def)
  have d: "drop p (collapseOrder work) = collapseOrder work ! p # drop (Suc p) (collapseOrder work)"
    using Suc.hyps(2) len by (simp add: Cons_nth_drop_Suc)
  show ?case
  proof (cases "usedWidth (map (collapsedTo cards p) work) gap \<le> available")
    case True
    with Suc.prems show ?thesis by (intro exI [of _ p]) (simp add: compactLoop_fits)
  next
    case False
    from Suc.hyps(1) [of "Suc p"] Suc.hyps(2) obtain j where j: "Suc p \<le> j" "j \<le> length cards"
      "compactLoop available gap work (drop (Suc p) (collapseOrder work)) (map (collapsedTo cards (Suc p)) work) =
        map (collapsedTo cards j) work"
      "\<forall>i. Suc p \<le> i \<and> i < j \<longrightarrow> \<not> usedWidth (map (collapsedTo cards i) work) gap \<le> available"
      "j < length cards \<longrightarrow> usedWidth (map (collapsedTo cards j) work) gap \<le> available"
      by fastforce
    have "compactLoop available gap work (drop p (collapseOrder work)) (map (collapsedTo cards p) work) =
        map (collapsedTo cards j) work"
      unfolding d using False j(3) collapse_step(1) [OF assms(1,2), folded work_def, OF p] by simp
    moreover have "\<not> usedWidth (map (collapsedTo cards i) work) gap \<le> available" if "p \<le> i" "i < j" for i
      using False j(4) that by (cases "i = p") auto
    ultimately show ?thesis using j by (intro exI [of _ j]) auto
  qed
qed

lemma microLoop_stage:
  assumes "distinct (map cdID cards)" and "\<forall>c \<in> set cards. cardInRange c" 
  defines "work \<equiv> sortFunc workCompare cards"
  shows "p \<le> length cards \<Longrightarrow>
    \<exists>j. length cards + p \<le> j \<and> j \<le> 2 * length cards \<and>
      microLoop available gap work (drop p (collapseOrder work)) (map (collapsedTo cards (length cards + p)) work) =
        map (collapsedTo cards j) work \<and>
      (\<forall>i. length cards + p \<le> i \<and> i < j \<longrightarrow> \<not> usedWidth (map (collapsedTo cards i) work) gap \<le> available) \<and>
      (j < 2 * length cards \<longrightarrow> usedWidth (map (collapsedTo cards j) work) gap \<le> available)"
proof (induction "length cards - p" arbitrary: p)
  case 0
  have "length (collapseOrder work) = length cards" by (simp add: collapseOrder_def sortFunc_def work_def)
  with 0 show ?case by (intro exI [of _ "length cards + p"]) simp
next
  case (Suc m)
  have len: "length (collapseOrder work) = length cards" by (simp add: collapseOrder_def sortFunc_def work_def)
  have p: "p < length work" using Suc.hyps(2) by (simp add: work_def sortFunc_def)
  have d: "drop p (collapseOrder work) = collapseOrder work ! p # drop (Suc p) (collapseOrder work)"
    using Suc.hyps(2) len by (simp add: Cons_nth_drop_Suc)
  let ?n = "length cards"
  show ?case
  proof (cases "usedWidth (map (collapsedTo cards (?n + p)) work) gap \<le> available")
    case True
    with Suc.prems show ?thesis by (intro exI [of _ "?n + p"]) (simp add: microLoop_fits)
  next
    case False
    from Suc.hyps(1) [of "Suc p"] Suc.hyps(2) obtain j where j: "Suc (?n + p) \<le> j" "j \<le> 2 * ?n"
      "microLoop available gap work (drop (Suc p) (collapseOrder work)) (map (collapsedTo cards (Suc (?n + p))) work) =
        map (collapsedTo cards j) work"
      "\<forall>i. Suc (?n + p) \<le> i \<and> i < j \<longrightarrow> \<not> usedWidth (map (collapsedTo cards i) work) gap \<le> available"
      "j < 2 * ?n \<longrightarrow> usedWidth (map (collapsedTo cards j) work) gap \<le> available"
      by fastforce
    have "microLoop available gap work (drop p (collapseOrder work)) (map (collapsedTo cards (?n + p)) work) =
        map (collapsedTo cards j) work"
      unfolding d using False j(3) collapse_step(2) [OF assms(1,2), folded work_def, OF p] by simp
    moreover have "\<not> usedWidth (map (collapsedTo cards i) work) gap \<le> available" if "?n + p \<le> i" "i < j" for i
      using False j(4) that by (cases "i = ?n + p") auto
    ultimately show ?thesis using j by (intro exI [of _ j]) auto
  qed
qed

lemma collapse_stage:
  assumes "distinct (map cdID cards)" and "\<forall>c \<in> set cards. cardInRange c" 
  defines "work \<equiv> sortFunc workCompare cards"
  shows "\<exists>j \<le> 2 * length cards.
    microLoop available gap work (collapseOrder work)
      (compactLoop available gap work (collapseOrder work) (map initialPlacement work)) = map (collapsedTo cards j) work \<and>
    (\<forall>i < j. \<not> usedWidth (map (collapsedTo cards i) work) gap \<le> available) \<and>
    (j < 2 * length cards \<longrightarrow> usedWidth (map (collapsedTo cards j) work) gap \<le> available)"
proof -
  let ?n = "length cards"
  have start: "map initialPlacement work = map (collapsedTo cards 0) work" by (simp add: collapsedTo_def)
  obtain j where j: "j \<le> ?n"
    "compactLoop available gap work (collapseOrder work) (map (collapsedTo cards 0) work) = map (collapsedTo cards j) work"
    "\<forall>i < j. \<not> usedWidth (map (collapsedTo cards i) work) gap \<le> available"
    "j < ?n \<longrightarrow> usedWidth (map (collapsedTo cards j) work) gap \<le> available"
    using compactLoop_stage [OF assms(1,2), of 0 available gap, folded work_def] by auto
  show ?thesis
  proof (cases "usedWidth (map (collapsedTo cards j) work) gap \<le> available")
    case True
    with j show ?thesis unfolding start by (intro exI [of _ j]) (simp add: microLoop_fits)
  next
    case False
    with j have jn: "j = ?n" by simp
    obtain k where k: "?n \<le> k" "k \<le> 2 * ?n"
      "microLoop available gap work (collapseOrder work) (map (collapsedTo cards ?n) work) = map (collapsedTo cards k) work"
      "\<forall>i. ?n \<le> i \<and> i < k \<longrightarrow> \<not> usedWidth (map (collapsedTo cards i) work) gap \<le> available"
      "k < 2 * ?n \<longrightarrow> usedWidth (map (collapsedTo cards k) work) gap \<le> available"
      using microLoop_stage [OF assms(1,2), of 0 available gap, folded work_def] by auto
    have "\<not> usedWidth (map (collapsedTo cards i) work) gap \<le> available" if "i < k" for i
      using that j(3) k(4) jn by (cases "i < ?n") auto
    with j k jn show ?thesis unfolding start by (intro exI [of _ k]) simp
  qed
qed

section \<open>The layout\<close>

lemma Layout_eq:
  "Layout available gap cards =
     (let work = sortFunc workCompare cards; order = collapseOrder work;
          ps = microLoop (max 0 available) (max 0 gap) work order
                 (compactLoop (max 0 available) (max 0 gap) work order (map initialPlacement work));
          st = overflowLoop (max 0 available) (max 0 gap) work order (ps, []);
          visible = sortFunc (visibleCompare work) (fst st)
      in \<lparr>lrVisible = visible, lrOverflow = snd st, lrUsedWidth = usedWidth visible (max 0 gap),
          lrOverfull = max 0 available < usedWidth visible (max 0 gap)\<rparr>)"
proof -
  have "(if x < 0 then 0 else x) = max 0 x" for x :: int by simp
  then show ?thesis by (simp add: Layout_def collapseOrder_def Let_def split: prod.splits)
qed

lemma panelIndexOf_nth: "distinct (map cdID cs) \<Longrightarrow> i < length cs \<Longrightarrow> panelIndexOf cs (cdID (cs ! i)) = i"
proof (induction cs arbitrary: i)
  case (Cons c cs)
  show ?case
  proof (cases i)
    case (Suc j)
    with Cons.prems have "cs ! j \<in> set cs" by simp
    with Cons.prems(1) have "cdID c \<noteq> cdID (cs ! j)" by force
    with Cons Suc show ?thesis by simp
  qed simp
qed simp

text \<open>Placements that follow the cards are sorted already, also when some are missing.\<close>

lemma visible_sorted:
  assumes "distinct (map cdID work)" and "placed work ps"
  shows "sortFunc (visibleCompare work) (filter P ps) = filter P ps"
proof -
  have "map (\<lambda>p. panelIndexOf work (plID p)) ps = [0..<length work]"
    using assms by (auto intro!: nth_equalityI simp: placed_def panelIndexOf_nth)
  then have "sorted (map (\<lambda>p. panelIndexOf work (plID p)) ps)" by simp
  then have "sorted (map (\<lambda>p. panelIndexOf work (plID p)) (filter P ps))" by (rule sorted_filter)
  then show ?thesis
    unfolding sortFunc_def by (intro visible_order.sortBy_sorted) (simp add: visible_order.ordered_iff)
qed

lemma placed_ids: "placed work ps \<Longrightarrow> map plID ps = map cdID work"
  by (auto intro!: nth_equalityI simp: placed_def)

definition fitsIn :: "int \<Rightarrow> int \<Rightarrow> Placement list \<Rightarrow> bool" where
  "fitsIn available gap ps \<longleftrightarrow> usedWidth ps (max 0 gap) \<le> max 0 available"

text \<open>The result of the layout, as the phases of the loops leave it.\<close>

lemma Layout_phases:
  fixes available gap :: int and cards :: "Card list"
  assumes distinct_ids: "distinct (map cdID cards)" and in_range: "\<forall>c \<in> set cards. cardInRange c"
  defines "work \<equiv> sortFunc workCompare cards"
  obtains ps where "placed work ps"
    and "lrVisible (Layout available gap cards) = filter (\<lambda>p. plID p \<notin> set (lrOverflow (Layout available gap cards))) ps"
    and "prefix (lrOverflow (Layout available gap cards))
      (map cdID (filter (\<lambda>c. \<not> cdUrgent c) (sortBy (\<lambda>a b. collapseKey a < collapseKey b) cards)))"
    and "fitsIn available gap (lrVisible (Layout available gap cards)) \<or>
      lrOverflow (Layout available gap cards) =
        map cdID (filter (\<lambda>c. \<not> cdUrgent c) (sortBy (\<lambda>a b. collapseKey a < collapseKey b) cards))"
    and "lrOverflow (Layout available gap cards) \<noteq> [] \<Longrightarrow>
      \<not> fitsIn available gap (filter (\<lambda>p. plID p \<notin> set (butlast (lrOverflow (Layout available gap cards)))) ps)"
    and "fitsIn available gap ps \<Longrightarrow> lrOverflow (Layout available gap cards) = []"
    and "\<not> fitsIn available gap ps \<Longrightarrow> ps = map microPlacement work"
    and "fitsIn available gap (map initialPlacement work) \<Longrightarrow> ps = map initialPlacement work"
    and "\<exists>j \<le> 2 * length cards. ps = map (collapsedTo cards j) work \<and>
      (\<forall>i < j. \<not> fitsIn available gap (map (collapsedTo cards i) work)) \<and>
      (j < 2 * length cards \<longrightarrow> fitsIn available gap (map (collapsedTo cards j) work))"
proof -
  let ?av = "max 0 available" and ?g = "max 0 gap"
  let ?order = "collapseOrder work" and ?L = "Layout available gap cards"
  let ?ps1 = "compactLoop ?av ?g work ?order (map initialPlacement work)"
  let ?ps = "microLoop ?av ?g work ?order ?ps1"
  have dw: "distinct (map cdID work)" using distinct_ids by (simp add: work_def)
  have p1: "placed work ?ps1"
    by (rule placed_compactLoop) (use placed_initial in_range in \<open>auto simp: work_def\<close>)
  have p: "placed work ?ps" by (rule placed_microLoop [OF p1]) simp
  have order: "map (\<lambda>i. cdID (work ! i)) (filter (\<lambda>i. Q (work ! i)) ?order) =
      map cdID (filter Q (sortBy (\<lambda>a b. collapseKey a < collapseKey b) cards))" for Q
    unfolding collapseOrder_cards [OF distinct_ids, folded work_def, symmetric]
    by (simp add: filter_map comp_def)
  have ids: "map plID ?ps = map cdID work" by (rule placed_ids [OF p])
  obtain ov where ov: "prefix ov (map (\<lambda>i. cdID (work ! i)) (filter (\<lambda>i. \<not> cdUrgent (work ! i)) ?order))"
    "overflowLoop ?av ?g work ?order (?ps, []) = (filter (\<lambda>p. plID p \<notin> set ov) ?ps, [] @ ov)"
    "usedWidth (filter (\<lambda>p. plID p \<notin> set ov) ?ps) ?g \<le> ?av \<or>
      ov = map (\<lambda>i. cdID (work ! i)) (filter (\<lambda>i. \<not> cdUrgent (work ! i)) ?order)"
    "ov \<noteq> [] \<Longrightarrow> \<not> usedWidth (filter (\<lambda>p. plID p \<notin> set (butlast ov)) ?ps) ?g \<le> ?av"
  proof (rule overflowLoop_drops [of ?ps work ?order])
    show "distinct (map plID ?ps)" using ids dw by simp
    show "distinct (map (\<lambda>i. cdID (work ! i)) ?order)"
      using order [of "\<lambda>_. True"] distinct_ids by simp
    show "\<forall>i \<in> set ?order. cdID (work ! i) \<in> set (map plID ?ps)"
      unfolding ids by simp
  qed (rule that)
  have L: "lrOverflow ?L = ov" "lrVisible ?L = filter (\<lambda>p. plID p \<notin> set ov) ?ps"
    using ov(2) visible_sorted [OF dw p, of "\<lambda>p. plID p \<notin> set ov"]
    by (simp_all add: Layout_eq Let_def work_def)
  show thesis
  proof (rule that [OF p])
    show "lrVisible ?L = filter (\<lambda>p. plID p \<notin> set (lrOverflow ?L)) ?ps" by (simp add: L)
    show "prefix (lrOverflow ?L) (map cdID (filter (\<lambda>c. \<not> cdUrgent c) (sortBy (\<lambda>a b. collapseKey a < collapseKey b) cards)))"
      using ov(1) by (simp only: L order [of "\<lambda>c. \<not> cdUrgent c"])
    show "fitsIn available gap (lrVisible ?L) \<or>
        lrOverflow ?L = map cdID (filter (\<lambda>c. \<not> cdUrgent c) (sortBy (\<lambda>a b. collapseKey a < collapseKey b) cards))"
      using ov(3) by (simp only: fitsIn_def L order [of "\<lambda>c. \<not> cdUrgent c"])
    show "\<not> fitsIn available gap (filter (\<lambda>p. plID p \<notin> set (butlast (lrOverflow ?L))) ?ps)" if "lrOverflow ?L \<noteq> []"
      using ov(4) that unfolding L fitsIn_def by blast
    show "lrOverflow ?L = []" if "fitsIn available gap ?ps"
      using ov(2) overflowLoop_fits [OF that [unfolded fitsIn_def], of work ?order "[]"] by (simp add: L)
    show "?ps = map microPlacement work" if "\<not> fitsIn available gap ?ps"
      using microLoop_exhausted [OF p1 _ that [unfolded fitsIn_def]] p
      by (auto intro!: nth_equalityI simp: placed_def isMicro_def)
    show "?ps = map initialPlacement work" if "fitsIn available gap (map initialPlacement work)"
      using that by (simp add: fitsIn_def compactLoop_fits microLoop_fits)
    show "\<exists>j \<le> 2 * length cards. ?ps = map (collapsedTo cards j) work \<and>
        (\<forall>i < j. \<not> fitsIn available gap (map (collapsedTo cards i) work)) \<and>
        (j < 2 * length cards \<longrightarrow> fitsIn available gap (map (collapsedTo cards j) work))"
      unfolding fitsIn_def work_def by (rule collapse_stage [OF distinct_ids in_range])
  qed
qed

text \<open>
  C9. Laying out cards with distinct identifiers loses none: the visible placements, in the order
  of descending priority, and the overflow list partition the cards; urgent cards never overflow and
  the others do in ascending order of priority; widths stay between the minimal and the preferred
  one. The cards collapse one at a time, the least important first: every card to half its spare
  width, then every card to its minimal width, and the layout stops at the first stage that fits.
  Cards overflow only when every card is at its minimal width and only as many as necessary; the
  result is overfull only when nothing but urgent cards at their minimal width is left; and when the
  preferred widths fit, every card is shown at its preferred width.
\<close>

theorem Layout_correct:
  fixes available gap :: int and cards :: "Card list"
  assumes "distinct (map cdID cards)" and "\<forall>c \<in> set cards. cardInRange c"
  defines "r \<equiv> Layout available gap cards" and "work \<equiv> sortFunc workCompare cards"
    and "fits \<equiv> fitsIn available gap"
  shows "map plID (lrVisible r) = filter (\<lambda>i. i \<notin> set (lrOverflow r)) (map cdID work) \<and>
    prefix (lrOverflow r)
      (map cdID (filter (\<lambda>c. \<not> cdUrgent c) (sortBy (\<lambda>a b. collapseKey a < collapseKey b) cards))) \<and>
    (\<forall>p \<in> set (lrVisible r). \<exists>c \<in> set cards.
       plID p = cdID c \<and> minWidth c \<le> plWidth p \<and> plWidth p \<le> preferredWidth c) \<and>
    (lrOverflow r \<noteq> [] \<or> lrOverfull r \<longrightarrow>
       lrVisible r = filter (\<lambda>p. plID p \<notin> set (lrOverflow r)) (map microPlacement work)) \<and>
    (lrOverflow r \<noteq> [] \<longrightarrow>
       \<not> fits (filter (\<lambda>p. plID p \<notin> set (butlast (lrOverflow r))) (map microPlacement work))) \<and>
    (lrOverfull r \<longrightarrow> (\<forall>c \<in> set cards. cdID c \<notin> set (lrOverflow r) \<longrightarrow> cdUrgent c)) \<and>
    (lrOverfull r \<longleftrightarrow> \<not> fits (lrVisible r)) \<and>
    (fits (map initialPlacement work) \<longrightarrow> lrVisible r = map initialPlacement work \<and> lrOverflow r = [] \<and> \<not> lrOverfull r) \<and>
    (\<exists>j \<le> 2 * length cards.
       lrVisible r = filter (\<lambda>p. plID p \<notin> set (lrOverflow r)) (map (collapsedTo cards j) work) \<and>
       (\<forall>i < j. \<not> fits (map (collapsedTo cards i) work)) \<and>
       (j < 2 * length cards \<longrightarrow> fits (map (collapsedTo cards j) work) \<and> lrOverflow r = []))"
proof -
  let ?nonurgent = "map cdID (filter (\<lambda>c. \<not> cdUrgent c) (sortBy (\<lambda>a b. collapseKey a < collapseKey b) cards))"
  obtain ps where ps: "placed work ps"
    and vis: "lrVisible r = filter (\<lambda>p. plID p \<notin> set (lrOverflow r)) ps"
    and pre: "prefix (lrOverflow r) ?nonurgent"
    and rest: "fits (lrVisible r) \<or> lrOverflow r = ?nonurgent"
    and needed: "lrOverflow r \<noteq> [] \<Longrightarrow> \<not> fits (filter (\<lambda>p. plID p \<notin> set (butlast (lrOverflow r))) ps)"
    and enough: "fits ps \<Longrightarrow> lrOverflow r = []"
    and micro: "\<not> fits ps \<Longrightarrow> ps = map microPlacement work"
    and plain: "fits (map initialPlacement work) \<Longrightarrow> ps = map initialPlacement work"
    and stage: "\<exists>j \<le> 2 * length cards. ps = map (collapsedTo cards j) work \<and>
      (\<forall>i < j. \<not> fits (map (collapsedTo cards i) work)) \<and>
      (j < 2 * length cards \<longrightarrow> fits (map (collapsedTo cards j) work))"
    by (rule Layout_phases [OF assms(1,2), of available gap, folded r_def work_def fits_def]) (rule that)
  have over: "lrOverfull r \<longleftrightarrow> \<not> fits (lrVisible r)"
    by (simp only: r_def fits_def fitsIn_def Layout_eq Let_def LayoutResult.select_convs not_le)
  have whole: "lrVisible r = ps" if "fits ps" using enough [OF that] vis by simp
  have crowded: "\<not> fits ps" if "lrOverflow r \<noteq> [] \<or> lrOverfull r"
    using that enough whole over by metis
  have bounds: "\<exists>c \<in> set cards. plID p = cdID c \<and> minWidth c \<le> plWidth p \<and> plWidth p \<le> preferredWidth c"
    if "p \<in> set (lrVisible r)" for p
  proof -
    from that vis obtain i where "i < length ps" "p = ps ! i" by (auto simp: in_set_conv_nth)
    with ps have "work ! i \<in> set work \<and> plID p = cdID (work ! i) \<and> minWidth (work ! i) \<le> plWidth p \<and>
        plWidth p \<le> preferredWidth (work ! i)"
      by (simp add: placed_def)
    then show ?thesis by (auto simp: work_def)
  qed
  have urgent: "cdUrgent c" if "lrOverfull r" "c \<in> set cards" "cdID c \<notin> set (lrOverflow r)" for c
  proof -
    from that(1) over rest have "lrOverflow r = ?nonurgent" by simp
    with that(2,3) show ?thesis by auto
  qed
  show ?thesis
  proof (intro conjI impI ballI)
    show "map plID (lrVisible r) = filter (\<lambda>i. i \<notin> set (lrOverflow r)) (map cdID work)"
      unfolding vis placed_ids [OF ps, symmetric] by (simp add: filter_map comp_def)
    show "lrVisible r = filter (\<lambda>p. plID p \<notin> set (lrOverflow r)) (map microPlacement work)"
      if "lrOverflow r \<noteq> [] \<or> lrOverfull r"
      using vis micro [OF crowded [OF that]] by simp
    show "\<not> fits (filter (\<lambda>p. plID p \<notin> set (butlast (lrOverflow r))) (map microPlacement work))"
      if "lrOverflow r \<noteq> []"
      using needed [OF that] micro [OF crowded] that by simp
    assume init: "fits (map initialPlacement work)"
    with plain have "ps = map initialPlacement work" "fits ps" by simp_all
    with whole enough over show "lrVisible r = map initialPlacement work" "lrOverflow r = []" "\<not> lrOverfull r"
      by simp_all
  next
    from stage obtain j where j: "j \<le> 2 * length cards" "ps = map (collapsedTo cards j) work"
      "\<forall>i < j. \<not> fits (map (collapsedTo cards i) work)"
      "j < 2 * length cards \<longrightarrow> fits (map (collapsedTo cards j) work)" by blast
    with enough have "j < 2 * length cards \<longrightarrow> fits (map (collapsedTo cards j) work) \<and> lrOverflow r = []" by simp
    with j vis show "\<exists>j \<le> 2 * length cards.
       lrVisible r = filter (\<lambda>p. plID p \<notin> set (lrOverflow r)) (map (collapsedTo cards j) work) \<and>
       (\<forall>i < j. \<not> fits (map (collapsedTo cards i) work)) \<and>
       (j < 2 * length cards \<longrightarrow> fits (map (collapsedTo cards j) work) \<and> lrOverflow r = [])" by blast
  qed (use pre over bounds urgent in auto)
qed

lemma Layout_correct_witness:
  "let cards = [\<lparr>cdID = ''a'', cdPriority = 1, cdUrgent = False, cdMinWidth = 40, cdPreferredWidth = 100, cdMaxWidth = 200\<rparr>,
                \<lparr>cdID = ''b'', cdPriority = 5, cdUrgent = False, cdMinWidth = 40, cdPreferredWidth = 100, cdMaxWidth = 200\<rparr>,
                \<lparr>cdID = ''c'', cdPriority = 0, cdUrgent = True, cdMinWidth = 40, cdPreferredWidth = 100, cdMaxWidth = 200\<rparr>]
   in lrOverflow (Layout 90 6 cards) = [''a''] \<and> map plID (lrVisible (Layout 90 6 cards)) = [''b'', ''c'']"
proof -
  let ?cards = "[\<lparr>cdID = ''a'', cdPriority = 1, cdUrgent = False, cdMinWidth = 40, cdPreferredWidth = 100, cdMaxWidth = 200\<rparr>,
     \<lparr>cdID = ''b'', cdPriority = 5, cdUrgent = False, cdMinWidth = 40, cdPreferredWidth = 100, cdMaxWidth = 200\<rparr>,
     \<lparr>cdID = ''c'', cdPriority = 0, cdUrgent = True, cdMinWidth = 40, cdPreferredWidth = 100, cdMaxWidth = 200\<rparr>]"
  have ov: "lrOverflow (Layout 90 6 ?cards) = [''a'']" by code_simp
  have "distinct (map cdID ?cards)" "\<forall>c \<in> set ?cards. cardInRange c"
    by (simp_all add: cardInRange_def in64_def)
  from conjunct1 [OF Layout_correct [OF this, of 90 6]] ov
  have "map plID (lrVisible (Layout 90 6 ?cards)) = filter (\<lambda>i. i \<notin> {''a''}) (map cdID (sortFunc workCompare ?cards))"
    by simp
  moreover have "map cdID (sortFunc workCompare ?cards) = [''b'', ''a'', ''c'']" by code_simp
  ultimately show ?thesis using ov by (simp add: Let_def)
qed

section \<open>Cards of a valid specification\<close>

lemma ViewCount_sum: "ViewCount a = int (length (concat (map wViews (asWindows a))))"
proof -
  have "foldl (\<lambda>n w. n + int (length (wViews w))) k ws = k + int (length (concat (map wViews ws)))" for k ws
    by (induction ws arbitrary: k) simp_all
  from this [of 0 "asWindows a"] show ?thesis by (simp add: ViewCount_def)
qed

text \<open>What a card can show: the views of its windows, or the windows when there are no views.\<close>

definition itemCount :: "ApplicationSurface \<Rightarrow> int" where
  "itemCount a = (if ViewCount a > 0 then ViewCount a else WindowCount a)"

lemma projectedSegments_count: "int (length (projectedSegments a)) = itemCount a"
  by (simp add: projectedSegments_def Let_def itemCount_def ViewCount_sum WindowCount_def)

lemma itemCount_nonneg [simp]: "0 \<le> itemCount a"
  by (simp add: itemCount_def WindowCount_def)

lemma projectCard_segments:
  assumes "0 \<le> k"
  shows "prefix (cardSegments (projectCard config k a)) (projectedSegments a) \<and>
    int (length (cardSegments (projectCard config k a))) = min k (itemCount a) \<and>
    cardOverflowCount (projectCard config k a) = itemCount a - min k (itemCount a)"
  using assms projectedSegments_count [of a]
  by (auto simp: projectCard_def Let_def take_is_prefix min_def)

definition validAppConfig :: "AppConfig \<Rightarrow> bool" where
  "validAppConfig c \<longleftrightarrow> 0 < acMinWidth c \<and> acMinWidth c \<le> acPreferredWidth c \<and> acPreferredWidth c \<le> acMaxWidth c \<and>
     0 \<le> scMaxVisible (acSurfaces c) \<and> scMaxVisible (acSurfaces c) \<le> 20"

lemma checkGroup_valid: "checkGroup g = None \<Longrightarrow> grApp g = Some c \<Longrightarrow> validAppConfig c"
  by (auto simp: checkGroup_def validAppConfig_def split: if_splits)

lemma firstAppConfig_valid:
  "\<forall>g \<in> set gs. checkGroup g = None \<Longrightarrow> validAppConfig (firstAppConfig defaultAppConfig gs)"
proof (induction gs)
  case Nil
  show ?case by (simp add: defaultAppConfig_def validAppConfig_def)
next
  case (Cons g gs)
  then show ?case by (cases "grApp g") (auto intro: checkGroup_valid)
qed

lemma Spec_Validate_groups: "Spec_Validate s = None \<Longrightarrow> \<forall>g \<in> set (psGroups s). checkGroup g = None"
  by (auto simp: Spec_Validate_def split: if_splits)

text \<open>
  C36. Projecting surfaces with a valid specification gives one card per surface, in order, with the
  widths of the first application group, which are in order. With the cap of that group (at most twenty) a
  card shows the first views of its application (or its windows when it has no views), as many as
  the cap allows, and the overflow count is exactly the number of the others. Without a group
  the cap is four.
\<close>

theorem ProjectWithSpec_cards:
  assumes "Spec_Validate spec = None"
  shows "let cards = pnCards (ProjectWithSpec surfaces spec revision now);
      config = firstAppConfig defaultAppConfig (psGroups spec);
      cap = nat (scMaxVisible (acSurfaces config))
    in cap \<le> 20 \<and>
    list_all2 (\<lambda>a c. cardID c = asAppID a \<and>
      cardMinWidth c = acMinWidth config \<and> cardPreferredWidth c = acPreferredWidth config \<and> cardMaxWidth c = acMaxWidth config \<and>
      0 < cardMinWidth c \<and> cardMinWidth c \<le> cardPreferredWidth c \<and> cardPreferredWidth c \<le> cardMaxWidth c \<and>
      cardSegments c = take cap (projectedSegments a) \<and>
      cardOverflowCount c = int (length (projectedSegments a) - cap) \<and>
      int (length (projectedSegments a)) = itemCount a)
      surfaces cards"
proof -
  let ?config = "firstAppConfig defaultAppConfig (psGroups spec)"
  let ?k = "scMaxVisible (acSurfaces ?config)"
  have valid: "validAppConfig ?config"
    by (rule firstAppConfig_valid) (rule Spec_Validate_groups [OF assms])
  then have k: "0 \<le> ?k" "?k \<le> 20" by (simp_all add: validAppConfig_def)
  have cards: "pnCards (ProjectWithSpec surfaces spec revision now) = map (projectCard ?config ?k) surfaces"
    using k by (simp add: ProjectWithSpec_def Let_def)
  have "cardSegments (projectCard ?config ?k a) = take (nat ?k) (projectedSegments a) \<and>
      cardOverflowCount (projectCard ?config ?k a) = int (length (projectedSegments a) - nat ?k)" for a
    using k by (simp add: projectCard_def Let_def)
  then show ?thesis
    using valid k projectedSegments_count
    by (simp add: Let_def cards list_all2_conv_all_nth validAppConfig_def projectCard_def [THEN arg_cong [where f = cardID]]
        projectCard_def [THEN arg_cong [where f = cardMinWidth]] projectCard_def [THEN arg_cong [where f = cardPreferredWidth]]
        projectCard_def [THEN arg_cong [where f = cardMaxWidth]])
qed

definition crowdedSurface :: ApplicationSurface where
  "crowdedSurface = sampleSurface\<lparr>asWindows :=
     [\<lparr>wID = ''w'', wTitle = ''W'', wWorkspaceID = '''', wMonitorRef = '''', wFocused = False, wMinimized = False, wMRU = 0,
       wProviderOnly = False,
       wViews = map (\<lambda>i. emptyView\<lparr>vID := [i]\<rparr>) ''abcdef''\<rparr>]\<rparr>"

lemma ProjectWithSpec_cards_witness:
  "map (\<lambda>c. (map sgID (cardSegments c), cardOverflowCount c)) (pnCards (ProjectWithSpec [crowdedSurface] (DefaultSpec ''p'') 1 0)) =
     [(map sgID (take 4 (projectedSegments crowdedSurface)), 2)]"
proof -
  have spec: "Spec_Validate (DefaultSpec ''p'') = None" by code_simp
  have cap: "nat (scMaxVisible (acSurfaces (firstAppConfig defaultAppConfig (psGroups (DefaultSpec ''p''))))) = 4" by code_simp
  have six: "length (projectedSegments crowdedSurface) = 6" by code_simp
  from ProjectWithSpec_cards [OF spec, of "[crowdedSurface]" 1 0] show ?thesis
    unfolding Let_def cap by (auto simp: list_all2_Cons1 six)
qed

end
