(* ===== verification/GoText.thy ===== *)
theory GoText
  imports GoStrings GoFloat
begin

text \<open>
  The parts of \<open>unicode/utf8\<close> and \<open>strconv\<close> that the panel language uses: UTF-8 runes, \<open>Unquote\<close>
  on double-quoted literals, and \<open>ParseFloat\<close> on decimal literals.
\<close>

section \<open>UTF-8\<close>

abbreviation byteOf :: "char \<Rightarrow> nat" where
  "byteOf c \<equiv> of_char c"

definition contByte :: "char \<Rightarrow> bool" where
  "contByte c \<longleftrightarrow> 0x80 \<le> byteOf c \<and> byteOf c \<le> 0xBF"

definition runeError :: nat where
  "runeError = 0xFFFD"

text \<open>\<open>DecodeRuneInString\<close>: the rune and its width; an invalid encoding is one byte wide.\<close>

fun decodeRune :: "string \<Rightarrow> nat \<times> nat" where
  "decodeRune [] = (runeError, 0)"
| "decodeRune (a # s) =
     (let x = byteOf a
      in if x < 0x80 then (x, 1)
         else if 0xC2 \<le> x \<and> x \<le> 0xDF then
           (case s of
              b # _ \<Rightarrow> if contByte b then ((x - 0xC0) * 64 + (byteOf b - 0x80), 2) else (runeError, 1)
            | _ \<Rightarrow> (runeError, 1))
         else if 0xE0 \<le> x \<and> x \<le> 0xEF then
           (case s of
              b # c # _ \<Rightarrow>
                if contByte b \<and> contByte c \<and> (x = 0xE0 \<longrightarrow> 0xA0 \<le> byteOf b) \<and> (x = 0xED \<longrightarrow> byteOf b \<le> 0x9F)
                then ((x - 0xE0) * 4096 + (byteOf b - 0x80) * 64 + (byteOf c - 0x80), 3) else (runeError, 1)
            | _ \<Rightarrow> (runeError, 1))
         else if 0xF0 \<le> x \<and> x \<le> 0xF4 then
           (case s of
              b # c # d # _ \<Rightarrow>
                if contByte b \<and> contByte c \<and> contByte d \<and> (x = 0xF0 \<longrightarrow> 0x90 \<le> byteOf b) \<and>
                   (x = 0xF4 \<longrightarrow> byteOf b \<le> 0x8F)
                then ((x - 0xF0) * 262144 + (byteOf b - 0x80) * 4096 + (byteOf c - 0x80) * 64 + (byteOf d - 0x80), 4)
                else (runeError, 1)
            | _ \<Rightarrow> (runeError, 1))
         else (runeError, 1))"

definition validRune :: "nat \<Rightarrow> bool" where
  "validRune r \<longleftrightarrow> r \<le> 0x10FFFF \<and> \<not> (0xD800 \<le> r \<and> r \<le> 0xDFFF)"

definition encodeRune :: "nat \<Rightarrow> string" where
  "encodeRune r0 =
     (let r = (if validRune r0 then r0 else runeError)
      in if r < 0x80 then [char_of r]
         else if r < 0x800 then [char_of (0xC0 + r div 64), char_of (0x80 + r mod 64)]
         else if r < 0x10000 then
           [char_of (0xE0 + r div 4096), char_of (0x80 + r div 64 mod 64), char_of (0x80 + r mod 64)]
         else [char_of (0xF0 + r div 262144), char_of (0x80 + r div 4096 mod 64),
               char_of (0x80 + r div 64 mod 64), char_of (0x80 + r mod 64)])"

lemma decodeRune_width: "1 \<le> snd (decodeRune (a # s)) \<and> snd (decodeRune (a # s)) \<le> length (a # s)"
  by (simp add: Let_def split: list.splits)

section \<open>Quoted strings\<close>

definition hexVal :: "char \<Rightarrow> nat option" where
  "hexVal c =
     (let n = byteOf c
      in if 48 \<le> n \<and> n \<le> 57 then Some (n - 48)
         else if 97 \<le> n \<and> n \<le> 102 then Some (n - 87)
         else if 65 \<le> n \<and> n \<le> 70 then Some (n - 55)
         else None)"

fun hexNumber :: "nat \<Rightarrow> string \<Rightarrow> nat option" where
  "hexNumber v [] = Some v"
| "hexNumber v (c # cs) = (case hexVal c of None \<Rightarrow> None | Some x \<Rightarrow> hexNumber (v * 16 + x) cs)"

definition octVal :: "char \<Rightarrow> nat option" where
  "octVal c = (let n = byteOf c in if 48 \<le> n \<and> n \<le> 55 then Some (n - 48) else None)"

text \<open>The bytes of the escape sequence that follows a backslash, and what is left.\<close>

definition hexEscape :: "nat \<Rightarrow> bool \<Rightarrow> string \<Rightarrow> (string \<times> string) option" where
  "hexEscape n isByte s =
     (if length s < n then None
      else case hexNumber 0 (take n s) of
        None \<Rightarrow> None
      | Some v \<Rightarrow>
          if isByte then Some ([char_of v], drop n s)
          else if validRune v then Some (encodeRune v, drop n s) else None)"

definition octEscape :: "nat \<Rightarrow> string \<Rightarrow> (string \<times> string) option" where
  "octEscape v s =
     (case s of
        b # c # s' \<Rightarrow>
          (case (octVal b, octVal c) of
             (Some y, Some z) \<Rightarrow> if v * 64 + y * 8 + z > 255 then None else Some ([char_of (v * 64 + y * 8 + z)], s')
           | _ \<Rightarrow> None)
      | _ \<Rightarrow> None)"

definition simpleEscapes :: "(char \<times> nat) list" where
  "simpleEscapes = [(CHR ''a'', 7), (CHR ''b'', 8), (CHR ''f'', 12), (CHR ''n'', 10), (CHR ''r'', 13),
     (CHR ''t'', 9), (CHR ''v'', 11), (CHR 0x5C, 0x5C), (CHR 0x22, 0x22)]"

definition escapeSeq :: "string \<Rightarrow> (string \<times> string) option" where
  "escapeSeq s =
     (case s of
        [] \<Rightarrow> None
      | c # s' \<Rightarrow>
          (case map_of simpleEscapes c of
             Some n \<Rightarrow> Some ([char_of n], s')
           | None \<Rightarrow>
               if c = CHR ''x'' then hexEscape 2 True s'
               else if c = CHR ''u'' then hexEscape 4 False s'
               else if c = CHR ''U'' then hexEscape 8 False s'
               else case octVal c of Some v \<Rightarrow> octEscape v s' | None \<Rightarrow> None))"

text \<open>
  One character of the body of a quoted string. A byte sequence that is not UTF-8 becomes the
  encoding of U+FFFD.
\<close>

definition unquoteChar :: "string \<Rightarrow> (string \<times> string) option" where
  "unquoteChar s =
     (case s of
        [] \<Rightarrow> None
      | c # s' \<Rightarrow>
          if byteOf c \<ge> 0x80 then (case decodeRune s of (r, n) \<Rightarrow> Some (encodeRune r, drop n s))
          else if c \<noteq> CHR 0x5C then Some ([c], s')
          else escapeSeq s')"

lemma octEscape_shorter: "octEscape v s = Some (out, t) \<Longrightarrow> length t \<le> length s"
  by (auto simp: octEscape_def split: list.splits option.splits prod.splits if_splits)

lemma hexEscape_shorter: "hexEscape n b s = Some (out, t) \<Longrightarrow> length t \<le> length s"
  by (auto simp: hexEscape_def split: option.splits if_splits)

lemma escapeSeq_shorter: "escapeSeq s = Some (out, t) \<Longrightarrow> length t < length s"
  by (auto simp: escapeSeq_def less_Suc_eq_le dest: octEscape_shorter hexEscape_shorter
      split: list.splits option.splits if_splits)

lemma unquoteChar_shorter: "unquoteChar s = Some (out, t) \<Longrightarrow> length t < length s"
  using decodeRune_width [of "hd s" "tl s"]
  by (auto simp: unquoteChar_def dest: escapeSeq_shorter split: list.splits prod.splits if_splits
      simp del: decodeRune.simps)

function unquoteBody :: "string \<Rightarrow> string option" where
  "unquoteBody s =
     (case s of
        [] \<Rightarrow> None
      | c # s' \<Rightarrow>
          if c = CHR 0x22 then (if s' = [] then Some [] else None)
          else if c = CHR 0x0A then None
          else case unquoteChar s of
                 None \<Rightarrow> None
               | Some (out, t) \<Rightarrow> map_option ((@) out) (unquoteBody t))"
  by pat_completeness auto
termination
  by (relation "measure length") (auto dest: unquoteChar_shorter)

declare unquoteBody.simps [simp del]

text \<open>\<open>strconv.Unquote\<close> on a literal that starts with a double quote.\<close>

definition Unquote :: "string \<Rightarrow> string option" where
  "Unquote s = (case s of c # body \<Rightarrow> if c = CHR 0x22 then unquoteBody body else None | [] \<Rightarrow> None)"

text \<open>
  A quoted body for every string: quotes, backslashes, newlines and the bytes from 0x80 on are
  written as two hexadecimal digits.
\<close>

definition plainChar :: "char \<Rightarrow> bool" where
  "plainChar c \<longleftrightarrow> byteOf c < 0x80 \<and> c \<noteq> CHR 0x22 \<and> c \<noteq> CHR 0x5C \<and> c \<noteq> CHR 0x0A"

definition hexDigit :: "nat \<Rightarrow> char" where
  "hexDigit n = (if n < 10 then char_of (48 + n) else char_of (87 + n))"

definition escapeChar :: "char \<Rightarrow> string" where
  "escapeChar c =
     (if plainChar c then [c] else [CHR 0x5C, CHR ''x'', hexDigit (byteOf c div 16), hexDigit (byteOf c mod 16)])"

definition escaped :: "string \<Rightarrow> string" where
  "escaped s = concat (map escapeChar s)"

lemma escaped_simps [simp]: "escaped [] = []" "escaped (c # s) = escapeChar c @ escaped s"
  by (simp_all add: escaped_def)

lemma hexDigit_val: "n < 16 \<Longrightarrow> hexVal (hexDigit n) = Some n"
  by (simp add: hexVal_def hexDigit_def Let_def)

lemma hexHalves: "byteOf c div 16 < 16" "byteOf c mod 16 < 16"
proof -
  have "byteOf c mod 256 = byteOf c" by simp
  then have "byteOf c < 256" by (metis mod_less_divisor zero_less_numeral)
  then show "byteOf c div 16 < 16" "byteOf c mod 16 < 16" by linarith+
qed

lemma hexDigit_plain: "n < 16 \<Longrightarrow> hexDigit n \<noteq> CHR 0x22 \<and> hexDigit n \<noteq> CHR 0x5C"
  using hexDigit_val [of n] by (auto simp: hexVal_def)

lemma unquoteChar_escape: "unquoteChar (escapeChar c @ s) = Some ([c], s)"
proof (cases "plainChar c")
  case True
  then show ?thesis by (simp add: unquoteChar_def escapeChar_def plainChar_def)
next
  case False
  have "hexEscape 2 True (hexDigit (byteOf c div 16) # hexDigit (byteOf c mod 16) # s) =
      Some ([char_of (byteOf c div 16 * 16 + byteOf c mod 16)], s)"
    by (simp add: hexEscape_def hexDigit_val hexHalves numeral_2_eq_2)
  moreover have "char_of (byteOf c div 16 * 16 + byteOf c mod 16) = c" by simp
  ultimately show ?thesis
    using False by (simp add: unquoteChar_def escapeChar_def escapeSeq_def simpleEscapes_def)
qed

lemma escapeChar_head: "\<exists>a t. escapeChar c = a # t \<and> a \<noteq> CHR 0x22 \<and> a \<noteq> CHR 0x0A"
  by (auto simp: escapeChar_def plainChar_def)

lemma unquoteBody_escaped: "unquoteBody (escaped s @ [CHR 0x22]) = Some s"
proof (induction s)
  case Nil
  show ?case by (simp add: unquoteBody.simps)
next
  case (Cons c s)
  obtain a t where "escapeChar c = a # t" "a \<noteq> CHR 0x22" "a \<noteq> CHR 0x0A" using escapeChar_head [of c] by blast
  with Cons unquoteChar_escape [of c "escaped s @ [CHR 0x22]"] show ?case
    by (subst unquoteBody.simps) simp
qed

lemma Unquote_escaped: "Unquote (CHR 0x22 # escaped s @ [CHR 0x22]) = Some s"
  by (simp add: Unquote_def unquoteBody_escaped)

section \<open>Decimal fractions\<close>

text \<open>
  \<open>strconv.ParseFloat\<close> on a text of digits and points with an optional minus sign: at most one
  point, at least one digit; the nearest float, and an error when that is infinite.
\<close>

definition ParseDecimal :: "string \<Rightarrow> f64 option" where
  "ParseDecimal s =
     (let neg = HasPrefix s ''-'';
          body = (if neg then drop 1 s else s);
          whole = takeWhile (\<lambda>c. c \<noteq> CHR ''.'') body;
          frac = drop 1 (dropWhile (\<lambda>c. c \<noteq> CHR ''.'') body);
          n = int (decVal (whole @ frac));
          v = rndDiv (if neg then - n else n) (10 ^ length frac) 0
      in if whole @ frac = [] \<or> \<not> list_all isDigit (whole @ frac) \<or> \<not> isFinite v then None else Some v)"

end
