(* ===== verification/PanelParser.thy ===== *)
theory PanelParser
  imports GoText
begin

text \<open>
  \<open>internal/panel/dsl/parser.go\<close>: the lexer and the recursive-descent parser of the panel
  language. The parser works on the tokens not yet consumed; reading past the last token, which
  in Go panics, is the error \<open>IndexOutOfRange\<close>, shown never to occur.
\<close>

section \<open>Tokens and blocks\<close>

datatype tokenKind = tEOF | tIdent | tString | tNumber | tLBrace | tRBrace | tLBracket | tRBracket | tEqual | tComma

record token =
  tkKind :: tokenKind
  tkLit :: string
  tkPos :: nat

datatype attrVal = VString string | VInt int | VFloat f64 | VBool bool | VArray "attrVal list"

datatype Block = Block (bType: string) (bLabels: "string list") (bAttrs: "(string, attrVal) gomap") (bBlocks: "Block list")

datatype dslError =
    UnterminatedString nat | BadString nat | UnexpectedCharacter nat char
  | Expected nat tokenKind string | UnterminatedBlock string | BareValue nat string | BadNumber string
  | InvalidValue nat string | IndexOutOfRange

section \<open>The lexer\<close>

text \<open>\<open>unicode.IsSpace\<close> of a byte taken as a rune.\<close>

definition isSpaceByte :: "char \<Rightarrow> bool" where
  "isSpaceByte c \<longleftrightarrow> (let n = byteOf c in 9 \<le> n \<and> n \<le> 13 \<or> n = 32 \<or> n = 0x85 \<or> n = 0xA0)"

definition isIdentStart :: "char \<Rightarrow> bool" where
  "isIdentStart c \<longleftrightarrow> (let n = byteOf c in c = CHR ''_'' \<or> 97 \<le> n \<and> n \<le> 122 \<or> 65 \<le> n \<and> n \<le> 90)"

definition isIdentPart :: "char \<Rightarrow> bool" where
  "isIdentPart c \<longleftrightarrow> isIdentStart c \<or> isDigit c \<or> c = CHR ''-'' \<or> c = CHR ''.''"

text \<open>The inner loop of a string literal: what it passes over, closing quote included.\<close>

fun scanString :: "bool \<Rightarrow> string \<Rightarrow> string" where
  "scanString esc [] = []"
| "scanString esc (c # cs) =
     (if \<not> esc \<and> c = CHR 0x22 then [c]
      else if \<not> esc \<and> c = CHR 0x5C then c # scanString True cs
      else c # scanString False cs)"

definition punctuation :: "char \<Rightarrow> tokenKind option" where
  "punctuation c =
     (if c = CHR 0x7B then Some tLBrace else if c = CHR 0x7D then Some tRBrace
      else if c = CHR ''['' then Some tLBracket else if c = CHR '']'' then Some tRBracket
      else if c = CHR ''='' then Some tEqual else if c = CHR '','' then Some tComma
      else None)"

text \<open>What one pass of the lexer's loop does at the head of the rest of the input.\<close>

datatype lexStep = Skip nat | Emit tokenKind string nat | LexError dslError

definition lexOne :: "nat \<Rightarrow> char \<Rightarrow> string \<Rightarrow> lexStep" where
  "lexOne pos c cs =
     (if isSpaceByte c then Skip 1
      else if c = CHR 0x23 \<or> c = CHR ''/'' \<and> prefix ''/'' cs then
        Skip (length (takeWhile (\<lambda>d. d \<noteq> CHR 0x0A) (c # cs)))
      else case punctuation c of
        Some k \<Rightarrow> Emit k [c] 1
      | None \<Rightarrow>
          if c = CHR 0x22 then
            (let lit = c # scanString False cs
             in if last lit \<noteq> CHR 0x22 then LexError (UnterminatedString pos)
                else case Unquote lit of
                       None \<Rightarrow> LexError (BadString pos)
                     | Some v \<Rightarrow> Emit tString v (length lit))
          else if isDigit c \<or> c = CHR ''-'' then
            (let lit = c # takeWhile (\<lambda>d. isDigit d \<or> d = CHR ''.'') cs in Emit tNumber lit (length lit))
          else if isIdentStart c then
            (let lit = c # takeWhile isIdentPart cs in Emit tIdent lit (length lit))
          else LexError (UnexpectedCharacter pos c))"

lemma lexOne_progress: "lexOne pos c cs = Skip n \<or> lexOne pos c cs = Emit k v n \<Longrightarrow> 0 < n"
  by (auto simp: lexOne_def Let_def split: if_splits option.splits)

function lexFrom :: "nat \<Rightarrow> string \<Rightarrow> dslError + token list" where
  "lexFrom pos [] = Inr [\<lparr>tkKind = tEOF, tkLit = '''', tkPos = pos\<rparr>]"
| "lexFrom pos (c # cs) =
     (case lexOne pos c cs of
        LexError e \<Rightarrow> Inl e
      | Skip n \<Rightarrow> lexFrom (pos + n) (drop n (c # cs))
      | Emit k v n \<Rightarrow> map_sum (\<lambda>e. e) ((#) \<lparr>tkKind = k, tkLit = v, tkPos = pos\<rparr>) (lexFrom (pos + n) (drop n (c # cs))))"
  by pat_completeness auto
termination
  by (relation "measure (\<lambda>(pos, s). length s)")
    (simp_all, use lexOne_progress in \<open>(metis diff_less zero_less_Suc)+\<close>)

definition lex :: "string \<Rightarrow> dslError + token list" where
  "lex s = lexFrom 0 s"

section \<open>The parser\<close>

definition expect :: "tokenKind \<Rightarrow> token list \<Rightarrow> dslError + token \<times> token list" where
  "expect k ts =
     (case ts of
        [] \<Rightarrow> Inl IndexOutOfRange
      | t # ts' \<Rightarrow> if tkKind t \<noteq> k then Inl (Expected (tkPos t) k (tkLit t)) else Inr (t, ts'))"

definition numberValue :: "string \<Rightarrow> dslError + attrVal" where
  "numberValue s =
     (if ContainsAny s ''.'' then
        (case ParseDecimal s of Some v \<Rightarrow> Inr (VFloat v) | None \<Rightarrow> Inl (BadNumber s))
      else (case Atoi s of Some v \<Rightarrow> Inr (VInt v) | None \<Rightarrow> Inl (BadNumber s)))"

text \<open>\<open>arrayLoop\<close> is the loop of \<open>value\<close> over the elements of an array.\<close>

function valueP :: "token list \<Rightarrow> dslError + attrVal \<times> token list"
  and arrayLoop :: "attrVal list \<Rightarrow> token list \<Rightarrow> dslError + attrVal \<times> token list" where
  "valueP ts =
     (case ts of
        [] \<Rightarrow> Inl IndexOutOfRange
      | t # ts' \<Rightarrow>
          (case tkKind t of
             tString \<Rightarrow> Inr (VString (tkLit t), ts')
           | tNumber \<Rightarrow> map_sum (\<lambda>e. e) (\<lambda>v. (v, ts')) (numberValue (tkLit t))
           | tIdent \<Rightarrow>
               if tkLit t = ''true'' then Inr (VBool True, ts')
               else if tkLit t = ''false'' then Inr (VBool False, ts')
               else Inl (BareValue (tkPos t) (tkLit t))
           | tLBracket \<Rightarrow> arrayLoop [] ts'
           | _ \<Rightarrow> Inl (InvalidValue (tkPos t) (tkLit t))))"
| "arrayLoop arr ts =
     (case ts of
        [] \<Rightarrow> Inl IndexOutOfRange
      | t # ts' \<Rightarrow>
          if tkKind t = tRBracket then Inr (VArray arr, ts')
          else case valueP ts of
            Inl e \<Rightarrow> Inl e
          | Inr (v, rest) \<Rightarrow>
              (case rest of
                 [] \<Rightarrow> Inl IndexOutOfRange
               | c # rest' \<Rightarrow> arrayLoop (arr @ [v]) (if tkKind c = tComma then rest' else rest)))"
  by pat_completeness auto

text \<open>Every call consumes a token, wherever it is defined; this is what its own termination rests on.\<close>

lemma valueP_shrinks:
  shows "valueP_arrayLoop_dom (Inl ts) \<Longrightarrow> valueP ts = Inr (v, rest) \<Longrightarrow> length rest < length ts"
    and "valueP_arrayLoop_dom (Inr (arr, ts)) \<Longrightarrow> arrayLoop arr ts = Inr (v, rest) \<Longrightarrow> length rest < length ts"
proof (induction ts and arr ts arbitrary: v rest and v rest rule: valueP_arrayLoop.pinduct)
  case (1 ts)
  show ?case
  proof (cases ts)
    case (Cons t ts')
    then show ?thesis
      using 1 by (auto simp: valueP.psimps split: tokenKind.splits if_splits sum.splits)
        (auto simp: map_sum_def split: sum.splits dest: less_SucI)
  qed (use 1 in \<open>simp add: valueP.psimps\<close>)
next
  case (2 arr ts)
  show ?case
  proof (cases ts)
    case (Cons t ts')
    show ?thesis
    proof (cases "tkKind t = tRBracket")
      case True
      with Cons 2 show ?thesis by (simp add: arrayLoop.psimps)
    next
      case False
      from False Cons 2(1,4) obtain w c rest' where w: "valueP ts = Inr (w, c # rest')"
        and a: "arrayLoop (arr @ [w]) (if tkKind c = tComma then rest' else c # rest') = Inr (v, rest)"
        by (auto simp: arrayLoop.psimps split: sum.splits list.splits)
      have "length (c # rest') < length ts"
        using 2(2) [OF Cons False] w by blast
      moreover have "length rest < length (if tkKind c = tComma then rest' else c # rest')"
        using 2(3) [OF Cons False w refl refl a] by simp
      ultimately show ?thesis by (auto split: if_splits)
    qed
  qed (use 2 in \<open>simp add: arrayLoop.psimps\<close>)
qed

lemma valueP_total: "All valueP_arrayLoop_dom"
  by (relation "measure (\<lambda>c. case c of Inl ts \<Rightarrow> 2 * length ts | Inr (arr, ts) \<Rightarrow> 2 * length ts + 1)")
    (auto dest: valueP_shrinks split: if_splits)

termination valueP
  by (rule valueP_total)

declare valueP.simps [simp del] arrayLoop.simps [simp del]

text \<open>The labels in front of a block's opening brace.\<close>

fun labelsLoop :: "string list \<Rightarrow> token list \<Rightarrow> dslError + string list \<times> token list" where
  "labelsLoop labels [] = Inl IndexOutOfRange"
| "labelsLoop labels (t # ts) =
     (if tkKind t = tString then labelsLoop (labels @ [tkLit t]) ts else Inr (labels, t # ts))"

text \<open>The head of a block whose type has been read: labels and opening brace.\<close>

definition blockHead :: "string \<Rightarrow> token list \<Rightarrow> dslError + Block \<times> token list" where
  "blockHead name ts =
     (case labelsLoop [] ts of
        Inl e \<Rightarrow> Inl e
      | Inr (labels, ts1) \<Rightarrow>
          (case expect tLBrace ts1 of
             Inl e \<Rightarrow> Inl e
           | Inr (_, ts2) \<Rightarrow> Inr (Block name labels [] [], ts2)))"

definition addAttr :: "string \<Rightarrow> attrVal \<Rightarrow> Block \<Rightarrow> Block" where
  "addAttr k v b = Block (bType b) (bLabels b) (put k v (bAttrs b)) (bBlocks b)"

definition addBlock :: "Block \<Rightarrow> Block \<Rightarrow> Block" where
  "addBlock c b = Block (bType b) (bLabels b) (bAttrs b) (bBlocks b @ [c])"

lemma expect_shrinks: "expect k ts = Inr (t, rest) \<Longrightarrow> length rest < length ts"
  by (auto simp: expect_def split: list.splits if_splits)

lemma valueP_shorter: "valueP ts = Inr (v, rest) \<Longrightarrow> length rest < length ts"
  by (rule valueP_shrinks(1) [OF valueP_total [rule_format]])

lemma labelsLoop_shrinks: "labelsLoop ls ts = Inr (ls', rest) \<Longrightarrow> length rest \<le> length ts"
  by (induction ls ts rule: labelsLoop.induct) (auto split: if_splits)

lemma blockHead_shrinks: "blockHead name ts = Inr (b, rest) \<Longrightarrow> length rest < length ts"
  by (auto simp: blockHead_def dest!: labelsLoop_shrinks expect_shrinks split: sum.splits)

text \<open>
  What one pass of the loop over a block's body reads: the closing brace, an attribute, or the head of
  a block inside.
\<close>

datatype bodyItem = Close | Attr string attrVal | Head Block

definition readItem :: "string \<Rightarrow> token list \<Rightarrow> dslError + bodyItem \<times> token list" where
  "readItem name ts =
     (case ts of
        [] \<Rightarrow> Inl IndexOutOfRange
      | t # ts1 \<Rightarrow>
          if tkKind t = tRBrace then Inr (Close, ts1)
          else if tkKind t = tEOF then Inl (UnterminatedBlock name)
          else case expect tIdent ts of
            Inl e \<Rightarrow> Inl e
          | Inr (t, ts2) \<Rightarrow>
              (case ts2 of
                 [] \<Rightarrow> Inl IndexOutOfRange
               | eq # ts3 \<Rightarrow>
                   if tkKind eq = tEqual then map_sum (\<lambda>e. e) (\<lambda>(v, ts4). (Attr (tkLit t) v, ts4)) (valueP ts3)
                   else map_sum (\<lambda>e. e) (\<lambda>(child, ts4). (Head child, ts4)) (blockHead (tkLit t) ts2)))"

lemma readItem_shrinks: "readItem name ts = Inr (item, rest) \<Longrightarrow> length rest < length ts"
  by (auto simp: readItem_def map_sum_def dest!: expect_shrinks valueP_shorter blockHead_shrinks
      split: list.splits if_splits sum.splits)

function blockBody :: "Block \<Rightarrow> token list \<Rightarrow> dslError + Block \<times> token list" where
  "blockBody b ts =
     (case readItem (bType b) ts of
        Inl e \<Rightarrow> Inl e
      | Inr (Close, ts1) \<Rightarrow> Inr (b, ts1)
      | Inr (Attr k v, ts1) \<Rightarrow> blockBody (addAttr k v b) ts1
      | Inr (Head child, ts1) \<Rightarrow>
          (case blockBody child ts1 of
             Inl e \<Rightarrow> Inl e
           | Inr (child', ts2) \<Rightarrow> blockBody (addBlock child' b) ts2))"
  by pat_completeness auto

lemma blockBody_shrinks:
  "blockBody_dom (b, ts) \<Longrightarrow> blockBody b ts = Inr (b', rest) \<Longrightarrow> length rest < length ts"
proof (induction b ts arbitrary: b' rest rule: blockBody.pinduct)
  case (1 b ts)
  then show ?case
    by (auto simp: blockBody.psimps split: sum.splits bodyItem.splits dest!: readItem_shrinks) fastforce+
qed

lemma blockBody_total: "All blockBody_dom"
  by (relation "measure (\<lambda>(b, ts). length ts)") (auto dest!: blockBody_shrinks readItem_shrinks)

termination blockBody
  by (rule blockBody_total)

declare blockBody.simps [simp del]

lemma blockBody_shorter: "blockBody b ts = Inr (b', rest) \<Longrightarrow> length rest < length ts"
  by (rule blockBody_shrinks [OF blockBody_total [rule_format]])

text \<open>
  The loop of \<open>block\<close> over the body of a top-level block: the code repeats the loop of \<open>blockBody\<close>,
  which handles the blocks inside.
\<close>

function blockLoop :: "Block \<Rightarrow> token list \<Rightarrow> dslError + Block \<times> token list" where
  "blockLoop b ts =
     (case readItem (bType b) ts of
        Inl e \<Rightarrow> Inl e
      | Inr (Close, ts1) \<Rightarrow> Inr (b, ts1)
      | Inr (Attr k v, ts1) \<Rightarrow> blockLoop (addAttr k v b) ts1
      | Inr (Head child, ts1) \<Rightarrow>
          (case blockBody child ts1 of
             Inl e \<Rightarrow> Inl e
           | Inr (parsed, ts2) \<Rightarrow> blockLoop (addBlock parsed b) ts2))"
  by pat_completeness auto
termination
  by (relation "measure (\<lambda>(b, ts). length ts)") (auto dest!: blockBody_shorter readItem_shrinks)

declare blockLoop.simps [simp del]

definition block :: "token list \<Rightarrow> dslError + Block \<times> token list" where
  "block ts =
     (case expect tIdent ts of
        Inl e \<Rightarrow> Inl e
      | Inr (t, ts1) \<Rightarrow>
          (case blockHead (tkLit t) ts1 of
             Inl e \<Rightarrow> Inl e
           | Inr (b, ts2) \<Rightarrow> blockLoop b ts2))"

lemma blockLoop_eq: "blockLoop b ts = blockBody b ts"
proof (induction b ts rule: blockLoop.induct)
  case (1 b ts)
  then show ?case
    by (subst blockLoop.simps, subst blockBody.simps) (auto split: sum.splits bodyItem.splits)
qed

lemma block_shrinks: "block ts = Inr (b, rest) \<Longrightarrow> length rest < length ts"
  by (auto simp: block_def blockLoop_eq dest!: expect_shrinks blockHead_shrinks blockBody_shorter split: sum.splits)

function parseLoop :: "Block list \<Rightarrow> token list \<Rightarrow> dslError + Block list" where
  "parseLoop out ts =
     (case ts of
        [] \<Rightarrow> Inl IndexOutOfRange
      | t # _ \<Rightarrow>
          if tkKind t = tEOF then Inr out
          else case block ts of
            Inl e \<Rightarrow> Inl e
          | Inr (b, rest) \<Rightarrow> parseLoop (out @ [b]) rest)"
  by pat_completeness auto
termination
  by (relation "measure (\<lambda>(out, ts). length ts)") (auto dest!: block_shrinks)

declare parseLoop.simps [simp del]

definition Parse :: "string \<Rightarrow> dslError + Block list" where
  "Parse src = (case lex src of Inl e \<Rightarrow> Inl e | Inr toks \<Rightarrow> parseLoop [] toks)"

section \<open>The lexer's output\<close>

lemma scanString_width: "length (scanString esc s) \<le> length s"
  by (induction esc s rule: scanString.induct) auto

lemma lexOne_width: "lexOne pos c cs = Skip n \<or> lexOne pos c cs = Emit k v n \<Longrightarrow> 0 < n \<and> n \<le> length (c # cs)"
  using scanString_width [of False cs] length_takeWhile_le [of _ cs]
  by (auto simp: lexOne_def Let_def split: if_splits option.splits)

lemma lexOne_kind: "lexOne pos c cs = Emit k v n \<Longrightarrow> k \<noteq> tEOF"
  by (auto simp: lexOne_def Let_def punctuation_def split: if_splits option.splits)

definition eofToken :: "nat \<Rightarrow> token" where
  "eofToken pos = \<lparr>tkKind = tEOF, tkLit = '''', tkPos = pos\<rparr>"

lemma lexFrom_shape:
  "lexFrom pos s = Inr toks \<Longrightarrow>
   \<exists>ts. toks = ts @ [eofToken (pos + length s)] \<and>
     (\<forall>t \<in> set ts. tkKind t \<noteq> tEOF \<and> pos \<le> tkPos t \<and> tkPos t < pos + length s) \<and> sorted_wrt (<) (map tkPos ts)"
proof (induction pos s arbitrary: toks rule: lexFrom.induct)
  case (1 pos)
  then show ?case by (simp add: eofToken_def)
next
  case (2 pos c cs)
  show ?case
  proof (cases "lexOne pos c cs")
    case (Skip n)
    with lexOne_width [of pos c cs n] have n: "0 < n" "n \<le> length (c # cs)" by auto
    from Skip 2(1) [OF Skip, of toks] 2(3) obtain ts where "toks = ts @ [eofToken (pos + n + length (drop n (c # cs)))]"
      "\<forall>t \<in> set ts. tkKind t \<noteq> tEOF \<and> pos + n \<le> tkPos t \<and> tkPos t < pos + n + length (drop n (c # cs))"
      "sorted_wrt (<) (map tkPos ts)"
      by auto
    with n show ?thesis by force
  next
    case (Emit k v n)
    with lexOne_width [of pos c cs n k v] have n: "0 < n" "n \<le> length (c # cs)" by auto
    from Emit 2(3) obtain toks' where toks': "lexFrom (pos + n) (drop n (c # cs)) = Inr toks'"
      "toks = \<lparr>tkKind = k, tkLit = v, tkPos = pos\<rparr> # toks'"
      by (cases "lexFrom (pos + n) (drop n (c # cs))") auto
    from 2(2) [OF Emit toks'(1)] obtain ts where "toks' = ts @ [eofToken (pos + n + length (drop n (c # cs)))]"
      "\<forall>t \<in> set ts. tkKind t \<noteq> tEOF \<and> pos + n \<le> tkPos t \<and> tkPos t < pos + n + length (drop n (c # cs))"
      "sorted_wrt (<) (map tkPos ts)"
      by blast
    with n toks'(2) lexOne_kind [OF Emit] show ?thesis
      by (intro exI [of _ "\<lparr>tkKind = k, tkLit = v, tkPos = pos\<rparr> # ts"]) fastforce
  qed (use 2 in simp)
qed

section \<open>No token is read past the end\<close>

text \<open>A token list that ends with the end-of-input token: what every function of the parser leaves.\<close>

definition eofLast :: "token list \<Rightarrow> bool" where
  "eofLast ts \<longleftrightarrow> ts \<noteq> [] \<and> tkKind (last ts) = tEOF"

definition safeResult :: "(dslError + 'a \<times> token list) \<Rightarrow> bool" where
  "safeResult r \<longleftrightarrow> r \<noteq> Inl IndexOutOfRange \<and> (\<forall>v rest. r = Inr (v, rest) \<longrightarrow> eofLast rest)"

lemma eofLast_Nil [simp]: "\<not> eofLast []"
  and eofLast_Cons: "eofLast (t # ts) \<Longrightarrow> tkKind t \<noteq> tEOF \<Longrightarrow> eofLast ts"
  by (auto simp: eofLast_def split: if_splits)

lemma safeResult_simps [simp]: "safeResult (Inl e) \<longleftrightarrow> e \<noteq> IndexOutOfRange"
  "safeResult (Inr (v, rest)) \<longleftrightarrow> eofLast rest"
  by (auto simp: safeResult_def)

lemma numberValue_safe [simp]: "numberValue s \<noteq> Inl IndexOutOfRange"
  by (auto simp: numberValue_def split: option.splits)

lemma expect_safe: "eofLast ts \<Longrightarrow> k \<noteq> tEOF \<Longrightarrow> safeResult (expect k ts)"
  by (cases ts) (auto simp: expect_def dest: eofLast_Cons)

lemma labelsLoop_safe: "eofLast ts \<Longrightarrow> safeResult (labelsLoop ls ts)"
  by (induction ls ts rule: labelsLoop.induct) (auto dest: eofLast_Cons)

lemma blockHead_safe: "eofLast ts \<Longrightarrow> safeResult (blockHead name ts)"
  using labelsLoop_safe [of ts "[]"] expect_safe [of _ tLBrace]
  by (auto simp: blockHead_def safeResult_def split: sum.splits)

lemma valueP_safe:
  shows "eofLast ts \<Longrightarrow> safeResult (valueP ts)" and "eofLast ts \<Longrightarrow> safeResult (arrayLoop arr ts)"
proof (induction ts and arr ts rule: valueP_arrayLoop.induct)
  case (1 ts)
  show ?case
  proof (cases ts)
    case (Cons t ts')
    show ?thesis
    proof (cases "tkKind t")
      case tLBracket
      with 1 Cons show ?thesis by (auto simp: valueP.simps [of "t # ts'"] dest: eofLast_Cons)
    next
      case tNumber
      then show ?thesis
        using 1(2) Cons by (auto simp: valueP.simps [of "t # ts'"] map_sum_def dest: eofLast_Cons split: sum.splits)
    qed (use 1(2) Cons in \<open>auto simp: valueP.simps [of "t # ts'"] dest: eofLast_Cons\<close>)
  qed (use 1 in simp)
next
  case (2 arr ts)
  show ?case
  proof (cases ts)
    case (Cons t ts')
    show ?thesis
    proof (cases "tkKind t = tRBracket")
      case True
      with 2(3) Cons show ?thesis by (auto simp: arrayLoop.simps [of arr "t # ts'"] dest: eofLast_Cons)
    next
      case False
      have v: "safeResult (valueP ts)" by (rule 2(1) [OF Cons False 2(3)])
      show ?thesis
      proof (cases "valueP ts")
        case (Inl e)
        with v False Cons show ?thesis by (simp add: arrayLoop.simps [of arr "t # ts'"])
      next
        case (Inr p)
        obtain w rest where p: "p = (w, rest)" by (cases p)
        with Inr v have r: "eofLast rest" by simp
        then obtain c rest' where c: "rest = c # rest'" by (cases rest) auto
        have "eofLast (if tkKind c = tComma then rest' else rest)"
          using r c by (auto dest: eofLast_Cons)
        from 2(2) [OF Cons False Inr p [symmetric] c this] show ?thesis
          using False Cons Inr p c by (auto simp: arrayLoop.simps [of arr "t # ts'"] split: if_splits)
      qed
    qed
  qed (use 2 in simp)
qed

lemma readItem_safe:
  assumes "eofLast ts"
  shows "safeResult (readItem name ts)"
proof (cases ts)
  case (Cons t ts1)
  show ?thesis
  proof (cases "tkKind t = tRBrace \<or> tkKind t = tEOF")
    case True
    with assms Cons show ?thesis by (auto simp: readItem_def dest: eofLast_Cons)
  next
    case False
    have e: "safeResult (expect tIdent ts)" by (rule expect_safe) (use assms in simp_all)
    show ?thesis
    proof (cases "expect tIdent ts")
      case (Inl err)
      with e False Cons show ?thesis by (simp add: readItem_def)
    next
      case (Inr p)
      obtain nm rest where p: "p = (nm, rest)" by (cases p)
      with Inr e have r: "eofLast rest" by simp
      then obtain q rest' where c: "rest = q # rest'" by (cases rest) auto
      have q: "eofLast rest'" if "tkKind q = tEqual" using r c that by (auto dest: eofLast_Cons)
      show ?thesis
        using False Cons Inr p c q valueP_safe(1) [of rest'] blockHead_safe [OF r, of "tkLit nm"]
        by (auto simp: readItem_def map_sum_def safeResult_def split: sum.splits)
    qed
  qed
qed (use assms in simp)

lemma blockBody_safe: "eofLast ts \<Longrightarrow> safeResult (blockBody b ts)"
proof (induction b ts rule: blockBody.induct)
  case (1 b ts)
  have item: "safeResult (readItem (bType b) ts)" by (rule readItem_safe) (rule 1)
  show ?case
  proof (cases "readItem (bType b) ts")
    case (Inl e)
    with item show ?thesis by (simp add: blockBody.simps [of b ts])
  next
    case (Inr p)
    obtain it rest where p: "p = (it, rest)" by (cases p)
    with Inr item have r: "eofLast rest" by simp
    show ?thesis
    proof (cases it)
      case Close
      with Inr p r show ?thesis by (simp add: blockBody.simps [of b ts])
    next
      case (Attr k v)
      with Inr p r 1(1) show ?thesis by (simp add: blockBody.simps [of b ts])
    next
      case (Head child)
      have c: "safeResult (blockBody child rest)" using 1(2) Inr p Head r by simp
      show ?thesis
        using c 1(3) Inr p Head r
        by (cases "blockBody child rest") (auto simp: blockBody.simps [of b ts])
    qed
  qed
qed

lemma block_safe: "eofLast ts \<Longrightarrow> safeResult (block ts)"
proof -
  assume "eofLast ts"
  then have e: "safeResult (expect tIdent ts)" by (rule expect_safe) simp
  show ?thesis
  proof (cases "expect tIdent ts")
    case (Inl err)
    with e show ?thesis by (simp add: block_def)
  next
    case (Inr p)
    obtain t ts1 where p: "p = (t, ts1)" by (cases p)
    with e Inr have h: "safeResult (blockHead (tkLit t) ts1)" by (simp add: blockHead_safe)
    show ?thesis
    proof (cases "blockHead (tkLit t) ts1")
      case (Inl err)
      with h Inr p show ?thesis by (simp add: block_def)
    next
      case (Inr q)
      obtain b ts2 where q: "q = (b, ts2)" by (cases q)
      with h Inr have "safeResult (blockBody b ts2)" by (simp add: blockBody_safe)
      with \<open>expect tIdent ts = Inr p\<close> Inr p q show ?thesis by (simp add: block_def blockLoop_eq)
    qed
  qed
qed

lemma parseLoop_safe: "eofLast ts \<Longrightarrow> parseLoop out ts \<noteq> Inl IndexOutOfRange"
proof (induction out ts rule: parseLoop.induct)
  case (1 out ts)
  then obtain t ts' where ts: "ts = t # ts'" by (cases ts) auto
  show ?case
  proof (cases "tkKind t = tEOF")
    case False
    have "safeResult (block ts)" by (rule block_safe) (rule 1)
    with 1(1) [OF ts False] ts False show ?thesis
      by (cases "block ts") (auto simp: parseLoop.simps [of out "t # ts'"])
  qed (simp add: ts parseLoop.simps)
qed

lemma lex_eofLast: "lex s = Inr toks \<Longrightarrow> eofLast toks"
  unfolding lex_def by (drule lexFrom_shape) (auto simp: eofLast_def eofToken_def)

lemma lexFrom_no_index: "lexFrom pos s \<noteq> Inl IndexOutOfRange"
proof (induction pos s rule: lexFrom.induct)
  case (2 pos c cs)
  have "lexOne pos c cs \<noteq> LexError IndexOutOfRange"
    by (auto simp: lexOne_def Let_def split: option.splits)
  with 2 show ?case by (auto simp: map_sum_def split: lexStep.splits sum.splits)
qed simp

text \<open>
  C20. Parsing any source text ends without reading a token past the end: the lexer gives tokens at
  increasing positions inside the text followed by exactly one end-of-input token, and the parser,
  which indexes the token slice without a bounds check of its own, stops at it at the latest.
\<close>

theorem Parse_in_bounds:
  "Parse src \<noteq> Inl IndexOutOfRange \<and>
   (case lex src of
      Inl _ \<Rightarrow> True
    | Inr toks \<Rightarrow> \<exists>ts. toks = ts @ [eofToken (length src)] \<and>
        list_all (\<lambda>t. tkKind t \<noteq> tEOF \<and> tkPos t < length src) ts \<and> sorted_wrt (<) (map tkPos ts))"
proof
  show "Parse src \<noteq> Inl IndexOutOfRange"
    using parseLoop_safe lex_eofLast lexFrom_no_index [of 0 src]
    by (auto simp: Parse_def lex_def split: sum.splits)
  show "case lex src of
      Inl _ \<Rightarrow> True
    | Inr toks \<Rightarrow> \<exists>ts. toks = ts @ [eofToken (length src)] \<and>
        list_all (\<lambda>t. tkKind t \<noteq> tEOF \<and> tkPos t < length src) ts \<and> sorted_wrt (<) (map tkPos ts)"
    using lexFrom_shape [of 0 src] by (fastforce simp: lex_def list_all_iff split: sum.splits)
qed

end
