(* ===== verification/PanelRender.thy ===== *)
theory PanelRender
  imports PanelParser
begin

text \<open>
  A printer for the panel language and the round trip: parsing what it prints for a tree of
  blocks gives the tree back.
\<close>

section \<open>Printing tokens\<close>

type_synonym lexeme = "tokenKind \<times> string"

abbreviation lexemeOf :: "token \<Rightarrow> lexeme" where
  "lexemeOf t \<equiv> (tkKind t, tkLit t)"

definition isIdent :: "string \<Rightarrow> bool" where
  "isIdent s \<longleftrightarrow> s \<noteq> [] \<and> isIdentStart (hd s) \<and> list_all isIdentPart (tl s)"

definition isNumber :: "string \<Rightarrow> bool" where
  "isNumber s \<longleftrightarrow> s \<noteq> [] \<and> (isDigit (hd s) \<or> hd s = CHR ''-'') \<and> list_all isDigit (tl s)"

fun printable :: "lexeme \<Rightarrow> bool" where
  "printable (tIdent, s) = isIdent s"
| "printable (tString, s) = True"
| "printable (tNumber, s) = isNumber s"
| "printable (tEOF, s) = False"
| "printable (k, s) = (\<exists>c. s = [c] \<and> punctuation c = Some k)"

definition printLexeme :: "lexeme \<Rightarrow> string" where
  "printLexeme l = (if fst l = tString then CHR 0x22 # escaped (snd l) @ [CHR 0x22] else snd l)"

definition printLexemes :: "lexeme list \<Rightarrow> string" where
  "printLexemes ls = concat (map (\<lambda>l. printLexeme l @ [CHR 0x20]) ls)"

lemma scanString_escaped: "scanString False (escaped s @ CHR 0x22 # r) = escaped s @ [CHR 0x22]"
proof (induction s)
  case (Cons c s)
  have "hexDigit (byteOf c div 16) \<noteq> CHR 0x22" "hexDigit (byteOf c div 16) \<noteq> CHR 0x5C"
    "hexDigit (byteOf c mod 16) \<noteq> CHR 0x22" "hexDigit (byteOf c mod 16) \<noteq> CHR 0x5C"
    using hexDigit_plain hexHalves by blast+
  with Cons show ?case by (simp add: escapeChar_def plainChar_def)
qed simp

lemma takeWhile_stop: "list_all P s \<Longrightarrow> \<not> P d \<Longrightarrow> takeWhile P (s @ d # r) = s"
  by (induction s) auto

lemma punctuation_chars:
  "punctuation c = Some k \<Longrightarrow> c \<in> {CHR 0x7B, CHR 0x7D, CHR ''['', CHR '']'', CHR ''='', CHR '',''}"
  by (simp add: punctuation_def split: if_splits)

lemma punctuation_None:
  "c \<notin> {CHR 0x7B, CHR 0x7D, CHR ''['', CHR '']'', CHR ''='', CHR '',''} \<Longrightarrow> punctuation c = None"
  by (simp add: punctuation_def)

lemma digit_class:
  assumes "isDigit c \<or> c = CHR ''-''"
  shows "\<not> isSpaceByte c \<and> c \<noteq> CHR 0x23 \<and> c \<noteq> CHR ''/'' \<and> punctuation c = None \<and> c \<noteq> CHR 0x22"
proof (intro conjI)
  show "punctuation c = None" by (rule punctuation_None) (use assms in \<open>auto simp: isDigit_def\<close>)
  show "\<not> isSpaceByte c" using assms by (auto simp: isDigit_def isSpaceByte_def Let_def)
qed (use assms in \<open>auto simp: isDigit_def\<close>)

lemma ident_class:
  assumes "isIdentStart c"
  shows "\<not> isSpaceByte c \<and> c \<noteq> CHR 0x23 \<and> c \<noteq> CHR ''/'' \<and> punctuation c = None \<and>
    c \<noteq> CHR 0x22 \<and> \<not> isDigit c \<and> c \<noteq> CHR ''-''"
proof (intro conjI)
  show "punctuation c = None" by (rule punctuation_None) (use assms in \<open>auto simp: isIdentStart_def\<close>)
  show "\<not> isSpaceByte c" using assms by (auto simp: isIdentStart_def isSpaceByte_def Let_def)
qed (use assms in \<open>auto simp: isIdentStart_def isDigit_def Let_def\<close>)

lemma punctuation_class:
  "punctuation c = Some k \<Longrightarrow> \<not> isSpaceByte c \<and> c \<noteq> CHR 0x23 \<and> c \<noteq> CHR ''/''"
  by (drule punctuation_chars) (auto simp: isSpaceByte_def)

lemmas charClasses = digit_class ident_class punctuation_class

lemma blank_facts: "isSpaceByte (CHR 0x20)" "\<not> isIdentPart (CHR 0x20)" "\<not> isDigit (CHR 0x20)"
  by (simp_all add: isSpaceByte_def isIdentPart_def isIdentStart_def isDigit_def)

lemma lexOne_printed:
  assumes "printable l"
  obtains c cs where "printLexeme l = c # cs"
    and "lexOne pos c (cs @ CHR 0x20 # r) = Emit (fst l) (snd l) (length (printLexeme l))"
proof -
  obtain k s where l: "l = (k, s)" by (cases l)
  consider (str) "k = tString" | (num) "k = tNumber" | (ident) "k = tIdent"
    | (punct) "k \<noteq> tString" "k \<noteq> tNumber" "k \<noteq> tIdent" by blast
  then show thesis
  proof cases
    case str
    have "\<not> isSpaceByte (CHR 0x22)" "punctuation (CHR 0x22) = None"
      by (simp_all add: isSpaceByte_def punctuation_def)
    then have "lexOne pos (CHR 0x22) (escaped s @ CHR 0x22 # CHR 0x20 # r) =
        Emit tString s (length (escaped s) + 2)"
      unfolding lexOne_def by (simp add: scanString_escaped Unquote_escaped Let_def)
    then show thesis by (intro that [of "CHR 0x22" "escaped s @ [CHR 0x22]"]) (simp_all add: l str printLexeme_def)
  next
    case num
    with assms l obtain c cs where s: "s = c # cs" "isDigit c \<or> c = CHR ''-''" "list_all isDigit cs"
      by (cases s) (auto simp: isNumber_def)
    have c: "\<not> isSpaceByte c \<and> c \<noteq> CHR 0x23 \<and> c \<noteq> CHR ''/'' \<and> punctuation c = None \<and> c \<noteq> CHR 0x22"
      by (rule digit_class) (rule s(2))
    have t: "takeWhile (\<lambda>d. isDigit d \<or> d = CHR ''.'') (cs @ CHR 0x20 # r) = cs"
      by (rule takeWhile_stop) (use s(3) blank_facts in \<open>auto simp: list_all_iff\<close>)
    have "lexOne pos c (cs @ CHR 0x20 # r) = Emit tNumber (c # cs) (length (c # cs))"
      unfolding lexOne_def Let_def t using c s(2) by simp
    then show thesis by (intro that [of c cs]) (simp_all add: l num s(1) printLexeme_def)
  next
    case ident
    with assms l obtain c cs where s: "s = c # cs" "isIdentStart c" "list_all isIdentPart cs"
      by (cases s) (auto simp: isIdent_def)
    have t: "takeWhile isIdentPart (cs @ CHR 0x20 # r) = cs"
      by (rule takeWhile_stop) (use s(3) blank_facts in auto)
    have "lexOne pos c (cs @ CHR 0x20 # r) = Emit tIdent (c # cs) (length (c # cs))"
      unfolding lexOne_def Let_def t using ident_class [OF s(2)] s(2) by simp
    then show thesis by (intro that [of c cs]) (simp_all add: l ident s(1) printLexeme_def)
  next
    case punct
    with assms l obtain c where s: "s = [c]" "punctuation c = Some k" by (cases k) auto
    have "lexOne pos c (CHR 0x20 # r) = Emit k [c] 1"
      unfolding lexOne_def using punctuation_class [OF s(2)] s(2) by simp
    then show thesis using punct by (intro that [of c "[]"]) (simp_all add: l s(1) printLexeme_def)
  qed
qed

lemma lexFrom_printed:
  "list_all printable ls \<Longrightarrow>
   \<exists>toks. lexFrom pos (printLexemes ls) = Inr toks \<and> map lexemeOf toks = ls @ [(tEOF, '''')]"
proof (induction ls arbitrary: pos)
  case Nil
  then show ?case by (simp add: printLexemes_def)
next
  case (Cons l ls)
  let ?r = "printLexemes ls" and ?n = "length (printLexeme l)"
  from Cons.prems have "printable l" by simp
  then obtain c cs where c: "printLexeme l = c # cs"
    "lexOne pos c (cs @ CHR 0x20 # ?r) = Emit (fst l) (snd l) ?n"
    by (rule lexOne_printed) (rule that)
  have printed: "printLexemes (l # ls) = c # cs @ CHR 0x20 # ?r"
    by (simp add: printLexemes_def c)
  have rest: "drop ?n (c # cs @ CHR 0x20 # ?r) = CHR 0x20 # ?r" by (simp add: c)
  have blank: "lexFrom (pos + ?n) (CHR 0x20 # ?r) = lexFrom (pos + ?n + 1) ?r"
    by (simp add: lexOne_def blank_facts)
  from Cons obtain toks where "lexFrom (pos + ?n + 1) ?r = Inr toks" "map lexemeOf toks = ls @ [(tEOF, '''')]"
    by fastforce
  with c(2) rest blank show ?case
    by (simp add: printed del: drop_Cons')
qed

section \<open>Printing blocks\<close>

fun valueLexemes :: "attrVal \<Rightarrow> lexeme list" where
  "valueLexemes (VString s) = [(tString, s)]"
| "valueLexemes (VInt i) = [(tNumber, Itoa i)]"
| "valueLexemes (VFloat v) = []"
| "valueLexemes (VBool b) = [(tIdent, if b then ''true'' else ''false'')]"
| "valueLexemes (VArray vs) =
     (tLBracket, ''['') # concat (map (\<lambda>v. valueLexemes v @ [(tComma, '','')]) vs) @ [(tRBracket, '']'')]"

definition attrLexemes :: "string \<times> attrVal \<Rightarrow> lexeme list" where
  "attrLexemes kv = (tIdent, fst kv) # (tEqual, ''='') # valueLexemes (snd kv)"

definition headLexemes :: "string list \<Rightarrow> lexeme list" where
  "headLexemes labels = map (Pair tString) labels @ [(tLBrace, [CHR 0x7B])]"

fun blockLexemes :: "Block \<Rightarrow> lexeme list" where
  "blockLexemes (Block ty labels attrs blocks) =
     (tIdent, ty) # headLexemes labels @ concat (map attrLexemes attrs) @ concat (map blockLexemes blocks) @
     [(tRBrace, [CHR 0x7D])]"

definition printBlocks :: "Block list \<Rightarrow> string" where
  "printBlocks bs = printLexemes (concat (map blockLexemes bs))"

text \<open>
  The values and blocks that have a printed form here: any strings and labels, integers of 64
  bits, names that are identifiers, attributes with distinct names.
\<close>

fun plainValue :: "attrVal \<Rightarrow> bool" where
  "plainValue (VString s) = True"
| "plainValue (VInt i) = in64 i"
| "plainValue (VFloat v) = False"
| "plainValue (VBool b) = True"
| "plainValue (VArray vs) = list_all plainValue vs"

fun plainBlock :: "Block \<Rightarrow> bool" where
  "plainBlock (Block ty labels attrs blocks) \<longleftrightarrow>
     isIdent ty \<and> wf_map attrs \<and>
     list_all (\<lambda>kv. isIdent (fst kv) \<and> plainValue (snd kv)) attrs \<and> list_all plainBlock blocks"

lemma Itoa_isNumber: "isNumber (Itoa i)"
proof -
  have "\<exists>c cs. digitsOf n = c # cs \<and> isDigit c \<and> list_all isDigit cs" for n
    using digitsOf_digits [of n] by (cases "digitsOf n") auto
  then show ?thesis
    by (metis Itoa_def digitsOf_digits isNumber_def list.distinct(1) list.sel(1,3))
qed

lemma printable_value: "plainValue v \<Longrightarrow> list_all printable (valueLexemes v)"
proof (induction v)
  case (VBool b)
  then show ?case by (simp add: isIdent_def isIdentPart_def isIdentStart_def)
next
  case (VArray vs)
  then show ?case by (auto simp: list_all_iff punctuation_def)
qed (simp_all add: Itoa_isNumber)

lemma printable_block: "plainBlock b \<Longrightarrow> list_all printable (blockLexemes b)"
proof (induction b)
  case (Block ty labels attrs blocks)
  have "list_all printable (attrLexemes kv)" if "kv \<in> set attrs" for kv
    using Block.prems that printable_value [of "snd kv"]
    by (auto simp: attrLexemes_def punctuation_def list_all_iff)
  with Block show ?case
    by (auto simp: list_all_iff headLexemes_def punctuation_def)
qed

section \<open>Parsing what was printed\<close>

lemma lexemes_Cons: "map lexemeOf ts = (k, l) # r \<Longrightarrow> \<exists>t ts'. ts = t # ts' \<and> tkKind t = k \<and> tkLit t = l \<and> map lexemeOf ts' = r"
  by (cases ts) auto

lemma numberValue_Itoa: "in64 i \<Longrightarrow> numberValue (Itoa i) = Inr (VInt i)"
proof -
  assume "in64 i"
  have "\<not> isDigit (CHR ''.'')" by (simp add: isDigit_def)
  then have "CHR ''.'' \<notin> set (digitsOf n)" for n
    using digitsOf_digits [of n] by (auto simp: list_all_iff)
  then have "\<not> ContainsAny (Itoa i) ''.''"
    by (auto simp: ContainsAny_def Itoa_def list_ex_iff)
  with Atoi_Itoa [OF \<open>in64 i\<close>] show ?thesis by (simp add: numberValue_def)
qed

lemma valueLexemes_head:
  "plainValue v \<Longrightarrow> \<exists>k l r. valueLexemes v = (k, l) # r \<and> k \<noteq> tRBracket"
  by (cases v) auto

definition parsesTo :: "(token list \<Rightarrow> dslError + 'a \<times> token list) \<Rightarrow> lexeme list \<Rightarrow> 'a \<Rightarrow> bool" where
  "parsesTo p ls v \<longleftrightarrow>
     (\<forall>ts r. map lexemeOf ts = ls @ r \<longrightarrow> r \<noteq> [] \<longrightarrow> (\<exists>rest. p ts = Inr (v, rest) \<and> map lexemeOf rest = r))"

lemma parsesToD:
  "parsesTo p ls v \<Longrightarrow> map lexemeOf ts = ls @ r \<Longrightarrow> r \<noteq> [] \<Longrightarrow> \<exists>rest. p ts = Inr (v, rest) \<and> map lexemeOf rest = r"
  by (simp add: parsesTo_def)

lemma arrayLoop_printed:
  "\<forall>v \<in> set vs. plainValue v \<and> parsesTo valueP (valueLexemes v) v \<Longrightarrow>
   parsesTo (arrayLoop arr) (concat (map (\<lambda>v. valueLexemes v @ [(tComma, '','')]) vs) @ [(tRBracket, '']'')]) (VArray (arr @ vs))"
proof (induction vs arbitrary: arr)
  case Nil
  show ?case
    by (auto simp: parsesTo_def arrayLoop.simps dest!: lexemes_Cons)
next
  case (Cons v vs)
  let ?ls = "concat (map (\<lambda>v. valueLexemes v @ [(tComma, '','')]) vs) @ [(tRBracket, '']'')]"
  show ?case
    unfolding parsesTo_def
  proof (intro allI impI)
    fix ts r assume ts: "map lexemeOf ts = (concat (map (\<lambda>v. valueLexemes v @ [(tComma, '','')]) (v # vs)) @ [(tRBracket, '']'')]) @ r"
      and r: "r \<noteq> []"
    from ts have ts': "map lexemeOf ts = valueLexemes v @ ((tComma, '','') # ?ls @ r)" by simp
    from Cons.prems have v: "plainValue v" "parsesTo valueP (valueLexemes v) v" by simp_all
    obtain k l r' where k: "valueLexemes v = (k, l) # r'" "k \<noteq> tRBracket"
      using valueLexemes_head [OF v(1)] by blast
    with ts' obtain t ts1 where t: "ts = t # ts1" "tkKind t \<noteq> tRBracket"
      using lexemes_Cons [of ts k l] by auto
    from parsesToD [OF v(2) ts'] obtain rest where "valueP ts = Inr (v, rest)"
      and rest: "map lexemeOf rest = (tComma, '','') # ?ls @ r" by auto
    moreover from lexemes_Cons [OF rest] obtain c rest' where c: "rest = c # rest'" "tkKind c = tComma"
      "map lexemeOf rest' = ?ls @ r" by blast
    ultimately have "arrayLoop arr ts = arrayLoop (arr @ [v]) rest'"
      using t by (subst arrayLoop.simps) simp
    moreover obtain rest'' where "arrayLoop (arr @ [v]) rest' = Inr (VArray ((arr @ [v]) @ vs), rest'')" "map lexemeOf rest'' = r"
      using parsesToD [OF Cons.IH [of "arr @ [v]"] c(3) r] Cons.prems by auto
    ultimately show "\<exists>rest. arrayLoop arr ts = Inr (VArray (arr @ v # vs), rest) \<and> map lexemeOf rest = r" by simp
  qed
qed

lemma valueP_printed: "plainValue v \<Longrightarrow> parsesTo valueP (valueLexemes v) v"
proof (induction v)
  case (VInt i)
  then have "numberValue (Itoa i) = Inr (VInt i)" by (simp add: numberValue_Itoa)
  then show ?case by (auto simp: parsesTo_def valueP.simps dest!: lexemes_Cons)
next
  case (VArray vs)
  then have "\<forall>v \<in> set vs. plainValue v \<and> parsesTo valueP (valueLexemes v) v" by (auto simp: list_all_iff)
  from arrayLoop_printed [OF this, of "[]"] show ?case
    by (auto simp: parsesTo_def valueP.simps dest!: lexemes_Cons)
qed (auto simp: parsesTo_def valueP.simps dest!: lexemes_Cons)

lemma labelsLoop_printed:
  "map lexemeOf ts = map (Pair tString) labels @ (tLBrace, l) # r \<Longrightarrow>
   \<exists>rest. labelsLoop acc ts = Inr (acc @ labels, rest) \<and> map lexemeOf rest = (tLBrace, l) # r"
proof (induction labels arbitrary: acc ts)
  case Nil
  then obtain t ts' where "ts = t # ts'" "tkKind t = tLBrace" by (auto dest: lexemes_Cons)
  with Nil show ?case by simp
next
  case (Cons s labels)
  then obtain t ts' where "ts = t # ts'" "tkKind t = tString" "tkLit t = s"
    "map lexemeOf ts' = map (Pair tString) labels @ (tLBrace, l) # r"
    by (auto dest!: lexemes_Cons)
  with Cons.IH [of ts' "acc @ [s]"] show ?case by simp
qed

lemma blockHead_printed: "parsesTo (blockHead name) (headLexemes labels) (Block name labels [] [])"
  unfolding parsesTo_def
proof (intro allI impI)
  fix ts r assume "map lexemeOf ts = headLexemes labels @ r"
  then have "map lexemeOf ts = map (Pair tString) labels @ (tLBrace, [CHR 0x7B]) # r"
    by (simp add: headLexemes_def)
  from labelsLoop_printed [OF this, of "[]"] obtain ts1 where
    l: "labelsLoop [] ts = Inr (labels, ts1)" "map lexemeOf ts1 = (tLBrace, [CHR 0x7B]) # r" by auto
  from lexemes_Cons [OF l(2)] obtain t rest where "ts1 = t # rest" "tkKind t = tLBrace" "map lexemeOf rest = r" by blast
  with l show "\<exists>rest. blockHead name ts = Inr (Block name labels [] [], rest) \<and> map lexemeOf rest = r"
    by (simp add: blockHead_def expect_def)
qed

lemma readItem_attr: "plainValue v \<Longrightarrow> parsesTo (readItem name) (attrLexemes (k, v)) (Attr k v)"
  unfolding parsesTo_def
proof (intro allI impI)
  fix ts r assume v: "plainValue v" and ts: "map lexemeOf ts = attrLexemes (k, v) @ r" and r: "r \<noteq> []"
  from ts obtain t t' ts2 where t: "ts = t # t' # ts2" "tkKind t = tIdent" "tkLit t = k" "tkKind t' = tEqual"
    "map lexemeOf ts2 = valueLexemes v @ r"
    by (auto simp: attrLexemes_def dest!: lexemes_Cons)
  with parsesToD [OF valueP_printed [OF v] t(5) r]
  show "\<exists>rest. readItem name ts = Inr (Attr k v, rest) \<and> map lexemeOf rest = r"
    by (auto simp: readItem_def expect_def)
qed

lemma headLexemes_head: "\<exists>k l r. headLexemes labels = (k, l) # r \<and> k \<noteq> tEqual"
  by (cases labels) (auto simp: headLexemes_def)

lemma readItem_head:
  "parsesTo (readItem name) ((tIdent, ty) # headLexemes labels) (Head (Block ty labels [] []))"
  unfolding parsesTo_def
proof (intro allI impI)
  fix ts r assume ts: "map lexemeOf ts = ((tIdent, ty) # headLexemes labels) @ r" and r: "r \<noteq> []"
  from ts obtain t ts1 where t: "ts = t # ts1" "tkKind t = tIdent" "tkLit t = ty"
    "map lexemeOf ts1 = headLexemes labels @ r"
    by (auto dest!: lexemes_Cons)
  obtain k l r' where "headLexemes labels = (k, l) # r'" "k \<noteq> tEqual" using headLexemes_head by blast
  with t(4) obtain t' ts2 where "ts1 = t' # ts2" "tkKind t' \<noteq> tEqual"
    using lexemes_Cons [of ts1 k l] by auto
  with t parsesToD [OF blockHead_printed t(4) r, of ty]
  show "\<exists>rest. readItem name ts = Inr (Head (Block ty labels [] []), rest) \<and> map lexemeOf rest = r"
    by (auto simp: readItem_def expect_def)
qed

lemma readItem_close: "parsesTo (readItem name) [(tRBrace, l)] Close"
  by (auto simp: parsesTo_def readItem_def dest!: lexemes_Cons)

lemma blockBody_attrs:
  assumes "map lexemeOf ts = concat (map attrLexemes attrs) @ r" and "r \<noteq> []"
    and "wf_map (old @ attrs)" and "\<forall>kv \<in> set attrs. plainValue (snd kv)"
  shows "\<exists>rest. blockBody (Block ty labels old bs) ts = blockBody (Block ty labels (old @ attrs) bs) rest \<and> map lexemeOf rest = r"
  using assms
proof (induction attrs arbitrary: ts old)
  case (Cons kv attrs)
  obtain k v where kv: "kv = (k, v)" by (cases kv)
  have ts: "map lexemeOf ts = attrLexemes (k, v) @ (concat (map attrLexemes attrs) @ r)"
    using Cons.prems(1) kv by simp
  have "plainValue v" using Cons.prems(4) kv by simp
  from parsesToD [OF readItem_attr [OF this, of ty k] ts] Cons.prems(2) obtain rest where
    rest: "readItem ty ts = Inr (Attr k v, rest)" "map lexemeOf rest = concat (map attrLexemes attrs) @ r" by auto
  have fresh: "put k v old = old @ [(k, v)]"
    by (rule put_fresh) (use Cons.prems(3) kv in \<open>auto simp: wf_map_def\<close>)
  have "blockBody (Block ty labels old bs) ts = blockBody (Block ty labels (old @ [(k, v)]) bs) rest"
    using rest(1) fresh by (simp add: blockBody.simps [of "Block ty labels old bs"] addAttr_def)
  moreover have "\<exists>rest'. blockBody (Block ty labels (old @ [(k, v)]) bs) rest =
      blockBody (Block ty labels ((old @ [(k, v)]) @ attrs) bs) rest' \<and> map lexemeOf rest' = r"
    by (rule Cons.IH [OF rest(2) Cons.prems(2)]) (use Cons.prems(3,4) kv in simp_all)
  ultimately show ?case using kv by simp
qed auto

text \<open>The lexemes of a block after its head.\<close>

fun bodyLexemes :: "Block \<Rightarrow> lexeme list" where
  "bodyLexemes (Block ty labels attrs blocks) =
     concat (map attrLexemes attrs) @ concat (map blockLexemes blocks) @ [(tRBrace, [CHR 0x7D])]"

abbreviation emptyLike :: "Block \<Rightarrow> Block" where
  "emptyLike b \<equiv> Block (bType b) (bLabels b) [] []"

lemma blockLexemes_split: "blockLexemes b = ((tIdent, bType b) # headLexemes (bLabels b)) @ bodyLexemes b"
  by (cases b) simp

lemma bodyLexemes_not_Nil: "bodyLexemes b \<noteq> []"
  by (cases b) simp

lemma blockBody_blocks:
  assumes "map lexemeOf ts = concat (map blockLexemes cs) @ r" and "r \<noteq> []"
    and "\<forall>c \<in> set cs. parsesTo (blockBody (emptyLike c)) (bodyLexemes c) c"
  shows "\<exists>rest. blockBody (Block ty labels attrs bs) ts = blockBody (Block ty labels attrs (bs @ cs)) rest \<and> map lexemeOf rest = r"
  using assms
proof (induction cs arbitrary: ts bs)
  case (Cons c cs)
  let ?r = "concat (map blockLexemes cs) @ r"
  have ts: "map lexemeOf ts = ((tIdent, bType c) # headLexemes (bLabels c)) @ (bodyLexemes c @ ?r)"
    using Cons.prems(1) by (simp add: blockLexemes_split [of c])
  from parsesToD [OF readItem_head ts, of ty] bodyLexemes_not_Nil obtain ts1 where
    h: "readItem ty ts = Inr (Head (emptyLike c), ts1)" "map lexemeOf ts1 = bodyLexemes c @ ?r" by auto
  have "parsesTo (blockBody (emptyLike c)) (bodyLexemes c) c" using Cons.prems(3) by simp
  from parsesToD [OF this h(2)] Cons.prems(2) obtain ts2 where
    b: "blockBody (emptyLike c) ts1 = Inr (c, ts2)" "map lexemeOf ts2 = ?r" by auto
  have "blockBody (Block ty labels attrs bs) ts = blockBody (Block ty labels attrs (bs @ [c])) ts2"
    using h(1) b(1) by (simp add: blockBody.simps [of "Block ty labels attrs bs"] addBlock_def)
  moreover have "\<exists>rest. blockBody (Block ty labels attrs (bs @ [c])) ts2 =
      blockBody (Block ty labels attrs ((bs @ [c]) @ cs)) rest \<and> map lexemeOf rest = r"
    by (rule Cons.IH [OF b(2) Cons.prems(2)]) (use Cons.prems(3) in simp)
  ultimately show ?case by simp
qed auto

lemma blockBody_printed: "plainBlock b \<Longrightarrow> parsesTo (blockBody (emptyLike b)) (bodyLexemes b) b"
proof (induction b)
  case (Block ty labels attrs blocks)
  have kids: "\<forall>c \<in> set blocks. parsesTo (blockBody (emptyLike c)) (bodyLexemes c) c"
    using Block by (auto simp: list_all_iff)
  show ?case
    unfolding parsesTo_def
  proof (intro allI impI)
    fix ts r assume ts: "map lexemeOf ts = bodyLexemes (Block ty labels attrs blocks) @ r" and r: "r \<noteq> []"
    from ts have ts': "map lexemeOf ts = concat (map attrLexemes attrs) @
        (concat (map blockLexemes blocks) @ ((tRBrace, [CHR 0x7D]) # r))" by simp
    have w: "wf_map ([] @ attrs)" "\<forall>kv \<in> set attrs. plainValue (snd kv)"
      using Block.prems by (auto simp: list_all_iff)
    from blockBody_attrs [OF ts' _ w, of ty labels "[]"] obtain ts1 where
      a: "blockBody (Block ty labels [] []) ts = blockBody (Block ty labels attrs []) ts1"
        "map lexemeOf ts1 = concat (map blockLexemes blocks) @ ((tRBrace, [CHR 0x7D]) # r)" by auto
    from blockBody_blocks [OF a(2) _ kids, of ty labels attrs "[]"] obtain ts2 where
      c: "blockBody (Block ty labels attrs []) ts1 = blockBody (Block ty labels attrs blocks) ts2"
        "map lexemeOf ts2 = [(tRBrace, [CHR 0x7D])] @ r" by auto
    from parsesToD [OF readItem_close c(2) r, of ty] obtain rest where
      "readItem ty ts2 = Inr (Close, rest)" "map lexemeOf rest = r" by auto
    then show "\<exists>rest. blockBody (emptyLike (Block ty labels attrs blocks)) ts = Inr (Block ty labels attrs blocks, rest) \<and>
        map lexemeOf rest = r"
      using a(1) c(1) by (simp add: blockBody.simps [of "Block ty labels attrs blocks"])
  qed
qed

lemma block_printed: "plainBlock b \<Longrightarrow> parsesTo block (blockLexemes b) b"
  unfolding parsesTo_def
proof (intro allI impI)
  fix ts r assume b: "plainBlock b" and ts: "map lexemeOf ts = blockLexemes b @ r" and r: "r \<noteq> []"
  from ts obtain t ts1 where t: "ts = t # ts1" "tkKind t = tIdent" "tkLit t = bType b"
    "map lexemeOf ts1 = headLexemes (bLabels b) @ (bodyLexemes b @ r)"
    by (auto simp: blockLexemes_split [of b] dest!: lexemes_Cons)
  from parsesToD [OF blockHead_printed t(4), of "bType b"] r obtain ts2 where
    h: "blockHead (bType b) ts1 = Inr (emptyLike b, ts2)" "map lexemeOf ts2 = bodyLexemes b @ r" by auto
  from parsesToD [OF blockBody_printed [OF b] h(2) r] t h(1)
  show "\<exists>rest. block ts = Inr (b, rest) \<and> map lexemeOf rest = r"
    by (auto simp: block_def expect_def blockLoop_eq)
qed

lemma parseLoop_printed:
  "list_all plainBlock bs \<Longrightarrow> map lexemeOf ts = concat (map blockLexemes bs) @ [(tEOF, '''')] \<Longrightarrow>
   parseLoop out ts = Inr (out @ bs)"
proof (induction bs arbitrary: out ts)
  case Nil
  then obtain t ts' where "ts = t # ts'" "tkKind t = tEOF" by (auto dest!: lexemes_Cons)
  then show ?case by (simp add: parseLoop.simps)
next
  case (Cons b bs)
  from Cons.prems(2) have ts: "map lexemeOf ts = blockLexemes b @ (concat (map blockLexemes bs) @ [(tEOF, '''')])" by simp
  then obtain t ts' where t: "ts = t # ts'" "tkKind t = tIdent"
    by (auto simp: blockLexemes_split [of b] dest!: lexemes_Cons)
  have "plainBlock b" using Cons.prems(1) by simp
  from parsesToD [OF block_printed [OF this] ts] obtain rest where
    "block ts = Inr (b, rest)" "map lexemeOf rest = concat (map blockLexemes bs) @ [(tEOF, '''')]" by auto
  with Cons.IH [of rest "out @ [b]"] Cons.prems(1) t show ?case
    by (simp add: parseLoop.simps [of out "t # ts'"])
qed

text \<open>
  The parser reads back what the printer writes: the same trees, when their names are identifiers,
  their strings need no escapes and their attributes are strings, booleans, 64-bit integers and
  arrays of them.
\<close>

lemma parse_printed: "list_all plainBlock bs \<Longrightarrow> Parse (printBlocks bs) = Inr bs"
proof -
  assume bs: "list_all plainBlock bs"
  have "list_all printable (concat (map blockLexemes bs))"
    using bs printable_block by (auto simp: list_all_iff)
  from lexFrom_printed [OF this, of 0] obtain toks where
    "lex (printBlocks bs) = Inr toks" "map lexemeOf toks = concat (map blockLexemes bs) @ [(tEOF, '''')]"
    by (auto simp: lex_def printBlocks_def)
  with parseLoop_printed [OF bs, of toks "[]"] show ?thesis by (simp add: Parse_def)
qed

end
