(* ===== verification/PanelCompile.thy ===== *)
theory PanelCompile
  imports Panel PanelRender ConfigFiles
begin

text \<open>
  \<open>internal/panel/dsl/compile.go\<close> and \<open>manager.go\<close>: from blocks to a panel specification, and the
  manager that keeps the last specification that compiled. The order in which the attribute check
  ranges over the map of attributes is the parameter \<open>it\<close>.
\<close>

section \<open>Compiling blocks\<close>

datatype compileError =
    ParseFailed dslError | OnePanelRequired | UnknownAttribute string | UnsupportedBlock string
  | GroupLabelRequired | DuplicateApp | WidgetRequiresID | OnRequiresLabel | OnRequiresAction string
  | AppLabels | AppUnsupportedBlock string | InPanel compileError | InGroup string compileError
  | InvalidSpec specError

type_synonym iteration = "(string, attrVal) gomap \<Rightarrow> (string, attrVal) gomap"

definition unknownAttrs :: "iteration \<Rightarrow> (string, attrVal) gomap \<Rightarrow> string list \<Rightarrow> compileError option" where
  "unknownAttrs it m allowed =
     firstErr (\<lambda>(k, _). if k \<notin> set allowed then Some (UnknownAttribute k) else None) (it m)"

definition stringAttr :: "Block \<Rightarrow> string \<Rightarrow> string \<times> bool" where
  "stringAttr b key =
     (case map_of (bAttrs b) key of Some (VString s) \<Rightarrow> (s, True) | _ \<Rightarrow> ('''', False))"

definition intAttr :: "Block \<Rightarrow> string \<Rightarrow> int \<times> bool" where
  "intAttr b key = (case map_of (bAttrs b) key of Some (VInt i) \<Rightarrow> (i, True) | _ \<Rightarrow> (0, False))"

text \<open>\<open>if v, ok := attr(b, key); ok { field = v }\<close>\<close>

definition override :: "'a \<times> bool \<Rightarrow> 'a \<Rightarrow> 'a" where
  "override r old = (if snd r then fst r else old)"

definition compileSurfaces :: "iteration \<Rightarrow> AppConfig \<Rightarrow> Block \<Rightarrow> compileError + AppConfig" where
  "compileSurfaces it a c =
     (if bType c \<noteq> ''surfaces'' then Inl (AppUnsupportedBlock (bType c))
      else case unknownAttrs it (bAttrs c) [''mode'', ''max_visible'', ''overflow''] of
        Some e \<Rightarrow> Inl e
      | None \<Rightarrow>
          let s = acSurfaces a
          in Inr (a\<lparr>acSurfaces :=
               s\<lparr>scMode := override (stringAttr c ''mode'') (scMode s),
                 scMaxVisible := override (intAttr c ''max_visible'') (scMaxVisible s),
                 scOverflow := override (stringAttr c ''overflow'') (scOverflow s)\<rparr>\<rparr>))"

definition defaultApp :: AppConfig where
  "defaultApp = \<lparr>acDensity = DensityAdaptive, acMinWidth = 64, acPreferredWidth = 156, acMaxWidth = 240,
     acSurfaces = \<lparr>scMode = ''segments'', scMaxVisible = 4, scOverflow = ''count''\<rparr>\<rparr>"

definition compileApp :: "iteration \<Rightarrow> Block \<Rightarrow> compileError + AppConfig" where
  "compileApp it b =
     (if bLabels b \<noteq> [] then Inl AppLabels
      else case unknownAttrs it (bAttrs b) [''density'', ''min_width'', ''preferred_width'', ''max_width''] of
        Some e \<Rightarrow> Inl e
      | None \<Rightarrow>
          let a = defaultApp\<lparr>acDensity := override (stringAttr b ''density'') (acDensity defaultApp),
                 acMinWidth := override (intAttr b ''min_width'') (acMinWidth defaultApp),
                 acPreferredWidth := override (intAttr b ''preferred_width'') (acPreferredWidth defaultApp),
                 acMaxWidth := override (intAttr b ''max_width'') (acMaxWidth defaultApp)\<rparr>
          in foldE (compileSurfaces it) a (bBlocks b))"

definition compileChild :: "iteration \<Rightarrow> Group \<Rightarrow> Block \<Rightarrow> compileError + Group" where
  "compileChild it g c =
     (if bType c = ''app'' then
        (if grApp g \<noteq> None then Inl (InGroup (grID g) DuplicateApp)
         else case compileApp it c of
           Inl e \<Rightarrow> Inl (InGroup (grID g) e)
         | Inr a \<Rightarrow> Inr (g\<lparr>grApp := Some a\<rparr>))
      else if bType c = ''widget'' then
        (if length (bLabels c) \<noteq> 1 then Inl (InGroup (grID g) WidgetRequiresID)
         else case unknownAttrs it (bAttrs c) [''variant'', ''format''] of
           Some e \<Rightarrow> Inl e
         | None \<Rightarrow> Inr (g\<lparr>grWidgets := grWidgets g @
             [\<lparr>wgID = hd (bLabels c), wgVariant = fst (stringAttr c ''variant''), wgFormat = fst (stringAttr c ''format'')\<rparr>]\<rparr>))
      else if bType c = ''on'' then
        (if length (bLabels c) \<noteq> 1 then Inl (InGroup (grID g) OnRequiresLabel)
         else case unknownAttrs it (bAttrs c) [''action''] of
           Some e \<Rightarrow> Inl e
         | None \<Rightarrow>
             (case stringAttr c ''action'' of
                (a, isText) \<Rightarrow>
                  if \<not> isText \<or> a = '''' then Inl (InGroup (grID g) (OnRequiresAction (hd (bLabels c))))
                  else Inr (g\<lparr>grInteractions := put (hd (bLabels c)) a (grInteractions g)\<rparr>)))
      else Inl (InGroup (grID g) (UnsupportedBlock (bType c))))"

definition compileGroup :: "iteration \<Rightarrow> Block \<Rightarrow> compileError + Group" where
  "compileGroup it b =
     (if length (bLabels b) \<noteq> 1 then Inl GroupLabelRequired
      else case unknownAttrs it (bAttrs b) [''source''] of
        Some e \<Rightarrow> Inl (InGroup (hd (bLabels b)) e)
      | None \<Rightarrow>
          foldE (compileChild it)
            \<lparr>grID = hd (bLabels b), grSource = override (stringAttr b ''source'') '''', grApp = None,
             grWidgets = [], grInteractions = []\<rparr>
            (bBlocks b))"

definition addGroup :: "iteration \<Rightarrow> PanelSpec \<Rightarrow> Block \<Rightarrow> compileError + PanelSpec" where
  "addGroup it s b =
     (if bType b \<noteq> ''group'' then Inl (InPanel (UnsupportedBlock (bType b)))
      else case compileGroup it b of
        Inl e \<Rightarrow> Inl e
      | Inr g \<Rightarrow> Inr (s\<lparr>psGroups := psGroups s @ [g]\<rparr>))"

definition compilePanel :: "iteration \<Rightarrow> Block \<Rightarrow> compileError + PanelSpec" where
  "compilePanel it blk =
     (case unknownAttrs it (bAttrs blk) [''edge'', ''height'', ''gap'', ''overflow''] of
        Some e \<Rightarrow> Inl (InPanel e)
      | None \<Rightarrow>
          let d = DefaultSpec (hd (bLabels blk));
              s = d\<lparr>psEdge := override (stringAttr blk ''edge'') (psEdge d),
                    psHeight := override (intAttr blk ''height'') (psHeight d),
                    psGap := override (intAttr blk ''gap'') (psGap d),
                    psOverflow := override (stringAttr blk ''overflow'') (psOverflow d)\<rparr>
          in case foldE (addGroup it) s (bBlocks blk) of
               Inl e \<Rightarrow> Inl e
             | Inr s \<Rightarrow> (case Spec_Validate s of Some e \<Rightarrow> Inl (InvalidSpec e) | None \<Rightarrow> Inr s))"

definition Compile :: "iteration \<Rightarrow> string \<Rightarrow> compileError + PanelSpec" where
  "Compile it src =
     (case Parse src of
        Inl e \<Rightarrow> Inl (ParseFailed e)
      | Inr blocks \<Rightarrow>
          (case blocks of
             [blk] \<Rightarrow>
               if bType blk \<noteq> ''panel'' \<or> length (bLabels blk) \<noteq> 1 then Inl OnePanelRequired
               else compilePanel it blk
           | _ \<Rightarrow> Inl OnePanelRequired))"

section \<open>The manager\<close>

record DslManager =
  dmCurrent :: PanelSpec
  dmValid :: bool
  dmRevision :: "64 word"
  dmLastErr :: "compileError option"

definition zeroSpec :: PanelSpec where
  "zeroSpec = \<lparr>psID = '''', psEdge = '''', psHeight = 0, psGap = 0, psOverflow = '''', psGroups = []\<rparr>"

definition zeroDslManager :: DslManager where
  "zeroDslManager = \<lparr>dmCurrent = zeroSpec, dmValid = False, dmRevision = 0, dmLastErr = None\<rparr>"

definition DslManager_Apply ::
  "iteration \<Rightarrow> string \<Rightarrow> DslManager \<Rightarrow> (PanelSpec \<times> 64 word \<times> compileError option) \<times> DslManager" where
  "DslManager_Apply it src m =
     (case Compile it src of
        Inl e \<Rightarrow> ((dmCurrent m, dmRevision m, Some e), m\<lparr>dmLastErr := Some e\<rparr>)
      | Inr s \<Rightarrow>
          ((s, dmRevision m + 1, None),
           m\<lparr>dmCurrent := s, dmValid := True, dmRevision := dmRevision m + 1, dmLastErr := None\<rparr>))"

definition DslManager_Current :: "DslManager \<Rightarrow> PanelSpec \<times> 64 word \<times> bool" where
  "DslManager_Current m = (dmCurrent m, dmRevision m, dmValid m)"

definition DslManager_LastError :: "DslManager \<Rightarrow> compileError option" where
  "DslManager_LastError m = dmLastErr m"

section \<open>What a compiled specification satisfies\<close>

lemma unknownAttrs_None:
  "isIteration it \<Longrightarrow> unknownAttrs it m allowed = None \<longleftrightarrow> fst ` set m \<subseteq> set allowed"
  by (auto simp: unknownAttrs_def isIteration_set case_prod_beta)

lemma unknownAttrs_ok: "isIteration it \<Longrightarrow> fst ` set m \<subseteq> set allowed \<Longrightarrow> unknownAttrs it m allowed = None"
  by (simp add: unknownAttrs_None)

lemma addGroup_Inr:
  "addGroup it s b = Inr s' \<longleftrightarrow>
   bType b = ''group'' \<and> (\<exists>g. compileGroup it b = Inr g \<and> s' = s\<lparr>psGroups := psGroups s @ [g]\<rparr>)"
  by (auto simp: addGroup_def split: sum.split)

lemma addGroup_steps:
  "foldE (addGroup it) s bs = Inr s' \<Longrightarrow>
   s'\<lparr>psGroups := []\<rparr> = s\<lparr>psGroups := []\<rparr> \<and>
   (\<exists>gs. psGroups s' = psGroups s @ gs \<and> list_all2 (\<lambda>b g. bType b = ''group'' \<and> compileGroup it b = Inr g) bs gs)"
proof (induction bs arbitrary: s)
  case (Cons b bs)
  from Cons.prems obtain s1 where s1: "addGroup it s b = Inr s1" "foldE (addGroup it) s1 bs = Inr s'"
    by (auto split: sum.splits)
  from s1(1) obtain g where g: "bType b = ''group''" "compileGroup it b = Inr g"
    "foldE (addGroup it) (s\<lparr>psGroups := psGroups s @ [g]\<rparr>) bs = Inr s'"
    using s1(2) by (auto simp: addGroup_Inr)
  from Cons.IH [OF g(3)] obtain gs where "s'\<lparr>psGroups := []\<rparr> = s\<lparr>psGroups := []\<rparr>"
    "psGroups s' = psGroups s @ g # gs" "list_all2 (\<lambda>b g. bType b = ''group'' \<and> compileGroup it b = Inr g) bs gs"
    by auto
  with g show ?case by (intro conjI exI [of _ "g # gs"]) simp_all
qed simp

lemma compileChild_keeps:
  assumes "compileChild it g c = Inr g'"
  shows "grID g' = grID g \<and> ((\<forall>kv \<in> set (grInteractions g). snd kv \<noteq> '''') \<longrightarrow> (\<forall>kv \<in> set (grInteractions g'). snd kv \<noteq> ''''))"
  using assms
  by (auto simp: compileChild_def dest!: set_put split: if_splits sum.splits option.splits prod.splits)

lemma compileGroup_facts:
  assumes "compileGroup it b = Inr g"
  shows "bLabels b = [grID g] \<and> (\<forall>kv \<in> set (grInteractions g). snd kv \<noteq> '''')"
proof -
  from assms have l: "length (bLabels b) = 1" by (auto simp: compileGroup_def split: if_splits)
  let ?g = "\<lparr>grID = hd (bLabels b), grSource = override (stringAttr b ''source'') '''', grApp = None,
     grWidgets = [], grInteractions = []\<rparr>"
  from assms have f: "foldE (compileChild it) ?g (bBlocks b) = Inr g"
    by (auto simp: compileGroup_def split: if_splits option.splits)
  have "grID g = hd (bLabels b) \<and> (\<forall>kv \<in> set (grInteractions g). snd kv \<noteq> '''')"
    by (rule foldE_invariant [OF f, where I = "\<lambda>_ g. grID g = hd (bLabels b) \<and> (\<forall>kv \<in> set (grInteractions g). snd kv \<noteq> '''')"])
      (simp, use compileChild_keeps in metis)
  with l show ?thesis by (cases "bLabels b") auto
qed

text \<open>What the manager may hand out: a valid specification whose interactions name an action.\<close>

definition soundSpec :: "PanelSpec \<Rightarrow> bool" where
  "soundSpec s \<longleftrightarrow> Spec_Validate s = None \<and>
     (\<forall>g \<in> set (psGroups s). grID g \<noteq> '''' \<and> (\<forall>kv \<in> set (grInteractions g). snd kv \<noteq> '''') \<and>
        (case grApp g of None \<Rightarrow> True | Some a \<Rightarrow> validAppConfig a))"

lemma compilePanel_sound:
  assumes "compilePanel it b = Inr s"
  shows "Spec_Validate s = None \<and> psID s = hd (bLabels b) \<and>
    list_all2 (\<lambda>b g. bType b = ''group'' \<and> compileGroup it b = Inr g) (bBlocks b) (psGroups s)"
proof -
  let ?d = "DefaultSpec (hd (bLabels b))"
  let ?s = "?d\<lparr>psEdge := override (stringAttr b ''edge'') (psEdge ?d), psHeight := override (intAttr b ''height'') (psHeight ?d),
     psGap := override (intAttr b ''gap'') (psGap ?d), psOverflow := override (stringAttr b ''overflow'') (psOverflow ?d)\<rparr>"
  from assms have f: "foldE (addGroup it) ?s (bBlocks b) = Inr s" and v: "Spec_Validate s = None"
    by (auto simp: compilePanel_def Let_def split: option.splits sum.splits)
  from addGroup_steps [OF f] have "s\<lparr>psGroups := []\<rparr> = ?s\<lparr>psGroups := []\<rparr>"
    and "list_all2 (\<lambda>b g. bType b = ''group'' \<and> compileGroup it b = Inr g) (bBlocks b) (psGroups s)"
    by (auto simp: DefaultSpec_def)
  moreover from arg_cong [OF this(1), of psID] have "psID s = hd (bLabels b)"
    by (simp add: DefaultSpec_def)
  ultimately show ?thesis using v by blast
qed

lemma Compile_sound: "Compile it src = Inr s \<Longrightarrow> soundSpec s"
proof -
  assume "Compile it src = Inr s"
  then obtain b where "compilePanel it b = Inr s"
    by (auto simp: Compile_def split: sum.splits list.splits if_splits)
  from compilePanel_sound [OF this] have v: "Spec_Validate s = None"
    and gs: "list_all2 (\<lambda>b g. bType b = ''group'' \<and> compileGroup it b = Inr g) (bBlocks b) (psGroups s)"
    by blast+
  have "grID g \<noteq> '''' \<and> (\<forall>kv \<in> set (grInteractions g). snd kv \<noteq> '''') \<and>
      (case grApp g of None \<Rightarrow> True | Some a \<Rightarrow> validAppConfig a)" if g: "g \<in> set (psGroups s)" for g
  proof -
    from g obtain i where "i < length (psGroups s)" "g = psGroups s ! i" by (auto simp: in_set_conv_nth)
    with gs have "compileGroup it (bBlocks b ! i) = Inr g" by (simp add: list_all2_conv_all_nth)
    from compileGroup_facts [OF this] have "\<forall>kv \<in> set (grInteractions g). snd kv \<noteq> ''''" by blast
    moreover have c: "checkGroup g = None" using Spec_Validate_groups [OF v] g by blast
    moreover have "grID g \<noteq> ''''" using c by (auto simp: checkGroup_def)
    ultimately show ?thesis using checkGroup_valid [OF c] by (auto split: option.split)
  qed
  with v show ?thesis by (simp add: soundSpec_def)
qed

section \<open>The manager keeps the last good specification\<close>

definition dslStep :: "iteration \<Rightarrow> DslManager \<Rightarrow> string \<Rightarrow> DslManager" where
  "dslStep it m src = snd (DslManager_Apply it src m)"

definition dslCurrent :: "DslManager \<Rightarrow> PanelSpec option" where
  "dslCurrent m = (if dmValid m then Some (dmCurrent m) else None)"

interpretation dsl_manager: last_known_good "dslStep it" "\<lambda>_ src. Some src" "Compile it" dslCurrent dmRevision dmLastErr for it
  by unfold_locales (auto simp: dslStep_def DslManager_Apply_def dslCurrent_def)

lemma dsl_submissions: "dsl_manager.submissions it m srcs = srcs"
  by (induction srcs arbitrary: m) simp_all

text \<open>
  After any sequence of sources, the specification the manager hands out is the one compiled
  from the last source that compiles, its revision is the number of these sources, the reported error
  is the one of the last source, if that failed; and whatever it hands out as valid is a valid
  specification.
\<close>

lemma DslManager_run:
  defines "compiles \<equiv> \<lambda>it src. \<exists>s. Compile it src = Inr s"
  shows "let m = foldl (dslStep it) zeroDslManager srcs; ok = filter (compiles it) srcs
    in dmRevision m = of_nat (length ok) \<and>
       dmValid m = (ok \<noteq> []) \<and>
       (ok \<noteq> [] \<longrightarrow> Compile it (last ok) = Inr (dmCurrent m) \<and> soundSpec (dmCurrent m)) \<and>
       DslManager_LastError m =
         (if srcs = [] then None else case Compile it (last srcs) of Inl e \<Rightarrow> Some e | Inr _ \<Rightarrow> None)"
proof -
  let ?m = "foldl (dslStep it) zeroDslManager srcs" and ?ok = "filter (compiles it) srcs"
  have good: "dsl_manager.good it = compiles it"
    by (auto simp: fun_eq_iff dsl_manager.good_def compiles_def)
  note run = dsl_manager.run_laws [of it zeroDslManager srcs, unfolded dsl_submissions good]
  have cur: "dslCurrent ?m = (if ?ok = [] then None else dsl_manager.value_of it (last ?ok))"
    and rev: "dmRevision ?m = of_nat (length ?ok)"
    and err: "dmLastErr ?m = (if srcs = [] then None else dsl_manager.error_of it (last srcs))"
    using run by (simp_all add: Let_def zeroDslManager_def dslCurrent_def)
  have compiled: "\<exists>s. Compile it (last ?ok) = Inr s" if "?ok \<noteq> []"
  proof -
    from last_in_set [OF that] have "compiles it (last ?ok)" by simp
    then show ?thesis by (simp add: compiles_def)
  qed
  have "dmValid ?m = (?ok \<noteq> []) \<and> (?ok \<noteq> [] \<longrightarrow> Compile it (last ?ok) = Inr (dmCurrent ?m))"
  proof (cases "?ok = []")
    case True
    with cur show ?thesis by (auto simp: dslCurrent_def split: if_splits)
  next
    case False
    from compiled [OF this] obtain s where "Compile it (last ?ok) = Inr s" by blast
    with cur False show ?thesis by (auto simp: dslCurrent_def dsl_manager.value_of_def split: if_splits)
  qed
  then show ?thesis
    using rev err Compile_sound
    by (auto simp: Let_def DslManager_LastError_def dsl_manager.error_of_def split: sum.split)
qed

section \<open>Writing a specification in the language\<close>

definition surfacesBlock :: "SurfaceConfig \<Rightarrow> Block" where
  "surfacesBlock s = Block ''surfaces'' []
     [(''mode'', VString (scMode s)), (''max_visible'', VInt (scMaxVisible s)), (''overflow'', VString (scOverflow s))] []"

definition appBlock :: "AppConfig \<Rightarrow> Block" where
  "appBlock a = Block ''app'' []
     [(''density'', VString (acDensity a)), (''min_width'', VInt (acMinWidth a)),
      (''preferred_width'', VInt (acPreferredWidth a)), (''max_width'', VInt (acMaxWidth a))]
     [surfacesBlock (acSurfaces a)]"

definition widgetBlock :: "Widget \<Rightarrow> Block" where
  "widgetBlock w = Block ''widget'' [wgID w] [(''variant'', VString (wgVariant w)), (''format'', VString (wgFormat w))] []"

definition onBlock :: "string \<times> string \<Rightarrow> Block" where
  "onBlock kv = Block ''on'' [fst kv] [(''action'', VString (snd kv))] []"

definition groupBlock :: "Group \<Rightarrow> Block" where
  "groupBlock g = Block ''group'' [grID g] [(''source'', VString (grSource g))]
     (map appBlock (case grApp g of None \<Rightarrow> [] | Some a \<Rightarrow> [a]) @ map widgetBlock (grWidgets g) @
      map onBlock (grInteractions g))"

definition specBlock :: "PanelSpec \<Rightarrow> Block" where
  "specBlock s = Block ''panel'' [psID s]
     [(''edge'', VString (psEdge s)), (''height'', VInt (psHeight s)), (''gap'', VInt (psGap s)),
      (''overflow'', VString (psOverflow s))]
     (map groupBlock (psGroups s))"

definition plainApp :: "AppConfig \<Rightarrow> bool" where
  "plainApp a \<longleftrightarrow> in64 (acMinWidth a) \<and> in64 (acPreferredWidth a) \<and> in64 (acMaxWidth a) \<and>
     in64 (scMaxVisible (acSurfaces a))"

definition plainGroup :: "Group \<Rightarrow> bool" where
  "plainGroup g \<longleftrightarrow> pred_option plainApp (grApp g) \<and> (\<forall>kv \<in> set (grInteractions g). snd kv \<noteq> '''') \<and>
     wf_map (grInteractions g)"

definition plainSpec :: "PanelSpec \<Rightarrow> bool" where
  "plainSpec s \<longleftrightarrow> in64 (psHeight s) \<and> in64 (psGap s) \<and> list_all plainGroup (psGroups s)"

lemmas specBlock_defs = surfacesBlock_def appBlock_def widgetBlock_def onBlock_def groupBlock_def specBlock_def
lemmas attr_defs = stringAttr_def intAttr_def override_def

lemma identifiers: "list_all isIdent [''surfaces'', ''mode'', ''max_visible'', ''overflow'', ''app'', ''density'', ''min_width'',
  ''preferred_width'', ''max_width'', ''widget'', ''variant'', ''format'', ''on'', ''action'', ''group'', ''source'',
  ''panel'', ''edge'', ''height'', ''gap'']"
  by code_simp

lemma plainBlock_app: "plainApp a \<Longrightarrow> plainBlock (appBlock a)"
  using identifiers by (simp add: plainApp_def appBlock_def surfacesBlock_def wf_map_def)

lemma plainBlock_group: "plainGroup g \<Longrightarrow> plainBlock (groupBlock g)"
  using identifiers plainBlock_app
  by (cases "grApp g")
    (auto simp: plainGroup_def groupBlock_def widgetBlock_def onBlock_def wf_map_def list_all_iff)

lemma plainBlock_spec: "plainSpec s \<Longrightarrow> plainBlock (specBlock s)"
  using identifiers plainBlock_group
  by (auto simp: plainSpec_def specBlock_def wf_map_def list_all_iff)

lemma compileApp_block: "isIteration it \<Longrightarrow> compileApp it (appBlock a) = Inr a"
  by (simp add: compileApp_def appBlock_def surfacesBlock_def compileSurfaces_def unknownAttrs_ok attr_defs Let_def)

lemma compile_widgets:
  "isIteration it \<Longrightarrow> foldE (compileChild it) g (map widgetBlock ws) = Inr (g\<lparr>grWidgets := grWidgets g @ ws\<rparr>)"
  by (induction ws arbitrary: g)
    (simp_all add: compileChild_def widgetBlock_def unknownAttrs_ok attr_defs)

lemma compile_interactions:
  "isIteration it \<Longrightarrow> \<forall>kv \<in> set kvs. snd kv \<noteq> '''' \<Longrightarrow> wf_map (grInteractions g @ kvs) \<Longrightarrow>
   foldE (compileChild it) g (map onBlock kvs) = Inr (g\<lparr>grInteractions := grInteractions g @ kvs\<rparr>)"
proof (induction kvs arbitrary: g)
  case (Cons kv kvs)
  have "put (fst kv) (snd kv) (grInteractions g) = grInteractions g @ [kv]"
    by (subst put_fresh) (use Cons.prems(3) in \<open>auto simp: wf_map_def\<close>)
  with Cons.prems have "compileChild it g (onBlock kv) = Inr (g\<lparr>grInteractions := grInteractions g @ [kv]\<rparr>)"
    by (simp add: compileChild_def onBlock_def unknownAttrs_ok attr_defs)
  with Cons.IH [of "g\<lparr>grInteractions := grInteractions g @ [kv]\<rparr>"] Cons.prems show ?case by simp
qed simp

lemma compileGroup_block:
  assumes "isIteration it" and "plainGroup g"
  shows "compileGroup it (groupBlock g) = Inr g"
proof -
  let ?g = "\<lparr>grID = grID g, grSource = grSource g, grApp = None, grWidgets = [], grInteractions = []\<rparr>"
  have app: "foldE (compileChild it) ?g (map appBlock (case grApp g of None \<Rightarrow> [] | Some a \<Rightarrow> [a])) =
      Inr (?g\<lparr>grApp := grApp g\<rparr>)"
    using compileApp_block [OF assms(1)]
    by (cases "grApp g") (simp_all add: compileChild_def, simp add: appBlock_def)
  have "foldE (compileChild it) (?g\<lparr>grApp := grApp g, grWidgets := grWidgets g\<rparr>) (map onBlock (grInteractions g)) =
      Inr (?g\<lparr>grApp := grApp g, grWidgets := grWidgets g, grInteractions := grInteractions g\<rparr>)"
    using compile_interactions [OF assms(1), of "grInteractions g" "?g\<lparr>grApp := grApp g, grWidgets := grWidgets g\<rparr>"] assms(2)
    by (simp add: plainGroup_def list_all_iff)
  then show ?thesis
    using app compile_widgets [OF assms(1), of "?g\<lparr>grApp := grApp g\<rparr>" "grWidgets g"]
    by (simp add: compileGroup_def groupBlock_def unknownAttrs_ok [OF assms(1)] attr_defs foldE_append)
qed

lemma addGroup_blocks:
  "isIteration it \<Longrightarrow> list_all plainGroup gs \<Longrightarrow>
   foldE (addGroup it) s (map groupBlock gs) = Inr (s\<lparr>psGroups := psGroups s @ gs\<rparr>)"
proof (induction gs arbitrary: s)
  case (Cons g gs)
  have "addGroup it s (groupBlock g) = Inr (s\<lparr>psGroups := psGroups s @ [g]\<rparr>)"
    using compileGroup_block [OF Cons.prems(1), of g] Cons.prems(2)
    by (simp add: addGroup_def groupBlock_def)
  with Cons.IH [of "s\<lparr>psGroups := psGroups s @ [g]\<rparr>"] Cons.prems show ?case by simp
qed simp

text \<open>
  C10. Every valid panel specification can be written in the language: compiling the text printed
  for it gives the specification back, with all its groups, widgets, interactions and width
  constraints, whatever its texts are and in whatever order the attribute maps are ranged over.
  What it needs beside validity is that it is a value of the program (its numbers have 64 bits, its
  interactions are a map) and that no interaction has an empty action, which the compiler refuses.
\<close>

theorem Compile_print:
  assumes "isIteration it" and "Spec_Validate s = None" and "plainSpec s"
  shows "Compile it (printBlocks [specBlock s]) = Inr s"
proof -
  have "Parse (printBlocks [specBlock s]) = Inr [specBlock s]"
    by (rule parse_printed) (use plainBlock_spec [OF assms(3)] in simp)
  moreover have "compilePanel it (specBlock s) = Inr s"
    using assms(2,3)
    by (cases s) (simp add: addGroup_blocks [OF assms(1)] compilePanel_def specBlock_def unknownAttrs_ok [OF assms(1)] attr_defs DefaultSpec_def
        plainSpec_def Let_def)
  ultimately show ?thesis by (simp add: Compile_def) (simp add: specBlock_def)
qed

definition sampleSpec :: PanelSpec where
  "sampleSpec = \<lparr>psID = ''main'', psEdge = ''top'', psHeight = 40, psGap = 6, psOverflow = ''popover'',
     psGroups = [\<lparr>grID = ''apps'', grSource = ''running'', grApp = Some defaultApp, grWidgets = [],
       grInteractions = [(''click'', ''focus_or_cycle'')]\<rparr>]\<rparr>"

definition quotedSpec :: PanelSpec where
  "quotedSpec = sampleSpec\<lparr>psID := [CHR 0x22, CHR 0x5C, CHR 0x0A, CHR 0xE9]\<rparr>"

lemma Compile_print_witness:
  "Compile rev (printBlocks [specBlock quotedSpec]) = Inr quotedSpec"
proof (rule Compile_print)
  show "isIteration (rev :: iteration)" by simp
  show "Spec_Validate quotedSpec = None" by code_simp
  show "plainSpec quotedSpec"
    by (simp add: quotedSpec_def plainSpec_def sampleSpec_def plainGroup_def plainApp_def defaultApp_def wf_map_def
        in64_def density_defs)
qed

text \<open>An attribute of the wrong type is not an error: it is ignored, and the default stands.\<close>

lemma wrong_type_ignored:
  "compilePanel (\<lambda>m. m) (Block ''panel'' [''p''] [(''height'', VString ''90''), (''gap'', VFloat (lit 3 2))] []) =
   Inr (DefaultSpec ''p'')"
  by code_simp

text \<open>So is a block inside a widget, an interaction or a surfaces block.\<close>

lemma nested_block_ignored:
  "compileGroup (\<lambda>m. m) (Block ''group'' [''g''] [] [Block ''widget'' [''w''] [] [Block ''app'' [] [] []]]) =
   compileGroup (\<lambda>m. m) (Block ''group'' [''g''] [] [Block ''widget'' [''w''] [] []])"
  by code_simp

end
