(* ===== verification/SurfaceSnapshot.thy ===== *)
theory SurfaceSnapshot
  imports Surface
begin

text \<open>
  \<open>internal/surface/snapshot.go\<close>: the snapshot of all surfaces, its semantic revision and the
  difference of two snapshots. The revision is the SHA-256 of the JSON text of the semantic state;
  \<open>digest\<close> stands for both: the encoder writes maps sorted by key, which is \<open>jsonState\<close>, and
  fails on the floats that JSON cannot express, which is \<open>marshallable\<close>. The encoder tells a
  progress of \<open>-0\<close> from \<open>0\<close>; \<open>f64\<close> does not, so here both have one revision.
\<close>

section \<open>Data\<close>

record ProviderHealth =
  phProviderID :: string
  phKind :: string
  phConnected :: bool
  phStale :: bool
  phPartial :: bool
  phRevision :: "64 word"
  phCapabilities :: "string list"

record SurfaceSnapshot =
  ssGeneration :: "64 word"
  ssRevision :: string
  ssSurfaces :: "ApplicationSurface list"
  ssProviders :: "ProviderHealth list"

record SnapshotDiff =
  sdAdded :: "string list"
  sdRemoved :: "string list"
  sdChanged :: "string list"
  sdProviderStateChanged :: bool

record semanticProvider =
  semProviderID :: string
  semKind :: string
  semConnected :: bool
  semStale :: bool
  semPartial :: bool
  semCapabilities :: "string list"

type_synonym semanticState = "ApplicationSurface list \<times> semanticProvider list"

datatype snapshotError = EncodeSemanticState

section \<open>Normal forms\<close>

definition deepCloneView :: "View \<Rightarrow> View" where
  "deepCloneView v = v\<lparr>vProgress := map_option (\<lambda>p. p) (vProgress v), vMetadata := copyMap (vMetadata v)\<rparr>"

definition deepCloneSurface :: "ApplicationSurface \<Rightarrow> ApplicationSurface" where
  "deepCloneSurface a =
     (let out = ApplicationSurface_Clone a
      in out\<lparr>asStatus := (asStatus out)\<lparr>stProgress := map_option (\<lambda>p. p) (stProgress (asStatus a))\<rparr>,
             asWindows := map (\<lambda>w. w\<lparr>wViews := map deepCloneView (wViews w)\<rparr>) (asWindows out)\<rparr>)"

definition surfaceCompare :: "ApplicationSurface \<Rightarrow> ApplicationSurface \<Rightarrow> int" where
  "surfaceCompare a b = (if asAppID a < asAppID b then -1 else if asAppID a > asAppID b then 1 else 0)"

definition cloneAndNormalizeSurfaces :: "ApplicationSurface list \<Rightarrow> ApplicationSurface list" where
  "cloneAndNormalizeSurfaces as =
     sortFunc surfaceCompare (map (\<lambda>a. ApplicationSurface_Normalize (deepCloneSurface a)) as)"

definition healthCompare :: "ProviderHealth \<Rightarrow> ProviderHealth \<Rightarrow> int" where
  "healthCompare a b =
     (if phProviderID a < phProviderID b then -1 else if phProviderID a > phProviderID b then 1
      else if phKind a < phKind b then -1 else if phKind a > phKind b then 1 else 0)"

definition normalizeProviderHealth :: "ProviderHealth list \<Rightarrow> ProviderHealth list" where
  "normalizeProviderHealth ps =
     sortFunc healthCompare (map (\<lambda>p. p\<lparr>phCapabilities := remdups_adj (sortStrings (phCapabilities p))\<rparr>) ps)"

section \<open>The semantic revision\<close>

definition semanticSurface :: "ApplicationSurface \<Rightarrow> ApplicationSurface" where
  "semanticSurface a =
     (let c = deepCloneSurface a
      in c\<lparr>asSourceRevision := [], asStatus := (asStatus c)\<lparr>stUpdatedAt := 0\<rparr>\<rparr>)"

definition semanticProviderOf :: "ProviderHealth \<Rightarrow> semanticProvider" where
  "semanticProviderOf p = \<lparr>semProviderID = phProviderID p, semKind = phKind p, semConnected = phConnected p,
     semStale = phStale p, semPartial = phPartial p, semCapabilities = phCapabilities p\<rparr>"

definition semanticStateOf :: "SurfaceSnapshot \<Rightarrow> semanticState" where
  "semanticStateOf s = (map semanticSurface (ssSurfaces s), map semanticProviderOf (ssProviders s))"

definition progressValues :: "ApplicationSurface \<Rightarrow> f64 set" where
  "progressValues a = set_option (stProgress (asStatus a)) \<union>
     (\<Union>w \<in> set (asWindows a). \<Union>v \<in> set (wViews w). set_option (vProgress v))"

definition marshallable :: "semanticState \<Rightarrow> bool" where
  "marshallable st \<longleftrightarrow> (\<forall>a \<in> set (fst st). \<forall>p \<in> progressValues a. isFinite p)"

definition sortedMap :: "(string, 'v) gomap \<Rightarrow> (string, 'v) gomap" where
  "sortedMap m = sortBy (\<lambda>x y. fst x < fst y) m"

definition jsonView :: "View \<Rightarrow> View" where
  "jsonView v = v\<lparr>vMetadata := sortedMap (vMetadata v)\<rparr>"

definition jsonSurface :: "ApplicationSurface \<Rightarrow> ApplicationSurface" where
  "jsonSurface a = a\<lparr>asCapabilities := sortedMap (asCapabilities a),
     asSourceRevision := sortedMap (asSourceRevision a),
     asWindows := map (\<lambda>w. w\<lparr>wViews := map jsonView (wViews w)\<rparr>) (asWindows a)\<rparr>"

definition jsonState :: "semanticState \<Rightarrow> semanticState" where
  "jsonState st = (map jsonSurface (fst st), snd st)"

definition semanticRevision :: "(semanticState \<Rightarrow> string) \<Rightarrow> SurfaceSnapshot \<Rightarrow> snapshotError + string" where
  "semanticRevision digest s =
     (let st = semanticStateOf s
      in if marshallable st then Inr (digest (jsonState st)) else Inl EncodeSemanticState)"

section \<open>Snapshots\<close>

definition NewSnapshot ::
  "(semanticState \<Rightarrow> string) \<Rightarrow> SurfaceSnapshot \<Rightarrow> ApplicationSurface list \<Rightarrow> ProviderHealth list \<Rightarrow>
   snapshotError + SurfaceSnapshot" where
  "NewSnapshot digest previous surfaces providers =
     (let nxt = \<lparr>ssGeneration = 0, ssRevision = '''', ssSurfaces = cloneAndNormalizeSurfaces surfaces,
            ssProviders = normalizeProviderHealth providers\<rparr>
      in case semanticRevision digest nxt of
           Inl e \<Rightarrow> Inl e
         | Inr revision \<Rightarrow>
             Inr (nxt\<lparr>ssRevision := revision,
               ssGeneration := (if ssRevision previous = revision then ssGeneration previous
                                else ssGeneration previous + 1)\<rparr>))"

definition SurfaceSnapshot_Clone :: "SurfaceSnapshot \<Rightarrow> SurfaceSnapshot" where
  "SurfaceSnapshot_Clone s = \<lparr>ssGeneration = ssGeneration s, ssRevision = ssRevision s,
     ssSurfaces = cloneAndNormalizeSurfaces (ssSurfaces s), ssProviders = normalizeProviderHealth (ssProviders s)\<rparr>"

text \<open>The comparisons ignore an encoding error: its revision is the empty string.\<close>

definition revisionOf :: "(semanticState \<Rightarrow> string) \<Rightarrow> ApplicationSurface list \<Rightarrow> ProviderHealth list \<Rightarrow> string" where
  "revisionOf digest as ps =
     (case semanticRevision digest \<lparr>ssGeneration = 0, ssRevision = '''', ssSurfaces = as, ssProviders = ps\<rparr> of
        Inr r \<Rightarrow> r | Inl _ \<Rightarrow> '''')"

definition sameSemanticSurface :: "(semanticState \<Rightarrow> string) \<Rightarrow> ApplicationSurface \<Rightarrow> ApplicationSurface \<Rightarrow> bool" where
  "sameSemanticSurface digest a b \<longleftrightarrow> revisionOf digest [a] [] = revisionOf digest [b] []"

definition sameSemanticProviders :: "(semanticState \<Rightarrow> string) \<Rightarrow> ProviderHealth list \<Rightarrow> ProviderHealth list \<Rightarrow> bool" where
  "sameSemanticProviders digest as bs \<longleftrightarrow>
     revisionOf digest [] (normalizeProviderHealth as) = revisionOf digest [] (normalizeProviderHealth bs)"

definition surfaceIndex :: "ApplicationSurface list \<Rightarrow> (string, ApplicationSurface) gomap" where
  "surfaceIndex as = foldl (\<lambda>m app. put (asAppID app) app m) [] as"

definition diffOld ::
  "(semanticState \<Rightarrow> string) \<Rightarrow> (string, ApplicationSurface) gomap \<Rightarrow> SnapshotDiff \<Rightarrow>
   string \<times> ApplicationSurface \<Rightarrow> SnapshotDiff" where
  "diffOld digest new diff entry =
     (case map_of new (fst entry) of
        None \<Rightarrow> diff\<lparr>sdRemoved := sdRemoved diff @ [fst entry]\<rparr>
      | Some newApp \<Rightarrow>
          if \<not> sameSemanticSurface digest (snd entry) newApp
          then diff\<lparr>sdChanged := sdChanged diff @ [fst entry]\<rparr> else diff)"

definition diffNew :: "(string, ApplicationSurface) gomap \<Rightarrow> SnapshotDiff \<Rightarrow> string \<times> ApplicationSurface \<Rightarrow> SnapshotDiff" where
  "diffNew old diff entry =
     (if map_of old (fst entry) = None then diff\<lparr>sdAdded := sdAdded diff @ [fst entry]\<rparr> else diff)"

type_synonym surfaceOrder = "(string, ApplicationSurface) gomap \<Rightarrow> (string, ApplicationSurface) gomap"

definition DiffSnapshots ::
  "(semanticState \<Rightarrow> string) \<Rightarrow> surfaceOrder \<Rightarrow> surfaceOrder \<Rightarrow> SurfaceSnapshot \<Rightarrow> SurfaceSnapshot \<Rightarrow> SnapshotDiff" where
  "DiffSnapshots digest it1 it2 before after =
     (let old = surfaceIndex (ssSurfaces before);
          new = surfaceIndex (ssSurfaces after);
          diff = \<lparr>sdAdded = [], sdRemoved = [], sdChanged = [], sdProviderStateChanged = False\<rparr>;
          diff = foldl (diffOld digest new) diff (it1 old);
          diff = foldl (diffNew old) diff (it2 new)
      in diff\<lparr>sdAdded := sortStrings (sdAdded diff), sdRemoved := sortStrings (sdRemoved diff),
              sdChanged := sortStrings (sdChanged diff),
              sdProviderStateChanged := \<not> sameSemanticProviders digest (ssProviders before) (ssProviders after)\<rparr>)"

section \<open>Encoding errors\<close>

lemma progress_deepClone [simp]: "progressValues (deepCloneSurface a) = progressValues a"
  by (simp add: progressValues_def deepCloneSurface_def deepCloneView_def ApplicationSurface_Clone_def Let_def
      option.map_ident)

lemma progress_Normalize [simp]: "progressValues (ApplicationSurface_Normalize a) = progressValues a"
  by (simp add: progressValues_def Normalize_windows)

lemma progress_semantic [simp]: "progressValues (semanticSurface a) = progressValues a"
  using progress_deepClone [of a] by (simp add: progressValues_def semanticSurface_def Let_def)

text \<open>
  Building a snapshot fails exactly when some status or view carries a progress value that is
  not a finite number: nothing else in the state of the surfaces can stop it.
\<close>

lemma NewSnapshot_fails_iff:
  "(\<exists>e. NewSnapshot digest previous surfaces providers = Inl e) \<longleftrightarrow>
   (\<exists>a \<in> set surfaces. \<exists>p \<in> progressValues a. \<not> isFinite p)"
  by (auto simp: NewSnapshot_def semanticRevision_def semanticStateOf_def marshallable_def Let_def
      cloneAndNormalizeSurfaces_def split: sum.splits)

section \<open>The difference of two snapshots\<close>

lemma wf_surfaceIndex: "wf_map (surfaceIndex as)"
proof -
  have "wf_map m \<Longrightarrow> wf_map (foldl (\<lambda>m app. put (asAppID app) app m) m as)" for m
    by (induction as arbitrary: m) auto
  then show ?thesis by (simp add: surfaceIndex_def)
qed

text \<open>The last surface with an identifier counts.\<close>

definition surfaceNamed :: "ApplicationSurface list \<Rightarrow> string \<Rightarrow> ApplicationSurface option" where
  "surfaceNamed as i = find (\<lambda>a. asAppID a = i) (rev as)"

lemma map_of_surfaceIndex: "map_of (surfaceIndex as) i = surfaceNamed as i"
proof (induction as rule: rev_induct)
  case Nil
  then show ?case by (simp add: surfaceIndex_def surfaceNamed_def)
next
  case (snoc a as)
  then show ?case by (simp add: surfaceIndex_def surfaceNamed_def)
qed

lemma foldl_diffOld:
  "foldl (diffOld digest new) d xs =
     d\<lparr>sdRemoved := sdRemoved d @ map fst (filter (\<lambda>e. map_of new (fst e) = None) xs),
       sdChanged := sdChanged d @ map fst (filter (\<lambda>e. \<exists>b. map_of new (fst e) = Some b \<and>
         \<not> sameSemanticSurface digest (snd e) b) xs)\<rparr>"
  by (induction xs arbitrary: d) (auto simp: diffOld_def split: option.splits)

lemma foldl_diffNew:
  "foldl (diffNew old) d xs = d\<lparr>sdAdded := sdAdded d @ map fst (filter (\<lambda>e. map_of old (fst e) = None) xs)\<rparr>"
  by (induction xs arbitrary: d) (auto simp: diffNew_def)

lemma sortStrings_set:
  assumes "distinct xs" and "set xs = A"
  shows "sortStrings xs = sorted_list_of_set A"
  using assms by (metis distinct_sortStrings set_sortStrings sorted_list_of_set.idem_if_sorted_distinct
      sorted_sortStrings)

lemma filtered_keys:
  assumes "isIteration it" and "wf_map m"
  shows "distinct (map fst (filter P (it m)))"
    and "set (map fst (filter P (it m))) = {i. \<exists>a. map_of m i = Some a \<and> P (i, a)}"
proof -
  have "mset (map fst (it m)) = mset (keys m)"
    using isIteration_mset [OF assms(1), of m] by (metis mset_map)
  then have "distinct (map fst (it m))"
    using assms(2) by (metis mset_eq_imp_distinct_iff wf_map_def)
  then show "distinct (map fst (filter P (it m)))" by (rule distinct_map_filter)
  show "set (map fst (filter P (it m))) = {i. \<exists>a. map_of m i = Some a \<and> P (i, a)}"
    using wf_map_in [OF assms(2)] by (force simp: isIteration_set [OF assms(1)])
qed

section \<open>Stability of the revision\<close>

text \<open>The maps of a surface have one entry per key, as Go's maps do.\<close>

definition wf_surface :: "ApplicationSurface \<Rightarrow> bool" where
  "wf_surface a \<longleftrightarrow> wf_map (asCapabilities a) \<and> wf_map (asSourceRevision a) \<and>
     (\<forall>w \<in> set (asWindows a). \<forall>v \<in> set (wViews w). wf_map (vMetadata v))"

lemma deepCloneView_id [simp]: "wf_map (vMetadata v) \<Longrightarrow> deepCloneView v = v"
  by (simp add: deepCloneView_def option.map_ident)

lemma deepClone_id [simp]: "wf_surface a \<Longrightarrow> deepCloneSurface a = a"
proof -
  assume wf: "wf_surface a"
  have "map (\<lambda>w. w\<lparr>wViews := map deepCloneView (wViews w)\<rparr>) (asWindows a) = asWindows a"
  proof (rule map_idI)
    fix w assume "w \<in> set (asWindows a)"
    with wf have "map deepCloneView (wViews w) = wViews w"
      by (intro map_idI) (auto simp: wf_surface_def)
    then show "w\<lparr>wViews := map deepCloneView (wViews w)\<rparr> = w" by simp
  qed
  then show ?thesis
    using wf by (simp add: deepCloneSurface_def ApplicationSurface_Clone_def Let_def option.map_ident wf_surface_def)
qed

lemma wf_Normalize [simp]: "wf_surface (ApplicationSurface_Normalize a) = wf_surface a"
  by (simp add: wf_surface_def Normalize_windows)

definition jsonWindow :: "Window \<Rightarrow> Window" where
  "jsonWindow w = w\<lparr>wViews := map jsonView (wViews w)\<rparr>"

lemma sort_jsonViews: "sortFunc viewCompare (map jsonView vs) = map jsonView (sortFunc viewCompare vs)"
  unfolding sortFunc_def by (rule sortBy_map) (simp add: viewCompare_def jsonView_def)

lemma sort_jsonWindows: "sortFunc windowCompare (map jsonWindow ws) = map jsonWindow (sortFunc windowCompare ws)"
  unfolding sortFunc_def by (rule sortBy_map) (simp add: windowCompare_def jsonWindow_def)

lemma sortViews_jsonWindow: "sortViews (jsonWindow w) = jsonWindow (sortViews w)"
  by (simp add: sortViews_def jsonWindow_def sort_jsonViews)

lemma jsonSurface_windows: "jsonSurface a = a\<lparr>asCapabilities := sortedMap (asCapabilities a),
     asSourceRevision := sortedMap (asSourceRevision a), asWindows := map jsonWindow (asWindows a)\<rparr>"
proof -
  have "(\<lambda>w. w\<lparr>wViews := map jsonView (wViews w)\<rparr>) = jsonWindow" by (simp add: fun_eq_iff jsonWindow_def)
  then show ?thesis by (simp add: jsonSurface_def)
qed

text \<open>What the digest sees of a surface.\<close>

definition observedForm :: "ApplicationSurface \<Rightarrow> ApplicationSurface" where
  "observedForm a = jsonSurface (semanticSurface a)"

lemma observedForm_wf:
  "wf_surface a \<Longrightarrow> observedForm a = a\<lparr>asSourceRevision := [], asStatus := (asStatus a)\<lparr>stUpdatedAt := 0\<rparr>,
     asCapabilities := sortedMap (asCapabilities a), asWindows := map jsonWindow (asWindows a)\<rparr>"
  by (simp add: observedForm_def semanticSurface_def Let_def jsonSurface_windows sortedMap_def)

lemma observedForm_Normalize:
  assumes "wf_surface a"
  shows "observedForm (ApplicationSurface_Normalize (deepCloneSurface a)) = ApplicationSurface_Normalize (observedForm a)"
proof -
  have "map jsonWindow (sortFunc windowCompare (map sortViews (asWindows a))) =
        sortFunc windowCompare (map sortViews (map jsonWindow (asWindows a)))"
    by (simp add: comp_def sortViews_jsonWindow flip: sort_jsonWindows)
  then show ?thesis
    using assms by (simp add: observedForm_wf) (simp add: Normalize_windows)
qed

lemma observedForm_simps [simp]: "asAppID (observedForm a) = asAppID a"
  by (simp add: observedForm_def jsonSurface_def semanticSurface_def deepCloneSurface_def
      ApplicationSurface_Clone_def Let_def)

lemma AppID_Normalize [simp]: "asAppID (ApplicationSurface_Normalize a) = asAppID a"
  by (simp add: Normalize_windows)

lemma regular_observedForm:
  assumes "wf_surface a" and "regular a"
  shows "regular (observedForm a)"
proof -
  have ids: "wID (jsonWindow w) = wID w" "map vID (wViews (jsonWindow w)) = map vID (wViews w)" for w
    by (simp_all add: jsonWindow_def jsonView_def comp_def)
  have "asWindows (observedForm a) = map jsonWindow (asWindows a)"
    using assms(1) by (simp add: observedForm_wf)
  moreover have "knownAttention v" if "v \<in> set (wViews (jsonWindow w))" "\<forall>v \<in> set (wViews w). knownAttention v" for v w
    using that by (auto simp: jsonWindow_def jsonView_def knownAttention_def)
  ultimately show ?thesis
    using assms(2) unfolding regular_def by (simp add: ids comp_def)
qed

interpretation surface_order: by_key "\<lambda>a b. surfaceCompare a b < 0" asAppID
  by unfold_locales (auto simp: surfaceCompare_def)

definition semDedup :: "semanticProvider \<Rightarrow> semanticProvider" where
  "semDedup p = p\<lparr>semCapabilities := remdups_adj (sortStrings (semCapabilities p))\<rparr>"

definition semKey :: "semanticProvider \<Rightarrow> string \<times> string" where
  "semKey p = (semProviderID p, semKind p)"

interpretation sem_order: by_key "\<lambda>a b. semKey a < semKey b" semKey
  by unfold_locales simp

lemma semantic_providers:
  "map semanticProviderOf (normalizeProviderHealth ps) =
   sortBy (\<lambda>a b. semKey a < semKey b) (map semDedup (map semanticProviderOf ps))"
proof -
  let ?dd = "\<lambda>p. p\<lparr>phCapabilities := remdups_adj (sortStrings (phCapabilities p))\<rparr>"
  have "map semDedup (map semanticProviderOf ps) = map semanticProviderOf (map ?dd ps)"
    by (simp add: semDedup_def semanticProviderOf_def)
  moreover have "sortBy (\<lambda>a b. semKey a < semKey b) (map semanticProviderOf qs) =
      map semanticProviderOf (sortBy (\<lambda>a b. healthCompare a b < 0) qs)" for qs
    by (rule sortBy_map) (auto simp: semKey_def healthCompare_def semanticProviderOf_def)
  ultimately show ?thesis unfolding normalizeProviderHealth_def sortFunc_def by (simp only:)
qed

text \<open>The state that a snapshot of these surfaces and providers is the digest of.\<close>

lemma semantic_surfaces:
  assumes "\<forall>a \<in> set as. wf_surface a"
  shows "map observedForm (cloneAndNormalizeSurfaces as) =
    sortBy (\<lambda>a b. surfaceCompare a b < 0) (map (\<lambda>a. ApplicationSurface_Normalize (observedForm a)) as)"
proof -
  have "map (\<lambda>a. ApplicationSurface_Normalize (observedForm a)) as =
      map observedForm (map (\<lambda>a. ApplicationSurface_Normalize (deepCloneSurface a)) as)"
    using assms by (simp add: observedForm_Normalize del: deepClone_id)
  moreover have "sortBy (\<lambda>a b. surfaceCompare a b < 0) (map observedForm bs) =
      map observedForm (sortBy (\<lambda>a b. surfaceCompare a b < 0) bs)" for bs
    by (rule sortBy_map) (simp add: surfaceCompare_def)
  ultimately show ?thesis unfolding cloneAndNormalizeSurfaces_def sortFunc_def by (simp only:)
qed

text \<open>The encoder's failures depend on what the digest sees.\<close>

lemma progress_observedForm [simp]: "progressValues (observedForm a) = progressValues a"
proof -
  have "progressValues (jsonSurface b) = progressValues b" for b
    by (simp add: progressValues_def jsonSurface_def jsonView_def)
  then show ?thesis by (simp add: observedForm_def)
qed

lemma semanticRevision_observed:
  "semanticRevision digest s =
     (let st = (map observedForm (ssSurfaces s), map semanticProviderOf (ssProviders s))
      in if marshallable st then Inr (digest st) else Inl EncodeSemanticState)"
  by (simp add: semanticRevision_def semanticStateOf_def jsonState_def marshallable_def Let_def observedForm_def
      comp_def flip: observedForm_def)

text \<open>
  What a surface says, written down without the code's normal forms: everything but the time of the
  last update and the source revisions, its maps taken as maps.
\<close>

definition content :: "ApplicationSurface \<Rightarrow> ApplicationSurface" where
  "content a = a\<lparr>asSourceRevision := [], asStatus := (asStatus a)\<lparr>stUpdatedAt := 0\<rparr>,
     asCapabilities := sortedMap (asCapabilities a), asWindows := map jsonWindow (asWindows a)\<rparr>"

lemma observedForm_content: "wf_surface a \<Longrightarrow> observedForm a = content a"
  by (simp add: observedForm_wf content_def)

definition sameObservation :: "ApplicationSurface \<Rightarrow> ApplicationSurface \<Rightarrow> bool" where
  "sameObservation a b \<longleftrightarrow> sameContent (content a) (content b)"

text \<open>And what a provider's health says: everything but its revision.\<close>

definition healthContent :: "ProviderHealth \<Rightarrow> ProviderHealth" where
  "healthContent p = p\<lparr>phRevision := 0\<rparr>"

lemma semanticProviderOf_content: "semanticProviderOf p = semanticProviderOf (healthContent p)"
  by (simp add: semanticProviderOf_def healthContent_def)

lemma same_surfaces:
  assumes "\<forall>a \<in> set as. wf_surface a \<and> regular a" and "distinct (map asAppID as)" and "\<forall>b \<in> set bs. wf_surface b"
    and "list_all2 sameObservation as cs" and "mset cs = mset bs"
  shows "map observedForm (cloneAndNormalizeSurfaces bs) = map observedForm (cloneAndNormalizeSurfaces as)"
proof -
  let ?f = "\<lambda>a. ApplicationSurface_Normalize (observedForm a)"
  have "\<forall>c \<in> set cs. wf_surface c" using assms(3,5) by (metis set_mset_mset)
  with assms(4,1) have "map ?f cs = map ?f as"
  proof (induction rule: list_all2_induct)
    case (Cons a as c cs)
    have "?f c = ?f a"
      by (rule Normalize_sameContent [OF regular_observedForm])
        (use Cons in \<open>simp_all add: sameObservation_def observedForm_content\<close>)
    with Cons show ?case by simp
  qed simp
  then have m: "mset (map ?f as) = mset (map ?f bs)"
    using assms(5) by (metis mset_map)
  have "distinct (map asAppID (map ?f as))" using assms(2) by (simp add: comp_def)
  then have "inj_on asAppID (set (map ?f as))" by (simp only: distinct_map)
  from surface_order.sortBy_perm [OF m this] show ?thesis
    using assms(1,3) by (simp add: semantic_surfaces)
qed

lemma same_providers:
  assumes "distinct (map phProviderID ps)" and "mset (map healthContent qs) = mset (map healthContent ps)"
  shows "map semanticProviderOf (normalizeProviderHealth qs) = map semanticProviderOf (normalizeProviderHealth ps)"
proof -
  let ?f = "\<lambda>rs. map semDedup (map semanticProviderOf rs)"
  have "map semanticProviderOf rs = map semanticProviderOf (map healthContent rs)" for rs
    by (simp add: semanticProviderOf_content [symmetric])
  then have "mset (map semanticProviderOf qs) = mset (map semanticProviderOf ps)"
    using assms(2) by (metis mset_map)
  then have m: "mset (?f ps) = mset (?f qs)" by (simp only: mset_map)
  have "map semProviderID (?f ps) = map phProviderID ps" by (simp add: semDedup_def semanticProviderOf_def)
  then have "distinct (map semProviderID (?f ps))" using assms(1) by (simp only:)
  then have "inj_on semKey (set (?f ps))" by (auto simp only: distinct_map semKey_def inj_on_def prod.inject)
  from sem_order.sortBy_perm [OF m this] show ?thesis by (simp add: semantic_providers)
qed


section \<open>The exact difference\<close>

text \<open>
  The revision of one surface, and of a list of providers, spelled out over their content: a digest,
  or the empty string where a progress value cannot be encoded. Providers are sorted by identifier
  and kind, and each capability counts once.
\<close>

definition contentRevision :: "(semanticState \<Rightarrow> string) \<Rightarrow> ApplicationSurface \<Rightarrow> string" where
  "contentRevision digest a =
     (if \<forall>p \<in> progressValues a. isFinite p then digest ([content a], []) else '''')"

definition healthRevision :: "(semanticState \<Rightarrow> string) \<Rightarrow> ProviderHealth list \<Rightarrow> string" where
  "healthRevision digest ps = digest ([], sortBy (\<lambda>a b. semKey a < semKey b)
     (map (\<lambda>p. \<lparr>semProviderID = phProviderID p, semKind = phKind p, semConnected = phConnected p,
        semStale = phStale p, semPartial = phPartial p,
        semCapabilities = remdups_adj (sortStrings (phCapabilities p))\<rparr>) ps))"

lemma sameSemanticSurface_content:
  assumes "wf_surface a" and "wf_surface b"
  shows "sameSemanticSurface digest a b \<longleftrightarrow> contentRevision digest a = contentRevision digest b"
proof -
  have "revisionOf digest [c] [] = contentRevision digest c" if "wf_surface c" for c
    using progress_observedForm [of c] that
    by (simp add: revisionOf_def semanticRevision_observed marshallable_def contentRevision_def observedForm_content)
  then show ?thesis using assms by (simp add: sameSemanticSurface_def)
qed

lemma sameSemanticProviders_content:
  "sameSemanticProviders digest ps qs \<longleftrightarrow> healthRevision digest ps = healthRevision digest qs"
proof -
  have "revisionOf digest [] (normalizeProviderHealth rs) = healthRevision digest rs" for rs
    by (simp add: revisionOf_def semanticRevision_observed marshallable_def semantic_providers healthRevision_def
        comp_def) (simp add: semDedup_def semanticProviderOf_def)
  then show ?thesis by (simp add: sameSemanticProviders_def)
qed

lemma surfaceNamed_in: "surfaceNamed as i = Some a \<Longrightarrow> a \<in> set as"
  unfolding surfaceNamed_def find_Some_iff by (metis nth_mem set_rev)

text \<open>
  C23. The difference of two snapshots is exact and does not depend on the order of Go's maps: the
  added, removed and changed applications are the sorted lists, without repetition, of those only
  in the new snapshot, only in the old one, and in both with a different revision of their content;
  and the providers count as changed exactly when the revision of their health differs, which sees
  neither their order nor their revision numbers.
\<close>

theorem DiffSnapshots_exact:
  fixes before after :: SurfaceSnapshot
  defines "old \<equiv> surfaceNamed (ssSurfaces before)" and "new \<equiv> surfaceNamed (ssSurfaces after)"
  assumes "isIteration it1" and "isIteration it2"
    and "\<forall>a \<in> set (ssSurfaces before). wf_surface a" and "\<forall>b \<in> set (ssSurfaces after). wf_surface b"
  shows "DiffSnapshots digest it1 it2 before after =
    \<lparr>sdAdded = sorted_list_of_set {i. old i = None \<and> new i \<noteq> None},
     sdRemoved = sorted_list_of_set {i. old i \<noteq> None \<and> new i = None},
     sdChanged = sorted_list_of_set
       {i. \<exists>a b. old i = Some a \<and> new i = Some b \<and> contentRevision digest a \<noteq> contentRevision digest b},
     sdProviderStateChanged =
       (healthRevision digest (ssProviders before) \<noteq> healthRevision digest (ssProviders after))\<rparr>"
proof -
  note keys1 = filtered_keys [OF assms(3) wf_surfaceIndex, of _ "ssSurfaces before"]
    and keys2 = filtered_keys [OF assms(4) wf_surfaceIndex, of _ "ssSurfaces after"]
  let ?D = "DiffSnapshots digest it1 it2 before after"
  have "sdAdded ?D = sorted_list_of_set {i. old i = None \<and> new i \<noteq> None}"
    unfolding DiffSnapshots_def Let_def foldl_diffOld foldl_diffNew
    by (simp del: set_map, rule sortStrings_set [OF keys2(1)])
      (auto simp del: set_map simp: keys2(2) map_of_surfaceIndex old_def new_def)
  moreover have "sdRemoved ?D = sorted_list_of_set {i. old i \<noteq> None \<and> new i = None}"
    unfolding DiffSnapshots_def Let_def foldl_diffOld foldl_diffNew
    by (simp del: set_map, rule sortStrings_set [OF keys1(1)])
      (auto simp del: set_map simp: keys1(2) map_of_surfaceIndex old_def new_def)
  moreover have "sdChanged ?D = sorted_list_of_set
      {i. \<exists>a b. old i = Some a \<and> new i = Some b \<and> \<not> sameSemanticSurface digest a b}"
    unfolding DiffSnapshots_def Let_def foldl_diffOld foldl_diffNew
    by (simp del: set_map, rule sortStrings_set [OF keys1(1)])
      (auto simp del: set_map simp: keys1(2) map_of_surfaceIndex old_def new_def)
  moreover have "{i. \<exists>a b. old i = Some a \<and> new i = Some b \<and> \<not> sameSemanticSurface digest a b} =
      {i. \<exists>a b. old i = Some a \<and> new i = Some b \<and> contentRevision digest a \<noteq> contentRevision digest b}"
    using assms(5,6) unfolding old_def new_def
    by (metis (no_types, lifting) sameSemanticSurface_content surfaceNamed_in)
  moreover have "sdProviderStateChanged ?D =
      (healthRevision digest (ssProviders before) \<noteq> healthRevision digest (ssProviders after))"
    by (simp add: DiffSnapshots_def Let_def sameSemanticProviders_content)
  ultimately show ?thesis by simp
qed

section \<open>Witnesses\<close>

definition sampleDigest :: "semanticState \<Rightarrow> string" where
  "sampleDigest st = concat (map (\<lambda>a. asAppID a @ asName a) (fst st)) @ concat (map semProviderID (snd st))"

definition sampleHealth :: "string \<Rightarrow> 64 word \<Rightarrow> ProviderHealth" where
  "sampleHealth i r = \<lparr>phProviderID = i, phKind = ''native'', phConnected = True, phStale = False, phPartial = False,
     phRevision = r, phCapabilities = [''b'', ''a'', ''b'']\<rparr>"

definition zeroSnapshot :: SurfaceSnapshot where
  "zeroSnapshot = \<lparr>ssGeneration = 0, ssRevision = '''', ssSurfaces = [], ssProviders = []\<rparr>"

definition otherSurface :: "int \<Rightarrow> ApplicationSurface" where
  "otherSurface t = emptySurface\<lparr>asAppID := ''aaa'', asStatus := emptyStatus\<lparr>stUpdatedAt := t\<rparr>,
     asSourceRevision := [(''p'', of_int t)]\<rparr>"

lemma sameContent_refl: "sameContent a a"
  unfolding sameContent_def by (intro conjI exI [of _ "asWindows a"] refl) (simp add: list.rel_refl sameWindow_def)


definition diffBefore :: SurfaceSnapshot where
  "diffBefore = zeroSnapshot\<lparr>ssSurfaces := [sampleSurface, otherSurface 1], ssProviders := [sampleHealth ''p'' 1]\<rparr>"

definition diffAfter :: SurfaceSnapshot where
  "diffAfter = zeroSnapshot\<lparr>ssSurfaces := [otherSurface 2, sampleSurface\<lparr>asName := ''renamed''\<rparr>,
       emptySurface\<lparr>asAppID := ''new''\<rparr>],
     ssProviders := [sampleHealth ''q'' 1, sampleHealth ''p'' 2]\<rparr>"

text \<open>
  One application is new, one is renamed and one has only a later update; a second provider joins.
\<close>

lemma DiffSnapshots_exact_witness:
  "DiffSnapshots sampleDigest rev (\<lambda>m. m) diffBefore diffAfter =
     \<lparr>sdAdded = [''new''], sdRemoved = [], sdChanged = [''app''], sdProviderStateChanged = True\<rparr> \<and>
   sorted_list_of_set {i. surfaceNamed (ssSurfaces diffBefore) i = None \<and> surfaceNamed (ssSurfaces diffAfter) i \<noteq> None} =
     [''new''] \<and>
   healthRevision sampleDigest (ssProviders diffBefore) \<noteq> healthRevision sampleDigest (ssProviders diffAfter)"
proof -
  have D: "DiffSnapshots sampleDigest rev (\<lambda>m. m) diffBefore diffAfter =
     \<lparr>sdAdded = [''new''], sdRemoved = [], sdChanged = [''app''], sdProviderStateChanged = True\<rparr>"
    by code_simp
  have "\<forall>a \<in> set (ssSurfaces diffBefore). wf_surface a" "\<forall>b \<in> set (ssSurfaces diffAfter). wf_surface b"
    by (auto simp: diffBefore_def diffAfter_def zeroSnapshot_def wf_surface_def sampleSurface_def otherSurface_def
        emptySurface_def emptyWindow_def emptyView_def wf_map_def)
  from DiffSnapshots_exact [OF isIteration_rev isIteration_id this, of sampleDigest] D
  show ?thesis by simp
qed

end
