(* ===== verification/Registry.thy ===== *)
theory Registry
  imports SurfaceSnapshot
begin

text \<open>
  \<open>internal/providers/registry.go\<close>: the registry of provider snapshots and their merge into the
  application surfaces. The registry is a map from provider and application to the last snapshot;
  ranging over it takes its order as the argument \<open>it\<close>. The snapshots are then sorted; a sort that
  is not stable only permutes ties, which the order \<open>it\<close> covers. \<open>uni\<close> is Unicode lower-casing.
\<close>

section \<open>Data\<close>

definition SourceNative :: string where "SourceNative = ''native''"
definition SourceExtension :: string where "SourceExtension = ''extension''"
definition SourceATSPI :: string where "SourceATSPI = ''atspi''"
definition SourceHeuristic :: string where "SourceHeuristic = ''heuristic''"
definition SourceSystem :: string where "SourceSystem = ''system''"

record WindowPatch =
  wpWindowID :: string
  wpProviderWindowID :: string
  wpTitle :: string
  wpWorkspaceID :: string
  wpMonitorRef :: string
  wpFocused :: bool
  wpMinimized :: bool
  wpMRU :: "64 word"
  wpAuthoritativeState :: bool
  wpViews :: "View list"

record ProviderSnapshot =
  pvProviderID :: string
  pvKind :: string
  pvAppID :: string
  pvIdentityHints :: "string list"
  pvObservedAt :: int
  pvTTL :: int
  pvPriority :: int
  pvRevision :: "64 word"
  pvAllowOrphan :: bool
  pvApplicationName :: string
  pvIconName :: string
  pvDesktopAppID :: string
  pvWindows :: "WindowPatch list"
  pvStatus :: StatusPatch
  pvCapabilities :: "string list"
  pvConfidence :: "8 word"

type_synonym Registry = "(string, ProviderSnapshot) gomap"

datatype registryError =
  ProviderIDRequired | AppIDRequired | ObservedTimeRequired | StaleRevision "64 word" "64 word"
| ForeignSnapshot string | DuplicateApplication string

definition NewRegistry :: Registry where "NewRegistry = []"

definition snapshotKey :: "ProviderSnapshot \<Rightarrow> string" where
  "snapshotKey s = pvProviderID s @ [CHR 0x00] @ pvAppID s"

definition second :: int where "second = 1000000000"

section \<open>Ingesting\<close>

definition cleanHint :: "(string \<Rightarrow> string) \<Rightarrow> string list \<times> string list \<Rightarrow> string \<Rightarrow> string list \<times> string list" where
  "cleanHint uni st hint =
     (let hint = TrimSpace hint; key = ToLower uni hint
      in if hint = '''' then st
         else if key \<in> set (fst st) then st
         else (key # fst st, snd st @ [hint]))"

definition normalizeSnapshot :: "(string \<Rightarrow> string) \<Rightarrow> ProviderSnapshot \<Rightarrow> registryError + ProviderSnapshot" where
  "normalizeSnapshot uni s =
     (let s = s\<lparr>pvProviderID := TrimSpace (pvProviderID s)\<rparr>
      in if pvProviderID s = '''' then Inl ProviderIDRequired
         else if TrimSpace (pvAppID s) = '''' then Inl AppIDRequired
         else if pvObservedAt s = 0 then Inl ObservedTimeRequired
         else let s = (if pvTTL s \<le> 0 then s\<lparr>pvTTL := 5 * second\<rparr> else s);
                  s = (if pvConfidence s = 0 then s\<lparr>pvConfidence := ConfidenceMedium\<rparr> else s)
              in Inr (s\<lparr>pvIdentityHints := snd (foldl (cleanHint uni) ([], []) (pvIdentityHints s))\<rparr>))"

definition Registry_Ingest ::
  "(string \<Rightarrow> string) \<Rightarrow> ProviderSnapshot \<Rightarrow> Registry \<Rightarrow> registryError option \<times> Registry" where
  "Registry_Ingest uni s r =
     (case normalizeSnapshot uni s of
        Inl e \<Rightarrow> (Some e, r)
      | Inr s \<Rightarrow>
          (case map_of r (snapshotKey s) of
             Some prev \<Rightarrow> if pvRevision s < pvRevision prev then (Some (StaleRevision (pvRevision s) (pvRevision prev)), r)
                          else (None, put (snapshotKey s) s r)
           | None \<Rightarrow> (None, put (snapshotKey s) s r)))"

definition replaceStep ::
  "(string \<Rightarrow> string) \<Rightarrow> string \<Rightarrow> Registry \<Rightarrow> ProviderSnapshot \<Rightarrow> registryError + Registry" where
  "replaceStep uni providerID nxt raw =
     (let raw = (if TrimSpace (pvProviderID raw) = '''' then raw\<lparr>pvProviderID := providerID\<rparr> else raw)
      in if pvProviderID raw \<noteq> providerID then Inl (ForeignSnapshot (pvProviderID raw))
         else case normalizeSnapshot uni raw of
           Inl e \<Rightarrow> Inl e
         | Inr s \<Rightarrow> if map_of nxt (snapshotKey s) \<noteq> None then Inl (DuplicateApplication (pvAppID s))
                    else Inr (put (snapshotKey s) s nxt))"

definition staleCheck :: "Registry \<Rightarrow> string \<times> ProviderSnapshot \<Rightarrow> registryError option" where
  "staleCheck r entry =
     (case map_of r (fst entry) of
        Some prev \<Rightarrow> if pvRevision (snd entry) < pvRevision prev
                     then Some (StaleRevision (pvRevision (snd entry)) (pvRevision prev)) else None
      | None \<Rightarrow> None)"

definition Registry_DropProvider :: "string \<Rightarrow> Registry \<Rightarrow> Registry" where
  "Registry_DropProvider providerID r = filter (\<lambda>(k, s). pvProviderID s \<noteq> providerID) r"

definition Registry_ReplaceProvider ::
  "(string \<Rightarrow> string) \<Rightarrow> (Registry \<Rightarrow> Registry) \<Rightarrow> string \<Rightarrow> ProviderSnapshot list \<Rightarrow> Registry \<Rightarrow>
   registryError option \<times> Registry" where
  "Registry_ReplaceProvider uni it providerID snapshots r =
     (let providerID = TrimSpace providerID
      in if providerID = '''' then (Some ProviderIDRequired, r)
         else case foldE (replaceStep uni providerID) [] snapshots of
           Inl e \<Rightarrow> (Some e, r)
         | Inr nxt \<Rightarrow>
             (case firstErr (staleCheck r) (it nxt) of
                Some e \<Rightarrow> (Some e, r)
              | None \<Rightarrow> (None, foldl (\<lambda>r (k, s). put k s r)
                  (filter (\<lambda>(k, s). pvProviderID s \<noteq> providerID) r) (it nxt))))"

section \<open>Health\<close>

text \<open>\<open>time.Time.Sub\<close> saturates.\<close>

definition timeSub :: "int \<Rightarrow> int \<Rightarrow> int" where
  "timeSub a b = max (- (2 ^ 63)) (min (2 ^ 63 - 1) (a - b))"

definition snapshotFresh :: "ProviderSnapshot \<Rightarrow> int \<Rightarrow> bool" where
  "snapshotFresh s now \<longleftrightarrow> \<not> pvObservedAt s > now + second \<and> timeSub now (pvObservedAt s) \<le> pvTTL s"

record aggregate =
  agHealth :: ProviderHealth
  agFresh :: int
  agStale :: int
  agCapability :: "(string, unit) gomap"

definition newAggregate :: "ProviderSnapshot \<Rightarrow> aggregate" where
  "newAggregate s = \<lparr>agHealth = \<lparr>phProviderID = pvProviderID s, phKind = pvKind s, phConnected = False,
       phStale = False, phPartial = False, phRevision = 0, phCapabilities = []\<rparr>,
     agFresh = 0, agStale = 0, agCapability = []\<rparr>"

definition healthAdd :: "int \<Rightarrow> ProviderSnapshot \<Rightarrow> aggregate \<Rightarrow> aggregate" where
  "healthAdd now s a =
     (let a = (if pvRevision s > phRevision (agHealth a)
               then a\<lparr>agHealth := (agHealth a)\<lparr>phRevision := pvRevision s\<rparr>\<rparr> else a);
          a = a\<lparr>agCapability := foldl (\<lambda>m c. put c () m) (agCapability a) (pvCapabilities s)\<rparr>
      in if snapshotFresh s now then a\<lparr>agFresh := agFresh a + 1\<rparr> else a\<lparr>agStale := agStale a + 1\<rparr>)"

definition healthStep :: "int \<Rightarrow> (string, aggregate) gomap \<Rightarrow> string \<times> ProviderSnapshot \<Rightarrow> (string, aggregate) gomap" where
  "healthStep now byProvider entry =
     (let s = snd entry;
          a = (case map_of byProvider (pvProviderID s) of Some a \<Rightarrow> a | None \<Rightarrow> newAggregate s)
      in put (pvProviderID s) (healthAdd now s a) byProvider)"

definition aggregateHealth :: "aggregate \<Rightarrow> ProviderHealth" where
  "aggregateHealth a = (agHealth a)\<lparr>phConnected := agFresh a > 0, phStale := agFresh a = 0 \<and> agStale a > 0,
     phPartial := agFresh a > 0 \<and> agStale a > 0, phCapabilities := sortStrings (keys (agCapability a))\<rparr>"

definition providerCompare :: "ProviderHealth \<Rightarrow> ProviderHealth \<Rightarrow> int" where
  "providerCompare a b = (if phProviderID a < phProviderID b then -1 else if phProviderID a > phProviderID b then 1 else 0)"

definition Registry_Health ::
  "(Registry \<Rightarrow> Registry) \<Rightarrow> ((string, aggregate) gomap \<Rightarrow> (string, aggregate) gomap) \<Rightarrow> int \<Rightarrow> Registry \<Rightarrow>
   ProviderHealth list" where
  "Registry_Health it1 it2 now r =
     sortFunc providerCompare (map (aggregateHealth \<circ> snd) (it2 (foldl (healthStep now) [] (it1 r))))"

section \<open>Identities\<close>

definition sourceRank :: "string \<Rightarrow> int" where
  "sourceRank kind = (if kind = SourceNative then 0 else 1)"

definition identityKeys :: "(string \<Rightarrow> string) \<Rightarrow> string \<Rightarrow> string list" where
  "identityKeys uni value =
     (let v = ToLower uni (TrimSpace value);
          v = TrimPrefix v ''application://'';
          v = TrimSuffix v ''/'';
          v = afterLast (CHR ''/'') v
      in if v = '''' then []
         else let stem = TrimSuffix v ''.desktop''
              in (''exact:'' @ v) #
                 (if stem \<noteq> '''' \<and> \<not> ContainsAny stem [CHR '' '', CHR 0x09, CHR 0x0D, CHR 0x0A]
                  then [''stem:'' @ stem] else []))"

definition snapshotIdentityKeys :: "(string \<Rightarrow> string) \<Rightarrow> ProviderSnapshot \<Rightarrow> string list" where
  "snapshotIdentityKeys uni s =
     sortStrings (remdups (concat (map (identityKeys uni) ([pvAppID s, pvDesktopAppID s] @ pvIdentityHints s))))"

type_synonym identityIndex = "(string, string) gomap"

definition indexKey :: "string \<Rightarrow> identityIndex \<Rightarrow> string \<Rightarrow> identityIndex" where
  "indexKey appID index key =
     (case map_of index key of
        Some existing \<Rightarrow> if existing \<noteq> appID then put key '''' index else put key appID index
      | None \<Rightarrow> put key appID index)"

definition indexSnapshot :: "(string \<Rightarrow> string) \<Rightarrow> int \<Rightarrow> identityIndex \<Rightarrow> ProviderSnapshot \<Rightarrow> identityIndex" where
  "indexSnapshot uni now index s =
     (if pvKind s \<noteq> SourceNative \<or> \<not> snapshotFresh s now then index
      else foldl (indexKey (pvAppID s)) index (snapshotIdentityKeys uni s))"

definition buildNativeIdentityIndex :: "(string \<Rightarrow> string) \<Rightarrow> ProviderSnapshot list \<Rightarrow> int \<Rightarrow> identityIndex" where
  "buildNativeIdentityIndex uni snaps now = foldl (indexSnapshot uni now) [] snaps"

definition addCandidate :: "identityIndex \<Rightarrow> (string, unit) gomap \<Rightarrow> string \<Rightarrow> (string, unit) gomap" where
  "addCandidate index candidates key =
     (case map_of index key of
        Some appID \<Rightarrow> if appID \<noteq> '''' then put appID () candidates else candidates
      | None \<Rightarrow> candidates)"

definition resolveNativeIdentity :: "(string \<Rightarrow> string) \<Rightarrow> ProviderSnapshot \<Rightarrow> identityIndex \<Rightarrow> string option" where
  "resolveNativeIdentity uni s index =
     (case foldl (addCandidate index) [] (snapshotIdentityKeys uni s) of
        [(appID, _)] \<Rightarrow> Some appID
      | _ \<Rightarrow> None)"

section \<open>Merging into the surfaces\<close>

definition snapshotCompare :: "ProviderSnapshot \<Rightarrow> ProviderSnapshot \<Rightarrow> int" where
  "snapshotCompare a b =
     (if sourceRank (pvKind a) \<noteq> sourceRank (pvKind b) then sourceRank (pvKind a) - sourceRank (pvKind b)
      else if pvPriority a \<noteq> pvPriority b then wrap64 (pvPriority a - pvPriority b)
      else if pvConfidence a \<noteq> pvConfidence b then uint (pvConfidence a) - uint (pvConfidence b)
      else if pvProviderID a < pvProviderID b then -1
      else if pvProviderID a > pvProviderID b then 1 else 0)"

text \<open>The index of the first element that satisfies a predicate.\<close>

fun indexOf :: "('a \<Rightarrow> bool) \<Rightarrow> 'a list \<Rightarrow> nat option" where
  "indexOf P [] = None"
| "indexOf P (x # xs) = (if P x then Some 0 else map_option Suc (indexOf P xs))"

definition newWindow :: "string \<Rightarrow> WindowPatch \<Rightarrow> Window" where
  "newWindow providerID patch =
     \<lparr>wID = (if wpWindowID patch = '''' then ''provider:'' @ providerID @ '':'' @ wpProviderWindowID patch
             else wpWindowID patch),
      wTitle = wpTitle patch, wWorkspaceID = wpWorkspaceID patch, wMonitorRef = wpMonitorRef patch,
      wFocused = wpFocused patch, wMinimized = wpMinimized patch, wMRU = wpMRU patch,
      wProviderOnly = (wpWindowID patch = ''''), wViews = []\<rparr>"

definition ownView :: "string \<Rightarrow> WindowPatch \<Rightarrow> View \<Rightarrow> View" where
  "ownView providerID patch v =
     (let v = v\<lparr>vProviderID := providerID\<rparr>
      in if vProviderWindowID v = '''' then v\<lparr>vProviderWindowID := wpProviderWindowID patch\<rparr> else v)"

definition patchWindow :: "string \<Rightarrow> WindowPatch \<Rightarrow> Window \<Rightarrow> Window" where
  "patchWindow providerID patch w =
     (let w = (if wpTitle patch \<noteq> '''' then w\<lparr>wTitle := wpTitle patch\<rparr> else w);
          w = (if wpAuthoritativeState patch
               then w\<lparr>wWorkspaceID := wpWorkspaceID patch, wMonitorRef := wpMonitorRef patch, wFocused := wpFocused patch,
                      wMinimized := wpMinimized patch, wMRU := wpMRU patch, wProviderOnly := False\<rparr>
               else w)
      in w\<lparr>wViews := filter (\<lambda>v. vProviderID v \<noteq> providerID) (wViews w) @ map (ownView providerID patch) (wpViews patch)\<rparr>)"

definition mergePatch :: "string \<Rightarrow> Window list \<Rightarrow> WindowPatch \<Rightarrow> Window list" where
  "mergePatch providerID ws patch =
     (let idx = (if wpWindowID patch \<noteq> '''' then indexOf (\<lambda>w. wID w = wpWindowID patch) ws
                 else if length ws = 1 then Some 0 else None);
          (ws, idx) = (case idx of Some i \<Rightarrow> (ws, i) | None \<Rightarrow> (ws @ [newWindow providerID patch], length ws))
      in ws[idx := patchWindow providerID patch (ws ! idx)])"

definition mergeWindows :: "ApplicationSurface \<Rightarrow> ProviderSnapshot \<Rightarrow> ApplicationSurface" where
  "mergeWindows app snap = app\<lparr>asWindows := foldl (mergePatch (pvProviderID snap)) (asWindows app) (pvWindows snap)\<rparr>"

definition applyToSurface :: "ProviderSnapshot \<Rightarrow> ApplicationSurface \<Rightarrow> ApplicationSurface" where
  "applyToSurface s app =
     (let app = (if asName app = '''' \<and> pvApplicationName s \<noteq> '''' then app\<lparr>asName := pvApplicationName s\<rparr> else app);
          app = (if pvIconName s \<noteq> '''' then app\<lparr>asIconName := pvIconName s\<rparr> else app);
          app = (if pvDesktopAppID s \<noteq> '''' then app\<lparr>asDesktopAppID := pvDesktopAppID s\<rparr> else app);
          app = app\<lparr>asCapabilities := foldl (\<lambda>m c. put c True m) (asCapabilities app) (pvCapabilities s)\<rparr>;
          app = app\<lparr>asSourceRevision := put (pvProviderID s) (pvRevision s) (asSourceRevision app)\<rparr>;
          app = app\<lparr>asStatus := AppStatus_Apply (asStatus app) (pvStatus s) (pvProviderID s) (pvConfidence s) (pvObservedAt s)\<rparr>
      in mergeWindows app s)"

type_synonym applyState = "ApplicationSurface list \<times> (string, nat) gomap"

definition orphanSurface :: "ProviderSnapshot \<Rightarrow> ApplicationSurface" where
  "orphanSurface s = emptySurface\<lparr>asAppID := pvAppID s,
     asName := (if pvApplicationName s = '''' then pvAppID s else pvApplicationName s),
     asIconName := pvIconName s, asDesktopAppID := pvDesktopAppID s\<rparr>"

definition applyStep :: "(string \<Rightarrow> string) \<Rightarrow> int \<Rightarrow> identityIndex \<Rightarrow> applyState \<Rightarrow> ProviderSnapshot \<Rightarrow> applyState" where
  "applyStep uni now identities st original =
     (if \<not> snapshotFresh original now then st
      else let s = (if pvKind original \<noteq> SourceNative
                    then (case resolveNativeIdentity uni original identities of
                            Some canonical \<Rightarrow> original\<lparr>pvAppID := canonical\<rparr> | None \<Rightarrow> original)
                    else original)
           in case map_of (snd st) (pvAppID s) of
                Some idx \<Rightarrow> ((fst st)[idx := applyToSurface s (fst st ! idx)], snd st)
              | None \<Rightarrow>
                  if \<not> pvAllowOrphan s then st
                  else (fst st @ [applyToSurface s (orphanSurface s)], put (pvAppID s) (length (fst st)) (snd st)))"

definition addBase :: "applyState \<Rightarrow> ApplicationSurface \<Rightarrow> applyState" where
  "addBase st item =
     (let clone = ApplicationSurface_Clone item
      in (fst st @ [clone], put (asAppID clone) (length (fst st)) (snd st)))"

definition Registry_Apply ::
  "(string \<Rightarrow> string) \<Rightarrow> (Registry \<Rightarrow> Registry) \<Rightarrow> ApplicationSurface list \<Rightarrow> int \<Rightarrow> Registry \<Rightarrow>
   ApplicationSurface list" where
  "Registry_Apply uni it base now r =
     (let st = foldl addBase ([], []) base;
          snaps = sortFunc snapshotCompare (map snd (it r));
          identities = buildNativeIdentityIndex uni snaps now
      in map ApplicationSurface_Normalize (fst (foldl (applyStep uni now identities) st snaps)))"

section \<open>The registry's invariant\<close>

definition trimmedText :: "string \<Rightarrow> bool" where
  "trimmedText h \<longleftrightarrow> h \<noteq> '''' \<and> TrimSpace h = h"

definition goodSnapshot :: "ProviderSnapshot \<Rightarrow> bool" where
  "goodSnapshot s \<longleftrightarrow> trimmedText (pvProviderID s) \<and>
     TrimSpace (pvAppID s) \<noteq> '''' \<and> pvObservedAt s \<noteq> 0 \<and> pvTTL s > 0 \<and> pvConfidence s \<noteq> 0 \<and>
     list_all trimmedText (pvIdentityHints s)"

definition goodRegistry :: "Registry \<Rightarrow> bool" where
  "goodRegistry r \<longleftrightarrow> wf_map r \<and> (\<forall>k s. map_of r k = Some s \<longrightarrow> k = snapshotKey s \<and> goodSnapshot s)"

lemma cleanHint_good: "list_all trimmedText (snd st) \<Longrightarrow> list_all trimmedText (snd (cleanHint uni st h))"
  by (simp add: cleanHint_def Let_def trimmedText_def [of "TrimSpace h"])

lemma cleanHints_good:
  "list_all trimmedText (snd st) \<Longrightarrow> list_all trimmedText (snd (foldl (cleanHint uni) st hints))"
  by (induction hints arbitrary: st) (simp_all add: cleanHint_good)

lemma normalizeSnapshot_good:
  assumes "normalizeSnapshot uni s = Inr t"
  shows "goodSnapshot t \<and> pvProviderID t = TrimSpace (pvProviderID s) \<and> pvAppID t = pvAppID s \<and>
    pvRevision t = pvRevision s \<and> pvKind t = pvKind s \<and> pvWindows t = pvWindows s"
  using assms cleanHints_good [of "([], [])" uni "pvIdentityHints s"]
  by (auto simp: normalizeSnapshot_def Let_def goodSnapshot_def second_def ConfidenceMedium_def
      trimmedText_def [of "TrimSpace x" for x] split: if_splits)

lemma goodRegistry_put: "goodRegistry r \<Longrightarrow> goodSnapshot s \<Longrightarrow> goodRegistry (put (snapshotKey s) s r)"
  by (auto simp: goodRegistry_def)

lemma goodRegistry_filter: "goodRegistry r \<Longrightarrow> goodRegistry (filter P r)"
  by (auto simp: goodRegistry_def map_of_filter split: option.splits if_splits)

lemma replaceStep_good:
  assumes "foldE (replaceStep uni providerID) [] snapshots = Inr nxt" and "TrimSpace providerID = providerID"
  shows "goodRegistry nxt \<and> (\<forall>k s. map_of nxt k = Some s \<longrightarrow> pvProviderID s = providerID)"
  using assms(1)
proof (rule foldE_invariant [where I = "\<lambda>_ nxt. goodRegistry nxt \<and> (\<forall>k s. map_of nxt k = Some s \<longrightarrow> pvProviderID s = providerID)"])
  show "goodRegistry [] \<and> (\<forall>k s. map_of [] k = Some s \<longrightarrow> pvProviderID s = providerID)"
    by (simp add: goodRegistry_def)
next
  fix "done" x nxt nxt'
  assume good: "goodRegistry nxt \<and> (\<forall>k s. map_of nxt k = Some s \<longrightarrow> pvProviderID s = providerID)"
    and step: "replaceStep uni providerID nxt x = Inr nxt'"
  from step obtain raw s where s: "normalizeSnapshot uni raw = Inr s" "pvProviderID raw = providerID"
    and nxt': "nxt' = put (snapshotKey s) s nxt"
    by (auto simp: replaceStep_def Let_def split: if_splits sum.splits)
  with normalizeSnapshot_good [OF s(1)] good assms(2) show
    "goodRegistry nxt' \<and> (\<forall>k s. map_of nxt' k = Some s \<longrightarrow> pvProviderID s = providerID)"
    by (auto intro: goodRegistry_put)
qed

text \<open>The NUL byte of the key separates provider and application.\<close>

lemma snapshotKey_inj:
  "CHR 0x00 \<notin> set (pvProviderID s) \<Longrightarrow> CHR 0x00 \<notin> set (pvProviderID t) \<Longrightarrow> snapshotKey s = snapshotKey t \<Longrightarrow>
   pvProviderID s = pvProviderID t \<and> pvAppID s = pvAppID t"
  unfolding snapshotKey_def by (rule separator_inj)

lemma goodRegistry_key: "goodRegistry r \<Longrightarrow> map_of r k = Some s \<Longrightarrow> k = snapshotKey s \<and> goodSnapshot s"
  by (auto simp: goodRegistry_def)

lemma map_of_foldl_put:
  assumes "wf_map entries"
  shows "map_of (foldl (\<lambda>r (k, s). put k s r) r entries) = map_of r ++ map_of entries"
  using assms
proof (induction entries rule: rev_induct)
  case (snoc e es)
  obtain k v where e: "e = (k, v)" by (cases e)
  from snoc.prems have "wf_map es" "map_of es k = None"
    by (auto simp: wf_map_def e map_of_eq_None_iff)
  with snoc.IH show ?case by (simp add: e fun_eq_iff map_add_def split: option.split)
qed simp

lemma wf_foldl_put: "wf_map r \<Longrightarrow> wf_map (foldl (\<lambda>r (k, s). put k s r) r entries)"
  by (induction entries arbitrary: r) auto

text \<open>The snapshot that a replacement stores for a raw one.\<close>

definition ownSnapshot :: "string \<Rightarrow> ProviderSnapshot \<Rightarrow> ProviderSnapshot" where
  "ownSnapshot providerID raw =
     (if TrimSpace (pvProviderID raw) = '''' then raw\<lparr>pvProviderID := providerID\<rparr> else raw)"

lemma replaceStep_ok:
  "replaceStep uni providerID nxt raw = Inr nxt' \<longleftrightarrow>
   (\<exists>s. pvProviderID (ownSnapshot providerID raw) = providerID \<and>
      normalizeSnapshot uni (ownSnapshot providerID raw) = Inr s \<and> map_of nxt (snapshotKey s) = None \<and>
      nxt' = put (snapshotKey s) s nxt)"
  by (auto simp: replaceStep_def ownSnapshot_def Let_def split: sum.splits)

lemma replace_exact:
  assumes "foldE (replaceStep uni providerID) [] snapshots = Inr nxt"
  shows "(\<exists>k. map_of nxt k = Some s) \<longleftrightarrow>
    (\<exists>raw \<in> set snapshots. normalizeSnapshot uni (ownSnapshot providerID raw) = Inr s)"
  using assms
proof (rule foldE_invariant [where I = "\<lambda>done nxt. (\<exists>k. map_of nxt k = Some s) \<longleftrightarrow>
      (\<exists>raw \<in> set done. normalizeSnapshot uni (ownSnapshot providerID raw) = Inr s)"])
  fix "done" raw nxt nxt'
  assume IH: "(\<exists>k. map_of nxt k = Some s) \<longleftrightarrow>
      (\<exists>raw \<in> set done. normalizeSnapshot uni (ownSnapshot providerID raw) = Inr s)"
    and "replaceStep uni providerID nxt raw = Inr nxt'"
  then obtain t where t: "normalizeSnapshot uni (ownSnapshot providerID raw) = Inr t"
    and new: "map_of nxt (snapshotKey t) = None" and nxt': "nxt' = put (snapshotKey t) t nxt"
    by (auto simp: replaceStep_ok)
  have "(\<exists>k. map_of nxt' k = Some s) \<longleftrightarrow> t = s \<or> (\<exists>k. map_of nxt k = Some s)"
    using new unfolding nxt' by (auto split: if_splits) (metis option.distinct(1))
  then show "(\<exists>k. map_of nxt' k = Some s) \<longleftrightarrow>
      (\<exists>raw \<in> set (done @ [raw]). normalizeSnapshot uni (ownSnapshot providerID raw) = Inr s)"
    using IH t by auto
qed simp

definition nulFree :: "string \<Rightarrow> bool" where
  "nulFree p \<longleftrightarrow> CHR 0x00 \<notin> set p"

text \<open>
  C7. Replacing a provider is all or nothing. When it is refused, the registry is unchanged. When
  it succeeds, the registry is well formed, the provider's snapshots are exactly the normalised
  ones given (none of them older than the one it replaces), and every other provider's snapshots
  are untouched.
\<close>

theorem Registry_ReplaceProvider_spec:
  assumes "goodRegistry r" and "isIteration it"
    and "\<And>k s. map_of r k = Some s \<Longrightarrow> nulFree (pvProviderID s)" and "nulFree (TrimSpace pid)"
  shows "case Registry_ReplaceProvider uni it pid snapshots r of
      (Some e, r') \<Rightarrow> r' = r
    | (None, r') \<Rightarrow> goodRegistry r' \<and>
        (\<forall>s. pvProviderID s = TrimSpace pid \<longrightarrow>
          ((\<exists>k. map_of r' k = Some s) \<longleftrightarrow>
           (\<exists>raw \<in> set snapshots. normalizeSnapshot uni (ownSnapshot (TrimSpace pid) raw) = Inr s))) \<and>
        (\<forall>k s. pvProviderID s \<noteq> TrimSpace pid \<longrightarrow> (map_of r' k = Some s \<longleftrightarrow> map_of r k = Some s)) \<and>
        (\<forall>k s prev. map_of r k = Some prev \<longrightarrow> map_of r' k = Some s \<longrightarrow> pvRevision prev \<le> pvRevision s)"
proof (cases "Registry_ReplaceProvider uni it pid snapshots r")
  case (Pair err r')
  show ?thesis
  proof (cases err)
    case (Some e)
    with Pair show ?thesis
      by (auto simp: Registry_ReplaceProvider_def Let_def split: if_splits sum.splits option.splits)
  next
    case None
    let ?p = "TrimSpace pid"
    let ?kept = "filter (\<lambda>(k, s). pvProviderID s \<noteq> ?p) r"
    from Pair None obtain nxt where nxt: "foldE (replaceStep uni ?p) [] snapshots = Inr nxt"
      and fresh: "\<forall>e \<in> set (it nxt). staleCheck r e = None"
      and r': "r' = foldl (\<lambda>r (k, s). put k s r) ?kept (it nxt)"
      by (auto simp: Registry_ReplaceProvider_def Let_def split: if_splits sum.splits option.splits)
    have good: "goodRegistry nxt" and own: "\<And>k s. map_of nxt k = Some s \<Longrightarrow> pvProviderID s = ?p"
      using replaceStep_good [OF nxt] by auto
    then have wf: "wf_map nxt" by (simp add: goodRegistry_def)
    have kept: "goodRegistry ?kept" using assms(1) by (rule goodRegistry_filter)
    have look: "map_of r' = map_of ?kept ++ map_of nxt"
      unfolding r' using map_of_foldl_put map_of_iteration [OF assms(2) wf] by metis
    have lk: "map_of ?kept k = (case map_of r k of Some s \<Rightarrow> if pvProviderID s \<noteq> ?p then Some s else None | None \<Rightarrow> None)" for k
      using assms(1) by (simp add: goodRegistry_def map_of_filter split: option.split)
    have apart: "map_of nxt k = None" if "map_of r k = Some s" "pvProviderID s \<noteq> ?p" for k s
    proof (rule ccontr)
      assume "map_of nxt k \<noteq> None"
      then obtain t where t: "map_of nxt k = Some t" by auto
      have "snapshotKey s = snapshotKey t"
        using goodRegistry_key [OF assms(1) that(1)] goodRegistry_key [OF good t] by simp
      then have "pvProviderID s = pvProviderID t"
        using snapshotKey_inj [of s t] assms(3) [OF that(1)] assms(4) own [OF t] by (simp add: nulFree_def)
      with that(2) own [OF t] show False by simp
    qed
    have "goodRegistry r'"
      using wf_foldl_put goodRegistry_key [OF kept] goodRegistry_key [OF good] kept
      unfolding goodRegistry_def look by (auto simp: r' goodRegistry_def map_add_Some_iff)
    moreover have "(\<exists>k. map_of r' k = Some s) \<longleftrightarrow>
        (\<exists>raw \<in> set snapshots. normalizeSnapshot uni (ownSnapshot ?p raw) = Inr s)" if "pvProviderID s = ?p" for s
      using replace_exact [OF nxt, of s] that by (auto simp: look lk map_add_Some_iff split: option.splits if_splits)
    moreover have "map_of r' k = Some s \<longleftrightarrow> map_of r k = Some s" if "pvProviderID s \<noteq> ?p" for k s
      using that own apart by (fastforce simp: look lk map_add_Some_iff split: option.splits if_splits)
    moreover have "pvRevision prev \<le> pvRevision s" if "map_of r k = Some prev" "map_of r' k = Some s" for k s prev
    proof (cases "map_of nxt k")
      case None
      with that show ?thesis by (simp add: look lk map_add_def split: if_splits)
    next
      case (Some t)
      then have "(k, t) \<in> set (it nxt)" using wf_map_in [OF wf] isIteration_set [OF assms(2)] by blast
      with fresh that(1) have "\<not> pvRevision t < pvRevision prev"
        by (fastforce simp: staleCheck_def)
      with Some that(2) show ?thesis by (simp add: look map_add_def)
    qed
    ultimately show ?thesis unfolding Pair None by auto
  qed
qed

section \<open>Identity resolution\<close>

text \<open>The applications whose fresh native snapshots claim an identity key.\<close>

definition owners :: "(string \<Rightarrow> string) \<Rightarrow> ProviderSnapshot list \<Rightarrow> int \<Rightarrow> string \<Rightarrow> string set" where
  "owners uni snaps now key =
     {pvAppID n |n. n \<in> set snaps \<and> pvKind n = SourceNative \<and> snapshotFresh n now \<and> key \<in> set (snapshotIdentityKeys uni n)}"

lemma distinct_identityKeys: "distinct (snapshotIdentityKeys uni s)"
  by (simp add: snapshotIdentityKeys_def)

definition entryOK :: "string option \<Rightarrow> string set \<Rightarrow> bool" where
  "entryOK e own \<longleftrightarrow> (case e of None \<Rightarrow> own = {} | Some a \<Rightarrow>
     if a = '''' then (\<exists>x y. x \<in> own \<and> y \<in> own \<and> x \<noteq> y) else own = {a})"

definition indexes :: "identityIndex \<Rightarrow> (string \<Rightarrow> string set) \<Rightarrow> bool" where
  "indexes index own \<longleftrightarrow> (\<forall>key. entryOK (map_of index key) (own key))"

lemma entryOK_iff: "entryOK e own \<Longrightarrow> '''' \<notin> own \<Longrightarrow> b \<noteq> '''' \<and> e = Some b \<longleftrightarrow> own = {b}"
  by (cases e) (auto simp: entryOK_def split: if_splits)

lemma indexKey_other: "k \<noteq> key \<Longrightarrow> map_of (indexKey appID index key) k = map_of index k"
  by (auto simp: indexKey_def split: option.split)

lemma indexKey_same:
  "entryOK (map_of index key) own \<Longrightarrow> appID \<noteq> '''' \<Longrightarrow> '''' \<notin> own \<Longrightarrow>
   entryOK (map_of (indexKey appID index key) key) (insert appID own)"
  by (cases "map_of index key") (auto simp: indexKey_def entryOK_def split: if_splits)

lemma indexKey_indexes:
  "indexes index own \<Longrightarrow> appID \<noteq> '''' \<Longrightarrow> '''' \<notin> own key \<Longrightarrow>
   indexes (indexKey appID index key) (own(key := insert appID (own key)))"
  by (simp add: indexes_def indexKey_other indexKey_same)

lemma indexKeys_indexes:
  assumes "indexes index own" and "appID \<noteq> ''''" and "\<forall>key. '''' \<notin> own key"
  shows "indexes (foldl (indexKey appID) index ks) (\<lambda>key. if key \<in> set ks then insert appID (own key) else own key)"
  using assms
proof (induction ks arbitrary: index own)
  case (Cons k ks)
  let ?own = "own(k := insert appID (own k))"
  have "indexes (foldl (indexKey appID) (indexKey appID index k) ks)
      (\<lambda>key. if key \<in> set ks then insert appID (?own key) else ?own key)"
  proof (rule Cons.IH)
    show "indexes (indexKey appID index k) ?own"
      by (rule indexKey_indexes) (use Cons.prems in auto)
    show "\<forall>key. '''' \<notin> ?own key" using Cons.prems by simp
  qed (rule Cons.prems)
  moreover have "(\<lambda>key. if key \<in> set ks then insert appID (?own key) else ?own key) =
      (\<lambda>key. if key \<in> set (k # ks) then insert appID (own key) else own key)"
    by (auto simp: fun_eq_iff)
  ultimately show ?case by simp
qed simp

lemma buildIndex_indexes:
  assumes "\<forall>s \<in> set snaps. pvAppID s \<noteq> ''''"
  shows "indexes (buildNativeIdentityIndex uni snaps now) (owners uni snaps now)"
  using assms
proof (induction snaps rule: rev_induct)
  case Nil
  then show ?case by (simp add: buildNativeIdentityIndex_def indexes_def entryOK_def owners_def)
next
  case (snoc s snaps)
  let ?native = "pvKind s = SourceNative \<and> snapshotFresh s now"
  have own: "owners uni (snaps @ [s]) now = (\<lambda>key. if ?native \<and> key \<in> set (snapshotIdentityKeys uni s)
      then insert (pvAppID s) (owners uni snaps now key) else owners uni snaps now key)"
    by (auto simp: owners_def fun_eq_iff)
  have "\<forall>key. '''' \<notin> owners uni snaps now key" using snoc.prems by (auto simp: owners_def)
  then show ?case
    using snoc indexKeys_indexes [of "buildNativeIdentityIndex uni snaps now" "owners uni snaps now" "pvAppID s"]
    by (auto simp: buildNativeIdentityIndex_def indexSnapshot_def own)
qed

lemma keys_candidates:
  "set (keys (foldl (addCandidate index) m ks)) = set (keys m) \<union> {a. a \<noteq> '''' \<and> (\<exists>key \<in> set ks. map_of index key = Some a)}"
proof (induction ks arbitrary: m)
  case (Cons k ks)
  have "set (keys (addCandidate index m k)) = set (keys m) \<union> {a. a \<noteq> '''' \<and> map_of index k = Some a}"
    by (auto simp: addCandidate_def dom_update simp flip: dom_map_of_conv_image_fst split: option.split)
  with Cons.IH [of "addCandidate index m k"] show ?case by auto
qed simp

lemma keys_singleton: "wf_map m \<Longrightarrow> keys m = [a] \<longleftrightarrow> set (keys m) = {a}"
  unfolding wf_map_def by (cases "keys m"; cases "tl (keys m)") auto

lemma wf_candidates: "wf_map m \<Longrightarrow> wf_map (foldl (addCandidate index) m ks)"
  by (induction ks arbitrary: m) (auto simp: addCandidate_def split: option.split)

text \<open>
  C22. A foreign snapshot is attached to a native application exactly when its identity keys single
  one out: the keys that exactly one native application claims, with a fresh snapshot, all name
  that application. A key claimed by two applications never decides, and the order in which the
  snapshots are visited has no influence.
\<close>

theorem resolveNativeIdentity_iff:
  assumes "\<And>n. n \<in> set snaps \<Longrightarrow> pvAppID n \<noteq> ''''"
  shows "resolveNativeIdentity uni s (buildNativeIdentityIndex uni snaps now) = Some a \<longleftrightarrow>
    {b. \<exists>key \<in> set (snapshotIdentityKeys uni s). owners uni snaps now key = {b}} = {a}"
proof -
  let ?index = "buildNativeIdentityIndex uni snaps now"
  let ?cand = "foldl (addCandidate ?index) [] (snapshotIdentityKeys uni s)"
  have "\<forall>s \<in> set snaps. pvAppID s \<noteq> ''''" using assms by blast
  note ix = buildIndex_indexes [OF this, of uni now]
  have entry: "b \<noteq> '''' \<and> map_of ?index key = Some b \<longleftrightarrow> owners uni snaps now key = {b}" for key b
  proof -
    have "'''' \<notin> owners uni snaps now key"
    proof
      assume "'''' \<in> owners uni snaps now key"
      then obtain n where "n \<in> set snaps" "'''' = pvAppID n" unfolding owners_def by blast
      with assms [of n] show False by simp
    qed
    moreover have "entryOK (map_of ?index key) (owners uni snaps now key)"
      using ix by (simp add: indexes_def)
    ultimately show ?thesis by (rule entryOK_iff [rotated])
  qed
  have keys: "set (keys ?cand) = {b. \<exists>key \<in> set (snapshotIdentityKeys uni s). owners uni snaps now key = {b}}"
    unfolding keys_candidates by (auto simp flip: entry)
  have "resolveNativeIdentity uni s ?index = Some a \<longleftrightarrow> keys ?cand = [a]"
    unfolding resolveNativeIdentity_def by (auto split: list.splits)
  also have "\<dots> \<longleftrightarrow> set (keys ?cand) = {a}"
    using wf_candidates [of "[]" ?index "snapshotIdentityKeys uni s", OF wf_map_Nil]
    by (rule keys_singleton)
  finally show ?thesis unfolding keys .
qed

section \<open>Health\<close>

text \<open>What the aggregate of a provider holds after the snapshots \<open>ss\<close> of the registry.\<close>

definition ofProvider :: "string \<Rightarrow> ProviderSnapshot list \<Rightarrow> ProviderSnapshot list" where
  "ofProvider p ss = filter (\<lambda>s. pvProviderID s = p) ss"

definition aggregates :: "int \<Rightarrow> ProviderSnapshot list \<Rightarrow> aggregate \<Rightarrow> string \<Rightarrow> bool" where
  "aggregates now ss a p \<longleftrightarrow>
     phProviderID (agHealth a) = p \<and> ofProvider p ss \<noteq> [] \<and>
     phRevision (agHealth a) = Max (pvRevision ` set (ofProvider p ss)) \<and>
     agFresh a = int (length (filter (\<lambda>s. snapshotFresh s now) (ofProvider p ss))) \<and>
     agStale a = int (length (filter (\<lambda>s. \<not> snapshotFresh s now) (ofProvider p ss))) \<and>
     wf_map (agCapability a) \<and>
     set (keys (agCapability a)) = (\<Union>s \<in> set (ofProvider p ss). set (pvCapabilities s)) \<and>
     phKind (agHealth a) \<in> pvKind ` set (ofProvider p ss)"

lemma keys_foldl_put: "set (keys (foldl (\<lambda>m c. put c v m) m cs)) = set (keys m) \<union> set cs"
proof (induction cs arbitrary: m)
  case (Cons c cs)
  then show ?case by (auto simp: dom_update simp flip: dom_map_of_conv_image_fst)
qed simp

lemma wf_foldl_put_const: "wf_map m \<Longrightarrow> wf_map (foldl (\<lambda>m c. put c v m) m cs)"
  by (induction cs arbitrary: m) auto

definition healthInv :: "int \<Rightarrow> ProviderSnapshot list \<Rightarrow> (string, aggregate) gomap \<Rightarrow> bool" where
  "healthInv now ss m \<longleftrightarrow> wf_map m \<and> set (keys m) = pvProviderID ` set ss \<and>
     (\<forall>p a. map_of m p = Some a \<longrightarrow> aggregates now ss a p)"

lemma ofProvider_snoc [simp]:
  "ofProvider p (ss @ [s]) = (if pvProviderID s = p then ofProvider p ss @ [s] else ofProvider p ss)"
  by (simp add: ofProvider_def)

lemma set_keys_put: "set (keys (put k v m)) = insert k (set (keys m))"
  by (auto simp: dom_update simp flip: dom_map_of_conv_image_fst)

lemma healthAdd_simps [simp]:
  "phProviderID (agHealth (healthAdd now s a)) = phProviderID (agHealth a)"
  "phKind (agHealth (healthAdd now s a)) = phKind (agHealth a)"
  "phRevision (agHealth (healthAdd now s a)) = max (phRevision (agHealth a)) (pvRevision s)"
  "agFresh (healthAdd now s a) = agFresh a + (if snapshotFresh s now then 1 else 0)"
  "agStale (healthAdd now s a) = agStale a + (if snapshotFresh s now then 0 else 1)"
  "agCapability (healthAdd now s a) = foldl (\<lambda>m c. put c () m) (agCapability a) (pvCapabilities s)"
  by (auto simp: healthAdd_def Let_def max_def)

lemma healthAdd_first:
  "ofProvider (pvProviderID s) ss = [] \<Longrightarrow>
   aggregates now (ss @ [s]) (healthAdd now s (newAggregate s)) (pvProviderID s)"
  unfolding aggregates_def healthAdd_simps keys_foldl_put
  by (simp add: newAggregate_def wf_foldl_put_const)

lemma healthAdd_next:
  assumes "aggregates now ss a (pvProviderID s)"
  shows "aggregates now (ss @ [s]) (healthAdd now s a) (pvProviderID s)"
  using assms unfolding aggregates_def healthAdd_simps keys_foldl_put
  by (auto simp: wf_foldl_put_const max.commute)

lemma healthStep_inv:
  assumes "healthInv now ss m"
  shows "healthInv now (ss @ [s]) (healthStep now m (k, s))"
proof -
  let ?p = "pvProviderID s"
  obtain a' where a': "healthStep now m (k, s) = put ?p a' m" and agg: "aggregates now (ss @ [s]) a' ?p"
  proof (cases "map_of m ?p")
    case None
    then have "?p \<notin> pvProviderID ` set ss"
      using assms by (metis healthInv_def map_of_eq_None_iff list.set_map)
    then have "ofProvider ?p ss = []" unfolding ofProvider_def filter_empty_conv by (metis imageI)
    then show ?thesis
      using None that [of "healthAdd now s (newAggregate s)"] healthAdd_first by (simp add: healthStep_def)
  next
    case (Some a)
    with assms have "aggregates now ss a ?p" by (simp add: healthInv_def)
    then show ?thesis
      using Some that [of "healthAdd now s a"] healthAdd_next by (simp add: healthStep_def)
  qed
  have "aggregates now (ss @ [s]) b p" if "p \<noteq> ?p" "map_of m p = Some b" for b p
    using assms that by (simp add: healthInv_def aggregates_def)
  then show ?thesis
    using assms agg unfolding healthInv_def a' set_keys_put by auto
qed

lemma healthFold_inv: "healthInv now (map snd es) (foldl (healthStep now) [] es)"
proof (induction es rule: rev_induct)
  case Nil
  then show ?case by (simp add: healthInv_def)
next
  case (snoc e es)
  then show ?case using healthStep_inv [of now "map snd es" _ "snd e" "fst e"] by simp
qed

interpretation provider_order: by_key "\<lambda>a b. providerCompare a b < 0" phProviderID
  by unfold_locales (auto simp: providerCompare_def)

lemma int_filter_pos: "0 < int (length (filter P xs)) \<longleftrightarrow> (\<exists>x \<in> set xs. P x)"
  by (auto simp: filter_empty_conv)

lemma sort_keys: "wf_map m \<Longrightarrow> sortStrings (keys m) = sorted_list_of_set (set (keys m))"
  by (rule sortStrings_set) (simp_all add: wf_map_def)

text \<open>The report, with the code's own test of freshness.\<close>

lemma Health_by_snapshots:
  assumes "isIteration it1" and "isIteration it2"
  shows "map phProviderID (Registry_Health it1 it2 now r) = sorted_list_of_set (pvProviderID ` snd ` set r) \<and>
    (\<forall>h \<in> set (Registry_Health it1 it2 now r).
       let own = {s \<in> snd ` set r. pvProviderID s = phProviderID h}
       in phConnected h = (\<exists>s \<in> own. snapshotFresh s now) \<and>
          phStale h = (\<forall>s \<in> own. \<not> snapshotFresh s now) \<and>
          phPartial h = ((\<exists>s \<in> own. snapshotFresh s now) \<and> (\<exists>s \<in> own. \<not> snapshotFresh s now)) \<and>
          phRevision h = Max (pvRevision ` own) \<and> phKind h \<in> pvKind ` own \<and>
          phCapabilities h = sorted_list_of_set (\<Union>s \<in> own. set (pvCapabilities s)))"
proof
  let ?m = "foldl (healthStep now) [] (it1 r)"
  let ?h = "Registry_Health it1 it2 now r"
  have inv: "healthInv now (map snd (it1 r)) ?m" by (rule healthFold_inv)
  then have wf: "wf_map ?m" by (simp add: healthInv_def)
  have snaps: "set (map snd (it1 r)) = snd ` set r" by (simp add: isIteration_set [OF assms(1)])
  have set_h: "set ?h = (aggregateHealth \<circ> snd) ` set ?m"
    by (simp add: Registry_Health_def isIteration_set [OF assms(2)] image_comp)
  have agg: "aggregates now (map snd (it1 r)) a p" if "(p, a) \<in> set ?m" for p a
    using inv that wf_map_in [OF wf] unfolding healthInv_def by blast
  have ids: "map phProviderID (map (aggregateHealth \<circ> snd) (it2 ?m)) = keys (it2 ?m)"
    using agg isIteration_set [OF assms(2), of ?m]
    by (force simp: aggregateHealth_def aggregates_def)
  have "sorted (map phProviderID ?h)"
    unfolding Registry_Health_def sortFunc_def by (rule provider_order.sorted_keys)
  moreover have "mset (map phProviderID ?h) = mset (keys ?m)"
  proof -
    have "mset (map phProviderID ?h) = mset (map phProviderID (map (aggregateHealth \<circ> snd) (it2 ?m)))"
      unfolding Registry_Health_def mset_map mset_sortFunc ..
    also have "\<dots> = mset (keys ?m)"
      unfolding ids mset_map isIteration_mset [OF assms(2)] ..
    finally show ?thesis .
  qed
  then have "distinct (map phProviderID ?h)" and "set (map phProviderID ?h) = set (keys ?m)"
    using wf by (metis mset_eq_imp_distinct_iff wf_map_def, metis set_mset_mset)
  ultimately show "map phProviderID ?h = sorted_list_of_set (pvProviderID ` snd ` set r)"
    using inv snaps sorted_list_of_set.idem_if_sorted_distinct [of "map phProviderID ?h"]
    by (simp add: healthInv_def del: list.set_map)
  show "\<forall>h \<in> set ?h. let own = {s \<in> snd ` set r. pvProviderID s = phProviderID h}
       in phConnected h = (\<exists>s \<in> own. snapshotFresh s now) \<and>
          phStale h = (\<forall>s \<in> own. \<not> snapshotFresh s now) \<and>
          phPartial h = ((\<exists>s \<in> own. snapshotFresh s now) \<and> (\<exists>s \<in> own. \<not> snapshotFresh s now)) \<and>
          phRevision h = Max (pvRevision ` own) \<and> phKind h \<in> pvKind ` own \<and>
          phCapabilities h = sorted_list_of_set (\<Union>s \<in> own. set (pvCapabilities s))"
  proof
    fix h assume "h \<in> set ?h"
    then obtain p a where pa: "(p, a) \<in> set ?m" and h: "h = aggregateHealth a" by (auto simp: set_h)
    note a = agg [OF pa]
    let ?own = "ofProvider p (map snd (it1 r))"
    have own: "set ?own = {s \<in> snd ` set r. pvProviderID s = phProviderID h}"
      using a snaps by (auto simp: h aggregateHealth_def aggregates_def ofProvider_def)
    have caps: "sortStrings (keys (agCapability a)) = sorted_list_of_set (\<Union>s \<in> set ?own. set (pvCapabilities s))"
      using a sort_keys [of "agCapability a"] unfolding aggregates_def by metis
    have fresh: "0 < agFresh a \<longleftrightarrow> (\<exists>s \<in> set ?own. snapshotFresh s now)"
      and stale: "0 < agStale a \<longleftrightarrow> (\<exists>s \<in> set ?own. \<not> snapshotFresh s now)"
      and zero: "agFresh a = 0 \<longleftrightarrow> \<not> (\<exists>s \<in> set ?own. snapshotFresh s now)"
      and some: "?own \<noteq> []"
      using a int_filter_pos [of _ ?own] by (auto simp: aggregates_def filter_empty_conv)
    show "let own = {s \<in> snd ` set r. pvProviderID s = phProviderID h}
       in phConnected h = (\<exists>s \<in> own. snapshotFresh s now) \<and>
          phStale h = (\<forall>s \<in> own. \<not> snapshotFresh s now) \<and>
          phPartial h = ((\<exists>s \<in> own. snapshotFresh s now) \<and> (\<exists>s \<in> own. \<not> snapshotFresh s now)) \<and>
          phRevision h = Max (pvRevision ` own) \<and> phKind h \<in> pvKind ` own \<and>
          phCapabilities h = sorted_list_of_set (\<Union>s \<in> own. set (pvCapabilities s))"
      unfolding Let_def own [symmetric]
      using fresh stale zero some caps a by (auto simp: h aggregateHealth_def aggregates_def neq_Nil_conv)
  qed
qed

text \<open>
  C15. The health report lists every provider of the registry once, sorted, and is right about each:
  connected when some of its snapshots is fresh, stale when none is, partial when some are and some are
  not; its revision is the highest, its kind that of one of its snapshots, its capabilities all of them,
  sorted, each once. A snapshot is fresh when it was observed no more than a second ahead of the clock and
  its age, in Go's saturating durations, is within its time to live. Whatever the order of Go's maps,
  the report says this.
\<close>

theorem Registry_Health_exact:
  assumes "isIteration it1" and "isIteration it2"
  shows "let fresh = (\<lambda>s. pvObservedAt s \<le> now + second \<and>
      max (- (2 ^ 63)) (min (2 ^ 63 - 1) (now - pvObservedAt s)) \<le> pvTTL s)
    in map phProviderID (Registry_Health it1 it2 now r) = sorted_list_of_set (pvProviderID ` snd ` set r) \<and>
    (\<forall>h \<in> set (Registry_Health it1 it2 now r).
       let own = {s \<in> snd ` set r. pvProviderID s = phProviderID h}
       in phConnected h = (\<exists>s \<in> own. fresh s) \<and>
          phStale h = (\<forall>s \<in> own. \<not> fresh s) \<and>
          phPartial h = ((\<exists>s \<in> own. fresh s) \<and> (\<exists>s \<in> own. \<not> fresh s)) \<and>
          phRevision h = Max (pvRevision ` own) \<and> phKind h \<in> pvKind ` own \<and>
          phCapabilities h = sorted_list_of_set (\<Union>s \<in> own. set (pvCapabilities s)))"
proof -
  have fresh: "snapshotFresh s now \<longleftrightarrow> pvObservedAt s \<le> now + second \<and>
      max (- (2 ^ 63)) (min (2 ^ 63 - 1) (now - pvObservedAt s)) \<le> pvTTL s" for s
    by (simp add: snapshotFresh_def timeSub_def not_less)
  show ?thesis using Health_by_snapshots [OF assms, of now r] unfolding Let_def fresh .
qed

section \<open>The merged surfaces\<close>

definition viewsOf :: "Window list \<Rightarrow> View set" where
  "viewsOf ws = (\<Union>w \<in> set ws. set (wViews w))"

definition ownViews :: "ProviderSnapshot \<Rightarrow> View set" where
  "ownViews s = (\<Union>p \<in> set (pvWindows s). ownView (pvProviderID s) p ` set (wpViews p))"

lemma views_patchWindow [simp]:
  "wViews (patchWindow p patch w) = filter (\<lambda>v. vProviderID v \<noteq> p) (wViews w) @ map (ownView p patch) (wpViews patch)"
  by (simp add: patchWindow_def Let_def)

lemma indexOf_less: "indexOf P xs = Some i \<Longrightarrow> i < length xs"
  by (induction xs arbitrary: i) (auto split: if_splits)

lemma viewsOf_update:
  assumes "i < length ws"
  shows "viewsOf (ws[i := w']) \<subseteq> viewsOf ws \<union> set (wViews w')"
    and "(\<And>v. v \<in> set (wViews (ws ! i)) \<Longrightarrow> Q v \<Longrightarrow> v \<in> set (wViews w')) \<Longrightarrow>
      v \<in> viewsOf ws \<Longrightarrow> Q v \<Longrightarrow> v \<in> viewsOf (ws[i := w'])"
proof -
  show "viewsOf (ws[i := w']) \<subseteq> viewsOf ws \<union> set (wViews w')"
    unfolding viewsOf_def using set_update_subset_insert [of ws i w'] by blast
  assume keep: "\<And>v. v \<in> set (wViews (ws ! i)) \<Longrightarrow> Q v \<Longrightarrow> v \<in> set (wViews w')" and v: "v \<in> viewsOf ws" "Q v"
  from v(1) obtain j where j: "j < length ws" "v \<in> set (wViews (ws ! j))"
    unfolding viewsOf_def by (metis UN_E in_set_conv_nth)
  show "v \<in> viewsOf (ws[i := w'])"
  proof (cases "j = i")
    case True
    with keep v(2) j(2) have "v \<in> set (wViews w')" by simp
    moreover have "w' \<in> set (ws[i := w'])" using assms by (simp add: set_update_memI)
    ultimately show ?thesis by (auto simp: viewsOf_def)
  next
    case False
    with j(1) have "ws ! j \<in> set (ws[i := w'])" by (metis length_list_update nth_list_update_neq nth_mem)
    with j(2) show ?thesis by (auto simp: viewsOf_def)
  qed
qed

text \<open>The window that a patch addresses, and the windows after a missing one is added.\<close>

lemma mergePatch_form:
  obtains ws' i where "mergePatch p ws patch = ws'[i := patchWindow p patch (ws' ! i)]" and "i < length ws'"
    and "viewsOf ws' = viewsOf ws"
proof (cases "if wpWindowID patch \<noteq> '''' then indexOf (\<lambda>w. wID w = wpWindowID patch) ws
    else if length ws = 1 then Some 0 else None")
  case None
  then have "mergePatch p ws patch = (ws @ [newWindow p patch])[length ws := patchWindow p patch ((ws @ [newWindow p patch]) ! length ws)]"
    by (simp only: mergePatch_def Let_def option.case split_conv)
  then show ?thesis by (rule that) (simp_all add: viewsOf_def newWindow_def)
next
  case (Some i)
  then have "mergePatch p ws patch = ws[i := patchWindow p patch (ws ! i)]"
    by (simp only: mergePatch_def Let_def option.case split_conv)
  then show ?thesis using Some by (intro that [of ws i]) (auto dest: indexOf_less split: if_splits)
qed

lemma mergePatch_views:
  "viewsOf (mergePatch p ws patch) \<subseteq> viewsOf ws \<union> ownView p patch ` set (wpViews patch)"
  "v \<in> viewsOf ws \<Longrightarrow> vProviderID v \<noteq> p \<Longrightarrow> v \<in> viewsOf (mergePatch p ws patch)"
proof -
  obtain ws' i where m: "mergePatch p ws patch = ws'[i := patchWindow p patch (ws' ! i)]" "i < length ws'"
    "viewsOf ws' = viewsOf ws" by (rule mergePatch_form)
  have "set (wViews (ws' ! i)) \<subseteq> viewsOf ws'"
    using m(2) nth_mem unfolding viewsOf_def by blast
  with viewsOf_update(1) [OF m(2), of "patchWindow p patch (ws' ! i)"] m(3)
  show "viewsOf (mergePatch p ws patch) \<subseteq> viewsOf ws \<union> ownView p patch ` set (wpViews patch)"
    unfolding m(1) by auto
  assume "v \<in> viewsOf ws" "vProviderID v \<noteq> p"
  with viewsOf_update(2) [OF m(2), of "\<lambda>v. vProviderID v \<noteq> p" "patchWindow p patch (ws' ! i)" v] m(3)
  show "v \<in> viewsOf (mergePatch p ws patch)" unfolding m(1) by simp
qed

lemma foldl_mergePatch_views:
  "viewsOf (foldl (mergePatch p) ws patches) \<subseteq> viewsOf ws \<union> (\<Union>patch \<in> set patches. ownView p patch ` set (wpViews patch))"
  "v \<in> viewsOf ws \<Longrightarrow> vProviderID v \<noteq> p \<Longrightarrow> v \<in> viewsOf (foldl (mergePatch p) ws patches)"
proof (induction patches arbitrary: ws)
  case (Cons patch patches)
  { case 1
    show ?case using Cons.IH(1) [of "mergePatch p ws patch"] mergePatch_views(1) [of p ws patch] by auto
  next
    case 2
    then show ?case using Cons.IH(2) mergePatch_views(2) by simp
  }
qed simp_all

lemma applyToSurface_facts:
  "asAppID (applyToSurface s app) = asAppID app"
  "viewsOf (asWindows (applyToSurface s app)) \<subseteq> viewsOf (asWindows app) \<union> ownViews s"
  "v \<in> viewsOf (asWindows app) \<Longrightarrow> vProviderID v \<noteq> pvProviderID s \<Longrightarrow> v \<in> viewsOf (asWindows (applyToSurface s app))"
proof -
  have w: "asWindows (applyToSurface s app) = foldl (mergePatch (pvProviderID s)) (asWindows app) (pvWindows s)"
    and "asAppID (applyToSurface s app) = asAppID app"
    by (simp_all add: applyToSurface_def mergeWindows_def Let_def)
  then show "asAppID (applyToSurface s app) = asAppID app" by simp
  show "viewsOf (asWindows (applyToSurface s app)) \<subseteq> viewsOf (asWindows app) \<union> ownViews s"
    unfolding w ownViews_def by (rule foldl_mergePatch_views(1))
  show "v \<in> viewsOf (asWindows app) \<Longrightarrow> vProviderID v \<noteq> pvProviderID s \<Longrightarrow> v \<in> viewsOf (asWindows (applyToSurface s app))"
    unfolding w by (rule foldl_mergePatch_views(2))
qed

lemma viewsOf_Normalize [simp]: "viewsOf (asWindows (ApplicationSurface_Normalize a)) = viewsOf (asWindows a)"
  by (simp add: viewsOf_def Normalize_windows)

text \<open>The application that a report is merged into, and the reports of an application in merge order.\<close>

definition mergeTarget :: "(string \<Rightarrow> string) \<Rightarrow> identityIndex \<Rightarrow> ProviderSnapshot \<Rightarrow> string" where
  "mergeTarget uni ids s =
     (if pvKind s = SourceNative then pvAppID s
      else case resolveNativeIdentity uni s ids of Some canonical \<Rightarrow> canonical | None \<Rightarrow> pvAppID s)"

definition mergedApp :: "ProviderSnapshot list \<Rightarrow> ApplicationSurface \<Rightarrow> ApplicationSurface" where
  "mergedApp ss app = foldl (\<lambda>app s. applyToSurface s app) app ss"

definition orphanApp :: "string \<Rightarrow> ProviderSnapshot list \<Rightarrow> ApplicationSurface" where
  "orphanApp k ss = (case dropWhile (\<lambda>s. \<not> pvAllowOrphan s) ss of
     [] \<Rightarrow> emptySurface | s # rest \<Rightarrow> mergedApp (s # rest) (orphanSurface (s\<lparr>pvAppID := k\<rparr>)))"

definition lastWithID :: "ApplicationSurface list \<Rightarrow> nat \<Rightarrow> bool" where
  "lastWithID base i \<longleftrightarrow> i < length base \<and> asAppID (base ! i) \<notin> asAppID ` set (drop (Suc i) base)"

lemma applyToSurface_appID [simp]: "applyToSurface (s\<lparr>pvAppID := k\<rparr>) app = applyToSurface s app"
  by (simp add: applyToSurface_def mergeWindows_def Let_def)

lemma mergedApp_simps [simp]: "mergedApp [] app = app" "mergedApp (s # ss) app = mergedApp ss (applyToSurface s app)"
  "mergedApp (ss @ [s]) app = applyToSurface s (mergedApp ss app)"
  by (simp_all add: mergedApp_def)

lemma mergedApp_id [simp]: "asAppID (mergedApp ss app) = asAppID app"
  by (induction ss arbitrary: app) (simp_all add: applyToSurface_facts(1))

lemma mergedApp_views:
  "viewsOf (asWindows (mergedApp ss app)) \<subseteq> viewsOf (asWindows app) \<union> (\<Union>s \<in> set ss. ownViews s)"
  "v \<in> viewsOf (asWindows app) \<Longrightarrow> \<forall>s \<in> set ss. vProviderID v \<noteq> pvProviderID s \<Longrightarrow> v \<in> viewsOf (asWindows (mergedApp ss app))"
proof (induction ss arbitrary: app)
  case (Cons s ss)
  { case 1 show ?case using Cons.IH(1) [of "applyToSurface s app"] applyToSurface_facts(2) [of s app] by auto
  next
    case 2 then show ?case using Cons.IH(2) applyToSurface_facts(3) by simp
  }
qed simp_all

lemma orphanApp_first:
  "\<forall>s \<in> set ss. \<not> pvAllowOrphan s \<Longrightarrow> pvAllowOrphan s \<Longrightarrow>
   orphanApp k (ss @ [s]) = applyToSurface s (orphanSurface (s\<lparr>pvAppID := k\<rparr>))"
  by (simp add: orphanApp_def dropWhile_append2)

lemma orphanApp_next:
  assumes "\<exists>s \<in> set ss. pvAllowOrphan s"
  shows "orphanApp k (ss @ [s]) = applyToSurface s (orphanApp k ss)" "asAppID (orphanApp k ss) = k"
proof -
  have d: "dropWhile (\<lambda>s. \<not> pvAllowOrphan s) (ss @ [s]) = dropWhile (\<lambda>s. \<not> pvAllowOrphan s) ss @ [s]"
    using assms by (auto simp: dropWhile_append1)
  have "dropWhile (\<lambda>s. \<not> pvAllowOrphan s) ss \<noteq> []" using assms by (auto simp: dropWhile_eq_Nil_conv)
  then obtain a rest where a: "dropWhile (\<lambda>s. \<not> pvAllowOrphan s) ss = a # rest" by (metis neq_Nil_conv)
  show "orphanApp k (ss @ [s]) = applyToSurface s (orphanApp k ss)" unfolding orphanApp_def d a by simp
  show "asAppID (orphanApp k ss) = k" unfolding orphanApp_def a by (simp add: orphanSurface_def applyToSurface_facts(1))
qed

lemma orphanApp_views: "viewsOf (asWindows (orphanApp k ss)) \<subseteq> (\<Union>s \<in> set ss. ownViews s)"
proof (cases "dropWhile (\<lambda>s. \<not> pvAllowOrphan s) ss")
  case (Cons s rest)
  then have "set (s # rest) \<subseteq> set ss" by (metis set_dropWhileD subsetI)
  moreover have "asWindows (orphanSurface (s\<lparr>pvAppID := k\<rparr>)) = []" by (simp add: orphanSurface_def emptySurface_def)
  ultimately show ?thesis
    using mergedApp_views(1) [of "s # rest" "orphanSurface (s\<lparr>pvAppID := k\<rparr>)"] Cons by (force simp: orphanApp_def viewsOf_def)
next
  case Nil
  show ?thesis unfolding orphanApp_def Nil by (simp add: emptySurface_def viewsOf_def)
qed

lemma lastWithID_unique: "lastWithID base i \<Longrightarrow> lastWithID base j \<Longrightarrow> asAppID (base ! i) = asAppID (base ! j) \<Longrightarrow> i = j"
proof (induction i j rule: linorder_wlog)
  case (le i j)
  show ?case
  proof (rule ccontr)
    assume "i \<noteq> j"
    with le have "i < j" "j < length base" by (simp_all add: lastWithID_def)
    then have "drop (Suc i) base ! (j - Suc i) \<in> set (drop (Suc i) base)" by (intro nth_mem) simp
    with \<open>i < j\<close> \<open>j < length base\<close> have "base ! j \<in> set (drop (Suc i) base)" by simp
    with le show False by (auto simp: lastWithID_def)
  qed
qed auto

lemma lastWithID_ex: "k \<in> asAppID ` set base \<Longrightarrow> \<exists>i. lastWithID base i \<and> asAppID (base ! i) = k"
proof (induction base)
  case (Cons b base)
  show ?case
  proof (cases "k \<in> asAppID ` set base")
    case True
    with Cons.IH obtain i where "lastWithID base i" "asAppID (base ! i) = k" by blast
    then show ?thesis by (intro exI [of _ "Suc i"]) (simp add: lastWithID_def)
  next
    case False
    with Cons.prems show ?thesis by (intro exI [of _ 0]) (auto simp: lastWithID_def)
  qed
qed simp

text \<open>The state of the merge, when \<open>att k\<close> are the reports of application \<open>k\<close> seen so far.\<close>

definition mergedBase :: "ApplicationSurface list \<Rightarrow> (string \<Rightarrow> ProviderSnapshot list) \<Rightarrow> nat \<Rightarrow> ApplicationSurface" where
  "mergedBase base att i =
     (if lastWithID base i then mergedApp (att (asAppID (base ! i))) (ApplicationSurface_Clone (base ! i))
      else ApplicationSurface_Clone (base ! i))"

definition mergeState :: "ApplicationSurface list \<Rightarrow> (string \<Rightarrow> ProviderSnapshot list) \<Rightarrow> string list \<Rightarrow> applyState \<Rightarrow> bool" where
  "mergeState base att orphans st \<longleftrightarrow>
     fst st = map (mergedBase base att) [0..<length base] @ map (\<lambda>k. orphanApp k (att k)) orphans \<and> distinct orphans \<and>
     set orphans = {k. k \<notin> asAppID ` set base \<and> (\<exists>s \<in> set (att k). pvAllowOrphan s)} \<and>
     (\<forall>k i. map_of (snd st) k = Some i \<longleftrightarrow>
        lastWithID base i \<and> asAppID (base ! i) = k \<or> (\<exists>j < length orphans. orphans ! j = k \<and> i = length base + j))"

lemma mergeState_base: "mergeState base (\<lambda>k. []) [] (foldl addBase ([], []) base)"
proof -
  have fst: "fst (foldl addBase st bs) = fst st @ map ApplicationSurface_Clone bs" for st bs
    by (induction bs arbitrary: st) (simp_all add: addBase_def Let_def)
  have snd_add: "snd (addBase st b) = put (asAppID b) (length (fst st)) (snd st)" for st b
    by (simp add: addBase_def Let_def ApplicationSurface_Clone_def)
  have "map_of (snd (foldl addBase ([], []) bs)) k = Some i \<longleftrightarrow> lastWithID bs i \<and> asAppID (bs ! i) = k" for bs k i
  proof (induction bs arbitrary: k i rule: rev_induct)
    case (snoc b bs)
    have put: "snd (foldl addBase ([], []) (bs @ [b])) = put (asAppID b) (length bs) (snd (foldl addBase ([], []) bs))"
      using fst [of "([], [])" bs] by (simp add: snd_add)
    have last: "lastWithID (bs @ [b]) i \<longleftrightarrow> i = length bs \<or> lastWithID bs i \<and> asAppID (bs ! i) \<noteq> asAppID b"
      by (auto simp: lastWithID_def nth_append less_Suc_eq)
    show ?case
    proof (cases "i = length bs")
      case True
      then show ?thesis using snoc.IH unfolding put last by (auto simp: lastWithID_def)
    next
      case False
      then show ?thesis using snoc.IH [of k i] unfolding put last by (auto simp: lastWithID_def nth_append)
    qed
  qed (simp add: lastWithID_def)
  moreover have "map (mergedBase base (\<lambda>k. [])) [0..<length base] = map ApplicationSurface_Clone base"
    by (intro nth_equalityI) (simp_all add: mergedBase_def)
  ultimately show ?thesis unfolding mergeState_def fst by simp
qed

lemma mergeState_update:
  assumes "mergeState base att orphans st" and "map_of (snd st) k = Some i"
  shows "mergeState base (att(k := att k @ [s])) orphans ((fst st)[i := applyToSurface s (fst st ! i)], snd st)"
proof -
  let ?att = "att(k := att k @ [s])"
  note a = assms(1) [unfolded mergeState_def]
  from a assms(2) consider (base) "lastWithID base i" "asAppID (base ! i) = k"
    | (orphanApp) j where "j < length orphans" "orphans ! j = k" "i = length base + j" by blast
  then have lists: "(fst st)[i := applyToSurface s (fst st ! i)] =
      map (mergedBase base ?att) [0..<length base] @ map (\<lambda>k. orphanApp k (?att k)) orphans \<and>
      set orphans = {k. k \<notin> asAppID ` set base \<and> (\<exists>s \<in> set (?att k). pvAllowOrphan s)}"
  proof cases
    case base
    have i: "i < length base" using base(1) by (simp add: lastWithID_def)
    have k: "k \<in> asAppID ` set base" using base(2) i nth_mem by blast
    then have "k \<notin> set orphans" using a by blast
    then have "map (\<lambda>k. orphanApp k (?att k)) orphans = map (\<lambda>k. orphanApp k (att k)) orphans" by simp
    moreover have "(map (mergedBase base att) [0..<length base])[i := applyToSurface s (mergedBase base att i)] =
        map (mergedBase base ?att) [0..<length base]"
    proof (intro nth_equalityI)
      fix i' assume "i' < length ((map (mergedBase base att) [0..<length base])[i := applyToSurface s (mergedBase base att i)])"
      then show "(map (mergedBase base att) [0..<length base])[i := applyToSurface s (mergedBase base att i)] ! i' =
          map (mergedBase base ?att) [0..<length base] ! i'"
        using base i lastWithID_unique [OF base(1), of i'] by (cases "i' = i") (auto simp: mergedBase_def)
    qed simp
    moreover have "fst st ! i = mergedBase base att i" using a i by (simp add: nth_append)
    moreover have "(fst st)[i := x] = (map (mergedBase base att) [0..<length base])[i := x] @ map (\<lambda>k. orphanApp k (att k)) orphans" for x
      using a i by (simp add: list_update_append)
    moreover have "set orphans = {k. k \<notin> asAppID ` set base \<and> (\<exists>s \<in> set (?att k). pvAllowOrphan s)}"
      using a k by auto
    ultimately show ?thesis by metis
  next
    case orphanApp
    have k: "k \<in> set orphans" using orphanApp by (metis nth_mem)
    with a have al: "\<exists>s \<in> set (att k). pvAllowOrphan s" and nb: "k \<notin> asAppID ` set base" by auto
    have "map (mergedBase base ?att) [0..<length base] = map (mergedBase base att) [0..<length base]"
      by (intro map_cong refl) (use nb in \<open>auto simp: mergedBase_def lastWithID_def\<close>)
    moreover have "(map (\<lambda>k. orphanApp k (att k)) orphans)[j := applyToSurface s (orphanApp k (att k))] = map (\<lambda>k. orphanApp k (?att k)) orphans"
    proof (intro nth_equalityI)
      fix j' assume "j' < length ((map (\<lambda>k. orphanApp k (att k)) orphans)[j := applyToSurface s (orphanApp k (att k))])"
      moreover from this a have "orphans ! j' = k \<longleftrightarrow> j' = j" using orphanApp by (auto simp: nth_eq_iff_index_eq)
      ultimately show "(map (\<lambda>k. orphanApp k (att k)) orphans)[j := applyToSurface s (orphanApp k (att k))] ! j' =
          map (\<lambda>k. orphanApp k (?att k)) orphans ! j'"
        using orphanApp_next(1) [OF al] orphanApp(2) by (auto simp: nth_list_update)
    qed simp
    moreover have "fst st ! i = orphanApp k (att k)" using a orphanApp by (simp add: nth_append)
    moreover have "(fst st)[i := x] = map (mergedBase base att) [0..<length base] @ (map (\<lambda>k. orphanApp k (att k)) orphans)[j := x]" for x
      using a orphanApp by (simp add: list_update_append)
    moreover have "set orphans = {k. k \<notin> asAppID ` set base \<and> (\<exists>s \<in> set (?att k). pvAllowOrphan s)}"
      using a al k by auto
    ultimately show ?thesis by metis
  qed
  then show ?thesis using a unfolding mergeState_def fst_conv snd_conv by blast
qed

lemma mergeState_skip:
  assumes "mergeState base att orphans st" and "map_of (snd st) k = None" and "\<not> pvAllowOrphan s"
  shows "mergeState base (att(k := att k @ [s])) orphans st"
proof -
  note a = assms(1) [unfolded mergeState_def]
  have nb: "k \<notin> asAppID ` set base" using a assms(2) lastWithID_ex [of k base] by (metis option.distinct(1))
  have no: "k \<notin> set orphans" using a assms(2) by (metis in_set_conv_nth option.distinct(1))
  have "map (mergedBase base (att(k := att k @ [s]))) [0..<length base] = map (mergedBase base att) [0..<length base]"
    by (intro map_cong refl) (use nb in \<open>auto simp: mergedBase_def lastWithID_def\<close>)
  moreover have "map (\<lambda>k'. orphanApp k' ((att(k := att k @ [s])) k')) orphans = map (\<lambda>k. orphanApp k (att k)) orphans"
    using no by auto
  ultimately show ?thesis using a assms(3) unfolding mergeState_def by (simp add: set_eq_iff)
qed

lemma mergeState_orphan:
  assumes "mergeState base att orphans st" and "map_of (snd st) k = None" and "pvAllowOrphan s"
  shows "mergeState base (att(k := att k @ [s])) (orphans @ [k])
    (fst st @ [applyToSurface s (orphanSurface (s\<lparr>pvAppID := k\<rparr>))], put k (length (fst st)) (snd st))"
proof -
  let ?att = "att(k := att k @ [s])"
  note a = assms(1) [unfolded mergeState_def]
  have nb: "k \<notin> asAppID ` set base" using a assms(2) lastWithID_ex [of k base] by (metis option.distinct(1))
  have no: "k \<notin> set orphans" using a assms(2) by (metis in_set_conv_nth option.distinct(1))
  have none: "\<forall>s \<in> set (att k). \<not> pvAllowOrphan s" using a nb no by auto
  have base: "map (mergedBase base ?att) [0..<length base] = map (mergedBase base att) [0..<length base]"
    by (intro map_cong refl) (use nb in \<open>auto simp: mergedBase_def lastWithID_def\<close>)
  have os: "map (\<lambda>k'. orphanApp k' (?att k')) orphans = map (\<lambda>k. orphanApp k (att k)) orphans" using no by auto
  have set: "set (orphans @ [k]) = {k. k \<notin> asAppID ` set base \<and> (\<exists>s \<in> set (?att k). pvAllowOrphan s)}"
    using a nb assms(3) by auto
  have len: "length (fst st) = length base + length orphans" using a by simp
  have index: "map_of (put k (length (fst st)) (snd st)) k' = Some i \<longleftrightarrow>
      lastWithID base i \<and> asAppID (base ! i) = k' \<or>
      (\<exists>j < length (orphans @ [k]). (orphans @ [k]) ! j = k' \<and> i = length base + j)" for k' i
  proof (cases "k' = k")
    case True
    have "j = length orphans" if "j < length (orphans @ [k])" "(orphans @ [k]) ! j = k" for j
      using that no nth_mem [of j orphans] by (cases "j < length orphans") (auto simp: nth_append)
    moreover have "(orphans @ [k]) ! length orphans = k" by simp
    ultimately have "(\<exists>j < length (orphans @ [k]). (orphans @ [k]) ! j = k \<and> i = length base + j) \<longleftrightarrow> i = length base + length orphans"
      by (metis length_append_singleton lessI)
    moreover have "\<not> (lastWithID base i \<and> asAppID (base ! i) = k)" using nb by (auto simp: lastWithID_def)
    ultimately show ?thesis using True len by auto
  next
    case False
    then have "(\<exists>j < length (orphans @ [k]). (orphans @ [k]) ! j = k' \<and> i = length base + j) \<longleftrightarrow>
        (\<exists>j < length orphans. orphans ! j = k' \<and> i = length base + j)"
      by (auto simp: nth_append less_Suc_eq)
    with False show ?thesis using a by simp
  qed
  have "fst st @ [applyToSurface s (orphanSurface (s\<lparr>pvAppID := k\<rparr>))] =
      map (mergedBase base ?att) [0..<length base] @ map (\<lambda>k'. orphanApp k' (?att k')) (orphans @ [k])"
    using a base os orphanApp_first [OF none assms(3), of k] by simp
  moreover have "distinct (orphans @ [k])" using a no by simp
  ultimately show ?thesis
    unfolding mergeState_def fst_conv snd_conv
    by (rule conjI [OF _ conjI [OF _ conjI [OF set allI [OF allI [OF index]]]]])
qed

text \<open>The reports of application \<open>k\<close> among \<open>ss\<close>.\<close>

definition reportsOf :: "(string \<Rightarrow> string) \<Rightarrow> identityIndex \<Rightarrow> int \<Rightarrow> ProviderSnapshot list \<Rightarrow> string \<Rightarrow> ProviderSnapshot list" where
  "reportsOf uni ids now ss k = filter (\<lambda>s. snapshotFresh s now \<and> mergeTarget uni ids s = k) ss"

lemma applyStep_applied:
  assumes "mergeState base (reportsOf uni ids now ss) orphans st"
  shows "\<exists>orphans. mergeState base (reportsOf uni ids now (ss @ [s])) orphans (applyStep uni now ids st s)"
proof (cases "snapshotFresh s now")
  case True
  let ?k = "mergeTarget uni ids s"
  have att: "reportsOf uni ids now (ss @ [s]) = (reportsOf uni ids now ss)(?k := reportsOf uni ids now ss ?k @ [s])"
    using True by (auto simp: reportsOf_def)
  have s: "(if pvKind s \<noteq> SourceNative
      then (case resolveNativeIdentity uni s ids of Some canonical \<Rightarrow> s\<lparr>pvAppID := canonical\<rparr> | None \<Rightarrow> s)
      else s) = s\<lparr>pvAppID := ?k\<rparr>"
    by (simp add: mergeTarget_def split: option.split)
  show ?thesis
    unfolding att applyStep_def Let_def s
    using True mergeState_update [OF assms, of ?k _ s] mergeState_skip [OF assms, of ?k s] mergeState_orphan [OF assms, of ?k s]
    by (auto split: option.splits)
next
  case False
  then have "reportsOf uni ids now (ss @ [s]) = reportsOf uni ids now ss" by (simp add: reportsOf_def fun_eq_iff)
  with assms False show ?thesis by (auto simp: applyStep_def)
qed


section \<open>Witnesses\<close>

definition sampleSnapshot :: "string \<Rightarrow> string \<Rightarrow> string \<Rightarrow> 64 word \<Rightarrow> ProviderSnapshot" where
  "sampleSnapshot p kind app r = \<lparr>pvProviderID = p, pvKind = kind, pvAppID = app, pvIdentityHints = [],
     pvObservedAt = 1, pvTTL = 5 * second, pvPriority = 0, pvRevision = r, pvAllowOrphan = True,
     pvApplicationName = '''', pvIconName = '''', pvDesktopAppID = app @ ''.desktop'',
     pvWindows = [\<lparr>wpWindowID = '''', wpProviderWindowID = ''1'', wpTitle = ''T'', wpWorkspaceID = '''', wpMonitorRef = '''',
       wpFocused = False, wpMinimized = False, wpMRU = 0, wpAuthoritativeState = False,
       wpViews = [emptyView\<lparr>vID := ''v''\<rparr>]\<rparr>],
     pvStatus = emptyPatch, pvCapabilities = [''view.observe'', ''view.observe''], pvConfidence = 2\<rparr>"

definition sampleRegistry :: Registry where
  "sampleRegistry = [(snapshotKey (sampleSnapshot ''p'' ''native'' ''code'' 1), sampleSnapshot ''p'' ''native'' ''code'' 1),
     (snapshotKey (sampleSnapshot ''q'' ''extension'' ''org.x.Code'' 1),
      (sampleSnapshot ''q'' ''extension'' ''org.x.Code'' 1)\<lparr>pvIdentityHints := [''Code'']\<rparr>)]"

lemma goodRegistry_Cons:
  "goodSnapshot s \<Longrightarrow> k = snapshotKey s \<Longrightarrow> map_of r k = None \<Longrightarrow> goodRegistry r \<Longrightarrow> goodRegistry ((k, s) # r)"
  by (auto simp: goodRegistry_def wf_map_def map_of_eq_None_iff)

lemma sampleRegistry_good: "goodRegistry sampleRegistry"
  unfolding sampleRegistry_def
proof (intro goodRegistry_Cons)
  show "goodSnapshot (sampleSnapshot ''p'' ''native'' ''code'' 1)" by code_simp
  show "goodSnapshot ((sampleSnapshot ''q'' ''extension'' ''org.x.Code'' 1)\<lparr>pvIdentityHints := [''Code'']\<rparr>)" by code_simp
  show "goodRegistry []" by (simp add: goodRegistry_def)
qed (simp_all add: snapshotKey_def sampleSnapshot_def)

lemma Registry_ReplaceProvider_spec_witness:
  "fst (Registry_ReplaceProvider (\<lambda>s. s) rev '' p'' [sampleSnapshot ''p'' ''native'' ''gimp'' 1] sampleRegistry) = None \<and>
   goodRegistry (snd (Registry_ReplaceProvider (\<lambda>s. s) rev '' p'' [sampleSnapshot ''p'' ''native'' ''gimp'' 1] sampleRegistry))"
proof -
  let ?r = "Registry_ReplaceProvider (\<lambda>s. s) rev '' p'' [sampleSnapshot ''p'' ''native'' ''gimp'' 1] sampleRegistry"
  have none: "fst ?r = None" by code_simp
  have "case ?r of (Some e, r') \<Rightarrow> r' = sampleRegistry
    | (None, r') \<Rightarrow> goodRegistry r' \<and>
        (\<forall>s. pvProviderID s = TrimSpace '' p'' \<longrightarrow>
          ((\<exists>k. map_of r' k = Some s) \<longleftrightarrow>
           (\<exists>raw \<in> set [sampleSnapshot ''p'' ''native'' ''gimp'' 1].
              normalizeSnapshot (\<lambda>s. s) (ownSnapshot (TrimSpace '' p'') raw) = Inr s))) \<and>
        (\<forall>k s. pvProviderID s \<noteq> TrimSpace '' p'' \<longrightarrow> (map_of r' k = Some s \<longleftrightarrow> map_of sampleRegistry k = Some s)) \<and>
        (\<forall>k s prev. map_of sampleRegistry k = Some prev \<longrightarrow> map_of r' k = Some s \<longrightarrow> pvRevision prev \<le> pvRevision s)"
  proof (rule Registry_ReplaceProvider_spec [OF sampleRegistry_good isIteration_rev])
    show "nulFree (pvProviderID s)" if "map_of sampleRegistry k = Some s" for k s
      using that by (auto simp: sampleRegistry_def sampleSnapshot_def nulFree_def split: if_splits)
    show "nulFree (TrimSpace '' p'')" by code_simp
  qed
  with none show ?thesis by (auto split: prod.splits option.splits)
qed

lemma resolveNativeIdentity_iff_witness:
  "resolveNativeIdentity (\<lambda>s. s) (snd (sampleRegistry ! 1))
     (buildNativeIdentityIndex (\<lambda>s. s) (map snd sampleRegistry) 2) = Some ''code'' \<and>
   {b. \<exists>key \<in> set (snapshotIdentityKeys (\<lambda>s. s) (snd (sampleRegistry ! 1))).
      owners (\<lambda>s. s) (map snd sampleRegistry) 2 key = {b}} = {''code''}"
proof -
  have "resolveNativeIdentity (\<lambda>s. s) (snd (sampleRegistry ! 1))
     (buildNativeIdentityIndex (\<lambda>s. s) (map snd sampleRegistry) 2) = Some ''code''" by code_simp
  moreover have ids: "pvAppID n \<noteq> ''''" if "n \<in> set (map snd sampleRegistry)" for n
    using that by (auto simp: sampleRegistry_def sampleSnapshot_def)
  ultimately show ?thesis
    using resolveNativeIdentity_iff [of "map snd sampleRegistry" "\<lambda>s. s" "snd (sampleRegistry ! 1)" 2 "''code''", OF ids]
    by (simp only: simp_thms)
qed

text \<open>The provider \<open>p\<close> has one snapshot that is fresh and one that is not; both count for its revision.\<close>

definition healthRegistry :: Registry where
  "healthRegistry = (let old = (sampleSnapshot ''p'' ''native'' ''gimp'' 7)\<lparr>pvTTL := 0\<rparr>
     in sampleRegistry @ [(snapshotKey old, old)])"

lemma Registry_Health_exact_witness:
  "map (\<lambda>h. (phProviderID h, phConnected h, phStale h, phPartial h, phRevision h, phCapabilities h))
     (Registry_Health rev (\<lambda>m. m) 2 healthRegistry) =
     [(''p'', True, False, True, 7, [''view.observe'']), (''q'', True, False, False, 1, [''view.observe''])] \<and>
   map phProviderID (Registry_Health rev (\<lambda>m. m) 2 healthRegistry) =
     sorted_list_of_set (pvProviderID ` snd ` set healthRegistry)"
proof
  show "map (\<lambda>h. (phProviderID h, phConnected h, phStale h, phPartial h, phRevision h, phCapabilities h))
     (Registry_Health rev (\<lambda>m. m) 2 healthRegistry) =
     [(''p'', True, False, True, 7, [''view.observe'']), (''q'', True, False, False, 1, [''view.observe''])]"
    by code_simp
  show "map phProviderID (Registry_Health rev (\<lambda>m. m) 2 healthRegistry) =
     sorted_list_of_set (pvProviderID ` snd ` set healthRegistry)"
    using Registry_Health_exact [OF isIteration_rev isIteration_id, of 2 healthRegistry] unfolding Let_def by (rule conjunct1)
qed

definition sampleReports :: "string \<Rightarrow> ProviderSnapshot list" where
  "sampleReports =
     (let snaps = sortFunc snapshotCompare (map snd (rev sampleRegistry))
      in reportsOf (\<lambda>s. s) (buildNativeIdentityIndex (\<lambda>s. s) snaps 2) 2 snaps)"


text \<open>
  Two windows that a provider reports without a window identifier are meant to stay two: but once
  the first one has been added it is the application's only window, so the second is merged into
  it and replaces its views. A third one gets its own window.
\<close>

lemma mergeWindows_collapses:
  "let patch = (\<lambda>i. \<lparr>wpWindowID = '''', wpProviderWindowID = i, wpTitle = i, wpWorkspaceID = '''', wpMonitorRef = '''',
         wpFocused = False, wpMinimized = False, wpMRU = 0, wpAuthoritativeState = False,
         wpViews = [emptyView\<lparr>vID := i\<rparr>]\<rparr>);
       snap = (sampleSnapshot ''p'' ''extension'' ''a'' 1)\<lparr>pvWindows := [patch ''1'', patch ''2'']\<rparr>
   in map (\<lambda>w. (wID w, wTitle w, map vID (wViews w))) (asWindows (mergeWindows emptySurface snap)) =
        [(''provider:p:1'', ''2'', [''2''])]"
  by code_simp

end
