(* ===== verification/ProviderFeeds.thy ===== *)
theory ProviderFeeds
  imports Registry
begin

text \<open>
  What the providers' own packages make of their raw data: the browser and editor snapshots
  (\<open>internal/providers/browser\<close>, \<open>vscode\<close>), views from the accessibility tree (\<open>atspi\<close>), and the
  status items, media players and launcher entries (\<open>status\<close>, \<open>mpris\<close>, \<open>launcherentry\<close>). A value
  on the session bus is a \<open>variant\<close>.
\<close>

section \<open>Zero values\<close>

definition blankSnapshot :: ProviderSnapshot where
  "blankSnapshot = \<lparr>pvProviderID = '''', pvKind = '''', pvAppID = '''', pvIdentityHints = [], pvObservedAt = 0, pvTTL = 0,
     pvPriority = 0, pvRevision = 0, pvAllowOrphan = False, pvApplicationName = '''', pvIconName = '''',
     pvDesktopAppID = '''', pvWindows = [], pvStatus = emptyPatch, pvCapabilities = [], pvConfidence = 0\<rparr>"

definition zeroWindowPatch :: WindowPatch where
  "zeroWindowPatch = \<lparr>wpWindowID = '''', wpProviderWindowID = '''', wpTitle = '''', wpWorkspaceID = '''', wpMonitorRef = '''',
     wpFocused = False, wpMinimized = False, wpMRU = 0, wpAuthoritativeState = False, wpViews = []\<rparr>"

section \<open>Browser\<close>

record BrowserTab =
  btID :: int
  btWindowID :: int
  btTitle :: string
  btActive :: bool
  btPinned :: bool
  btAudible :: bool
  btMuted :: bool
  btIncognito :: bool
  btMRU :: "64 word"

record BrowserSnapshot =
  bsSchema :: "32 word"
  bsBrowser :: string
  bsAppID :: string
  bsRevision :: "64 word"
  bsCapturedAt :: int
  bsTabs :: "BrowserTab list"

definition tabView :: "BrowserTab \<Rightarrow> View" where
  "tabView t =
     (let meta = (if btAudible t then put ''audible'' ''true'' [] else []);
          meta = (if btMuted t then put ''muted'' ''true'' meta else meta)
      in emptyView\<lparr>vID := ''tab:'' @ Itoa (btID t), vKind := ViewTab, vTitle := btTitle t, vActive := btActive t,
           vPinned := btPinned t, vMRU := btMRU t, vAttention := AttentionNormal, vMetadata := meta\<rparr>)"

definition addTab :: "(int, View list) gomap \<Rightarrow> BrowserTab \<Rightarrow> (int, View list) gomap" where
  "addTab byWindow t =
     (if btIncognito t then byWindow
      else put (btWindowID t) ((case map_of byWindow (btWindowID t) of Some vs \<Rightarrow> vs | None \<Rightarrow> []) @ [tabView t]) byWindow)"

definition patchCompare :: "WindowPatch \<Rightarrow> WindowPatch \<Rightarrow> int" where
  "patchCompare a b =
     (if wpProviderWindowID a < wpProviderWindowID b then -1
      else if wpProviderWindowID a > wpProviderWindowID b then 1 else 0)"

definition windowPatchOf :: "int \<times> View list \<Rightarrow> WindowPatch" where
  "windowPatchOf kv = zeroWindowPatch\<lparr>wpProviderWindowID := Itoa (fst kv), wpViews := snd kv\<rparr>"

definition BrowserSnapshot_ProviderSnapshot ::
  "((int, View list) gomap \<Rightarrow> (int, View list) gomap) \<Rightarrow> BrowserSnapshot \<Rightarrow> ProviderSnapshot" where
  "BrowserSnapshot_ProviderSnapshot it x =
     blankSnapshot\<lparr>pvProviderID := ''browser:'' @ bsBrowser x, pvKind := SourceExtension, pvAppID := bsAppID x,
       pvIdentityHints := [bsBrowser x], pvAllowOrphan := True, pvApplicationName := bsBrowser x,
       pvObservedAt := bsCapturedAt x, pvTTL := 30 * second, pvPriority := 100, pvRevision := bsRevision x,
       pvConfidence := ConfidenceAuthoritative,
       pvWindows := sortFunc patchCompare (map windowPatchOf (it (foldl addTab [] (bsTabs x)))),
       pvCapabilities := [CapabilityViewObserve, CapabilityViewActivate, CapabilityViewClose]\<rparr>"

section \<open>Visual Studio Code\<close>

record CodeTab =
  ctabID :: string
  ctabGroupID :: string
  ctabTitle :: string
  ctabResource :: string
  ctabActive :: bool
  ctabDirty :: bool
  ctabPinned :: bool
  ctabPreview :: bool
  ctabKind :: string
  ctabMRU :: "64 word"

record CodeSnapshot =
  cosSchema :: "32 word"
  cosAppID :: string
  cosRevision :: "64 word"
  cosCapturedAt :: int
  cosWorkspace :: string
  cosTabs :: "CodeTab list"

definition codeView :: "CodeTab \<Rightarrow> View" where
  "codeView t =
     emptyView\<lparr>vID := ctabID t, vKind := (if ctabKind t = ''terminal'' then ViewTerminal else ViewEditor),
       vTitle := ctabTitle t, vResourceRef := ctabResource t, vActive := ctabActive t, vDirty := ctabDirty t,
       vPinned := ctabPinned t, vMRU := ctabMRU t, vAttention := AttentionNormal\<rparr>"

definition CodeSnapshot_ProviderSnapshot :: "CodeSnapshot \<Rightarrow> ProviderSnapshot" where
  "CodeSnapshot_ProviderSnapshot x =
     (let dirty = foldl (\<lambda>d t. d \<or> ctabDirty t) False (cosTabs x)
      in blankSnapshot\<lparr>pvProviderID := ''vscode'', pvKind := SourceExtension, pvAppID := cosAppID x,
           pvIdentityHints := [''code''], pvAllowOrphan := True, pvApplicationName := ''Visual Studio Code'',
           pvObservedAt := cosCapturedAt x, pvTTL := 30 * second, pvPriority := 110, pvRevision := cosRevision x,
           pvConfidence := ConfidenceAuthoritative,
           pvWindows := [zeroWindowPatch\<lparr>wpViews := map codeView (cosTabs x)\<rparr>],
           pvStatus := emptyPatch\<lparr>spResource := Some (if dirty then ResourceDirty else ResourceClean),
             spSummary := Some (cosWorkspace x)\<rparr>,
           pvCapabilities := [CapabilityViewObserve, CapabilityViewActivate, CapabilityViewClose, CapabilityViewDirty]\<rparr>)"

section \<open>Accessibility tree\<close>

datatype AxNode = AxNode (axRole: string) (axName: string) (axStates: "(string, bool) gomap")
  (axAttributes: "(string, string) gomap") (axChildren: "AxNode list")

definition isTab :: "(string \<Rightarrow> string) \<Rightarrow> AxNode \<Rightarrow> bool" where
  "isTab uni n \<longleftrightarrow>
     (let role = ToLower uni (map (\<lambda>c. if c = CHR ''-'' then CHR ''_'' else c) (axRole n))
      in role = ''page_tab'' \<or> role = ''tab'')"

definition axView :: "string \<Rightarrow> string \<Rightarrow> AxNode \<Rightarrow> string \<Rightarrow> View" where
  "axView providerID windowID n path =
     (let own = mapGet '''' (axAttributes n) ''id''
      in emptyView\<lparr>vID := (if own = '''' then windowID @ '':'' @ path else own), vProviderID := providerID,
           vProviderWindowID := windowID, vKind := ViewTab, vTitle := axName n,
           vActive := mapGet False (axStates n) ''active'' \<or> mapGet False (axStates n) ''selected'',
           vDirty := (mapGet '''' (axAttributes n) ''dirty'' = ''true''), vAttention := AttentionNormal\<rparr>)"

text \<open>The closure \<open>walk\<close>, and its loop over the children.\<close>

fun axWalk :: "(string \<Rightarrow> string) \<Rightarrow> string \<Rightarrow> string \<Rightarrow> AxNode \<Rightarrow> string \<Rightarrow> View list"
  and axChildrenLoop :: "(string \<Rightarrow> string) \<Rightarrow> string \<Rightarrow> string \<Rightarrow> AxNode list \<Rightarrow> nat \<Rightarrow> string \<Rightarrow> View list" where
  "axWalk uni providerID windowID (AxNode role name states attributes children) path =
     (let n = AxNode role name states attributes children
      in (if isTab uni n then [axView providerID windowID n path] else [])) @
     axChildrenLoop uni providerID windowID children 0 path"
| "axChildrenLoop uni providerID windowID [] i path = []"
| "axChildrenLoop uni providerID windowID (c # cs) i path =
     axWalk uni providerID windowID c (path @ ''/'' @ Itoa (int i)) @
     axChildrenLoop uni providerID windowID cs (Suc i) path"

definition ExtractViews :: "(string \<Rightarrow> string) \<Rightarrow> AxNode \<Rightarrow> string \<Rightarrow> string \<Rightarrow> View list" where
  "ExtractViews uni node providerID windowID = axWalk uni providerID windowID node ''0''"

section \<open>Status items, media players, launcher entries\<close>

record SNIItem =
  sniAppID :: string
  sniTitle :: string
  sniTooltip :: string
  sniStatus :: string
  sniRevision :: "64 word"

definition FromSNI :: "SNIItem \<Rightarrow> int \<Rightarrow> ProviderSnapshot" where
  "FromSNI x now =
     blankSnapshot\<lparr>pvProviderID := ''status-notifier'', pvKind := SourceSystem, pvAppID := sniAppID x,
       pvObservedAt := now, pvTTL := 15 * second, pvPriority := 30, pvRevision := sniRevision x,
       pvConfidence := ConfidenceHigh,
       pvStatus := emptyPatch\<lparr>spLifecycle := Some LifecycleRunning,
         spAttention := Some (if sniStatus x = ''NeedsAttention'' then AttentionWanted else AttentionNormal),
         spActivity := Some (if sniStatus x = ''Active'' then ActivityWorking else ActivityIdle),
         spSummary := Some (if sniTooltip x = '''' then sniTitle x else sniTooltip x)\<rparr>\<rparr>"

record MPRISItem =
  mpAppID :: string
  mpPlaybackStatus :: string
  mpTitle :: string
  mpArtist :: string
  mpPositionMicros :: int
  mpLengthMicros :: int
  mpRevision :: "64 word"

definition FromMPRIS :: "MPRISItem \<Rightarrow> int \<Rightarrow> ProviderSnapshot" where
  "FromMPRIS x now =
     blankSnapshot\<lparr>pvProviderID := ''mpris'', pvKind := SourceSystem, pvAppID := mpAppID x, pvObservedAt := now,
       pvTTL := 10 * second, pvPriority := 40, pvRevision := mpRevision x, pvConfidence := ConfidenceHigh,
       pvStatus := emptyPatch\<lparr>spLifecycle := Some LifecycleRunning,
         spActivity := Some (if mpPlaybackStatus x = ''Playing'' then ActivityWorking else ActivityIdle),
         spSummary := Some (mpTitle x), spDetail := Some (mpArtist x),
         spProgress := (if mpLengthMicros x > 0
           then Some (fdiv (ofInt (mpPositionMicros x)) (ofInt (mpLengthMicros x))) else None)\<rparr>,
       pvCapabilities := [CapabilityMediaObserve]\<rparr>"

record LauncherEntry =
  leAppID :: string
  leProgress :: "f64 option"
  leCount :: "int option"
  leUrgent :: bool
  leUpdating :: bool
  leRevision :: "64 word"

definition FromLauncherEntry :: "LauncherEntry \<Rightarrow> int \<Rightarrow> ProviderSnapshot" where
  "FromLauncherEntry x now =
     blankSnapshot\<lparr>pvProviderID := ''launcher-entry'', pvKind := SourceSystem, pvAppID := leAppID x,
       pvObservedAt := now, pvTTL := 30 * second, pvPriority := 20, pvRevision := leRevision x,
       pvConfidence := ConfidenceMedium,
       pvStatus := emptyPatch\<lparr>spLifecycle := Some LifecycleRunning,
         spAttention := Some (if leUrgent x then AttentionUrgent else AttentionNormal),
         spActivity := Some (if leProgress x \<noteq> None then ActivityProgress
           else if leUpdating x then ActivityWorking else ActivityIdle),
         spProgress := leProgress x, spBadge := map_option Itoa (leCount x),
         spSummary := (if leUpdating x then Some ''Updating'' else None)\<rparr>\<rparr>"

section \<open>The collectors on the session bus\<close>

text \<open>A D-Bus variant, as far as the collectors look into one.\<close>

datatype variant =
    VarString string | VarBool bool | VarInt64 int | VarDouble f64 | VarStrings "string list"
  | VarDict "(string \<times> variant) list" | VarOther

type_synonym properties = "(string, variant) gomap"

definition propertyBool :: "properties \<Rightarrow> string \<Rightarrow> bool option" where
  "propertyBool ps key = (case map_of ps key of Some (VarBool b) \<Rightarrow> Some b | _ \<Rightarrow> None)"

definition propertyInt64 :: "properties \<Rightarrow> string \<Rightarrow> int option" where
  "propertyInt64 ps key = (case map_of ps key of Some (VarInt64 i) \<Rightarrow> Some i | _ \<Rightarrow> None)"

definition propertyFloat64 :: "properties \<Rightarrow> string \<Rightarrow> f64 option" where
  "propertyFloat64 ps key = (case map_of ps key of Some (VarDouble v) \<Rightarrow> Some v | _ \<Rightarrow> None)"

record entryState =
  enAppID :: string
  enCount :: int
  enCountVisible :: bool
  enProgress :: f64
  enProgressVisible :: bool
  enUrgent :: bool
  enUpdating :: bool
  enRevision :: "64 word"

definition zeroEntry :: entryState where
  "zeroEntry = \<lparr>enAppID = '''', enCount = 0, enCountVisible = False, enProgress = fzero, enProgressVisible = False,
     enUrgent = False, enUpdating = False, enRevision = 0\<rparr>"

datatype launcherError = InvalidBody | InvalidURI | InvalidProperties | UnsupportedURI string | InvalidDesktopID string
  | SinkError string | AddMatch string

definition appIDFromURI :: "string \<Rightarrow> launcherError + string" where
  "appIDFromURI uri =
     (if \<not> HasPrefix uri ''application://'' then Inl (UnsupportedURI uri)
      else let i = TrimSpace (TrimPrefix uri ''application://'')
           in if i = '''' \<or> ContainsAny i [CHR ''/'', CHR 0x5C] then Inl (InvalidDesktopID i)
              else Inr (if HasSuffix i ''.desktop'' then i else i @ ''.desktop''))"

definition applyProperties :: "entryState \<Rightarrow> properties \<Rightarrow> entryState" where
  "applyProperties st ps =
     st\<lparr>enCount := orElse (propertyInt64 ps ''count'') (enCount st),
        enCountVisible := orElse (propertyBool ps ''count-visible'') (enCountVisible st),
        enProgress := orElse (map_option clamp01 (propertyFloat64 ps ''progress'')) (enProgress st),
        enProgressVisible := orElse (propertyBool ps ''progress-visible'') (enProgressVisible st),
        enUrgent := orElse (propertyBool ps ''urgent'') (enUrgent st),
        enUpdating := orElse (propertyBool ps ''updating'') (enUpdating st)\<rparr>"

definition entrySnapshot :: "entryState \<Rightarrow> int \<Rightarrow> ProviderSnapshot" where
  "entrySnapshot st now =
     (FromLauncherEntry
        \<lparr>leAppID = enAppID st, leProgress = (if enProgressVisible st then Some (enProgress st) else None),
         leCount = (if enCountVisible st then Some (enCount st) else None), leUrgent = enUrgent st,
         leUpdating = enUpdating st, leRevision = enRevision st\<rparr> now)
     \<lparr>pvProviderID := ''launcher-entry'', pvAllowOrphan := True,
      pvApplicationName := TrimSuffix (enAppID st) ''.desktop'', pvTTL := 30 * second\<rparr>"

text \<open>
  The collector: the merged state of every application. The sink is an operation on a state \<open>'w\<close>
  that may fail; \<open>now\<close> is what the clock says.
\<close>

type_synonym entryMap = "(string, entryState) gomap"
type_synonym 'w sink = "ProviderSnapshot \<Rightarrow> 'w \<Rightarrow> string option \<times> 'w"

datatype busValue = BusString string | BusDict properties | BusOther

definition launcherHandleSignal ::
  "'w sink \<Rightarrow> busValue list \<Rightarrow> int \<Rightarrow> entryMap \<times> 'w \<Rightarrow> launcherError option \<times> entryMap \<times> 'w" where
  "launcherHandleSignal ingest body now st =
     (case body of
        [uri, props] \<Rightarrow>
          (case uri of
             BusString uri \<Rightarrow>
               (case props of
                  BusDict ps \<Rightarrow>
                    (case appIDFromURI uri of
                       Inl e \<Rightarrow> (Some e, st)
                     | Inr appID \<Rightarrow>
                         let old = mapGet zeroEntry (fst st) appID;
                             new = applyProperties (old\<lparr>enAppID := appID\<rparr>) ps;
                             new = new\<lparr>enRevision := enRevision new + 1\<rparr>
                         in case ingest (entrySnapshot new now) (snd st) of
                              (e, w) \<Rightarrow> (map_option SinkError e, put appID new (fst st), w))
                | _ \<Rightarrow> (Some InvalidProperties, st))
           | _ \<Rightarrow> (Some InvalidURI, st))
      | _ \<Rightarrow> (Some InvalidBody, st))"

text \<open>The refresh reads the clock anew for every entry: \<open>clock i\<close> is the reading for the entry \<open>i\<close> of the loop.\<close>

fun ingestStates :: "'w sink \<Rightarrow> (nat \<Rightarrow> int) \<Rightarrow> entryState list \<Rightarrow> 'w \<Rightarrow> launcherError option \<times> 'w" where
  "ingestStates ingest clock [] w = (None, w)"
| "ingestStates ingest clock (s # ss) w =
     (case ingest (entrySnapshot s (clock 0)) w of
        (Some e, w) \<Rightarrow> (Some (SinkError e), w)
      | (None, w) \<Rightarrow> ingestStates ingest (\<lambda>i. clock (Suc i)) ss w)"

definition launcherRefresh ::
  "'w sink \<Rightarrow> (entryMap \<Rightarrow> entryMap) \<Rightarrow> (nat \<Rightarrow> int) \<Rightarrow> entryMap \<times> 'w \<Rightarrow> launcherError option \<times> entryMap \<times> 'w" where
  "launcherRefresh ingest it clock st =
     (case ingestStates ingest clock (map snd (it (fst st))) (snd st) of (e, w) \<Rightarrow> (e, fst st, w))"

definition busPrefix :: string where "busPrefix = ''org.mpris.MediaPlayer2.''"

definition variantString :: "properties \<Rightarrow> string \<Rightarrow> string" where
  "variantString ps key = (case map_of ps key of Some (VarString s) \<Rightarrow> s | _ \<Rightarrow> '''')"

definition variantInt64 :: "properties \<Rightarrow> string \<Rightarrow> int" where
  "variantInt64 ps key = (case map_of ps key of Some (VarInt64 i) \<Rightarrow> i | _ \<Rightarrow> 0)"

definition variantMap :: "properties \<Rightarrow> string \<Rightarrow> properties" where
  "variantMap ps key = (case map_of ps key of Some (VarDict d) \<Rightarrow> d | _ \<Rightarrow> [])"

definition variantStrings :: "variant \<Rightarrow> string list" where
  "variantStrings v = (case v of VarStrings ss \<Rightarrow> ss | _ \<Rightarrow> [])"

fun joinStrings :: "string \<Rightarrow> string list \<Rightarrow> string" where
  "joinStrings sep [] = ''''"
| "joinStrings sep [s] = s"
| "joinStrings sep (s # t # ss) = s @ sep @ joinStrings sep (t # ss)"

definition fallbackDesktopEntry :: "string \<Rightarrow> string" where
  "fallbackDesktopEntry busName = TrimSpace (takeWhile (\<lambda>c. c \<noteq> CHR ''.'') (TrimPrefix busName busPrefix))"

definition snapshotFromProperties :: "string \<Rightarrow> properties \<Rightarrow> properties \<Rightarrow> 64 word \<Rightarrow> int \<Rightarrow> ProviderSnapshot" where
  "snapshotFromProperties busName rootProps player revision now =
     (let entry = variantString rootProps ''DesktopEntry'';
          entry = (if entry = '''' then fallbackDesktopEntry busName else entry);
          entry = (if entry \<noteq> '''' \<and> \<not> HasSuffix entry ''.desktop'' then entry @ ''.desktop'' else entry);
          identity = variantString rootProps ''Identity'';
          identity = (if identity = '''' then TrimSuffix entry ''.desktop'' else identity);
          metadata = variantMap player ''Metadata'';
          artist = (case map_of metadata ''xesam:artist'' of
                      Some v \<Rightarrow> joinStrings '', '' (variantStrings v) | None \<Rightarrow> '''')
      in (FromMPRIS
           \<lparr>mpAppID = entry, mpPlaybackStatus = variantString player ''PlaybackStatus'',
            mpTitle = variantString metadata ''xesam:title'', mpArtist = artist,
            mpPositionMicros = variantInt64 player ''Position'', mpLengthMicros = variantInt64 metadata ''mpris:length'',
            mpRevision = revision\<rparr> now)
         \<lparr>pvProviderID := ''mpris:'' @ busName, pvAllowOrphan := True, pvApplicationName := identity\<rparr>)"

type_synonym revisionMap = "(string, 64 word) gomap"

definition nextRevision :: "string \<Rightarrow> revisionMap \<Rightarrow> 64 word \<times> revisionMap" where
  "nextRevision busName m = (let r = mapGet 0 m busName + 1 in (r, put busName r m))"

text \<open>The two property reads of a player are the argument \<open>getAll\<close>.\<close>

definition readPlayer ::
  "(string \<Rightarrow> string \<Rightarrow> string + properties) \<Rightarrow> string \<Rightarrow> int \<Rightarrow> revisionMap \<Rightarrow> (string + ProviderSnapshot) \<times> revisionMap" where
  "readPlayer getAll busName now m =
     (case getAll busName ''org.mpris.MediaPlayer2'' of
        Inl e \<Rightarrow> (Inl e, m)
      | Inr rootProps \<Rightarrow>
          (case getAll busName ''org.mpris.MediaPlayer2.Player'' of
             Inl e \<Rightarrow> (Inl e, m)
           | Inr player \<Rightarrow>
               (case nextRevision busName m of
                  (r, m') \<Rightarrow> (Inr (snapshotFromProperties busName rootProps player r now), m'))))"

datatype mprisError = ListNamesFailed string | IngestFailed string string

fun pollPlayers ::
  "(string \<Rightarrow> string \<Rightarrow> string + properties) \<Rightarrow> 'w sink \<Rightarrow> (nat \<Rightarrow> int) \<Rightarrow> string list \<Rightarrow> revisionMap \<times> 'w \<Rightarrow>
   mprisError option \<times> revisionMap \<times> 'w" where
  "pollPlayers getAll ingest clock [] st = (None, st)"
| "pollPlayers getAll ingest clock (n # ns) (m, w) =
     (if \<not> HasPrefix n busPrefix then pollPlayers getAll ingest clock ns (m, w)
      else case readPlayer getAll n (clock 0) m of
        (Inl _, m) \<Rightarrow> pollPlayers getAll ingest clock ns (m, w)
      | (Inr s, m) \<Rightarrow>
          (case ingest s w of
             (Some e, w) \<Rightarrow> (Some (IngestFailed n e), m, w)
           | (None, w) \<Rightarrow> pollPlayers getAll ingest (\<lambda>i. clock (Suc i)) ns (m, w)))"

definition mprisPoll ::
  "(string + string list) \<Rightarrow> (string \<Rightarrow> string \<Rightarrow> string + properties) \<Rightarrow> 'w sink \<Rightarrow> (nat \<Rightarrow> int) \<Rightarrow> revisionMap \<times> 'w \<Rightarrow>
   mprisError option \<times> revisionMap \<times> 'w" where
  "mprisPoll listNames getAll ingest clock st =
     (case listNames of Inl e \<Rightarrow> (Some (ListNamesFailed e), st) | Inr names \<Rightarrow> pollPlayers getAll ingest clock names st)"

section \<open>The browser's tabs\<close>

definition openTabs :: "BrowserTab list \<Rightarrow> int \<Rightarrow> BrowserTab list" where
  "openTabs ts w = filter (\<lambda>t. \<not> btIncognito t \<and> btWindowID t = w) ts"

lemma openTabs_snoc [simp]:
  "openTabs (ts @ [t]) w = openTabs ts w @ (if \<not> btIncognito t \<and> btWindowID t = w then [t] else [])"
  by (simp add: openTabs_def)

lemma addTabs:
  "wf_map (foldl addTab [] ts) \<and>
   map_of (foldl addTab [] ts) w = (if openTabs ts w = [] then None else Some (map tabView (openTabs ts w)))"
proof (induction ts arbitrary: w rule: rev_induct)
  case Nil
  then show ?case by (simp add: openTabs_def)
next
  case (snoc t ts)
  then show ?case by (simp add: addTab_def)
qed

interpretation patch_order: by_key "\<lambda>a b. patchCompare a b < 0" wpProviderWindowID
  by unfold_locales (simp add: patchCompare_def)

lemma windowPatchOf_simps [simp]: "wpProviderWindowID (windowPatchOf kv) = Itoa (fst kv)" "wpViews (windowPatchOf kv) = snd kv"
  by (simp_all add: windowPatchOf_def)

lemma distinct_windowIDs: "wf_map m \<Longrightarrow> distinct (map wpProviderWindowID (map windowPatchOf m))"
  unfolding wf_map_def
  by (induction m) (auto dest: Itoa_inj)

text \<open>
  C28. The snapshot of a browser has one window per browser window with an ordinary tab, sorted by
  identifier, holding exactly the views of its ordinary tabs in the order of the message; no private tab
  appears in it, and it does not depend on the order in which the map of windows is ranged over.
\<close>

theorem browser_tabs_exact:
  assumes "isIteration it" and "isIteration it'"
  shows "let ws = pvWindows (BrowserSnapshot_ProviderSnapshot it x) in
    list_all (\<lambda>p. \<exists>w. wpProviderWindowID p = Itoa w \<and> openTabs (bsTabs x) w \<noteq> [] \<and>
      wpViews p = map tabView (openTabs (bsTabs x) w)) ws \<and>
    (\<forall>w. openTabs (bsTabs x) w \<noteq> [] \<longrightarrow> Itoa w \<in> set (map wpProviderWindowID ws)) \<and>
    distinct (map wpProviderWindowID ws) \<and> sorted (map wpProviderWindowID ws) \<and>
    BrowserSnapshot_ProviderSnapshot it' x = BrowserSnapshot_ProviderSnapshot it x"
proof -
  let ?m = "foldl addTab [] (bsTabs x)"
  let ?ws = "pvWindows (BrowserSnapshot_ProviderSnapshot it x)"
  have wf: "wf_map ?m" and look: "\<And>w. map_of ?m w =
      (if openTabs (bsTabs x) w = [] then None else Some (map tabView (openTabs (bsTabs x) w)))"
    using addTabs by blast+
  have ws: "?ws = sortBy (\<lambda>a b. patchCompare a b < 0) (map windowPatchOf (it ?m))"
    by (simp add: BrowserSnapshot_ProviderSnapshot_def sortFunc_def)
  have set_ws: "set ?ws = windowPatchOf ` set ?m" by (simp add: ws isIteration_set [OF assms(1)])
  have mset_eq: "mset (map windowPatchOf (it ?m)) = mset (map windowPatchOf ?m)"
    "mset (map windowPatchOf (it' ?m)) = mset (map windowPatchOf ?m)"
    using assms by (simp_all add: isIteration_mset)
  have dist: "distinct (map wpProviderWindowID (map windowPatchOf (it ?m)))"
    using distinct_windowIDs [OF wf] mset_eq(1) by (metis mset_eq_imp_distinct_iff mset_map)
  have entry: "openTabs (bsTabs x) w \<noteq> [] \<and> vs = map tabView (openTabs (bsTabs x) w)" if "(w, vs) \<in> set ?m" for w vs
    using that wf look [of w] by (auto simp: wf_map_in split: if_splits)
  have "\<exists>w. wpProviderWindowID p = Itoa w \<and> openTabs (bsTabs x) w \<noteq> [] \<and>
      wpViews p = map tabView (openTabs (bsTabs x) w)" if "p \<in> set ?ws" for p
  proof -
    from that obtain w vs where "p = windowPatchOf (w, vs)" "(w, vs) \<in> set ?m" unfolding set_ws by auto
    with entry show ?thesis by (intro exI [of _ w]) simp
  qed
  moreover have "Itoa w \<in> set (map wpProviderWindowID ?ws)" if "openTabs (bsTabs x) w \<noteq> []" for w
  proof -
    from that look [of w] have "(w, map tabView (openTabs (bsTabs x) w)) \<in> set ?m" by (auto dest: map_of_SomeD)
    then have "windowPatchOf (w, map tabView (openTabs (bsTabs x) w)) \<in> set ?ws" unfolding set_ws by (rule imageI)
    then show ?thesis by force
  qed
  moreover have "distinct (map wpProviderWindowID ?ws)" unfolding ws using dist by simp
  moreover have "sorted (map wpProviderWindowID ?ws)" unfolding ws by (rule patch_order.sorted_keys)
  moreover have "BrowserSnapshot_ProviderSnapshot it' x = BrowserSnapshot_ProviderSnapshot it x"
  proof -
    have "inj_on wpProviderWindowID (set (map windowPatchOf (it ?m)))"
      using dist by (simp only: distinct_map)
    moreover have "mset (map windowPatchOf (it ?m)) = mset (map windowPatchOf (it' ?m))" by (simp only: mset_eq)
    ultimately have "sortBy (\<lambda>a b. patchCompare a b < 0) (map windowPatchOf (it ?m)) =
        sortBy (\<lambda>a b. patchCompare a b < 0) (map windowPatchOf (it' ?m))"
      by (intro patch_order.sortBy_perm)
    then show ?thesis unfolding BrowserSnapshot_ProviderSnapshot_def sortFunc_def by simp
  qed
  ultimately show ?thesis unfolding Let_def list_all_iff by blast
qed

definition sampleBrowser :: BrowserSnapshot where
  "sampleBrowser = \<lparr>bsSchema = 1, bsBrowser = ''firefox'', bsAppID = ''firefox.desktop'', bsRevision = 3, bsCapturedAt = 5,
     bsTabs = map (\<lambda>(i, w, inc). \<lparr>btID = i, btWindowID = w, btTitle = '''', btActive = False, btPinned = False,
       btAudible = False, btMuted = False, btIncognito = inc, btMRU = 0\<rparr>)
       [(1, 10, False), (2, 9, True), (3, 10, True), (4, 10, False), (5, -2, False)]\<rparr>"

lemma browser_tabs_exact_witness:
  "map wpProviderWindowID (pvWindows (BrowserSnapshot_ProviderSnapshot rev sampleBrowser)) = [''-2'', ''10''] \<and>
   BrowserSnapshot_ProviderSnapshot rev sampleBrowser = BrowserSnapshot_ProviderSnapshot (\<lambda>m. m) sampleBrowser"
proof
  show "map wpProviderWindowID (pvWindows (BrowserSnapshot_ProviderSnapshot rev sampleBrowser)) = [''-2'', ''10'']"
    by code_simp
  show "BrowserSnapshot_ProviderSnapshot rev sampleBrowser = BrowserSnapshot_ProviderSnapshot (\<lambda>m. m) sampleBrowser"
    using browser_tabs_exact [OF isIteration_id isIteration_rev, of sampleBrowser] unfolding Let_def by blast
qed

section \<open>Facts of the collectors\<close>

text \<open>A launcher update names a desktop file, without a directory.\<close>

lemma appIDFromURI_ok:
  assumes "appIDFromURI uri = Inr i"
  shows "suffix ''.desktop'' i \<and> CHR ''/'' \<notin> set i \<and> CHR 0x5C \<notin> set i"
proof -
  let ?i = "TrimSpace (TrimPrefix uri ''application://'')"
  from assms have c: "\<not> ContainsAny ?i [CHR ''/'', CHR 0x5C]"
    and i: "i = (if HasSuffix ?i ''.desktop'' then ?i else ?i @ ''.desktop'')"
    by (simp_all add: appIDFromURI_def Let_def split: if_splits)
  from c have "CHR ''/'' \<notin> set ?i \<and> CHR 0x5C \<notin> set ?i" by (auto simp: ContainsAny_def list_ex_iff)
  moreover have "suffix ''.desktop'' (?i @ ''.desktop'')" by (rule suffixI) (rule refl)
  ultimately show ?thesis using i by (simp add: HasSuffix_def)
qed

lemma orElse_progress:
  "unitInterval (enProgress st) \<Longrightarrow> propertyFloat64 ps ''progress'' \<noteq> Some NaN \<Longrightarrow>
   unitInterval (enProgress (applyProperties st ps))"
  by (cases "propertyFloat64 ps ''progress''") (auto simp: applyProperties_def orElse_def clamp01_unit)

text \<open>
  A progress of NaN passes the clamp of \<open>applyProperties\<close> and reaches the snapshot.
\<close>

lemma launcher_NaN:
  "pvStatus (entrySnapshot (applyProperties zeroEntry
     [(''progress'', VarDouble NaN), (''progress-visible'', VarBool True)]) 1) =
   emptyPatch\<lparr>spLifecycle := Some LifecycleRunning, spAttention := Some AttentionNormal,
     spActivity := Some ActivityProgress, spProgress := Some NaN\<rparr>"
  by code_simp

text \<open>The revisions given to a player's snapshots increase by one from poll to poll.\<close>

lemma nextRevision_counts:
  "nextRevision n m = (r, m') \<Longrightarrow> r = mapGet 0 m n + 1 \<and> mapGet 0 m' n = r \<and> (\<forall>k. k \<noteq> n \<longrightarrow> mapGet 0 m' k = mapGet 0 m k)"
  by (auto simp: nextRevision_def Let_def mapGet_def)

section \<open>The loops of the collectors\<close>

text \<open>
  \<open>Run\<close> as the sequence of what its select takes: the context is done, a signal (\<open>None\<close> for the nil
  that a closed channel gives) or a tick. The errors that it reports are collected.
\<close>

datatype launcherEvent = LauncherDone | LauncherSignal int "(string \<times> busValue list) option" | LauncherTick "nat \<Rightarrow> int"

definition updateSignal :: string where
  "updateSignal = ''com.canonical.Unity.LauncherEntry.Update''"

fun launcherLoop ::
  "'w sink \<Rightarrow> (entryMap \<Rightarrow> entryMap) \<Rightarrow> launcherEvent list \<Rightarrow> entryMap \<times> 'w \<Rightarrow> launcherError list \<times> entryMap \<times> 'w" where
  "launcherLoop ingest it [] st = ([], st)"
| "launcherLoop ingest it (LauncherDone # _) st = ([], st)"
| "launcherLoop ingest it (LauncherSignal now sg # evs) st =
     (case sg of
        Some (name, body) \<Rightarrow>
          (if name \<noteq> updateSignal then launcherLoop ingest it evs st
           else case launcherHandleSignal ingest body now st of (e, st1) \<Rightarrow>
             (case launcherLoop ingest it evs st1 of (es, st2) \<Rightarrow> ((case e of Some x \<Rightarrow> [x] | None \<Rightarrow> []) @ es, st2)))
      | None \<Rightarrow> launcherLoop ingest it evs st)"
| "launcherLoop ingest it (LauncherTick clock # evs) st =
     (case launcherRefresh ingest it clock st of (e, st1) \<Rightarrow>
        (case launcherLoop ingest it evs st1 of (es, st2) \<Rightarrow> ((case e of Some x \<Rightarrow> [x] | None \<Rightarrow> []) @ es, st2)))"

text \<open>Where the subscription fails, its error is the only report and no signal is ever handled.\<close>

definition launcherRun ::
  "string option \<Rightarrow> 'w sink \<Rightarrow> (entryMap \<Rightarrow> entryMap) \<Rightarrow> launcherEvent list \<Rightarrow> entryMap \<times> 'w \<Rightarrow>
   launcherError list \<times> entryMap \<times> 'w" where
  "launcherRun addMatch ingest it evs st =
     (case addMatch of Some e \<Rightarrow> ([AddMatch e], st) | None \<Rightarrow> launcherLoop ingest it evs st)"

text \<open>The player collector polls at once and then at every tick; a poll is its two inputs and its clock.\<close>

record mprisRound =
  mrNames :: "string + string list"
  mrGetAll :: "string \<Rightarrow> string \<Rightarrow> string + properties"
  mrClock :: "nat \<Rightarrow> int"

fun mprisRun :: "'w sink \<Rightarrow> mprisRound list \<Rightarrow> revisionMap \<times> 'w \<Rightarrow> mprisError list \<times> revisionMap \<times> 'w" where
  "mprisRun ingest [] st = ([], st)"
| "mprisRun ingest (p # ps) st =
     (case mprisPoll (mrNames p) (mrGetAll p) ingest (mrClock p) st of (e, st1) \<Rightarrow>
        (case mprisRun ingest ps st1 of (es, st2) \<Rightarrow> ((case e of Some x \<Rightarrow> [x] | None \<Rightarrow> []) @ es, st2)))"

text \<open>
  Whatever a launcher sends, the progress that is kept for its entries is in the unit interval unless
  it is NaN's: no signal with a NaN, no progress out of range.
\<close>

definition entriesOK :: "entryMap \<Rightarrow> bool" where
  "entriesOK m \<longleftrightarrow> (\<forall>k st. map_of m k = Some st \<longrightarrow> unitInterval (enProgress st))"

definition noNaN :: "launcherEvent \<Rightarrow> bool" where
  "noNaN ev = (case ev of
     LauncherSignal _ (Some (_, [_, BusDict ps])) \<Rightarrow> propertyFloat64 ps ''progress'' \<noteq> Some NaN
   | _ \<Rightarrow> True)"

lemma launcherHandleSignal_ok:
  assumes "entriesOK (fst st)" and "noNaN (LauncherSignal now (Some (name, body)))"
    and "launcherHandleSignal ingest body now st = (e, st1)"
  shows "entriesOK (fst st1)"
proof (cases "fst st1 = fst st")
  case False
  then obtain uri ps appID where b: "body = [BusString uri, BusDict ps]" "appIDFromURI uri = Inr appID"
    using assms(3) by (auto simp: launcherHandleSignal_def split: list.splits busValue.splits sum.splits)
  let ?new = "applyProperties ((mapGet zeroEntry (fst st) appID)\<lparr>enAppID := appID\<rparr>) ps"
  have st1: "fst st1 = put appID (?new\<lparr>enRevision := enRevision ?new + 1\<rparr>) (fst st)"
    using assms(3) b by (auto simp: launcherHandleSignal_def Let_def split: prod.splits)
  have "unitInterval (enProgress (mapGet zeroEntry (fst st) appID))"
    using assms(1) by (auto simp: entriesOK_def mapGet_def zeroEntry_def split: option.split)
  then have "unitInterval (enProgress ?new)"
    using assms(2) b by (intro orElse_progress) (simp_all add: noNaN_def)
  with assms(1) show ?thesis unfolding st1 by (simp add: entriesOK_def)
qed (use assms(1) in simp)

text \<open>
  As long as no launcher sends NaN, the progress that the collector keeps of every application is in
  the unit interval, whatever signals and ticks arrive.
\<close>

lemma launcherLoop_progress:
  "entriesOK (fst st) \<Longrightarrow> list_all noNaN evs \<Longrightarrow> launcherLoop ingest it evs st = (es, st1) \<Longrightarrow> entriesOK (fst st1)"
proof (induction ingest it evs st arbitrary: es st1 rule: launcherLoop.induct)
  case (3 ingest it now sg evs st)
  show ?case
  proof (cases "\<exists>body. sg = Some (updateSignal, body)")
    case True
    then obtain body where sg: "sg = Some (updateSignal, body)" by blast
    obtain e st2 where h: "launcherHandleSignal ingest body now st = (e, st2)" by (metis prod.collapse)
    have "entriesOK (fst st2)"
      using launcherHandleSignal_ok [OF _ _ h, where name = updateSignal] 3(4,5) sg by simp
    with 3 sg h show ?thesis by (auto split: prod.splits)
  next
    case False
    with 3 show ?thesis by (auto split: option.splits prod.splits if_splits)
  qed
next
  case (4 ingest it clock evs st)
  obtain e st2 where h: "launcherRefresh ingest it clock st = (e, st2)" by (metis prod.collapse)
  then have "fst st2 = fst st" by (auto simp: launcherRefresh_def split: prod.splits)
  with 4 h show ?case by (auto split: prod.splits)
qed auto

lemma launcherRun_progress:
  "entriesOK (fst st) \<Longrightarrow> list_all noNaN evs \<Longrightarrow> launcherRun addMatch ingest it evs st = (es, st1) \<Longrightarrow>
   entriesOK (fst st1)"
  by (auto simp: launcherRun_def intro: launcherLoop_progress split: option.splits)

end
