(* ===== verification/Wire.thy ===== *)
theory Wire
  imports GoStrings
begin

text \<open>
  What travels between the processes: the length-prefixed frames of native messaging
  (\<open>internal/providers/nativeframe\<close>), the provider envelope (\<open>internal/providers/wire\<close>) and the
  handshake and mutation requests of the session bus (\<open>internal/ipc/protocol.go\<close>).
\<close>

section \<open>Native messaging frames\<close>

definition MaxMessage :: nat where
  "MaxMessage = push_bit 20 4"

datatype frameError = EndOfInput | UnexpectedEOF | FrameSize nat | WriteFailed string

text \<open>\<open>encoding/binary\<close>: four bytes, the least significant first.\<close>

definition leBytes :: "32 word \<Rightarrow> string" where
  "leBytes n = map (\<lambda>k. char_of (unat n div 256 ^ k mod 256)) [0..<4]"

definition leWord :: "string \<Rightarrow> 32 word" where
  "leWord s = of_nat (foldr (\<lambda>c v. of_char c + 256 * v) s 0)"

text \<open>
  \<open>Read\<close> on a stream of bytes: the outcome and what is left of the stream. A body that is cut off
  is returned with the error.
\<close>

definition frameRead :: "string \<Rightarrow> (frameError + string) \<times> string" where
  "frameRead s =
     (if length s < 4 then (Inl (if s = [] then EndOfInput else UnexpectedEOF), [])
      else let n = unat (leWord (take 4 s)); rest = drop 4 s
           in if n = 0 \<or> n > MaxMessage then (Inl (FrameSize n), rest)
              else if length rest < n then (Inl (if rest = [] then EndOfInput else UnexpectedEOF), [])
              else (Inr (take n rest), drop n rest))"

text \<open>\<open>Write\<close> over a writer with state \<open>'w\<close>: the prefix and the body are two writes.\<close>

definition frameWrite :: "(string \<Rightarrow> 'w \<Rightarrow> string option \<times> 'w) \<Rightarrow> string \<Rightarrow> 'w \<Rightarrow> frameError option \<times> 'w" where
  "frameWrite wr p w =
     (if length p = 0 \<or> length p > MaxMessage then (Some (FrameSize (length p)), w)
      else case wr (leBytes (of_nat (length p))) w of
        (Some e, w) \<Rightarrow> (Some (WriteFailed e), w)
      | (None, w) \<Rightarrow> (case wr p w of (e, w) \<Rightarrow> (map_option WriteFailed e, w)))"

text \<open>The writer that appends, as a pipe that is read later does.\<close>

definition appendWriter :: "string \<Rightarrow> string \<Rightarrow> string option \<times> string" where
  "appendWriter p w = (None, w @ p)"

lemma leBytes_digits:
  assumes "n < 2 ^ 32"
  shows "n mod 256 + 256 * (n div 256 mod 256 + 256 * (n div 65536 mod 256 + 256 * (n div 16777216 mod 256))) = (n :: nat)"
proof -
  have d: "n div 65536 = n div 256 div 256" "n div 16777216 = n div 256 div 256 div 256"
    using div_mult2_eq [of n 256 256] div_mult2_eq [of "n div 256" 256 256] div_mult2_eq [of n 256 65536] by simp_all
  have "n div 16777216 < 256" using assms by (simp add: less_mult_imp_div_less)
  then have "n div 256 div 256 div 256 mod 256 = n div 256 div 256 div 256" unfolding d by simp
  moreover have "256 * (m div 256) + m mod 256 = m" for m :: nat by simp
  ultimately show ?thesis unfolding d by (metis add.commute)
qed

lemma leWord_leBytes: "leWord (leBytes n) = n"
proof -
  have b: "unat n < 2 ^ 32" using unsigned_less [of n] by simp
  have "foldr (\<lambda>c v. of_char c + 256 * v) (leBytes n) 0 = unat n"
    using leBytes_digits [OF b] less_mult_imp_div_less [of "unat n" 256 16777216] b
    by (simp add: leBytes_def upt_rec)
  then show ?thesis by (simp add: leWord_def)
qed

lemma length_leBytes [simp]: "length (leBytes n) = 4"
  by (simp add: leBytes_def)

lemma unat_length: "length p \<le> MaxMessage \<Longrightarrow> unat (of_nat (length p) :: 32 word) = length p"
  by (simp add: MaxMessage_def unsigned_of_nat take_bit_eq_mod push_bit_eq_mult)

text \<open>Reading the frames written to a pipe, one after the other.\<close>

fun writeAll :: "string list \<Rightarrow> string \<Rightarrow> string" where
  "writeAll [] w = w"
| "writeAll (p # ps) w = writeAll ps (snd (frameWrite appendWriter p w))"

fun readMany :: "nat \<Rightarrow> string \<Rightarrow> (frameError + string) list \<times> string" where
  "readMany 0 s = ([], s)"
| "readMany (Suc k) s = (case frameRead s of (r, s') \<Rightarrow> case readMany k s' of (rs, s'') \<Rightarrow> (r # rs, s''))"

definition frameOK :: "string \<Rightarrow> bool" where
  "frameOK p \<longleftrightarrow> p \<noteq> [] \<and> length p \<le> MaxMessage"

lemma frameWrite_ok: "frameOK p \<Longrightarrow> frameWrite appendWriter p w = (None, w @ leBytes (of_nat (length p)) @ p)"
  by (simp add: frameOK_def frameWrite_def appendWriter_def)

lemma frameRead_written:
  assumes "frameOK p"
  shows "frameRead (leBytes (of_nat (length p)) @ p @ rest) = (Inr p, rest)"
proof -
  have n: "unat (leWord (leBytes (of_nat (length p)))) = length p" "0 < length p" "length p \<le> MaxMessage"
    using assms unat_length [of p] by (simp_all add: frameOK_def leWord_leBytes)
  then show ?thesis by (simp add: frameRead_def Let_def)
qed

lemma writeAll_frames:
  "list_all frameOK ps \<Longrightarrow> writeAll ps w = w @ concat (map (\<lambda>p. leBytes (of_nat (length p)) @ p) ps)"
  by (induction ps arbitrary: w) (simp_all add: frameWrite_ok)

text \<open>
  C29. Native messaging frames survive the pipe: whatever messages of one byte to four megabytes are
  written one after the other, reading as many frames gives the same messages in the same order
  and leaves what follows untouched; \<open>Write\<close> refuses every other length and writes nothing.
\<close>

theorem frames_roundtrip:
  assumes "list_all frameOK ps"
  shows "readMany (length ps) (writeAll ps [] @ rest) = (map Inr ps, rest) \<and>
    (\<forall>p w. \<not> frameOK p \<longrightarrow> frameWrite appendWriter p w = (Some (FrameSize (length p)), w))"
proof
  have "readMany (length ps) (concat (map (\<lambda>p. leBytes (of_nat (length p)) @ p) ps) @ rest) = (map Inr ps, rest)"
    using assms by (induction ps) (simp_all add: frameRead_written)
  then show "readMany (length ps) (writeAll ps [] @ rest) = (map Inr ps, rest)" by (simp add: writeAll_frames [OF assms])
  show "\<forall>p w. \<not> frameOK p \<longrightarrow> frameWrite appendWriter p w = (Some (FrameSize (length p)), w)"
    by (auto simp: frameOK_def frameWrite_def)
qed

lemma frames_roundtrip_witness:
  "readMany (length [''ab'', ''c'']) (writeAll [''ab'', ''c''] [] @ ''zz'') = (map Inr [''ab'', ''c''], ''zz'')"
  by (rule conjunct1 [OF frames_roundtrip]) (simp add: frameOK_def MaxMessage_def push_bit_eq_mult)

section \<open>The provider envelope\<close>

definition EnvelopeSchemaVersion :: "32 word" where "EnvelopeSchemaVersion = 1"
definition MaxEnvelopeBytes :: nat where "MaxEnvelopeBytes = push_bit 20 4"

record Envelope =
  evSchema :: "32 word"
  evType :: string
  evSource :: string
  evReceivedAt :: int
  evPayload :: string

datatype envelopeError = EnvelopeSchema "32 word" | TypeAndSourceRequired | PayloadSize nat

definition Envelope_Validate :: "Envelope \<Rightarrow> envelopeError option" where
  "Envelope_Validate e =
     (if evSchema e \<noteq> EnvelopeSchemaVersion then Some (EnvelopeSchema (evSchema e))
      else if evType e = '''' \<or> evSource e = '''' then Some TypeAndSourceRequired
      else if length (evPayload e) = 0 \<or> length (evPayload e) > MaxEnvelopeBytes then Some (PayloadSize (length (evPayload e)))
      else None)"

section \<open>The session bus protocol\<close>

definition ProtocolVersion :: "32 word" where "ProtocolVersion = 1"
definition CapabilitySupported :: string where "CapabilitySupported = ''supported''"
definition CapabilityConstrained :: string where "CapabilityConstrained = ''constrained''"
definition CapabilityDegraded :: string where "CapabilityDegraded = ''degraded''"
definition CapabilityUnavailable :: string where "CapabilityUnavailable = ''unavailable''"

record Capability =
  cpLevel :: string
  cpReasonCode :: string

record HelloRequest =
  hqClientProtocol :: "32 word"
  hqClientInstance :: string

record HelloResponse =
  hrServerProtocol :: "32 word"
  hrServerInstance :: string
  hrRevisionEpoch :: string
  hrCapabilities :: "(string, Capability) gomap"

datatype helloError =
    ClientProtocol "32 word" | ServerProtocol "32 word" | InvalidClientInstance | InvalidServerInstance
  | InvalidRevisionEpoch | InvalidCapabilityName | InvalidCapabilityLevel string

definition checkCapability :: "string \<times> Capability \<Rightarrow> helloError option" where
  "checkCapability kv =
     (if blank (fst kv) then Some InvalidCapabilityName
      else if cpLevel (snd kv) \<notin> {CapabilitySupported, CapabilityConstrained, CapabilityDegraded, CapabilityUnavailable}
      then Some (InvalidCapabilityLevel (cpLevel (snd kv)))
      else None)"

definition ValidateHello ::
  "((string, Capability) gomap \<Rightarrow> (string, Capability) gomap) \<Rightarrow> HelloRequest \<Rightarrow> HelloResponse \<Rightarrow> helloError option" where
  "ValidateHello it request response =
     (if hqClientProtocol request \<noteq> ProtocolVersion then Some (ClientProtocol (hqClientProtocol request))
      else if hrServerProtocol response \<noteq> ProtocolVersion then Some (ServerProtocol (hrServerProtocol response))
      else if blank (hqClientInstance request) then Some InvalidClientInstance
      else if blank (hrServerInstance response) then Some InvalidServerInstance
      else if blank (hrRevisionEpoch response) then Some InvalidRevisionEpoch
      else firstErr checkCapability (it (hrCapabilities response)))"

record CacheIdentity =
  ciServerInstance :: string
  ciRevisionEpoch :: string

definition CacheIdentity_ValidFor :: "CacheIdentity \<Rightarrow> HelloResponse \<Rightarrow> bool" where
  "CacheIdentity_ValidFor c response \<longleftrightarrow>
     ciServerInstance c \<noteq> '''' \<and> ciRevisionEpoch c \<noteq> '''' \<and>
     ciServerInstance c = hrServerInstance response \<and> ciRevisionEpoch c = hrRevisionEpoch response"

record MutationRequest =
  mrWorkspaceID :: string
  mrDefinitionRevision :: string
  mrOperationKey :: string

datatype mutationError = WorkspaceIDRequired | DefinitionRevisionRequired | OperationKeyRequired | OperationIDRequired

definition MutationRequest_Validate :: "MutationRequest \<Rightarrow> mutationError option" where
  "MutationRequest_Validate r =
     (if blank (mrWorkspaceID r) then Some WorkspaceIDRequired
      else if blank (mrDefinitionRevision r) then Some DefinitionRevisionRequired
      else if blank (mrOperationKey r) then Some OperationKeyRequired else None)"

record MutationAck =
  maOperationID :: string

definition MutationAck_Validate :: "MutationAck \<Rightarrow> mutationError option" where
  "MutationAck_Validate a = (if blank (maOperationID a) then Some OperationIDRequired else None)"

text \<open>Whether a handshake is accepted does not depend on the order of the capabilities.\<close>

lemma ValidateHello_order:
  "isIteration it \<Longrightarrow> isIteration it' \<Longrightarrow> ValidateHello it q r = None \<longleftrightarrow> ValidateHello it' q r = None"
  by (simp add: ValidateHello_def isIteration_set)

text \<open>A cache kept for an accepted handshake is valid for that handshake, so it is not thrown away.\<close>

lemma accepted_cache_valid:
  "ValidateHello it q r = None \<Longrightarrow>
   CacheIdentity_ValidFor \<lparr>ciServerInstance = hrServerInstance r, ciRevisionEpoch = hrRevisionEpoch r\<rparr> r"
  by (auto simp: ValidateHello_def CacheIdentity_ValidFor_def split: if_splits)

end
