(* ===== verification/ProviderServer.thy ===== *)
theory ProviderServer
  imports ProviderFeeds Wire
begin

text \<open>
  \<open>internal/providers/server\<close>: the socket server that takes envelopes from provider processes and
  hands their snapshots to the sink, and the table of connections through which commands go back
  (\<open>actions.go\<close>). The JSON decoders of the envelope and of the two payloads are parameters; a
  connection's entry in the table is identified by the number of its \<open>actionClient\<close>.
\<close>

section \<open>The table of connections\<close>

type_synonym Actions = "(string, nat) gomap"

definition NewActions :: Actions where "NewActions = []"

text \<open>
  \<open>register\<close> files the new client and returns the function that takes it out again, here
  \<open>unregister\<close> on the same arguments; without a provider it does nothing.
\<close>

definition register :: "string \<Rightarrow> nat \<Rightarrow> Actions \<Rightarrow> Actions" where
  "register providerID client a = (if providerID = '''' then a else put providerID client a)"

definition unregister :: "string \<Rightarrow> nat \<Rightarrow> Actions \<Rightarrow> Actions" where
  "unregister providerID client a =
     (if providerID = '''' then a
      else if map_of a providerID = Some client then del providerID a else a)"

datatype sendError = NotConnected string | SendFailed string

text \<open>\<open>Send\<close> picks the connection and encodes the command on it: \<open>write\<close> is that connection.\<close>

definition Actions_Send :: "(nat \<Rightarrow> string option) \<Rightarrow> string \<Rightarrow> Actions \<Rightarrow> sendError option" where
  "Actions_Send write providerID a =
     (case map_of a providerID of
        None \<Rightarrow> Some (NotConnected providerID)
      | Some client \<Rightarrow> map_option SendFailed (write client))"

datatype actionEvent = Register string nat | Unregister string nat

fun actionStep :: "Actions \<Rightarrow> actionEvent \<Rightarrow> Actions" where
  "actionStep a (Register p c) = register p c a"
| "actionStep a (Unregister p c) = unregister p c a"

text \<open>The registrations of a provider that no later registration of it replaced nor its own end took back.\<close>

fun liveClient :: "string \<Rightarrow> actionEvent list \<Rightarrow> nat option" where
  "liveClient p [] = None"
| "liveClient p (Register q c # evs) = (if q = p then Some c else liveClient p evs)"
| "liveClient p (Unregister q c # evs) =
     (if q = p \<and> liveClient p evs = Some c then None else liveClient p evs)"

text \<open>
  Commands go to the newest connection: after any interleaving of registrations and
  unregistrations, the table names for every provider the client registered last, if its own
  unregistration has not run; an old connection that ends after its provider has reconnected takes
  nothing away.
\<close>

lemma Actions_newest:
  assumes "p \<noteq> ''''"
  shows "map_of (foldl actionStep NewActions evs) p = liveClient p (rev evs)"
proof (induction evs rule: rev_induct)
  case Nil
  then show ?case by (simp add: NewActions_def)
next
  case (snoc ev evs)
  with assms show ?case
    by (cases ev) (auto simp: register_def unregister_def)
qed

section \<open>Dispatching envelopes\<close>

datatype dispatchError = PayloadError string | UnsupportedType string | SinkFailed string

record Decoders =
  dcEnvelope :: "string \<Rightarrow> string + Envelope"
  dcBrowser :: "string \<Rightarrow> string + BrowserSnapshot"
  dcCode :: "string \<Rightarrow> string + CodeSnapshot"

type_synonym windowOrder = "(int, View list) gomap \<Rightarrow> (int, View list) gomap"

definition dispatch ::
  "Decoders \<Rightarrow> windowOrder \<Rightarrow> 'w sink \<Rightarrow> Envelope \<Rightarrow> 'w \<Rightarrow> string \<times> dispatchError option \<times> 'w" where
  "dispatch dec it ingest env w =
     (if evType env = ''browser.snapshot'' then
        (case dcBrowser dec (evPayload env) of
           Inl e \<Rightarrow> ('''', Some (PayloadError e), w)
         | Inr x \<Rightarrow>
             let x = (if bsCapturedAt x = 0 then x\<lparr>bsCapturedAt := evReceivedAt env\<rparr> else x);
                 s = BrowserSnapshot_ProviderSnapshot it x
             in case ingest s w of (e, w) \<Rightarrow> (pvProviderID s, map_option SinkFailed e, w))
      else if evType env = ''vscode.snapshot'' then
        (case dcCode dec (evPayload env) of
           Inl e \<Rightarrow> ('''', Some (PayloadError e), w)
         | Inr x \<Rightarrow>
             let x = (if cosCapturedAt x = 0 then x\<lparr>cosCapturedAt := evReceivedAt env\<rparr> else x);
                 s = CodeSnapshot_ProviderSnapshot x
             in case ingest s w of (e, w) \<Rightarrow> (pvProviderID s, map_option SinkFailed e, w))
      else ('''', Some (UnsupportedType (evType env)), w))"

text \<open>
  One connection: \<open>client\<close> is its number, \<open>snd\<close> of the state the provider under which it is
  registered. A line that cannot be handled is skipped.
\<close>

type_synonym 'w connState = "('w \<times> Actions) \<times> string option"

definition handleLine ::
  "Decoders \<Rightarrow> windowOrder \<Rightarrow> 'w sink \<Rightarrow> nat \<Rightarrow> 'w connState \<Rightarrow> string \<Rightarrow> 'w connState" where
  "handleLine dec it ingest client st line =
     (case st of ((w, a), registered) \<Rightarrow>
        (case dcEnvelope dec line of
           Inl _ \<Rightarrow> st
         | Inr env \<Rightarrow>
             if Envelope_Validate env \<noteq> None then st
             else case dispatch dec it ingest env w of
               (_, Some _, w) \<Rightarrow> ((w, a), registered)
             | (providerID, None, w) \<Rightarrow>
                 if providerID \<noteq> '''' \<and> registered = None
                 then ((w, register providerID client a), Some providerID)
                 else ((w, a), registered)))"

definition handleConn ::
  "Decoders \<Rightarrow> windowOrder \<Rightarrow> 'w sink \<Rightarrow> nat \<Rightarrow> string list \<Rightarrow> 'w \<times> Actions \<Rightarrow> 'w \<times> Actions" where
  "handleConn dec it ingest client messages st =
     (case foldl (handleLine dec it ingest client) (st, None) messages of
        ((w, a), Some p) \<Rightarrow> (w, unregister p client a)
      | ((w, a), None) \<Rightarrow> (w, a))"

text \<open>A connection that is served alone leaves the table of the other providers and its own entry as if it had never been.\<close>

lemma handleLine_table:
  assumes "handleLine dec it ingest client ((w, a), reg) line = ((w', a'), reg')"
  shows "(reg' = reg \<and> a' = a) \<or> (reg = None \<and> (\<exists>p. p \<noteq> '''' \<and> reg' = Some p \<and> a' = put p client a))"
  using assms
  by (auto simp: handleLine_def register_def split: sum.splits if_splits prod.splits option.splits)

lemma handleLines_table:
  "foldl (handleLine dec it ingest client) ((w, a), None) ls = ((w', a'), reg') \<Longrightarrow>
   (reg' = None \<and> a' = a) \<or> (\<exists>p. p \<noteq> '''' \<and> reg' = Some p \<and> a' = put p client a)"
proof (induction ls arbitrary: w' a' reg' rule: rev_induct)
  case (snoc l ls)
  obtain w1 a1 r1 where s: "foldl (handleLine dec it ingest client) ((w, a), None) ls = ((w1, a1), r1)"
    by (metis prod.collapse)
  with snoc.prems have "handleLine dec it ingest client ((w1, a1), r1) l = ((w', a'), reg')" by simp
  from handleLine_table [OF this] snoc.IH [OF s] show ?case by auto
qed simp

lemma handleConn_leaves_no_entry:
  assumes "handleConn dec it ingest client ls (w, a) = (w', a')"
  shows "map_of a' p = map_of a p \<or> map_of a' p = None"
proof -
  obtain w1 a1 r1 where s: "foldl (handleLine dec it ingest client) ((w, a), None) ls = ((w1, a1), r1)"
    by (metis prod.collapse)
  from handleLines_table [OF s] assms s show ?thesis
    by (auto simp: handleConn_def unregister_def split: if_splits)
qed

section \<open>Listening\<close>

text \<open>
  What the socket's path names (\<open>Lstat\<close>), and the operations on files and the listener; \<open>'w\<close> is the
  world that they change.
\<close>

datatype lstatResult = NotThere | LstatFailed string | IsSocket | IsOther

record 'w SocketOps =
  soDir :: "string \<Rightarrow> string"
  soMkdirAll :: "string \<Rightarrow> 'w \<Rightarrow> string option \<times> 'w"
  soLstat :: "string \<Rightarrow> 'w \<Rightarrow> lstatResult"
  soRemove :: "string \<Rightarrow> 'w \<Rightarrow> string option \<times> 'w"
  soListen :: "string \<Rightarrow> 'w \<Rightarrow> string option \<times> 'w"
  soChmod :: "string \<Rightarrow> 'w \<Rightarrow> string option \<times> 'w"
  soCloseListener :: "'w \<Rightarrow> 'w"

datatype serveError = SinkRequired | SocketPathRequired | SocketIO string | NotASocket string | AcceptFailed string

definition removeOwnedSocket :: "'w SocketOps \<Rightarrow> string \<Rightarrow> 'w \<Rightarrow> serveError option \<times> 'w" where
  "removeOwnedSocket so path w =
     (case soLstat so path w of
        NotThere \<Rightarrow> (None, w)
      | LstatFailed e \<Rightarrow> (Some (SocketIO e), w)
      | IsOther \<Rightarrow> (Some (NotASocket path), w)
      | IsSocket \<Rightarrow> (case soRemove so path w of (e, w1) \<Rightarrow> (map_option SocketIO e, w1)))"

text \<open>
  \<open>Serve\<close> up to the first \<open>Accept\<close>: on success the listener is open and its socket is private to the user.
\<close>

definition openListener :: "'w SocketOps \<Rightarrow> bool \<Rightarrow> string \<Rightarrow> 'w \<Rightarrow> serveError option \<times> 'w" where
  "openListener so sink path w =
     (if \<not> sink then (Some SinkRequired, w)
      else if path = '''' then (Some SocketPathRequired, w)
      else case soMkdirAll so (soDir so path) w of
        (Some e, w1) \<Rightarrow> (Some (SocketIO e), w1)
      | (None, w1) \<Rightarrow>
          (case removeOwnedSocket so path w1 of
             (Some e, w2) \<Rightarrow> (Some e, w2)
           | (None, w2) \<Rightarrow>
               (case soListen so path w2 of
                  (Some e, w3) \<Rightarrow> (Some (SocketIO e), w3)
                | (None, w3) \<Rightarrow>
                    (case soChmod so path w3 of
                       (Some e, w4) \<Rightarrow> (Some (SocketIO e), soCloseListener so w4)
                     | (None, w4) \<Rightarrow> (None, w4)))))"

text \<open>
  The outcomes of \<open>Accept\<close>: a connection, or an error, with whether the context is done or the listener
  closed by then. Connections are numbered from \<open>n\<close>; the first error ends the loop.
\<close>

datatype acceptEvent = Accepted | AcceptError string bool

fun acceptLoop :: "acceptEvent list \<Rightarrow> nat \<Rightarrow> nat list \<times> serveError option" where
  "acceptLoop [] n = ([], None)"
| "acceptLoop (Accepted # evs) n = (case acceptLoop evs (Suc n) of (cs, e) \<Rightarrow> (n # cs, e))"
| "acceptLoop (AcceptError e done # _) n = ([], if done then None else Some (AcceptFailed e))"

text \<open>The whole of \<open>Serve\<close>: the connections it handed to \<open>handle\<close>, its error and the world it leaves.\<close>

definition Serve :: "'w SocketOps \<Rightarrow> bool \<Rightarrow> string \<Rightarrow> acceptEvent list \<Rightarrow> 'w \<Rightarrow> nat list \<times> serveError option \<times> 'w" where
  "Serve so sink path evs w =
     (case openListener so sink path w of
        (Some e, w1) \<Rightarrow> ([], Some e, w1)
      | (None, w1) \<Rightarrow>
          (case acceptLoop evs 0 of (cs, e) \<Rightarrow> (cs, e, snd (soRemove so path (soCloseListener so w1)))))"

text \<open>
  A file at the socket's path that is not a socket is kept: \<open>Serve\<close> reports it and has done nothing
  after making the directory.
\<close>

lemma Serve_keeps_files:
  assumes "soMkdirAll so (soDir so path) w = (None, w1)" and "soLstat so path w1 = IsOther" and "path \<noteq> ''''"
  shows "Serve so True path evs w = ([], Some (NotASocket path), w1)"
  using assms by (simp add: Serve_def openListener_def removeOwnedSocket_def)

text \<open>A server that is stopped has no error, and every connection that it accepted got a number of its own.\<close>

lemma acceptLoop_stopped:
  "acceptLoop (replicate k Accepted @ AcceptError e True # evs) n = ([n..<n + k], None)"
  by (induction k arbitrary: n) (simp_all add: upt_conv_Cons)

end
