(* ===== verification/FloatBounds.thy ===== *)
theory FloatBounds
  imports GoFloat
begin

text \<open>
  How far the rounding of \<open>GoFloat\<close> moves a non-negative number: crude bounds, enough to know that
  a conversion to an integer stays in range.
\<close>

fun fval :: "f64 \<Rightarrow> real" where
  "fval (Fin m e) = valR m e"
| "fval _ = 0"

lemma valR_nonneg: "0 \<le> m \<Longrightarrow> 0 \<le> valR m e"
  and valR_zero [simp]: "valR 0 e = 0"
  by (simp_all add: valR_def)

lemma valR_add: "valR (m + n) e = valR m e + valR n e"
  by (simp add: valR_def distrib_right)

lemma powr_nat: "0 \<le> k \<Longrightarrow> (2::real) powr of_int k = 2 ^ nat k"
  using powr_realpow [of "2 :: real" "nat k"] by simp

lemma valR_shift: "0 \<le> k \<Longrightarrow> valR (m * 2 ^ nat k) e = valR m (e + k)"
  by (simp add: valR_def powr_add powr_nat)

lemma bitlen_lower: "0 < m \<Longrightarrow> 0 < bitlen m \<and> 2 ^ nat (bitlen m - 1) \<le> m"
proof (induction m rule: bitlen.induct)
  case (1 m)
  show ?case
  proof (cases "m = 1")
    case True
    then show ?thesis by (simp add: bitlen.simps [of 1] bitlen.simps [of 0])
  next
    case False
    with 1 have "0 < m div 2" by simp
    with 1 have IH: "0 < bitlen (m div 2)" "2 ^ nat (bitlen (m div 2) - 1) \<le> m div 2" by simp_all
    have b: "bitlen m = 1 + bitlen (m div 2)" using 1 by (simp add: bitlen.simps [of m])
    have "nat (bitlen m - 1) = Suc (nat (bitlen (m div 2) - 1))" using IH(1) b by simp
    then have "2 ^ nat (bitlen m - 1) = 2 * (2 :: int) ^ nat (bitlen (m div 2) - 1)" by simp
    also have "\<dots> \<le> 2 * (m div 2)" using IH(2) by simp
    also have "\<dots> \<le> m" by simp
    finally show ?thesis using IH b by simp
  qed
qed

lemma roundHalfEven_bounds: "0 < d \<Longrightarrow> n - d \<le> roundHalfEven n d * d \<and> roundHalfEven n d * d \<le> n + d"
proof -
  assume d: "0 < d"
  have r: "roundHalfEven n d = n div d \<or> roundHalfEven n d = n div d + 1"
    by (auto simp: roundHalfEven_def Let_def)
  have "n = n div d * d + n mod d" "0 \<le> n mod d" "n mod d < d" using d by simp_all
  then have "n - d \<le> n div d * d" "n div d * d \<le> n" "n - d \<le> n div d * d + d" "n div d * d + d \<le> n + d"
    using d by linarith+
  with r show ?thesis using d by (auto simp: distrib_right)
qed

lemma significand_error:
  assumes "0 \<le> m"
  shows "\<bar>valR (significand m s) (e + s) - valR m e\<bar> \<le> (if s \<le> 0 then 0 else 2 powr of_int (e + s))"
proof (cases "s \<le> 0")
  case True
  then have "valR (significand m s) (e + s) = valR m e"
    using valR_shift [of "- s" m "e + s"] by (simp add: significand_def)
  with True show ?thesis by simp
next
  case False
  let ?r = "roundHalfEven m (2 ^ nat s)"
  have "\<bar>?r * 2 ^ nat s - m\<bar> \<le> 2 ^ nat s"
    using roundHalfEven_bounds [of "2 ^ nat s" m] by (simp add: abs_le_iff algebra_simps)
  then have "\<bar>real_of_int (?r * 2 ^ nat s - m)\<bar> \<le> 2 ^ nat s"
    by (metis of_int_abs of_int_le_iff of_int_numeral of_int_power)
  then have *: "\<bar>of_int ?r * 2 powr of_int s - of_int m\<bar> \<le> 2 powr real_of_int s"
    using False by (simp add: powr_nat)
  have "valR (significand m s) (e + s) - valR m e = (of_int ?r * 2 powr of_int s - of_int m) * 2 powr of_int e"
    using False by (simp add: significand_def valR_def powr_add algebra_simps)
  moreover have "\<bar>\<dots>\<bar> \<le> 2 powr of_int s * 2 powr of_int e"
    using * by (simp add: abs_mult mult_right_mono)
  ultimately show ?thesis using False by (simp add: powr_add mult.commute)
qed

lemma pack_value: "pack m e = Fin n f \<Longrightarrow> valR n f = valR m e"
proof -
  assume p: "pack m e = Fin n f"
  show ?thesis
  proof (cases "\<bar>m\<bar> = 2 ^ 53")
    case True
    then have "m = 2 ^ 53 \<or> m = - (2 ^ 53)" by arith
    then have "m = 2 * (m div 2)" by (elim disjE) (simp_all only:, simp_all)
    then have "valR m e = valR (m div 2 * 2 ^ nat 1) e" by (simp add: mult.commute)
    also have "\<dots> = valR (m div 2) (e + 1)" by (rule valR_shift) simp
    finally show ?thesis using True p by (auto simp: pack_def split: if_splits)
  next
    case False
    with p show ?thesis by (auto simp: pack_def fzero_def split: if_splits)
  qed
qed

text \<open>The rounding error of a number that is rounded to a finite one.\<close>

lemma rnd_error:
  assumes "0 < m"
  obtains s where "rnd m e = pack (significand m s) (e + s)"
    and "\<bar>valR (significand m s) (e + s) - valR m e\<bar> \<le> valR m e / 2 + 1"
proof -
  define s where "s = max (bitlen \<bar>m\<bar> - 53) (-1074 - e)"
  have r: "rnd m e = pack (significand m s) (e + s)"
    using assms by (simp add: rnd_def Let_def s_def)
  have "2 powr of_int (e + s) \<le> valR m e / 2 + 1" if "0 < s"
  proof (cases "s = bitlen m - 53")
    case True
    with that have k: "0 \<le> bitlen m - 53" by simp
    have "(2::int) ^ nat (bitlen m - 53) * 2 \<le> 2 ^ nat (bitlen m - 1)"
    proof -
      have "(2::int) ^ nat (bitlen m - 53) * 2 = 2 ^ Suc (nat (bitlen m - 53))" by simp
      also have "\<dots> \<le> 2 ^ nat (bitlen m - 1)" using k by (intro power_increasing) auto
      finally show ?thesis .
    qed
    also have "\<dots> \<le> m" using bitlen_lower [OF assms] by simp
    finally have "real_of_int (2 ^ nat s * 2) \<le> of_int m" unfolding True of_int_le_iff .
    then have "2 powr real_of_int s * 2 * 2 powr real_of_int e \<le> real_of_int m * 2 powr real_of_int e"
      using that by (intro mult_right_mono) (simp_all add: powr_nat)
    then have "2 powr real_of_int (e + s) * 2 \<le> valR m e"
      by (simp add: valR_def powr_add mult.commute mult.left_commute)
    then show ?thesis by simp
  next
    case False
    with assms have "e + s = -1074" by (auto simp: s_def max_def split: if_splits)
    then have "2 powr real_of_int (e + s) \<le> 2 powr (0 :: real)" by (intro powr_mono) simp_all
    then have "2 powr real_of_int (e + s) \<le> 1" by simp
    moreover have "0 \<le> valR m e" using assms by (simp add: valR_nonneg)
    ultimately show ?thesis by simp
  qed
  moreover have "0 \<le> valR m e" using assms by (simp add: valR_nonneg)
  ultimately have "\<bar>valR (significand m s) (e + s) - valR m e\<bar> \<le> valR m e / 2 + 1"
    using significand_error [of m s e] assms by (cases "s \<le> 0") auto
  with r show thesis by (rule that)
qed

lemma rnd_bounds:
  assumes "0 \<le> m" and "rnd m e = Fin n f"
  shows "0 \<le> n" and "valR n f \<le> 2 * valR m e + 1" and "valR m e \<le> 2 * valR n f + 2"
proof -
  show "0 \<le> n" by (rule rnd_nonneg(1) [OF assms])
  have "valR n f \<le> 2 * valR m e + 1 \<and> valR m e \<le> 2 * valR n f + 2"
  proof (cases "m = 0")
    case True
    with assms(2) show ?thesis by (auto simp: rnd_def fzero_def)
  next
    case False
    with assms(1) have "0 < m" by simp
    from rnd_error [OF this, of e] obtain s where s: "rnd m e = pack (significand m s) (e + s)"
      "\<bar>valR (significand m s) (e + s) - valR m e\<bar> \<le> valR m e / 2 + 1" .
    have "valR n f = valR (significand m s) (e + s)" using pack_value s(1) assms(2) by simp
    moreover have "0 \<le> valR m e" using assms(1) by (rule valR_nonneg)
    ultimately show ?thesis using s(2) by linarith
  qed
  then show "valR n f \<le> 2 * valR m e + 1" "valR m e \<le> 2 * valR n f + 2" by simp_all
qed

lemma rnd_finite:
  assumes "0 \<le> m" and "valR m e \<le> 2 ^ 900"
  obtains n f where "rnd m e = Fin n f"
proof (cases "rnd m e")
  case (Inf b)
  with assms(1) have "0 < m" by (cases "m = 0") (auto simp: rnd_def fzero_def)
  from rnd_error [OF this, of e] obtain s where s: "rnd m e = pack (significand m s) (e + s)"
    "\<bar>valR (significand m s) (e + s) - valR m e\<bar> \<le> valR m e / 2 + 1" .
  let ?k = "significand m s"
  from s(1) Inf have k: "?k \<noteq> 0" "970 < e + s" by (auto simp: pack_def fzero_def split: if_splits)
  with significand_nonneg [OF assms(1), of s] have "1 \<le> ?k" by simp
  have "(2::real) ^ 970 = 2 powr of_int 970" by (simp add: powr_nat)
  also have "\<dots> \<le> 2 powr of_int (e + s)" using k(2) by (intro powr_mono) (simp_all del: of_int_add)
  also have "\<dots> \<le> valR ?k (e + s)" using \<open>1 \<le> ?k\<close> by (simp add: valR_def)
  also have "\<dots> \<le> 2 * valR m e + 1" using s(2) valR_nonneg [OF assms(1), of e] by linarith
  finally show thesis using assms(2) by simp
qed (use rnd_nonneg(2) [OF assms(1)] in \<open>auto intro: that\<close>)

section \<open>Scaling an integer by a float\<close>

lemma nonneg_float:
  assumes "fle fzero x" and "isFinite x"
  obtains m e where "x = Fin m e" and "0 \<le> m"
  using assms by (cases x) (auto simp: fzero_def ltVal_def split: if_splits)

lemma fle_one: "fle x fone \<Longrightarrow> fval x \<le> 1"
  by (cases x) (auto simp: fone_def ltVal_valR valR_def powr_minus)

lemma fle_one_finite: "fle z fone \<Longrightarrow> z \<noteq> Inf True \<Longrightarrow> \<exists>k h. z = Fin k h"
  by (cases z) (auto simp: fone_def)

text \<open>A summand of a sum that is at most 1, and positive.\<close>

lemma summand_bounds:
  assumes "fle (fadd x y) fone" and "fle fzero x" and "fle fzero y" and "isFinite x" and "isFinite y"
  shows "fval x \<le> 4" and "fval y \<le> 4"
proof -
  obtain m e where x: "x = Fin m e" "0 \<le> m" by (rule nonneg_float [OF assms(2,4)])
  obtain n f where y: "y = Fin n f" "0 \<le> n" by (rule nonneg_float [OF assms(3,5)])
  have nn: "0 \<le> valR m e" "0 \<le> valR n f" using x y by (simp_all add: valR_nonneg)
  have "fval x \<le> 4 \<and> fval y \<le> 4"
  proof (cases "m = 0 \<or> n = 0")
    case True
    with assms(1) x y have "valR m e \<le> 1 \<and> valR n f \<le> 1"
      using fle_one [OF assms(1)] by (auto split: if_splits)
    with x y show ?thesis by simp
  next
    case False
    let ?g = "min e f"
    let ?s = "m * 2 ^ nat (e - ?g) + n * 2 ^ nat (f - ?g)"
    have s: "fadd x y = rnd ?s ?g" using x y False by simp
    have pos: "0 \<le> ?s" using x y by simp
    have val: "valR ?s ?g = valR m e + valR n f"
      using valR_shift [of "e - ?g" m ?g] valR_shift [of "f - ?g" n ?g] by (simp add: valR_add)
    from assms(1) have fin: "\<exists>k h. fadd x y = Fin k h"
      by (rule fle_one_finite) (use rnd_nonneg(3) [OF pos, of ?g] s in simp)
    then obtain k h where k: "fadd x y = Fin k h" by blast
    have "valR ?s ?g \<le> 2 * valR k h + 2" using rnd_bounds(3) [OF pos] k s by simp
    moreover have "valR k h \<le> 1" using fle_one [OF assms(1)] k by simp
    ultimately show ?thesis using val nn x y by simp
  qed
  then show "fval x \<le> 4" "fval y \<le> 4" by simp_all
qed

lemma valR_int [simp]: "valR n 0 = of_int n"
  by (simp add: valR_def)

lemma ofInt_range:
  assumes "0 \<le> n" and "n \<le> 2 ^ 100"
  obtains m e where "ofInt n = Fin m e" and "0 \<le> m" and "valR m e \<le> 2 * of_int n + 1"
proof -
  have "real_of_int n \<le> of_int (2 ^ 100)" using assms(2) unfolding of_int_le_iff .
  also have "\<dots> \<le> 2 ^ 900" by simp
  finally have "valR n 0 \<le> 2 ^ 900" by simp
  from rnd_finite [OF assms(1) this] obtain m e where r: "rnd n 0 = Fin m e" .
  from rnd_bounds [OF assms(1) r] r show thesis by (intro that [of m e]) (simp_all add: ofInt_def)
qed

lemma mathRound_range:
  assumes "0 \<le> m" and "valR m e \<le> 2 ^ 60"
  obtains n f where "mathRound (Fin m e) = Fin n f" and "0 \<le> n" and "valR n f \<le> 2 * valR m e + 3"
proof (cases "m = 0 \<or> 0 \<le> e")
  case True
  then show thesis using assms valR_nonneg [OF assms(1), of e] by (intro that [of m e]) simp_all
next
  case False
  let ?j = "(2 * m + 2 ^ nat (- e)) div 2 ^ nat (1 - e)"
  have pos: "0 \<le> ?j" using assms(1) by (simp add: pos_imp_zdiv_nonneg_iff)
  have "?j * 2 ^ nat (1 - e) \<le> 2 * m + 2 ^ nat (- e)"
    by (simp add: mult.commute [of "_ div _"] flip: minus_mod_eq_mult_div)
  then have "real_of_int (?j * 2 ^ nat (1 - e)) \<le> of_int (2 * m + 2 ^ nat (- e))" unfolding of_int_le_iff .
  then have "of_int ?j * 2 powr real_of_int (1 - e) \<le> 2 * of_int m + 2 powr real_of_int (- e)"
    using False by (simp add: powr_nat del: of_int_minus of_int_diff)
  then have "of_int ?j * 2 powr real_of_int (1 - e) * 2 powr real_of_int e
      \<le> (2 * of_int m + 2 powr real_of_int (- e)) * 2 powr real_of_int e"
    by (rule mult_right_mono) simp
  then have "2 * of_int ?j \<le> 2 * valR m e + 1"
    by (simp add: valR_def powr_diff powr_minus algebra_simps)
  then have j: "of_int ?j \<le> valR m e + 1" by simp
  have "real_of_int ?j \<le> of_int (2 ^ 100)" using j assms(2) by simp
  then have "?j \<le> 2 ^ 100" unfolding of_int_le_iff .
  from ofInt_range [OF pos this] obtain n f where
    "ofInt ?j = Fin n f" "0 \<le> n" "valR n f \<le> 2 * of_int ?j + 1" .
  moreover have "mathRound (Fin m e) = ofInt ?j" using False assms(1) by simp
  ultimately show thesis using j by (intro that [of n f]) simp_all
qed

lemma toInt_range:
  assumes "0 \<le> m" and "valR m e \<le> 2 ^ 60"
  shows "0 \<le> toInt (Fin m e)" and "of_int (toInt (Fin m e)) \<le> valR m e"
proof -
  define i where "i = (if m = 0 then 0 else if 0 \<le> e then m * 2 ^ nat e else \<bar>m\<bar> div 2 ^ nat (- e))"
  have i: "0 \<le> i" "of_int i \<le> valR m e"
  proof -
    show "0 \<le> i" using assms(1) by (simp add: i_def pos_imp_zdiv_nonneg_iff)
    show "of_int i \<le> valR m e"
    proof (cases "m = 0 \<or> 0 \<le> e")
      case True
      then show ?thesis by (auto simp: i_def valR_def powr_nat)
    next
      case False
      have "i * 2 ^ nat (- e) \<le> m"
        using False assms(1) by (simp add: i_def mult.commute [of "_ div _"] flip: minus_mod_eq_mult_div)
      then have "real_of_int (i * 2 ^ nat (- e)) \<le> of_int m" unfolding of_int_le_iff .
      then have "of_int i * 2 powr real_of_int (- e) \<le> of_int m"
        using False by (simp add: powr_nat del: of_int_minus)
      then have "of_int i * 2 powr real_of_int (- e) * 2 powr real_of_int e \<le> of_int m * 2 powr real_of_int e"
        by (rule mult_right_mono) simp
      moreover have "2 powr real_of_int (- e) * 2 powr real_of_int e = 1" by (simp flip: powr_add)
      ultimately show ?thesis by (simp add: valR_def mult.assoc del: of_int_minus)
    qed
  qed
  have "real_of_int i \<le> of_int (2 ^ 60)" using i(2) assms(2) by simp
  then have "i \<le> 2 ^ 60" unfolding of_int_le_iff .
  with i(1) have "in64 i" by (simp add: in64_def)
  moreover have "toInt (Fin m e) = (if in64 i then i else - (2 ^ 63))"
    using assms(1) by (auto simp: i_def Let_def)
  ultimately show "0 \<le> toInt (Fin m e)" "of_int (toInt (Fin m e)) \<le> valR m e" using i by simp_all
qed

text \<open>\<open>int(math.Round(x * float64(n)))\<close> for a non-negative \<open>x\<close> of at most 4.\<close>

lemma scaled_range:
  assumes "fle fzero x" and "isFinite x" and "fval x \<le> 4" and "0 \<le> n" and "n \<le> 2 ^ 31"
  shows "0 \<le> toInt (mathRound (fmul x (ofInt n))) \<and> toInt (mathRound (fmul x (ofInt n))) \<le> 2 ^ 40"
proof -
  obtain m e where x: "x = Fin m e" "0 \<le> m" by (rule nonneg_float [OF assms(1,2)])
  have "n \<le> 2 ^ 100" using assms(5) by simp
  from ofInt_range [OF assms(4) this] obtain n' f where
    n: "ofInt n = Fin n' f" "0 \<le> n'" "valR n' f \<le> 2 * of_int n + 1" .
  have "real_of_int n \<le> of_int (2 ^ 31)" using assms(5) unfolding of_int_le_iff .
  then have n33: "valR n' f \<le> 2 ^ 33" using n(3) by simp
  have prod: "valR (m * n') (e + f) = valR m e * valR n' f" by (simp add: valR_def powr_add)
  have "valR m e * valR n' f \<le> 4 * 2 ^ 33"
    using n33 assms(3) x n(2) by (intro mult_mono) (simp_all add: valR_nonneg)
  then have v35: "valR (m * n') (e + f) \<le> 2 ^ 35" unfolding prod by simp
  then have "valR (m * n') (e + f) \<le> 2 ^ 900" by (rule order_trans) simp
  moreover have pos: "0 \<le> m * n'" using x(2) n(2) by simp
  ultimately obtain k g where k: "rnd (m * n') (e + f) = Fin k g" by (metis rnd_finite)
  from rnd_bounds [OF pos k] v35 have k0: "0 \<le> k" and k37: "valR k g \<le> 2 ^ 37" by simp_all
  then have "valR k g \<le> 2 ^ 60" by simp
  from mathRound_range [OF k0 this] obtain j h where
    j: "mathRound (Fin k g) = Fin j h" "0 \<le> j" "valR j h \<le> 2 * valR k g + 3" .
  then have v: "valR j h \<le> 2 ^ 40" using k37 by simp
  then have "valR j h \<le> 2 ^ 60" by simp
  note t = toInt_range [OF j(2) this]
  have eq: "toInt (mathRound (fmul x (ofInt n))) = toInt (Fin j h)" using x n k j by simp
  have "real_of_int (toInt (Fin j h)) \<le> of_int (2 ^ 40)" using t(2) v by simp
  then have "toInt (Fin j h) \<le> 2 ^ 40" unfolding of_int_le_iff .
  with t(1) show ?thesis unfolding eq by simp
qed

end
