(* ===== verification/GnomeShell.thy ===== *)
theory GnomeShell
  imports ProviderFeeds WorkspaceSpec
begin

text \<open>
  \<open>internal/providers/gnomeshell/protocol.go\<close>: the snapshot of the shell, its validation, and what it
  becomes in the registry. JSON decoding is the parameter of \<open>Decode\<close>.
\<close>

section \<open>Data\<close>

definition ShellSchemaVersion :: "32 word" where "ShellSchemaVersion = 1"
definition ShellProviderID :: string where "ShellProviderID = ''gnome-shell''"

record Monitor =
  mnRef :: string
  mnIndex :: int
  mnPrimary :: bool
  mnScale :: f64
  mnGeometry :: LogicalRect
  mnWorkArea :: LogicalRect

record Topology =
  tpRevision :: string
  tpPrimaryMonitorRef :: string
  tpMonitors :: "Monitor list"

record ShellWindow =
  swID :: string
  swTitle :: string
  swWorkspaceID :: string
  swMonitorRef :: string
  swFrame :: LogicalRect
  swFocused :: bool
  swMinimized :: bool
  swMRU :: "64 word"
  swAttention :: string

record ShellApplication =
  saAppID :: string
  saName :: string
  saIconName :: string
  saDesktopAppID :: string
  saIdentityHints :: "string list"
  saBusy :: bool
  saWindows :: "ShellWindow list"

record ShellSnapshot =
  shSchema :: "32 word"
  shRevision :: "64 word"
  shCapturedAt :: int
  shTopology :: Topology
  shApps :: "ShellApplication list"

datatype shellError =
    DecodeShell string | ShellSchema "32 word" | ShellRevisionRequired | CapturedAtRequired
  | TopologyRevisionRequired | MonitorsRequired | MonitorRefRequired | InvalidMonitor string
  | DuplicateMonitor string | PrimaryCount int | PrimaryUnavailable string
  | ApplicationIDRequired | DuplicateShellApplication string | WindowWithoutID string
  | DuplicateShellWindow string | InvalidFrame string | InvalidAttention string string

section \<open>Validation\<close>

definition checkMonitor :: "string list \<times> int \<Rightarrow> Monitor \<Rightarrow> shellError + string list \<times> int" where
  "checkMonitor st m =
     (case st of (seen, primaryCount) \<Rightarrow>
        if blank (mnRef m) then Inl MonitorRefRequired
        else if mnIndex m < 0 \<or> fle (mnScale m) fzero \<or> \<not> LogicalRect_Valid (mnGeometry m) \<or> \<not> LogicalRect_Valid (mnWorkArea m)
        then Inl (InvalidMonitor (mnRef m))
        else if mnRef m \<in> set seen then Inl (DuplicateMonitor (mnRef m))
        else Inr (mnRef m # seen, if mnPrimary m then primaryCount + 1 else primaryCount))"

definition Topology_Validate :: "Topology \<Rightarrow> shellError option" where
  "Topology_Validate t =
     (if blank (tpRevision t) then Some TopologyRevisionRequired
      else if tpMonitors t = [] then Some MonitorsRequired
      else case foldE checkMonitor ([], 0) (tpMonitors t) of
        Inl e \<Rightarrow> Some e
      | Inr (seen, primaryCount) \<Rightarrow>
          if primaryCount \<noteq> 1 then Some (PrimaryCount primaryCount)
          else if tpPrimaryMonitorRef t \<notin> set seen then Some (PrimaryUnavailable (tpPrimaryMonitorRef t))
          else None)"

definition checkWindow :: "string \<Rightarrow> string list \<Rightarrow> ShellWindow \<Rightarrow> shellError + string list" where
  "checkWindow appID windows w =
     (if blank (swID w) then Inl (WindowWithoutID appID)
      else if swID w \<in> set windows then Inl (DuplicateShellWindow (swID w))
      else if swFrame w \<noteq> zeroRect \<and> \<not> LogicalRect_Valid (swFrame w) then Inl (InvalidFrame (swID w))
      else if swAttention w \<notin> {'''', AttentionNormal, AttentionWanted, AttentionUrgent}
      then Inl (InvalidAttention (swID w) (swAttention w))
      else Inr (swID w # windows))"

definition checkApplication ::
  "string list \<times> string list \<Rightarrow> ShellApplication \<Rightarrow> shellError + string list \<times> string list" where
  "checkApplication st app =
     (case st of (apps, windows) \<Rightarrow>
        let appID = TrimSpace (saAppID app)
        in if appID = '''' then Inl ApplicationIDRequired
           else if appID \<in> set apps then Inl (DuplicateShellApplication appID)
           else case foldE (checkWindow appID) windows (saWindows app) of
             Inl e \<Rightarrow> Inl e
           | Inr windows \<Rightarrow> Inr (appID # apps, windows))"

definition ShellSnapshot_Validate :: "ShellSnapshot \<Rightarrow> shellError option" where
  "ShellSnapshot_Validate s =
     (if shSchema s \<noteq> ShellSchemaVersion then Some (ShellSchema (shSchema s))
      else if shRevision s = 0 then Some ShellRevisionRequired
      else if shCapturedAt s = 0 then Some CapturedAtRequired
      else case (if tpRevision (shTopology s) \<noteq> '''' then Topology_Validate (shTopology s) else None) of
        Some e \<Rightarrow> Some e
      | None \<Rightarrow> (case foldE checkApplication ([], []) (shApps s) of Inl e \<Rightarrow> Some e | Inr _ \<Rightarrow> None))"

definition Decode :: "(string \<Rightarrow> string + ShellSnapshot) \<Rightarrow> string \<Rightarrow> shellError + ShellSnapshot" where
  "Decode unmarshal data =
     (case unmarshal data of
        Inl e \<Rightarrow> Inl (DecodeShell e)
      | Inr s \<Rightarrow> (case ShellSnapshot_Validate s of Some e \<Rightarrow> Inl e | None \<Rightarrow> Inr s))"

section \<open>The provider's snapshots\<close>

definition shellRank :: "string \<Rightarrow> int" where
  "shellRank v = (if v = AttentionUrgent then 3 else if v = AttentionWanted then 2 else 1)"

definition strongestAttention :: "string \<Rightarrow> string \<Rightarrow> string" where
  "strongestAttention a b = (if shellRank b > shellRank a then b else a)"

definition shellPatch :: "ShellWindow \<Rightarrow> WindowPatch" where
  "shellPatch w = zeroWindowPatch\<lparr>wpWindowID := swID w, wpTitle := swTitle w, wpWorkspaceID := swWorkspaceID w,
     wpMonitorRef := swMonitorRef w, wpFocused := swFocused w, wpMinimized := swMinimized w, wpMRU := swMRU w,
     wpAuthoritativeState := True\<rparr>"

definition shellAppSnapshot :: "ShellSnapshot \<Rightarrow> ShellApplication \<Rightarrow> ProviderSnapshot" where
  "shellAppSnapshot s app =
     (let focused = foldl (\<lambda>f w. f \<or> swFocused w) False (saWindows app);
          attention = foldl (\<lambda>a w. strongestAttention a (swAttention w)) AttentionNormal (saWindows app)
      in blankSnapshot\<lparr>pvProviderID := ShellProviderID, pvKind := SourceNative, pvAppID := saAppID app,
           pvIdentityHints := saIdentityHints app, pvObservedAt := shCapturedAt s, pvTTL := 5 * second,
           pvPriority := 200, pvRevision := shRevision s, pvAllowOrphan := True, pvApplicationName := saName app,
           pvIconName := saIconName app, pvDesktopAppID := saDesktopAppID app,
           pvWindows := map shellPatch (saWindows app),
           pvStatus := emptyPatch\<lparr>spLifecycle := Some LifecycleRunning, spFocused := Some focused,
             spBusy := Some (saBusy app), spAttention := Some attention\<rparr>,
           pvCapabilities := [CapabilityWindowObserve], pvConfidence := ConfidenceAuthoritative\<rparr>)"

definition ProviderSnapshots :: "ShellSnapshot \<Rightarrow> ProviderSnapshot list" where
  "ProviderSnapshots s = map (shellAppSnapshot s) (shApps s)"

section \<open>A validated snapshot\<close>

lemma checkApplication_seen:
  "foldE checkApplication st apps = Inr st' \<Longrightarrow>
   list_all (\<lambda>a. TrimSpace (saAppID a) \<noteq> '''' \<and> TrimSpace (saAppID a) \<notin> set (fst st)) apps \<and>
   distinct (map (\<lambda>a. TrimSpace (saAppID a)) apps)"
proof (induction apps arbitrary: st)
  case (Cons a apps)
  from Cons.prems obtain st1 where s1: "checkApplication st a = Inr st1" "foldE checkApplication st1 apps = Inr st'"
    by (auto split: sum.splits)
  from s1(1) have "TrimSpace (saAppID a) \<noteq> ''''" "TrimSpace (saAppID a) \<notin> set (fst st)"
    "fst st1 = TrimSpace (saAppID a) # fst st"
    by (auto simp: checkApplication_def Let_def split: prod.splits if_splits sum.splits)
  with Cons.IH [OF s1(2)] show ?case by (auto simp: list_all_iff)
qed simp

lemma Validate_apps:
  assumes "ShellSnapshot_Validate s = None"
  shows "shCapturedAt s \<noteq> 0" and "list_all (\<lambda>a. TrimSpace (saAppID a) \<noteq> '''') (shApps s)"
    and "distinct (map (\<lambda>a. TrimSpace (saAppID a)) (shApps s))"
proof -
  from assms obtain st where f: "foldE checkApplication ([], []) (shApps s) = Inr st" and c: "shCapturedAt s \<noteq> 0"
    by (auto simp: ShellSnapshot_Validate_def split: if_splits option.splits sum.splits)
  show "shCapturedAt s \<noteq> 0" by (rule c)
  show "list_all (\<lambda>a. TrimSpace (saAppID a) \<noteq> '''') (shApps s)"
    and "distinct (map (\<lambda>a. TrimSpace (saAppID a)) (shApps s))"
    using checkApplication_seen [OF f] by (auto simp: list_all_iff)
qed

lemma shellAppSnapshot_simps [simp]:
  "pvProviderID (shellAppSnapshot s a) = ShellProviderID" "pvAppID (shellAppSnapshot s a) = saAppID a"
  "pvRevision (shellAppSnapshot s a) = shRevision s" "pvObservedAt (shellAppSnapshot s a) = shCapturedAt s"
  by (simp_all add: shellAppSnapshot_def Let_def)

lemma trim_ShellProviderID [simp]: "TrimSpace ShellProviderID = ShellProviderID"
  and ShellProviderID_not_Nil [simp]: "ShellProviderID \<noteq> ''''"
  and nulFree_ShellProviderID [simp]: "nulFree ShellProviderID"
  by code_simp+

lemma shell_normalize:
  assumes "shCapturedAt s \<noteq> 0" and "TrimSpace (saAppID a) \<noteq> ''''"
  obtains t where "normalizeSnapshot uni (shellAppSnapshot s a) = Inr t"
    and "pvProviderID t = ShellProviderID" and "pvAppID t = saAppID a" and "pvRevision t = shRevision s"
proof -
  have "\<exists>t. normalizeSnapshot uni (shellAppSnapshot s a) = Inr t"
    using assms by (simp add: normalizeSnapshot_def Let_def)
  then obtain t where t: "normalizeSnapshot uni (shellAppSnapshot s a) = Inr t" ..
  with normalizeSnapshot_good [OF t] show thesis by (intro that [of t]) simp_all
qed

lemma shell_replaceStep:
  assumes "shCapturedAt s \<noteq> 0" and "TrimSpace (saAppID a) \<noteq> ''''"
    and "map_of nxt (ShellProviderID @ [CHR 0x00] @ saAppID a) = None"
  shows "\<exists>t. replaceStep uni ShellProviderID nxt (shellAppSnapshot s a) =
    Inr (put (ShellProviderID @ [CHR 0x00] @ saAppID a) t nxt) \<and> pvRevision t = shRevision s"
proof -
  obtain t where t: "normalizeSnapshot uni (shellAppSnapshot s a) = Inr t"
    "pvProviderID t = ShellProviderID" "pvAppID t = saAppID a" "pvRevision t = shRevision s"
    by (rule shell_normalize [OF assms(1,2)])
  then have "replaceStep uni ShellProviderID nxt (shellAppSnapshot s a) =
      Inr (put (ShellProviderID @ [CHR 0x00] @ saAppID a) t nxt)"
    using assms(3) by (simp add: replaceStep_def Let_def snapshotKey_def)
  with t(4) show ?thesis by blast
qed

lemma shell_replace_loop:
  assumes "shCapturedAt s \<noteq> 0"
  shows "list_all (\<lambda>a. TrimSpace (saAppID a) \<noteq> '''') apps \<Longrightarrow> distinct (map saAppID apps) \<Longrightarrow>
    \<forall>a \<in> set apps. map_of nxt (ShellProviderID @ [CHR 0x00] @ saAppID a) = None \<Longrightarrow>
    \<forall>k t. map_of nxt k = Some t \<longrightarrow> pvRevision t = shRevision s \<Longrightarrow>
    \<exists>nxt'. foldE (replaceStep uni ShellProviderID) nxt (map (shellAppSnapshot s) apps) = Inr nxt' \<and>
      (\<forall>k t. map_of nxt' k = Some t \<longrightarrow> pvRevision t = shRevision s)"
proof (induction apps arbitrary: nxt)
  case (Cons a apps)
  obtain t where t: "replaceStep uni ShellProviderID nxt (shellAppSnapshot s a) =
      Inr (put (ShellProviderID @ [CHR 0x00] @ saAppID a) t nxt)" "pvRevision t = shRevision s"
    using shell_replaceStep [OF assms, of a nxt uni] Cons.prems by auto
  let ?nxt = "put (ShellProviderID @ [CHR 0x00] @ saAppID a) t nxt"
  have "\<exists>nxt'. foldE (replaceStep uni ShellProviderID) ?nxt (map (shellAppSnapshot s) apps) = Inr nxt' \<and>
      (\<forall>k t. map_of nxt' k = Some t \<longrightarrow> pvRevision t = shRevision s)"
    by (rule Cons.IH) (use Cons.prems t(2) in \<open>auto simp: image_iff\<close>)
  with t(1) show ?case by simp
qed simp

text \<open>
  C37. What the shell's snapshot validates the registry accepts: replacing the shell's provider with
  the snapshots of a validated message succeeds whenever the registry holds none of a later revision,
  and fails with nothing but the stale-revision error otherwise; never with a duplicate application,
  a missing identifier or time, or a foreign provider.
\<close>

theorem validated_shell_accepted:
  assumes "ShellSnapshot_Validate s = None" and "goodRegistry r" and "isIteration it"
  shows "case fst (Registry_ReplaceProvider uni it ShellProviderID (ProviderSnapshots s) r) of
      None \<Rightarrow> True
    | Some e \<Rightarrow> \<exists>k prev. map_of r k = Some prev \<and> shRevision s < pvRevision prev \<and>
        e = StaleRevision (shRevision s) (pvRevision prev)"
proof -
  have d: "distinct (map saAppID (shApps s))"
    using Validate_apps(3) [OF assms(1)] by (auto simp: distinct_map inj_on_def)
  obtain nxt where nxt: "foldE (replaceStep uni ShellProviderID) [] (ProviderSnapshots s) = Inr nxt"
    and rev: "\<And>k t. map_of nxt k = Some t \<Longrightarrow> pvRevision t = shRevision s"
    using shell_replace_loop [OF Validate_apps(1,2) [OF assms(1)] d, where nxt = "[]" and uni = uni] assms(1)
    by (auto simp: ProviderSnapshots_def Validate_apps)
  have wf: "wf_map nxt" using replaceStep_good [OF nxt] by (simp add: goodRegistry_def)
  have res: "fst (Registry_ReplaceProvider uni it ShellProviderID (ProviderSnapshots s) r) = firstErr (staleCheck r) (it nxt)"
  proof -
    have "TrimSpace ShellProviderID = ShellProviderID" "ShellProviderID \<noteq> ''''" by code_simp+
    with nxt show ?thesis
      by (cases "firstErr (staleCheck r) (it nxt)") (simp_all add: Registry_ReplaceProvider_def Let_def del: firstErr_None)
  qed
  show ?thesis
  proof (cases "firstErr (staleCheck r) (it nxt)")
    case None
    show ?thesis unfolding res None by simp
  next
    case (Some e)
    from firstErr_Some [OF Some] obtain k t where kt: "(k, t) \<in> set (it nxt)" "staleCheck r (k, t) = Some e" by force
    then have "map_of nxt k = Some t" using wf_map_in [OF wf] isIteration_set [OF assms(3)] by blast
    from rev [OF this] kt(2) obtain prev where "map_of r k = Some prev" "shRevision s < pvRevision prev"
      "e = StaleRevision (shRevision s) (pvRevision prev)"
      by (auto simp: staleCheck_def split: option.splits if_splits)
    then show ?thesis unfolding res Some by auto
  qed
qed

definition sampleShell :: ShellSnapshot where
  "sampleShell = \<lparr>shSchema = 1, shRevision = 4, shCapturedAt = 9,
     shTopology = \<lparr>tpRevision = '''', tpPrimaryMonitorRef = '''', tpMonitors = []\<rparr>,
     shApps = [\<lparr>saAppID = ''zed'', saName = ''Zed'', saIconName = '''', saDesktopAppID = '''', saIdentityHints = [], saBusy = False,
       saWindows = [\<lparr>swID = ''w1'', swTitle = '''', swWorkspaceID = '''', swMonitorRef = '''', swFrame = zeroRect,
         swFocused = True, swMinimized = False, swMRU = 1, swAttention = ''''\<rparr>]\<rparr>]\<rparr>"

lemma validated_shell_accepted_witness:
  "fst (Registry_ReplaceProvider (\<lambda>s. s) rev ShellProviderID (ProviderSnapshots sampleShell) []) = None"
proof -
  have v: "ShellSnapshot_Validate sampleShell = None" by code_simp
  have "goodRegistry []" by (simp add: goodRegistry_def)
  from validated_shell_accepted [OF v this isIteration_rev, of "\<lambda>s. s"] show ?thesis
    by (auto split: option.splits)
qed

end
