(* ===== verification/ShellPlacement.thy ===== *)
theory ShellPlacement
  imports FloatBounds GnomeShell
begin

text \<open>
  \<open>internal/adapters/shelldesktop/placement.go\<close>: from the normalized rectangle of a definition to
  pixels of a monitor of the current topology, and the test whether a window has arrived there.
  Sums of pixels wrap at 64 bits.
\<close>

definition placementTolerance :: int where "placementTolerance = 2"

datatype placementError =
    PlacementRequired | TopologyUnavailable shellError | SecondaryUnavailable | InvalidMonitorRole string
  | MonitorRoleUnavailable string | OutsideWorkArea

section \<open>The monitor of a role\<close>

definition isPrimaryMonitor :: "Topology \<Rightarrow> Monitor \<Rightarrow> bool" where
  "isPrimaryMonitor t m \<longleftrightarrow> mnRef m = tpPrimaryMonitorRef t \<or> mnPrimary m"

text \<open>The last loop of \<open>resolveMonitor\<close>, which the other roles fall through to.\<close>

definition monitorByRef :: "string \<Rightarrow> Monitor list \<Rightarrow> placementError + Monitor" where
  "monitorByRef role monitors =
     (case find (\<lambda>m. mnRef m = role) monitors of
        Some m \<Rightarrow> Inr m | None \<Rightarrow> Inl (MonitorRoleUnavailable role))"

definition resolveMonitor :: "string \<Rightarrow> Topology \<Rightarrow> placementError + Monitor" where
  "resolveMonitor role t =
     (let monitors = sortBy (\<lambda>a b. mnIndex a < mnIndex b) (tpMonitors t)
      in case (if role = '''' \<or> role = ''primary'' then find (isPrimaryMonitor t) monitors else None) of
           Some m \<Rightarrow> Inr m
         | None \<Rightarrow>
             if role = ''secondary'' then
               (case find (\<lambda>m. \<not> isPrimaryMonitor t m) monitors of
                  Some m \<Rightarrow> Inr m | None \<Rightarrow> Inl SecondaryUnavailable)
             else if HasPrefix role ''monitor:'' then
               (case Atoi (TrimPrefix role ''monitor:'') of
                  None \<Rightarrow> Inl (InvalidMonitorRole role)
                | Some index \<Rightarrow>
                    if index < 0 then Inl (InvalidMonitorRole role)
                    else case find (\<lambda>m. mnIndex m = index \<or> mnRef m = role) monitors of
                      Some m \<Rightarrow> Inr m
                    | None \<Rightarrow> monitorByRef role monitors)
             else monitorByRef role monitors)"

section \<open>The rectangle\<close>

text \<open>\<open>int(math.Round(f * float64(n)))\<close>.\<close>

definition scaled :: "f64 \<Rightarrow> int \<Rightarrow> int" where
  "scaled f n = toInt (mathRound (fmul f (ofInt n)))"

text \<open>One axis: the offset and the length, at least 1 and cut at the far edge of the area.\<close>

definition placeAxis :: "int \<Rightarrow> int \<Rightarrow> f64 \<Rightarrow> f64 \<Rightarrow> int \<times> int" where
  "placeAxis start extent position portion =
     (let x = wrap64 (start + scaled position extent);
          n = scaled portion extent;
          n = (if n < 1 then 1 else n);
          edge = wrap64 (start + extent)
      in (x, if wrap64 (x + n) > edge then wrap64 (edge - x) else n))"

definition placeRect :: "LogicalRect \<Rightarrow> NormalizedRect \<Rightarrow> LogicalRect" where
  "placeRect area r =
     (let h = placeAxis (lrX area) (lrWidth area) (nrX r) (nrWidth r);
          v = placeAxis (lrY area) (lrHeight area) (nrY r) (nrHeight r)
      in \<lparr>lrX = fst h, lrY = fst v, lrWidth = snd h, lrHeight = snd v\<rparr>)"

definition resolvePlacement :: "PlacementIntent option \<Rightarrow> Topology \<Rightarrow> placementError + ResolvedPlacement" where
  "resolvePlacement intent t =
     (case intent of
        None \<Rightarrow> Inl PlacementRequired
      | Some i \<Rightarrow>
          (case Topology_Validate t of
             Some e \<Rightarrow> Inl (TopologyUnavailable e)
           | None \<Rightarrow>
               (case resolveMonitor (TrimSpace (piMonitorRole i)) t of
                  Inl e \<Rightarrow> Inl e
                | Inr m \<Rightarrow>
                    let area = (if LogicalRect_Valid (mnWorkArea m) then mnWorkArea m else mnGeometry m);
                        rect = placeRect area (piRect i)
                    in if \<not> LogicalRect_Valid rect then Inl OutsideWorkArea
                       else Inr \<lparr>rpTopologyRevision = tpRevision t, rpMonitorRef = mnRef m,
                                 rpMonitorIndex = mnIndex m, rpWorkspace = piWorkspace i, rpRect = rect\<rparr>)))"

section \<open>Arrival\<close>

definition near :: "int \<Rightarrow> int \<Rightarrow> bool" where
  "near a b =
     (let delta = wrap64 (a - b); delta = (if delta < 0 then wrap64 (- delta) else delta)
      in delta \<le> placementTolerance)"

definition placementReached :: "ResolvedPlacement \<Rightarrow> ShellWindow \<Rightarrow> string \<Rightarrow> bool" where
  "placementReached target w topologyRevision =
     (if rpTopologyRevision target = '''' \<or> topologyRevision \<noteq> rpTopologyRevision target then False
      else if swMonitorRef w \<noteq> rpMonitorRef target \<or> swWorkspaceID w \<noteq> ''workspace:'' @ Itoa (rpWorkspace target)
      then False
      else near (lrX (swFrame w)) (lrX (rpRect target)) \<and> near (lrY (swFrame w)) (lrY (rpRect target)) \<and>
           near (lrWidth (swFrame w)) (lrWidth (rpRect target)) \<and>
           near (lrHeight (swFrame w)) (lrHeight (rpRect target)))"

definition anchorWindow :: "ShellApplication \<Rightarrow> ShellWindow option" where
  "anchorWindow app =
     (case sortBy (\<lambda>a b. swID a < swID b) (saWindows app) of [] \<Rightarrow> None | w # _ \<Rightarrow> Some w)"

definition findShellApplication :: "ShellSnapshot \<Rightarrow> string \<Rightarrow> ShellApplication option" where
  "findShellApplication s desktopAppID =
     find (\<lambda>a. saDesktopAppID a = desktopAppID \<or> saAppID a = desktopAppID) (shApps s)"

section \<open>Monitors that validate\<close>

lemma resolveMonitor_in: "resolveMonitor role t = Inr m \<Longrightarrow> m \<in> set (tpMonitors t)"
  by (auto simp: resolveMonitor_def monitorByRef_def Let_def dest!: find_in split: if_splits option.splits)

lemma Topology_Validate_monitors:
  assumes "Topology_Validate t = None" and "m \<in> set (tpMonitors t)"
  shows "LogicalRect_Valid (mnWorkArea m) \<and> LogicalRect_Valid (mnGeometry m) \<and> 0 \<le> mnIndex m"
proof -
  from assms(1) obtain st where "foldE checkMonitor ([], 0) (tpMonitors t) = Inr st"
    by (auto simp: Topology_Validate_def split: if_splits sum.splits)
  then have "\<forall>m \<in> set (tpMonitors t). LogicalRect_Valid (mnWorkArea m) \<and> LogicalRect_Valid (mnGeometry m) \<and> 0 \<le> mnIndex m"
    by (rule foldE_invariant [where I = "\<lambda>ms _. \<forall>m \<in> set ms. LogicalRect_Valid (mnWorkArea m) \<and>
          LogicalRect_Valid (mnGeometry m) \<and> 0 \<le> mnIndex m"])
      (auto simp: checkMonitor_def Let_def split: prod.splits if_splits)
  with assms(2) show ?thesis by blast
qed

section \<open>A placement lies in the work area\<close>

lemma normalized_axis:
  assumes "fle fzero x" and "flt fzero w" and "fle (fadd x w) fone"
  shows "isFinite x \<and> isFinite w \<and> fle fzero w \<and> fval x \<le> 4 \<and> fval w \<le> 4"
proof -
  have fin: "isFinite x \<and> isFinite w"
    using assms by (cases x; cases w) (auto simp: fzero_def fone_def split: if_splits)
  moreover have "fle fzero w"
    using assms(2) fin by (cases w) (auto simp: fzero_def ltVal_def split: if_splits)
  ultimately show ?thesis using summand_bounds [OF assms(3,1)] by simp
qed

definition screenSized :: "LogicalRect \<Rightarrow> bool" where
  "screenSized a \<longleftrightarrow> \<bar>lrX a\<bar> \<le> 2 ^ 31 \<and> \<bar>lrY a\<bar> \<le> 2 ^ 31 \<and> lrWidth a \<le> 2 ^ 31 \<and> lrHeight a \<le> 2 ^ 31"

definition insideArea :: "LogicalRect \<Rightarrow> LogicalRect \<Rightarrow> bool" where
  "insideArea r a \<longleftrightarrow> 0 < lrWidth r \<and> 0 < lrHeight r \<and>
     lrX a \<le> lrX r \<and> lrX r + lrWidth r \<le> lrX a + lrWidth a \<and>
     lrY a \<le> lrY r \<and> lrY r + lrHeight r \<le> lrY a + lrHeight a"

lemma placeAxis_closed:
  assumes "\<bar>start\<bar> \<le> 2 ^ 31" and "0 < extent" and "extent \<le> 2 ^ 31"
    and "fle fzero position" and "flt fzero portion" and "fle (fadd position portion) fone"
  shows "0 \<le> scaled position extent \<and> 0 \<le> scaled portion extent \<and>
    placeAxis start extent position portion =
      (start + scaled position extent,
       min (max 1 (scaled portion extent)) (extent - scaled position extent))"
proof -
  note fin = normalized_axis [OF assms(4-6)]
  have p: "0 \<le> scaled position extent" "scaled position extent \<le> 2 ^ 40"
    and s: "0 \<le> scaled portion extent" "scaled portion extent \<le> 2 ^ 40"
    using scaled_range [of position extent] scaled_range [of portion extent] fin assms(2-4)
    by (simp_all add: scaled_def)
  with assms(1-3) have "in64 (start + scaled position extent)" "in64 (start + extent)"
    "in64 (start + scaled position extent + max 1 (scaled portion extent))"
    "in64 (start + extent - (start + scaled position extent))"
    unfolding in64_def by (simp_all add: abs_le_iff max_def split: if_splits)
  with p s show ?thesis
    by (auto simp: placeAxis_def Let_def max_def min_def split: if_splits)
qed

lemma placeAxis_fits:
  assumes "\<bar>start\<bar> \<le> 2 ^ 31" and "0 < extent" and "extent \<le> 2 ^ 31"
    and "fle fzero position" and "flt fzero portion" and "fle (fadd position portion) fone"
  shows "0 < snd (placeAxis start extent position portion) \<longleftrightarrow> scaled position extent < extent"
    and "start \<le> fst (placeAxis start extent position portion)"
    and "fst (placeAxis start extent position portion) + snd (placeAxis start extent position portion) \<le> start + extent"
  using placeAxis_closed [OF assms] by auto

text \<open>
  C21. A validated intent resolves exactly when its role names a monitor and its rounded corner lies
  in the monitor's work area; then the rectangle is not empty and lies inside the work area of that
  monitor, a monitor of the validated topology, whose revision and reference the result carries. The
  areas are taken to be within 2^31 pixels, so that no sum wraps.
\<close>

theorem placement_inside:
  assumes "NormalizedRect_Valid (piRect i)" and "Topology_Validate t = None"
    and "\<And>m. m \<in> set (tpMonitors t) \<Longrightarrow> screenSized (mnWorkArea m)"
  shows "((\<exists>p. resolvePlacement (Some i) t = Inr p) =
      (\<exists>m. resolveMonitor (TrimSpace (piMonitorRole i)) t = Inr m \<and>
         scaled (nrX (piRect i)) (lrWidth (mnWorkArea m)) < lrWidth (mnWorkArea m) \<and>
         scaled (nrY (piRect i)) (lrHeight (mnWorkArea m)) < lrHeight (mnWorkArea m))) \<and>
    (\<forall>p. resolvePlacement (Some i) t = Inr p \<longrightarrow>
      (\<exists>m \<in> set (tpMonitors t). resolveMonitor (TrimSpace (piMonitorRole i)) t = Inr m \<and>
        rpMonitorRef p = mnRef m \<and> rpMonitorIndex p = mnIndex m \<and> rpWorkspace p = piWorkspace i \<and>
        rpTopologyRevision p = tpRevision t \<and> insideArea (rpRect p) (mnWorkArea m)))"
proof -
  let ?r = "piRect i" and ?role = "TrimSpace (piMonitorRole i)"
  have n: "fle fzero (nrX ?r)" "fle fzero (nrY ?r)" "flt fzero (nrWidth ?r)" "flt fzero (nrHeight ?r)"
    "fle (fadd (nrX ?r) (nrWidth ?r)) fone" "fle (fadd (nrY ?r) (nrHeight ?r)) fone"
    using assms(1) by (simp_all add: NormalizedRect_Valid_def)
  have area: "0 < lrWidth (mnWorkArea m)" "0 < lrHeight (mnWorkArea m)" "LogicalRect_Valid (mnWorkArea m)"
      "\<bar>lrX (mnWorkArea m)\<bar> \<le> 2 ^ 31" "\<bar>lrY (mnWorkArea m)\<bar> \<le> 2 ^ 31"
      "lrWidth (mnWorkArea m) \<le> 2 ^ 31" "lrHeight (mnWorkArea m) \<le> 2 ^ 31"
    if "resolveMonitor ?role t = Inr m" for m
    using Topology_Validate_monitors [OF assms(2) resolveMonitor_in [OF that]] assms(3) [OF resolveMonitor_in [OF that]]
    by (auto simp: LogicalRect_Valid_def screenSized_def)
  note fits = placeAxis_fits [OF area(4,1,6) n(1,3,5)] placeAxis_fits [OF area(5,2,7) n(2,4,6)]
  have res: "resolvePlacement (Some i) t =
      (case resolveMonitor ?role t of Inl e \<Rightarrow> Inl e
       | Inr m \<Rightarrow> if LogicalRect_Valid (placeRect (mnWorkArea m) ?r)
           then Inr \<lparr>rpTopologyRevision = tpRevision t, rpMonitorRef = mnRef m, rpMonitorIndex = mnIndex m,
                     rpWorkspace = piWorkspace i, rpRect = placeRect (mnWorkArea m) ?r\<rparr>
           else Inl OutsideWorkArea)"
    using area(3) by (auto simp: resolvePlacement_def assms(2) Let_def split: sum.splits)
  have valid: "LogicalRect_Valid (placeRect (mnWorkArea m) ?r) \<longleftrightarrow>
      scaled (nrX ?r) (lrWidth (mnWorkArea m)) < lrWidth (mnWorkArea m) \<and>
      scaled (nrY ?r) (lrHeight (mnWorkArea m)) < lrHeight (mnWorkArea m)"
    if "resolveMonitor ?role t = Inr m" for m
    using fits(1,4) [OF that that that] by (simp add: LogicalRect_Valid_def placeRect_def Let_def)
  have iff: "(\<exists>p. resolvePlacement (Some i) t = Inr p) =
      (\<exists>m. resolveMonitor ?role t = Inr m \<and>
         scaled (nrX ?r) (lrWidth (mnWorkArea m)) < lrWidth (mnWorkArea m) \<and>
         scaled (nrY ?r) (lrHeight (mnWorkArea m)) < lrHeight (mnWorkArea m))"
    unfolding res using valid by (auto split: sum.splits)
  have "\<exists>m \<in> set (tpMonitors t). resolveMonitor ?role t = Inr m \<and>
        rpMonitorRef p = mnRef m \<and> rpMonitorIndex p = mnIndex m \<and> rpWorkspace p = piWorkspace i \<and>
        rpTopologyRevision p = tpRevision t \<and> insideArea (rpRect p) (mnWorkArea m)"
    if "resolvePlacement (Some i) t = Inr p" for p
  proof -
    from that obtain m where m: "resolveMonitor ?role t = Inr m" "LogicalRect_Valid (placeRect (mnWorkArea m) ?r)"
      "p = \<lparr>rpTopologyRevision = tpRevision t, rpMonitorRef = mnRef m, rpMonitorIndex = mnIndex m,
            rpWorkspace = piWorkspace i, rpRect = placeRect (mnWorkArea m) ?r\<rparr>"
      unfolding res by (auto split: sum.splits if_splits)
    then show ?thesis
      using resolveMonitor_in [OF m(1)] fits(2,3,5,6) [OF m(1) m(1) m(1)]
      by (intro bexI [of _ m]) (simp_all add: insideArea_def placeRect_def Let_def LogicalRect_Valid_def)
  qed
  with iff show ?thesis by blast
qed

section \<open>Examples\<close>

definition sampleTopology :: Topology where
  "sampleTopology = \<lparr>tpRevision = ''t1'', tpPrimaryMonitorRef = ''m1'',
     tpMonitors = [\<lparr>mnRef = ''m1'', mnIndex = 0, mnPrimary = True, mnScale = fone,
       mnGeometry = \<lparr>lrX = 0, lrY = 0, lrWidth = 1920, lrHeight = 1080\<rparr>,
       mnWorkArea = \<lparr>lrX = 0, lrY = 40, lrWidth = 1920, lrHeight = 1040\<rparr>\<rparr>]\<rparr>"

definition rightHalf :: PlacementIntent where
  "rightHalf = \<lparr>piMonitorRole = '' primary'', piWorkspace = 2,
     piRect = \<lparr>nrX = lit 1 2, nrY = fzero, nrWidth = lit 1 2, nrHeight = fone\<rparr>\<rparr>"

lemma placement_inside_witness:
  "\<exists>p. resolvePlacement (Some rightHalf) sampleTopology = Inr p \<and>
     rpRect p = \<lparr>lrX = 960, lrY = 40, lrWidth = 960, lrHeight = 1040\<rparr> \<and>
     (\<exists>m \<in> set (tpMonitors sampleTopology). insideArea (rpRect p) (mnWorkArea m))"
proof -
  have v: "NormalizedRect_Valid (piRect rightHalf)" by code_simp
  have t: "Topology_Validate sampleTopology = None" by code_simp
  have s: "screenSized (mnWorkArea m)" if "m \<in> set (tpMonitors sampleTopology)" for m
    using that by (simp add: sampleTopology_def screenSized_def)
  have "case resolvePlacement (Some rightHalf) sampleTopology of
      Inr p \<Rightarrow> rpRect p = \<lparr>lrX = 960, lrY = 40, lrWidth = 960, lrHeight = 1040\<rparr> | Inl _ \<Rightarrow> False" by code_simp
  then obtain p where p: "resolvePlacement (Some rightHalf) sampleTopology = Inr p"
    "rpRect p = \<lparr>lrX = 960, lrY = 40, lrWidth = 960, lrHeight = 1040\<rparr>" by (auto split: sum.splits)
  with placement_inside [OF v t s] show ?thesis by blast
qed

text \<open>
  A definition that validates may still have no placement: a rectangle at the edge whose corner rounds
  to the edge is widened to one pixel and then cut to none, although one pixel to the left would do.
\<close>

definition thinEdge :: PlacementIntent where
  "thinEdge = \<lparr>piMonitorRole = '''', piWorkspace = 0,
     piRect = \<lparr>nrX = lit 9999 10000, nrY = fzero, nrWidth = lit 1 10000, nrHeight = fone\<rparr>\<rparr>"

lemma thin_edge_refused:
  "NormalizedRect_Valid (piRect thinEdge) \<and> resolvePlacement (Some thinEdge) sampleTopology = Inl OutsideWorkArea"
  by code_simp

end
