(* ===== verification/ShellAction.thy ===== *)
theory ShellAction
  imports WorkspaceSpec ConfigFiles
begin

text \<open>
  \<open>internal/shellaction/broker.go\<close>: requests to the shell and their completions. \<open>Request\<close> and
  \<open>Complete\<close> run in goroutines of their own and meet in the map of pending requests and in a
  channel with room for one result; a call is a thread that passes through phases, one atomic step
  (a critical section, a channel operation) at a time. What the code does not decide (the random
  identifier, the outcome of the emitter, the timer, the cancellation) is part of the event.
\<close>

section \<open>Requests and results\<close>

definition ActionSchemaVersion :: "32 word" where "ActionSchemaVersion = 1"
definition KindEnsureDesktopApp :: string where "KindEnsureDesktopApp = ''ensure_desktop_app''"
definition KindCloseWindow :: string where "KindCloseWindow = ''close_window''"
definition KindPlaceWindow :: string where "KindPlaceWindow = ''place_window''"

record ActionRequest =
  rqSchema :: "32 word"
  rqID :: string
  rqKind :: string
  rqWorkspaceID :: string
  rqResourceID :: string
  rqDesktopAppID :: string
  rqWindowID :: string
  rqTopologyRevision :: string
  rqMonitorRef :: string
  rqMonitorIndex :: int
  rqTargetWorkspace :: int
  rqRect :: LogicalRect

record ActionResult =
  arSchema :: "32 word"
  arID :: string
  arSuccess :: bool
  arChanged :: bool
  arCode :: string
  arMessage :: string

datatype actionError =
    RequestSchema "32 word" | RequestIDsRequired | DesktopAppRequired | WindowRequired | PlacementFieldsRequired
  | PlacementInvalid | RequestKind string | ExecutorUnavailable | AlreadyPending string
  | EmitFailed string string | ContextDone string | TimedOut string
  | ResultDecode decodeError | ResultSchema "32 word" | ResultIDRequired | NoPendingRequest string
  | AlreadyCompleted string

definition validateRequest :: "ActionRequest \<Rightarrow> actionError option" where
  "validateRequest r =
     (if rqSchema r \<noteq> ActionSchemaVersion then Some (RequestSchema (rqSchema r))
      else if blank (rqID r) \<or> blank (rqWorkspaceID r) \<or> blank (rqResourceID r) then Some RequestIDsRequired
      else if rqKind r = KindEnsureDesktopApp then
        (if blank (rqDesktopAppID r) then Some DesktopAppRequired else None)
      else if rqKind r = KindCloseWindow then
        (if blank (rqWindowID r) then Some WindowRequired else None)
      else if rqKind r = KindPlaceWindow then
        (if blank (rqWindowID r) \<or> blank (rqTopologyRevision r) \<or> blank (rqMonitorRef r) then Some PlacementFieldsRequired
         else if rqMonitorIndex r < 0 \<or> rqTargetWorkspace r < 0 \<or> \<not> LogicalRect_Valid (rqRect r) then Some PlacementInvalid
         else None)
      else Some (RequestKind (rqKind r)))"

definition checkResult :: "ActionResult \<Rightarrow> actionError option" where
  "checkResult r =
     (if arSchema r \<noteq> ActionSchemaVersion then Some (ResultSchema (arSchema r))
      else if blank (arID r) then Some ResultIDRequired else None)"

definition DecodeResult :: "ActionResult Decoder \<Rightarrow> string \<Rightarrow> actionError + ActionResult" where
  "DecodeResult dec data =
     (case decodeSingle dec data of
        Inl e \<Rightarrow> Inl (ResultDecode e)
      | Inr r \<Rightarrow> (case checkResult r of Some e \<Rightarrow> Inl e | None \<Rightarrow> Inr r))"

section \<open>The broker\<close>

text \<open>A channel is a number; the emitter is a value of the type \<open>'e\<close>.\<close>

record 'e Broker =
  bkEmitter :: "'e option"
  bkPending :: "(string, nat) gomap"
  bkTimeout :: int

definition NewBroker :: "int \<Rightarrow> 'e Broker" where
  "NewBroker timeout =
     \<lparr>bkEmitter = None, bkPending = [], bkTimeout = (if timeout \<le> 0 then 3000000000 else timeout)\<rparr>"

definition SetEmitter :: "'e option \<Rightarrow> 'e Broker \<Rightarrow> 'e Broker" where
  "SetEmitter emitter b = b\<lparr>bkEmitter := emitter\<rparr>"

text \<open>
  \<open>Request\<close> up to the end of its first critical section: \<open>rid\<close> is the random identifier for a
  request without one, \<open>ch\<close> the channel just made.
\<close>

definition registerRequest ::
  "string \<Rightarrow> nat \<Rightarrow> ActionRequest \<Rightarrow> 'e Broker \<Rightarrow> (actionError + ActionRequest) \<times> 'e Broker" where
  "registerRequest rid ch r0 b =
     (let r1 = r0\<lparr>rqSchema := ActionSchemaVersion\<rparr>;
          r = (if blank (rqID r1) then r1\<lparr>rqID := rid\<rparr> else r1)
      in case validateRequest r of
           Some e \<Rightarrow> (Inl e, b)
         | None \<Rightarrow>
             if bkEmitter b = None then (Inl ExecutorUnavailable, b)
             else if map_of (bkPending b) (rqID r) \<noteq> None then (Inl (AlreadyPending (rqID r)), b)
             else (Inr r, b\<lparr>bkPending := put (rqID r) ch (bkPending b)\<rparr>))"

definition forgetRequest :: "ActionRequest \<Rightarrow> 'e Broker \<Rightarrow> 'e Broker" where
  "forgetRequest r b = b\<lparr>bkPending := del (rqID r) (bkPending b)\<rparr>"

text \<open>\<open>Complete\<close> up to the end of its critical section: the channel of the pending request.\<close>

definition lookupPending :: "ActionResult \<Rightarrow> 'e Broker \<Rightarrow> actionError + nat" where
  "lookupPending r b =
     (case checkResult r of
        Some e \<Rightarrow> Inl e
      | None \<Rightarrow> (case map_of (bkPending b) (arID r) of None \<Rightarrow> Inl (NoPendingRequest (arID r)) | Some ch \<Rightarrow> Inr ch))"

text \<open>The send that does not block: it succeeds when the channel's one place is free.\<close>

definition trySend :: "ActionResult \<Rightarrow> ActionResult option \<Rightarrow> actionError option \<times> ActionResult option" where
  "trySend r content =
     (case content of None \<Rightarrow> (None, Some r) | Some _ \<Rightarrow> (Some (AlreadyCompleted (arID r)), content))"

section \<open>Threads\<close>

text \<open>
  The phases of a call of \<open>Request\<close> (emitting, waiting in the \<open>select\<close>, about to run the deferred
  delete, returned) and of a call of \<open>Complete\<close> (holding the channel it found, returned).
\<close>

datatype phase =
    Emitting ActionRequest nat
  | Waiting ActionRequest nat
  | Leaving ActionRequest nat "actionError + ActionResult"
  | Returned ActionRequest "actionError + ActionResult"
  | Refused actionError
  | Sending ActionResult nat
  | Completed ActionResult "actionError option"

record 'e System =
  syBroker :: "'e Broker"
  syChans :: "ActionResult option list"
  syThreads :: "nat \<Rightarrow> phase option"

definition newSystem :: "int \<Rightarrow> 'e System" where
  "newSystem timeout = \<lparr>syBroker = NewBroker timeout, syChans = [], syThreads = (\<lambda>_. None)\<rparr>"

datatype 'e event =
    EvSetEmitter "'e option"
  | EvRequest nat string ActionRequest
  | EvEmitted nat "string option"
  | EvDone nat string
  | EvTimeout nat
  | EvReceive nat
  | EvCleanup nat
  | EvComplete nat ActionResult
  | EvCompleteJSON nat string
  | EvSend nat

definition setPhase :: "nat \<Rightarrow> phase \<Rightarrow> 'e System \<Rightarrow> 'e System" where
  "setPhase t p S = S\<lparr>syThreads := (syThreads S)(t \<mapsto> p)\<rparr>"

text \<open>
  One step of the system, \<open>None\<close> when the event cannot happen: new calls need a fresh thread, the
  others a thread in the right phase.
\<close>

fun brokerStep :: "ActionResult Decoder \<Rightarrow> 'e event \<Rightarrow> 'e System \<Rightarrow> 'e System option" where
  "brokerStep dec (EvSetEmitter e) S = Some (S\<lparr>syBroker := SetEmitter e (syBroker S)\<rparr>)"
| "brokerStep dec (EvRequest t rid r) S =
     (if syThreads S t \<noteq> None then None
      else case registerRequest rid (length (syChans S)) r (syBroker S) of
        (Inl e, _) \<Rightarrow> Some (setPhase t (Refused e) S)
      | (Inr r', b) \<Rightarrow>
          Some (setPhase t (Emitting r' (length (syChans S))) (S\<lparr>syBroker := b, syChans := syChans S @ [None]\<rparr>)))"
| "brokerStep dec (EvEmitted t err) S =
     (case syThreads S t of
        Some (Emitting r ch) \<Rightarrow>
          (case err of
             None \<Rightarrow> Some (setPhase t (Waiting r ch) S)
           | Some e \<Rightarrow> Some (setPhase t (Leaving r ch (Inl (EmitFailed (rqID r) e))) S))
      | _ \<Rightarrow> None)"
| "brokerStep dec (EvDone t e) S =
     (case syThreads S t of
        Some (Waiting r ch) \<Rightarrow> Some (setPhase t (Leaving r ch (Inl (ContextDone e))) S)
      | _ \<Rightarrow> None)"
| "brokerStep dec (EvTimeout t) S =
     (case syThreads S t of
        Some (Waiting r ch) \<Rightarrow> Some (setPhase t (Leaving r ch (Inl (TimedOut (rqID r)))) S)
      | _ \<Rightarrow> None)"
| "brokerStep dec (EvReceive t) S =
     (case syThreads S t of
        Some (Waiting r ch) \<Rightarrow>
          (case syChans S ! ch of
             Some res \<Rightarrow> Some (setPhase t (Leaving r ch (Inr res)) (S\<lparr>syChans := (syChans S)[ch := None]\<rparr>))
           | None \<Rightarrow> None)
      | _ \<Rightarrow> None)"
| "brokerStep dec (EvCleanup t) S =
     (case syThreads S t of
        Some (Leaving r ch out) \<Rightarrow>
          Some (setPhase t (Returned r out) (S\<lparr>syBroker := forgetRequest r (syBroker S)\<rparr>))
      | _ \<Rightarrow> None)"
| "brokerStep dec (EvComplete t res) S =
     (if syThreads S t \<noteq> None then None
      else case lookupPending res (syBroker S) of
        Inl e \<Rightarrow> Some (setPhase t (Completed res (Some e)) S)
      | Inr ch \<Rightarrow> Some (setPhase t (Sending res ch) S))"
| "brokerStep dec (EvCompleteJSON t payload) S =
     (if syThreads S t \<noteq> None then None
      else case DecodeResult dec payload of
        Inl e \<Rightarrow> Some (setPhase t (Refused e) S)
      | Inr res \<Rightarrow>
          (case lookupPending res (syBroker S) of
             Inl e \<Rightarrow> Some (setPhase t (Completed res (Some e)) S)
           | Inr ch \<Rightarrow> Some (setPhase t (Sending res ch) S)))"
| "brokerStep dec (EvSend t) S =
     (case syThreads S t of
        Some (Sending res ch) \<Rightarrow>
          (case trySend res (syChans S ! ch) of
             (err, content) \<Rightarrow> Some (setPhase t (Completed res err) (S\<lparr>syChans := (syChans S)[ch := content]\<rparr>)))
      | _ \<Rightarrow> None)"

inductive brokerReach :: "ActionResult Decoder \<Rightarrow> int \<Rightarrow> 'e System \<Rightarrow> bool" for dec timeout where
  start: "brokerReach dec timeout (newSystem timeout)"
| step: "brokerReach dec timeout S \<Longrightarrow> brokerStep dec ev S = Some S' \<Longrightarrow> brokerReach dec timeout S'"

section \<open>The invariant\<close>

text \<open>The requests registered and not yet forgotten: their thread, the request and its channel.\<close>

fun activeCall :: "phase \<Rightarrow> (ActionRequest \<times> nat) option" where
  "activeCall (Emitting r ch) = Some (r, ch)"
| "activeCall (Waiting r ch) = Some (r, ch)"
| "activeCall (Leaving r ch out) = Some (r, ch)"
| "activeCall p = None"

definition holds :: "'e System \<Rightarrow> nat \<Rightarrow> ActionRequest \<Rightarrow> nat \<Rightarrow> bool" where
  "holds S t r ch \<longleftrightarrow> (\<exists>p. syThreads S t = Some p \<and> activeCall p = Some (r, ch))"

text \<open>A result that answers whatever request holds the channel.\<close>

definition answers :: "'e System \<Rightarrow> ActionResult \<Rightarrow> nat \<Rightarrow> bool" where
  "answers S res ch \<longleftrightarrow> ch < length (syChans S) \<and> checkResult res = None \<and>
     (\<forall>t r. holds S t r ch \<longrightarrow> rqID r = arID res)"

fun delivered :: "phase \<Rightarrow> (ActionRequest \<times> ActionResult) option" where
  "delivered (Leaving r ch (Inr res)) = Some (r, res)"
| "delivered (Returned r (Inr res)) = Some (r, res)"
| "delivered p = None"

definition pendingOK :: "'e System \<Rightarrow> bool" where
  "pendingOK S \<longleftrightarrow> wf_map (bkPending (syBroker S)) \<and>
     (\<forall>i ch. map_of (bkPending (syBroker S)) i = Some ch \<longleftrightarrow> (\<exists>t r. holds S t r ch \<and> rqID r = i)) \<and>
     (\<forall>t r ch. holds S t r ch \<longrightarrow> ch < length (syChans S) \<and> validateRequest r = None) \<and>
     (\<forall>t r ch t' r' ch'. holds S t r ch \<longrightarrow> holds S t' r' ch' \<longrightarrow> rqID r = rqID r' \<or> ch = ch' \<longrightarrow> t = t')"

definition resultsOK :: "'e System \<Rightarrow> bool" where
  "resultsOK S \<longleftrightarrow>
     (\<forall>t res ch. syThreads S t = Some (Sending res ch) \<longrightarrow> answers S res ch) \<and>
     (\<forall>ch res. ch < length (syChans S) \<longrightarrow> syChans S ! ch = Some res \<longrightarrow> answers S res ch) \<and>
     (\<forall>t p r res. syThreads S t = Some p \<longrightarrow> delivered p = Some (r, res) \<longrightarrow>
        arID res = rqID r \<and> checkResult res = None \<and> validateRequest r = None)"

lemma setPhase_simps [simp]:
  "syBroker (setPhase t p S) = syBroker S" "syChans (setPhase t p S) = syChans S"
  "syThreads (setPhase t p S) = (syThreads S)(t \<mapsto> p)"
  by (simp_all add: setPhase_def)

lemma holds_cong: "syThreads S' = syThreads S \<Longrightarrow> holds S' = holds S"
  by (simp add: fun_eq_iff holds_def)

lemma holds_setPhase:
  "holds (setPhase t p S) t' r ch \<longleftrightarrow> (if t' = t then activeCall p = Some (r, ch) else holds S t' r ch)"
  by (simp add: holds_def)

text \<open>A thread that keeps its request and channel changes nothing else.\<close>

lemma pendingOK_phase:
  assumes "pendingOK S" and "syThreads S t = Some p" and "activeCall p' = activeCall p"
  shows "holds (setPhase t p' S) = holds S" and "pendingOK (setPhase t p' S)"
proof -
  show "holds (setPhase t p' S) = holds S"
    using assms(2,3) by (auto simp: fun_eq_iff holds_setPhase holds_def)
  then show "pendingOK (setPhase t p' S)" using assms(1) by (simp add: pendingOK_def)
qed

lemma holds_new: "syThreads S t = None \<Longrightarrow> \<not> holds S t r ch"
  by (simp add: holds_def)

lemma pendingOK_idle:
  assumes "pendingOK S" and "syThreads S t = None" and "activeCall p' = None"
  shows "holds (setPhase t p' S) = holds S" and "pendingOK (setPhase t p' S)"
proof -
  show "holds (setPhase t p' S) = holds S"
    using assms(2,3) by (auto simp: fun_eq_iff holds_setPhase holds_def)
  then show "pendingOK (setPhase t p' S)" using assms(1) by (simp add: pendingOK_def)
qed

lemma resultsOK_phase:
  assumes "resultsOK S" and "holds (setPhase t p' S) = holds S"
    and "\<And>res ch. p' = Sending res ch \<Longrightarrow> answers S res ch"
    and "\<And>r res. delivered p' = Some (r, res) \<Longrightarrow> arID res = rqID r \<and> checkResult res = None \<and> validateRequest r = None"
  shows "resultsOK (setPhase t p' S)"
proof -
  have a: "answers (setPhase t p' S) = answers S"
    using assms(2) by (simp add: fun_eq_iff answers_def)
  show ?thesis
    using assms(1,3,4) unfolding resultsOK_def a by (auto split: if_splits)
qed

lemma registerRequest_Inr:
  assumes "registerRequest rid ch r b = (Inr r', b')"
  shows "validateRequest r' = None \<and> map_of (bkPending b) (rqID r') = None \<and>
    b' = b\<lparr>bkPending := put (rqID r') ch (bkPending b)\<rparr>"
  using assms by (auto simp: registerRequest_def Let_def split: option.splits if_splits)

lemma registerRequest_Inl: "registerRequest rid ch r b = (Inl e, b') \<Longrightarrow> b' = b"
  by (auto simp: registerRequest_def Let_def split: option.splits if_splits)

lemma lookupPending_Inr:
  "lookupPending res b = Inr ch \<longleftrightarrow> checkResult res = None \<and> map_of (bkPending b) (arID res) = Some ch"
  by (auto simp: lookupPending_def split: option.splits)

lemma lookup_answers:
  assumes "pendingOK S" and "lookupPending res (syBroker S) = Inr ch"
  shows "answers S res ch"
proof -
  from assms(2) have c: "checkResult res = None" "map_of (bkPending (syBroker S)) (arID res) = Some ch"
    by (simp_all add: lookupPending_Inr)
  with assms(1) obtain t r where h: "holds S t r ch" "rqID r = arID res" unfolding pendingOK_def by blast
  with assms(1) have "ch < length (syChans S)" unfolding pendingOK_def by blast
  moreover have "rqID r' = arID res" if "holds S t' r' ch" for t' r'
  proof -
    have "t' = t" using assms(1) h(1) that unfolding pendingOK_def by blast
    with h that show ?thesis by (auto simp: holds_def)
  qed
  ultimately show ?thesis using c(1) by (simp add: answers_def)
qed

lemma step_request:
  assumes "pendingOK S" and "resultsOK S" and "brokerStep dec (EvRequest t rid r) S = Some S'"
  shows "pendingOK S' \<and> resultsOK S'"
proof -
  from assms(3) have new: "syThreads S t = None" by (auto split: if_splits)
  show ?thesis
  proof (cases "registerRequest rid (length (syChans S)) r (syBroker S)")
    case (Pair out b)
    show ?thesis
    proof (cases out)
      case (Inl e)
      with Pair assms(3) have S': "S' = setPhase t (Refused e) S" by (auto split: if_splits)
      have h: "holds (setPhase t (Refused e) S) = holds S" and p: "pendingOK (setPhase t (Refused e) S)"
        by (rule pendingOK_idle [OF assms(1) new], simp)+
      have "resultsOK S'" unfolding S' by (rule resultsOK_phase [OF assms(2) h]) simp_all
      with p S' show ?thesis by simp
    next
      case (Inr r')
      let ?ch = "length (syChans S)"
      from Inr Pair have r': "validateRequest r' = None" "map_of (bkPending (syBroker S)) (rqID r') = None"
        "b = (syBroker S)\<lparr>bkPending := put (rqID r') ?ch (bkPending (syBroker S))\<rparr>"
        using registerRequest_Inr by blast+
      from Inr Pair assms(3) have S': "S' = setPhase t (Emitting r' ?ch) (S\<lparr>syBroker := b, syChans := syChans S @ [None]\<rparr>)"
        by (auto split: if_splits)
      have h: "holds S' t' q ch \<longleftrightarrow> (if t' = t then q = r' \<and> ch = ?ch else holds S t' q ch)" for t' q ch
        by (auto simp: S' holds_def)
      have old: "\<not> holds S t q ch" for q ch using new by (rule holds_new)
      have fresh: "\<not> holds S t' q ?ch" for t' q
        using assms(1) unfolding pendingOK_def by (meson less_irrefl)
      have unused: "rqID q \<noteq> rqID r'" if "holds S t' q ch" for t' q ch
        using assms(1) that r'(2) unfolding pendingOK_def by (metis option.distinct(1))
      have "pendingOK S'"
        unfolding pendingOK_def h
      proof (intro conjI allI impI)
        show "wf_map (bkPending (syBroker S'))" using assms(1) by (simp add: S' r'(3) pendingOK_def)
        show "map_of (bkPending (syBroker S')) i = Some ch \<longleftrightarrow>
            (\<exists>t' q. (if t' = t then q = r' \<and> ch = ?ch else holds S t' q ch) \<and> rqID q = i)" for i ch
        proof (cases "i = rqID r'")
          case True
          with unused show ?thesis by (auto simp: S' r'(3) split: if_splits)
        next
          case False
          then have "map_of (bkPending (syBroker S')) i = Some ch \<longleftrightarrow> (\<exists>t' q. holds S t' q ch \<and> rqID q = i)"
            using assms(1) by (simp add: S' r'(3) pendingOK_def)
          moreover have "(\<exists>t' q. (if t' = t then q = r' \<and> ch = ?ch else holds S t' q ch) \<and> rqID q = i) \<longleftrightarrow>
              (\<exists>t' q. holds S t' q ch \<and> rqID q = i)"
            using False old by metis
          ultimately show ?thesis by simp
        qed
        show "ch < length (syChans S')" "validateRequest q = None"
          if "if t' = t then q = r' \<and> ch = ?ch else holds S t' q ch" for t' q ch
          using that assms(1) r'(1) by (auto simp: S' pendingOK_def less_SucI split: if_splits)
        show "t1 = t2" if "if t1 = t then q1 = r' \<and> c1 = ?ch else holds S t1 q1 c1"
          "if t2 = t then q2 = r' \<and> c2 = ?ch else holds S t2 q2 c2" "rqID q1 = rqID q2 \<or> c1 = c2" for t1 q1 c1 t2 q2 c2
          using that assms(1) unused fresh unfolding pendingOK_def
          by (auto split: if_splits) metis+
      qed
      moreover have "resultsOK S'"
      proof -
        have "syChans S' = syChans S @ [None]" by (simp add: S')
        then have a: "answers S' res ch" if "answers S res ch" for res ch
          using that by (auto simp: answers_def h split: if_splits)
        show ?thesis
          using assms(2) a by (auto simp: resultsOK_def S' nth_append less_Suc_eq split: if_splits)
      qed
      ultimately show ?thesis by blast
    qed
  qed
qed

lemma step_cleanup:
  assumes "pendingOK S" and "resultsOK S" and "brokerStep dec (EvCleanup t) S = Some S'"
  shows "pendingOK S' \<and> resultsOK S'"
proof -
  from assms(3) obtain r ch out where p: "syThreads S t = Some (Leaving r ch out)"
    and S': "S' = setPhase t (Returned r out) (S\<lparr>syBroker := forgetRequest r (syBroker S)\<rparr>)"
    by (auto split: option.splits phase.splits)
  have mine: "holds S t r ch" using p by (simp add: holds_def)
  have h: "holds S' t' q c \<longleftrightarrow> t' \<noteq> t \<and> holds S t' q c" for t' q c
    by (auto simp: S' holds_def)
  have other: "rqID q \<noteq> rqID r" if "holds S t' q c" "t' \<noteq> t" for t' q c
    using assms(1) that mine unfolding pendingOK_def by blast
  have me: "q = r \<and> c = ch" if "holds S t q c" for q c
    using that p by (auto simp: holds_def)
  have "pendingOK S'"
    unfolding pendingOK_def h
  proof (intro conjI allI impI)
    show "wf_map (bkPending (syBroker S'))"
      using assms(1) by (simp add: S' forgetRequest_def pendingOK_def)
    show "map_of (bkPending (syBroker S')) i = Some c \<longleftrightarrow> (\<exists>t' q. (t' \<noteq> t \<and> holds S t' q c) \<and> rqID q = i)" for i c
    proof (cases "i = rqID r")
      case True
      with other show ?thesis by (auto simp: S' forgetRequest_def)
    next
      case False
      then have "map_of (bkPending (syBroker S')) i = Some c \<longleftrightarrow> (\<exists>t' q. holds S t' q c \<and> rqID q = i)"
        using assms(1) by (simp add: S' forgetRequest_def pendingOK_def)
      with False me show ?thesis by metis
    qed
    show "c < length (syChans S')" "validateRequest q = None" if "t' \<noteq> t \<and> holds S t' q c" for t' q c
      using that assms(1) by (auto simp: S' pendingOK_def)
    show "t1 = t2" if "t1 \<noteq> t \<and> holds S t1 q1 c1" "t2 \<noteq> t \<and> holds S t2 q2 c2" "rqID q1 = rqID q2 \<or> c1 = c2"
      for t1 q1 c1 t2 q2 c2
      using that assms(1) unfolding pendingOK_def by blast
  qed
  moreover have "resultsOK S'"
  proof -
    have "syChans S' = syChans S" by (simp add: S')
    then have a: "answers S' res c" if "answers S res c" for res c
      using that by (auto simp: answers_def h)
    have d: "delivered (Returned r out) = delivered (Leaving r ch out)" by (cases out) simp_all
    show ?thesis
      using assms(2) a p d unfolding resultsOK_def S' by (auto split: if_splits)
  qed
  ultimately show ?thesis by blast
qed

text \<open>Changing what a channel holds.\<close>

lemma step_channel:
  assumes "pendingOK S" and "resultsOK S" and "syThreads S t = Some p" and "activeCall p' = activeCall p"
    and "\<And>res. content = Some res \<Longrightarrow> answers S res ch"
    and "\<And>res c. p' = Sending res c \<Longrightarrow> answers S res c"
    and "\<And>r res. delivered p' = Some (r, res) \<Longrightarrow> arID res = rqID r \<and> checkResult res = None \<and> validateRequest r = None"
  shows "pendingOK (setPhase t p' (S\<lparr>syChans := (syChans S)[ch := content]\<rparr>)) \<and>
    resultsOK (setPhase t p' (S\<lparr>syChans := (syChans S)[ch := content]\<rparr>))"
proof -
  let ?S = "S\<lparr>syChans := (syChans S)[ch := content]\<rparr>"
  have h: "holds ?S = holds S" by (simp add: fun_eq_iff holds_def)
  have a: "answers ?S = answers S" by (simp add: fun_eq_iff answers_def h)
  have p: "pendingOK ?S" using assms(1) by (simp add: pendingOK_def h)
  have "answers S res c" if "c < length (syChans S)" "(syChans S)[ch := content] ! c = Some res" for res c
    using that assms(2,5) unfolding resultsOK_def by (cases "c = ch") auto
  then have r: "resultsOK ?S"
    using assms(2) unfolding resultsOK_def a by auto
  have t: "syThreads ?S t = Some p" using assms(3) by simp
  have "resultsOK (setPhase t p' ?S)"
    by (rule resultsOK_phase [OF r pendingOK_phase(1) [OF p t assms(4)]]) (use assms(6,7) a in auto)
  with pendingOK_phase(2) [OF p t assms(4)] show ?thesis by blast
qed

lemma step_send:
  assumes "pendingOK S" and "resultsOK S" and "brokerStep dec (EvSend t) S = Some S'"
  shows "pendingOK S' \<and> resultsOK S'"
proof -
  from assms(3) obtain res ch where p: "syThreads S t = Some (Sending res ch)"
    by (auto split: option.splits phase.splits)
  obtain err content where s: "trySend res (syChans S ! ch) = (err, content)" by fastforce
  from p s assms(3) have S': "S' = setPhase t (Completed res err) (S\<lparr>syChans := (syChans S)[ch := content]\<rparr>)" by simp
  have a: "answers S res ch" using assms(2) p unfolding resultsOK_def by blast
  have "answers S res' ch" if "content = Some res'" for res'
  proof (cases "syChans S ! ch")
    case None
    with s that a show ?thesis by (simp add: trySend_def)
  next
    case (Some x)
    with s that have "syChans S ! ch = Some res'" by (simp add: trySend_def)
    moreover have "ch < length (syChans S)" using a by (simp add: answers_def)
    ultimately show ?thesis using assms(2) unfolding resultsOK_def by blast
  qed
  then show ?thesis
    unfolding S' by (intro step_channel [OF assms(1,2) p]) simp_all
qed

lemma step_receive:
  assumes "pendingOK S" and "resultsOK S" and "brokerStep dec (EvReceive t) S = Some S'"
  shows "pendingOK S' \<and> resultsOK S'"
proof -
  from assms(3) obtain r ch res where p: "syThreads S t = Some (Waiting r ch)" and c: "syChans S ! ch = Some res"
    and S': "S' = setPhase t (Leaving r ch (Inr res)) (S\<lparr>syChans := (syChans S)[ch := None]\<rparr>)"
    by (auto split: option.splits phase.splits)
  have h: "holds S t r ch" using p by (simp add: holds_def)
  with assms(1) have l: "ch < length (syChans S)" "validateRequest r = None" unfolding pendingOK_def by blast+
  with c assms(2) have "answers S res ch" unfolding resultsOK_def by blast
  with h have "arID res = rqID r" "checkResult res = None" by (auto simp: answers_def)
  with l show ?thesis
    unfolding S' by (intro step_channel [OF assms(1,2) p]) simp_all
qed

lemma step_plain:
  assumes "pendingOK S" and "resultsOK S" and "syThreads S t = Some p" and "activeCall p' = activeCall p"
    and "delivered p' = None" and "\<And>res ch. p' \<noteq> Sending res ch"
  shows "pendingOK (setPhase t p' S) \<and> resultsOK (setPhase t p' S)"
  using pendingOK_phase [OF assms(1,3,4)] resultsOK_phase [OF assms(2), of t p'] assms(5,6) by auto

lemma step_idle:
  assumes "pendingOK S" and "resultsOK S" and "syThreads S t = None" and "activeCall p' = None"
    and "delivered p' = None" and "\<And>res ch. p' = Sending res ch \<Longrightarrow> answers S res ch"
  shows "pendingOK (setPhase t p' S) \<and> resultsOK (setPhase t p' S)"
  using pendingOK_idle [OF assms(1,3,4)] resultsOK_phase [OF assms(2), of t p'] assms(5,6) by auto

lemma step_complete:
  assumes "pendingOK S" and "resultsOK S" and "brokerStep dec (EvComplete t res) S = Some S'"
  shows "pendingOK S' \<and> resultsOK S'"
proof -
  from assms(3) have new: "syThreads S t = None" by (auto split: if_splits)
  show ?thesis
  proof (cases "lookupPending res (syBroker S)")
    case (Inl e)
    with new assms(3) have "S' = setPhase t (Completed res (Some e)) S" by simp
    then show ?thesis using step_idle [OF assms(1,2) new, of "Completed res (Some e)"] by simp
  next
    case (Inr ch)
    with new assms(3) have "S' = setPhase t (Sending res ch) S" by simp
    then show ?thesis
      using step_idle [OF assms(1,2) new, of "Sending res ch"] lookup_answers [OF assms(1) Inr] by simp
  qed
qed

lemma step_complete_json:
  assumes "pendingOK S" and "resultsOK S" and "brokerStep dec (EvCompleteJSON t payload) S = Some S'"
  shows "pendingOK S' \<and> resultsOK S'"
proof -
  from assms(3) have new: "syThreads S t = None" by (auto split: if_splits)
  show ?thesis
  proof (cases "DecodeResult dec payload")
    case (Inl e)
    with new assms(3) have "S' = setPhase t (Refused e) S" by simp
    then show ?thesis using step_idle [OF assms(1,2) new, of "Refused e"] by simp
  next
    case (Inr res)
    with new assms(3) have "brokerStep dec (EvComplete t res) S = Some S'" by simp
    then show ?thesis by (rule step_complete [OF assms(1,2)])
  qed
qed

lemma brokerStep_ok:
  assumes "pendingOK S" and "resultsOK S" and "brokerStep dec ev S = Some S'"
  shows "pendingOK S' \<and> resultsOK S'"
proof (cases ev)
  case (EvSetEmitter e)
  with assms(3) have S': "S' = S\<lparr>syBroker := SetEmitter e (syBroker S)\<rparr>" by simp
  then have h: "holds S' = holds S" by (simp add: fun_eq_iff holds_def)
  with S' have "answers S' = answers S" by (simp add: fun_eq_iff answers_def)
  with S' h assms(1,2) show ?thesis by (simp add: pendingOK_def resultsOK_def SetEmitter_def)
next
  case (EvEmitted t err)
  with assms(3) obtain r ch where p: "syThreads S t = Some (Emitting r ch)"
    and S': "S' = setPhase t (Waiting r ch) S \<or> (\<exists>e. S' = setPhase t (Leaving r ch (Inl e)) S)"
    by (auto split: option.splits phase.splits)
  from S' show ?thesis
    using step_plain [OF assms(1,2) p, of "Waiting r ch"] step_plain [OF assms(1,2) p, of "Leaving r ch (Inl _)"] by auto
next
  case (EvDone t e)
  with assms(3) obtain r ch where p: "syThreads S t = Some (Waiting r ch)"
    and S': "S' = setPhase t (Leaving r ch (Inl (ContextDone e))) S"
    by (auto split: option.splits phase.splits)
  then show ?thesis using step_plain [OF assms(1,2) p, of "Leaving r ch (Inl (ContextDone e))"] by simp
next
  case (EvTimeout t)
  with assms(3) obtain r ch where p: "syThreads S t = Some (Waiting r ch)"
    and S': "S' = setPhase t (Leaving r ch (Inl (TimedOut (rqID r)))) S"
    by (auto split: option.splits phase.splits)
  then show ?thesis using step_plain [OF assms(1,2) p, of "Leaving r ch (Inl (TimedOut (rqID r)))"] by simp
next
  case (EvRequest t rid r)
  show ?thesis by (rule step_request [OF assms(1,2) assms(3) [unfolded EvRequest]])
next
  case (EvReceive t)
  show ?thesis by (rule step_receive [OF assms(1,2) assms(3) [unfolded EvReceive]])
next
  case (EvCleanup t)
  show ?thesis by (rule step_cleanup [OF assms(1,2) assms(3) [unfolded EvCleanup]])
next
  case (EvComplete t res)
  show ?thesis by (rule step_complete [OF assms(1,2) assms(3) [unfolded EvComplete]])
next
  case (EvCompleteJSON t payload)
  show ?thesis by (rule step_complete_json [OF assms(1,2) assms(3) [unfolded EvCompleteJSON]])
next
  case (EvSend t)
  show ?thesis by (rule step_send [OF assms(1,2) assms(3) [unfolded EvSend]])
qed

lemma brokerReach_ok: "brokerReach dec timeout S \<Longrightarrow> pendingOK S \<and> resultsOK S"
proof (induction rule: brokerReach.induct)
  case start
  then show ?case
    by (simp add: newSystem_def NewBroker_def pendingOK_def resultsOK_def holds_def)
next
  case (step S ev S')
  then show ?case using brokerStep_ok by blast
qed

text \<open>
  C4. However requests, completions, time-outs and cancellations interleave: the map of pending
  requests names exactly the calls that have registered and not yet run their deferred delete, each
  with its own channel, no two of them with the same identifier; and a call that returns a result
  returns one with its own identifier and the supported schema, for a request that passed validation.
\<close>

theorem broker_delivers_own_results:
  assumes "brokerReach dec timeout S"
  shows "(\<forall>i ch. map_of (bkPending (syBroker S)) i = Some ch \<longleftrightarrow> (\<exists>t r. holds S t r ch \<and> rqID r = i)) \<and>
    (\<forall>t r ch t' r' ch'. holds S t r ch \<and> holds S t' r' ch' \<and> (rqID r = rqID r' \<or> ch = ch') \<longrightarrow> t = t') \<and>
    (\<forall>t r res. syThreads S t = Some (Returned r (Inr res)) \<longrightarrow>
       arID res = rqID r \<and> arSchema res = ActionSchemaVersion \<and> validateRequest r = None)"
proof (intro conjI)
  have p: "pendingOK S" and r: "resultsOK S" using brokerReach_ok [OF assms] by blast+
  from p show "\<forall>i ch. map_of (bkPending (syBroker S)) i = Some ch \<longleftrightarrow> (\<exists>t r. holds S t r ch \<and> rqID r = i)"
    unfolding pendingOK_def by (elim conjE)
  from p show "\<forall>t r ch t' r' ch'. holds S t r ch \<and> holds S t' r' ch' \<and> (rqID r = rqID r' \<or> ch = ch') \<longrightarrow> t = t'"
    unfolding pendingOK_def by blast
  have "arID res = rqID q \<and> checkResult res = None \<and> validateRequest q = None"
    if "syThreads S t = Some (Returned q (Inr res))" for t q res
    using r that unfolding resultsOK_def by fastforce
  moreover have "arSchema res = ActionSchemaVersion" if "checkResult res = None" for res
    using that by (simp add: checkResult_def split: if_splits)
  ultimately show "\<forall>t r res. syThreads S t = Some (Returned r (Inr res)) \<longrightarrow>
       arID res = rqID r \<and> arSchema res = ActionSchemaVersion \<and> validateRequest r = None"
    by blast
qed

section \<open>Runs\<close>

fun runEvents :: "ActionResult Decoder \<Rightarrow> 'e event list \<Rightarrow> 'e System \<Rightarrow> 'e System option" where
  "runEvents dec [] S = Some S"
| "runEvents dec (ev # evs) S = (case brokerStep dec ev S of None \<Rightarrow> None | Some S' \<Rightarrow> runEvents dec evs S')"

lemma runEvents_reach: "brokerReach dec timeout S \<Longrightarrow> runEvents dec evs S = Some S' \<Longrightarrow> brokerReach dec timeout S'"
  by (induction evs arbitrary: S) (auto intro: brokerReach.step split: option.splits)

definition sampleRequest :: ActionRequest where
  "sampleRequest = \<lparr>rqSchema = 0, rqID = ''r'', rqKind = ''close_window'', rqWorkspaceID = ''dev'', rqResourceID = ''editor'',
     rqDesktopAppID = '''', rqWindowID = ''w1'', rqTopologyRevision = '''', rqMonitorRef = '''', rqMonitorIndex = 0,
     rqTargetWorkspace = 0, rqRect = zeroRect\<rparr>"

definition sampleResult :: ActionResult where
  "sampleResult = \<lparr>arSchema = 1, arID = ''r'', arSuccess = True, arChanged = True, arCode = '''', arMessage = ''''\<rparr>"

definition noDecoder :: "ActionResult Decoder" where
  "noDecoder = \<lparr>decDocument = (\<lambda>s. Inl s), decTrailing = (\<lambda>_. AtEOF)\<rparr>"

definition sampleRun :: "nat event list \<Rightarrow> (nat \<Rightarrow> phase option) option" where
  "sampleRun evs = map_option syThreads (runEvents noDecoder evs (newSystem 0))"

definition sentRequest :: ActionRequest where
  "sentRequest = sampleRequest\<lparr>rqSchema := 1\<rparr>"

lemma broker_delivers_own_results_witness:
  "\<exists>th. sampleRun [EvSetEmitter (Some 0), EvRequest 0 ''x'' sampleRequest, EvEmitted 0 None, EvComplete 1 sampleResult,
          EvSend 1, EvReceive 0, EvCleanup 0] = Some th \<and>
     th 0 = Some (Returned sentRequest (Inr sampleResult)) \<and> arID sampleResult = rqID sentRequest"
proof -
  let ?evs = "[EvSetEmitter (Some 0), EvRequest 0 ''x'' sampleRequest, EvEmitted 0 None, EvComplete 1 sampleResult,
    EvSend 1, EvReceive 0, EvCleanup 0] :: nat event list"
  have "\<exists>S. runEvents noDecoder ?evs (newSystem 0) = Some S \<and> syThreads S 0 = Some (Returned sentRequest (Inr sampleResult))"
  proof -
    have "case runEvents noDecoder ?evs (newSystem 0) of
        None \<Rightarrow> False | Some S \<Rightarrow> syThreads S 0 = Some (Returned sentRequest (Inr sampleResult))" by code_simp
    then show ?thesis
      by (cases "runEvents noDecoder ?evs (newSystem 0)") (simp_all del: runEvents.simps)
  qed
  then obtain S where S: "runEvents noDecoder ?evs (newSystem 0) = Some S"
    "syThreads S 0 = Some (Returned sentRequest (Inr sampleResult))" by blast
  have "brokerReach noDecoder 0 S" by (rule runEvents_reach [OF brokerReach.start S(1)])
  from broker_delivers_own_results [OF this] S have "arID sampleResult = rqID sentRequest" by blast
  with S show ?thesis unfolding sampleRun_def by (simp del: runEvents.simps)
qed

text \<open>
  Between the receive and the deferred delete the channel is empty and still pending, so a second
  completion of the same request is accepted and lost; so is a completion that found the channel
  before the request timed out.
\<close>

lemma duplicate_completion_accepted:
  "case sampleRun [EvSetEmitter (Some 0), EvRequest 0 ''x'' sampleRequest, EvEmitted 0 None, EvComplete 1 sampleResult,
     EvSend 1, EvReceive 0, EvComplete 2 (sampleResult\<lparr>arSuccess := False\<rparr>), EvSend 2, EvCleanup 0] of
     Some th \<Rightarrow> th 0 = Some (Returned sentRequest (Inr sampleResult)) \<and>
       th 1 = Some (Completed sampleResult None) \<and> th 2 = Some (Completed (sampleResult\<lparr>arSuccess := False\<rparr>) None)
   | None \<Rightarrow> False"
  by code_simp

lemma late_completion_accepted:
  "case sampleRun [EvSetEmitter (Some 0), EvRequest 0 ''x'' sampleRequest, EvEmitted 0 None, EvComplete 1 sampleResult,
     EvTimeout 0, EvCleanup 0, EvSend 1] of
     Some th \<Rightarrow> th 0 = Some (Returned sentRequest (Inl (TimedOut ''r''))) \<and> th 1 = Some (Completed sampleResult None)
   | None \<Rightarrow> False"
  by code_simp

end
