(* ===== verification/ShellDesktop.thy ===== *)
theory ShellDesktop
  imports ShellPlacement ShellAction Reconciler SurfaceSnapshot
begin

text \<open>
  \<open>internal/adapters/shelldesktop/desktop.go\<close>: the production desktop, which observes through the
  aggregated surfaces and the shell's own snapshot and acts through the shell action broker. It is a
  value of the record \<open>Desktop\<close>, so what is proved of the reconciler holds of it.

  The world \<open>'w\<close> is everything outside the adapter. Every read of a snapshot and every request may
  change it, and so does the passing of time. A context is what its selects do: \<open>seDone w\<close> is the
  number of ticks after which a wait that starts in \<open>w\<close> takes the branch of the ended context, and the
  context's error. The JSON text of the list of window identifiers is a parameter.
\<close>

record 'w ShellReader =
  srSurface :: "'w \<Rightarrow> SurfaceSnapshot \<times> 'w"
  srShell :: "'w \<Rightarrow> ShellSnapshot \<times> 'w"

record 'w ShellEnv =
  seReader :: "'w ShellReader option"
  seRequest :: "(ActionRequest \<Rightarrow> 'w \<Rightarrow> (string + ActionResult) \<times> 'w) option"
  seDone :: "'w \<Rightarrow> nat \<times> string"
  seTick :: "'w \<Rightarrow> 'w"
  seMarshal :: "string list \<Rightarrow> string"
  seUnmarshal :: "string \<Rightarrow> string + string list"

record 'w AdapterState =
  adManaged :: "(string, bool) gomap"
  adWorld :: 'w

text \<open>The branch \<open>NilReader\<close> stands for the panic of a call on the missing reader.\<close>

datatype shellDesktopError =
    ReaderUnavailable | NilReader | UnsupportedResource string string | BrokerUnavailable | RequestFailed string
  | ShellActionFailed string string string string | WaitPresent string shellDesktopError
  | NoPlacement placementError | NotObserved string | NoPlaceableWindow string | TopologyChanged string string
  | ContextEnded string | DecodeIdentities string | CloseWindowFailed string string string string
  | CloseNotConverged string shellDesktopError

section \<open>What the adapter remembers\<close>

definition resourceKey :: "string \<Rightarrow> string \<Rightarrow> string" where
  "resourceKey workspaceID resourceID = workspaceID @ [CHR 0x00] @ resourceID"

definition markManaged :: "string \<Rightarrow> string \<Rightarrow> bool \<Rightarrow> (string, bool) gomap \<Rightarrow> (string, bool) gomap" where
  "markManaged w r v m = (if v then put (resourceKey w r) True m else del (resourceKey w r) m)"

definition isManaged :: "string \<Rightarrow> string \<Rightarrow> (string, bool) gomap \<Rightarrow> bool" where
  "isManaged w r m = mapGet False m (resourceKey w r)"

section \<open>Observation\<close>

definition findApplication :: "SurfaceSnapshot \<Rightarrow> string \<Rightarrow> ApplicationSurface option" where
  "findApplication s desktopAppID =
     find (\<lambda>a. asDesktopAppID a = desktopAppID \<or> asAppID a = desktopAppID) (ssSurfaces s)"

definition parseWorkspaceIndex :: "string \<Rightarrow> int" where
  "parseWorkspaceIndex value =
     (case Atoi (TrimPrefix value ''workspace:'') of None \<Rightarrow> -1 | Some i \<Rightarrow> if i < 0 then -1 else i)"

text \<open>The part of the observation that depends on the placement.\<close>

definition observePlacement ::
  "ShellSnapshot \<Rightarrow> ResourceSpec \<Rightarrow> ResourceObservation \<Rightarrow> ResourceObservation" where
  "observePlacement shell resource observation =
     (if rsPlacement resource = None then observation
      else case resolvePlacement (rsPlacement resource) (shTopology shell) of
        Inl _ \<Rightarrow> observation\<lparr>roReady := False, roReasonCode := ''topology_unavailable''\<rparr>
      | Inr target \<Rightarrow>
          (case Option.bind (findShellApplication shell (rsDesktopAppID resource)) anchorWindow of
             None \<Rightarrow> observation\<lparr>roReady := False, roReasonCode := ''window_geometry_unavailable'',
               roPlacement := Some \<lparr>poTopologyRevision = tpRevision (shTopology shell),
                 poMonitorRef = rpMonitorRef target, poWorkspace = rpWorkspace target,
                 poRect = zeroRect, poReached = False\<rparr>\<rparr>
           | Some w \<Rightarrow>
               let reached = placementReached target w (tpRevision (shTopology shell))
               in observation\<lparr>roReady := reached,
                    roReasonCode := (if reached then roReasonCode observation else ''placement_unreached''),
                    roPlacement := Some \<lparr>poTopologyRevision = tpRevision (shTopology shell),
                      poMonitorRef = swMonitorRef w, poWorkspace = parseWorkspaceIndex (swWorkspaceID w),
                      poRect = swFrame w, poReached = reached\<rparr>\<rparr>))"

definition observeResource ::
  "(string list \<Rightarrow> string) \<Rightarrow> (string, bool) gomap \<Rightarrow> SurfaceSnapshot \<Rightarrow> ShellSnapshot \<Rightarrow> DesiredState \<Rightarrow>
   ResourceSpec \<Rightarrow> ResourceObservation option" where
  "observeResource marshal managed snapshot shell desired resource =
     (if rsKind resource \<noteq> ResourceDesktopApp then None
      else case findApplication snapshot (rsDesktopAppID resource) of
        None \<Rightarrow> None
      | Some app \<Rightarrow>
          Some (observePlacement shell resource
            \<lparr>roResourceID = rsID resource, roPresent = True, roReady = asWindows app \<noteq> [],
             roOwnership = (if rsOwnership resource = OwnershipManaged \<and>
                 \<not> isManaged (dsWorkspaceID desired) (rsID resource) managed
               then OwnershipAdopted else rsOwnership resource),
             roSessionRef = marshal (map wID (asWindows app)), roAppID = asAppID app,
             roReasonCode = '''', roPlacement = None\<rparr>))"

definition observeStep ::
  "(string list \<Rightarrow> string) \<Rightarrow> (string, bool) gomap \<Rightarrow> SurfaceSnapshot \<Rightarrow> ShellSnapshot \<Rightarrow> DesiredState \<Rightarrow>
   (string, ResourceObservation) gomap \<Rightarrow> ResourceSpec \<Rightarrow> (string, ResourceObservation) gomap" where
  "observeStep marshal managed snapshot shell desired m resource =
     (case observeResource marshal managed snapshot shell desired resource of
        None \<Rightarrow> m | Some ob \<Rightarrow> put (rsID resource) ob m)"

definition observedState ::
  "(string list \<Rightarrow> string) \<Rightarrow> (string, bool) gomap \<Rightarrow> SurfaceSnapshot \<Rightarrow> ShellSnapshot \<Rightarrow> DesiredState \<Rightarrow> ObservedState" where
  "observedState marshal managed snapshot shell desired =
     \<lparr>osWorkspaceID = dsWorkspaceID desired, osTopologyRevision = tpRevision (shTopology shell),
      osResources = foldl (observeStep marshal managed snapshot shell desired) [] (dsResources desired)\<rparr>"

definition shellObserve ::
  "'w ShellEnv \<Rightarrow> 'w AdapterState \<Rightarrow> DesiredState \<Rightarrow> (shellDesktopError + ObservedState) \<times> 'w AdapterState" where
  "shellObserve env s desired =
     (case seReader env of
        None \<Rightarrow> (Inl ReaderUnavailable, s)
      | Some reader \<Rightarrow>
          (case srSurface reader (adWorld s) of
             (snapshot, w1) \<Rightarrow>
               (case srShell reader w1 of
                  (shell, w2) \<Rightarrow>
                    (Inr (observedState (seMarshal env) (adManaged s) snapshot shell desired), s\<lparr>adWorld := w2\<rparr>))))"

section \<open>Waiting\<close>

text \<open>A loop of a check and a select: \<open>n\<close> ticks pass before the select takes the ended context.\<close>

fun waitLoop :: "('w \<Rightarrow> 'a option \<times> 'w) \<Rightarrow> ('w \<Rightarrow> 'w) \<Rightarrow> nat \<Rightarrow> 'w \<Rightarrow> 'a option \<times> 'w" where
  "waitLoop check tick 0 w = check w"
| "waitLoop check tick (Suc n) w =
     (case check w of (Some a, w') \<Rightarrow> (Some a, w') | (None, w') \<Rightarrow> waitLoop check tick n (tick w'))"

definition waitUntil ::
  "'w ShellEnv \<Rightarrow> ('w \<Rightarrow> (shellDesktopError + 'a) option \<times> 'w) \<Rightarrow> 'w \<Rightarrow> (shellDesktopError + 'a) \<times> 'w" where
  "waitUntil env check w =
     (case seDone env w of (n, err) \<Rightarrow>
        (case waitLoop check (seTick env) n w of
           (Some r, w') \<Rightarrow> (r, w') | (None, w') \<Rightarrow> (Inl (ContextEnded err), w')))"

definition presentCheck :: "'w ShellReader \<Rightarrow> string \<Rightarrow> 'w \<Rightarrow> (shellDesktopError + unit) option \<times> 'w" where
  "presentCheck reader desktopAppID w =
     (case srSurface reader w of (s, w') \<Rightarrow>
        (case findApplication s desktopAppID of
           Some app \<Rightarrow> if asWindows app \<noteq> [] then Some (Inr ()) else None
         | None \<Rightarrow> None, w'))"

definition waitPresent :: "'w ShellEnv \<Rightarrow> string \<Rightarrow> 'w \<Rightarrow> (shellDesktopError + unit) \<times> 'w" where
  "waitPresent env desktopAppID w =
     (case seReader env of
        None \<Rightarrow> (Inl NilReader, w)
      | Some reader \<Rightarrow> waitUntil env (presentCheck reader desktopAppID) w)"

definition readyCheck ::
  "'w ShellEnv \<Rightarrow> (string, bool) gomap \<Rightarrow> DesiredState \<Rightarrow> string \<Rightarrow> string \<Rightarrow> 'w \<Rightarrow>
   (shellDesktopError + ResourceObservation) option \<times> 'w" where
  "readyCheck env managed desired resourceID expected w =
     (case shellObserve env \<lparr>adManaged = managed, adWorld = w\<rparr> desired of
        (Inl e, s) \<Rightarrow> (Some (Inl e), adWorld s)
      | (Inr observed, s) \<Rightarrow>
          (if expected \<noteq> '''' \<and> osTopologyRevision observed \<noteq> expected
           then (Some (Inl (TopologyChanged expected (osTopologyRevision observed))), adWorld s)
           else case map_of (osResources observed) resourceID of
             Some ob \<Rightarrow> (if roPresent ob \<and> roReady ob then Some (Inr ob) else None, adWorld s)
           | None \<Rightarrow> (None, adWorld s)))"

definition waitReady ::
  "'w ShellEnv \<Rightarrow> (string, bool) gomap \<Rightarrow> DesiredState \<Rightarrow> string \<Rightarrow> string \<Rightarrow> 'w \<Rightarrow>
   (shellDesktopError + ResourceObservation) \<times> 'w" where
  "waitReady env managed desired resourceID expected w =
     waitUntil env (readyCheck env managed desired resourceID expected) w"

definition remainingWindows :: "SurfaceSnapshot \<Rightarrow> string \<Rightarrow> string list \<Rightarrow> nat" where
  "remainingWindows s desktopAppID windowIDs =
     (case findApplication s desktopAppID of
        Some app \<Rightarrow> length (filter (\<lambda>w. wID w \<in> set windowIDs) (asWindows app)) | None \<Rightarrow> 0)"

definition absentCheck :: "'w ShellReader \<Rightarrow> string \<Rightarrow> string list \<Rightarrow> 'w \<Rightarrow> (shellDesktopError + unit) option \<times> 'w" where
  "absentCheck reader desktopAppID windowIDs w =
     (case srSurface reader w of (s, w') \<Rightarrow>
        (if remainingWindows s desktopAppID windowIDs = 0 then Some (Inr ()) else None, w'))"

definition waitWindowsAbsent :: "'w ShellEnv \<Rightarrow> string \<Rightarrow> string list \<Rightarrow> 'w \<Rightarrow> (shellDesktopError + unit) \<times> 'w" where
  "waitWindowsAbsent env desktopAppID windowIDs w =
     (if windowIDs = [] then (Inr (), w)
      else case seReader env of
        None \<Rightarrow> (Inl NilReader, w)
      | Some reader \<Rightarrow> waitUntil env (absentCheck reader desktopAppID windowIDs) w)"

section \<open>Actions\<close>

definition blankRequest :: "DesiredState \<Rightarrow> ResourceSpec \<Rightarrow> string \<Rightarrow> ActionRequest" where
  "blankRequest desired resource kind =
     \<lparr>rqSchema = 0, rqID = '''', rqKind = kind, rqWorkspaceID = dsWorkspaceID desired, rqResourceID = rsID resource,
      rqDesktopAppID = '''', rqWindowID = '''', rqTopologyRevision = '''', rqMonitorRef = '''', rqMonitorIndex = 0,
      rqTargetWorkspace = 0, rqRect = zeroRect\<rparr>"

definition ensureRequest :: "DesiredState \<Rightarrow> ResourceSpec \<Rightarrow> ActionRequest" where
  "ensureRequest desired resource =
     (blankRequest desired resource KindEnsureDesktopApp)\<lparr>rqDesktopAppID := rsDesktopAppID resource\<rparr>"

definition placeRequest :: "DesiredState \<Rightarrow> ResourceSpec \<Rightarrow> ResolvedPlacement \<Rightarrow> ShellWindow \<Rightarrow> ActionRequest" where
  "placeRequest desired resource target window =
     (blankRequest desired resource KindPlaceWindow)\<lparr>rqWindowID := swID window,
       rqTopologyRevision := rpTopologyRevision target, rqMonitorRef := rpMonitorRef target,
       rqMonitorIndex := rpMonitorIndex target, rqTargetWorkspace := rpWorkspace target, rqRect := rpRect target\<rparr>"

definition closeRequest :: "DesiredState \<Rightarrow> ResourceSpec \<Rightarrow> string \<Rightarrow> ActionRequest" where
  "closeRequest desired resource windowID =
     (blankRequest desired resource KindCloseWindow)\<lparr>rqWindowID := windowID\<rparr>"

definition shellActionError :: "string \<Rightarrow> string \<Rightarrow> ActionResult \<Rightarrow> shellDesktopError" where
  "shellActionError action resourceID result =
     ShellActionFailed action resourceID (if arCode result = '''' then ''shell_action_failed'' else arCode result)
       (arMessage result)"

definition ensurePlacement ::
  "'w ShellEnv \<Rightarrow> 'w ShellReader \<Rightarrow> (ActionRequest \<Rightarrow> 'w \<Rightarrow> (string + ActionResult) \<times> 'w) \<Rightarrow> (string, bool) gomap \<Rightarrow>
   DesiredState \<Rightarrow> ResourceSpec \<Rightarrow> 'w \<Rightarrow> shellDesktopError option \<times> 'w" where
  "ensurePlacement env reader request managed desired resource w =
     (case srShell reader w of
        (shell, w1) \<Rightarrow>
          (case resolvePlacement (rsPlacement resource) (shTopology shell) of
             Inl e \<Rightarrow> (Some (NoPlacement e), w1)
           | Inr target \<Rightarrow>
               (case findShellApplication shell (rsDesktopAppID resource) of
                  None \<Rightarrow> (Some (NotObserved (rsDesktopAppID resource)), w1)
                | Some app \<Rightarrow>
                    (case anchorWindow app of
                       None \<Rightarrow> (Some (NoPlaceableWindow (rsDesktopAppID resource)), w1)
                     | Some window \<Rightarrow>
                         if placementReached target window (tpRevision (shTopology shell)) then (None, w1)
                         else case request (placeRequest desired resource target window) w1 of
                           (Inl e, w2) \<Rightarrow> (Some (RequestFailed e), w2)
                         | (Inr result, w2) \<Rightarrow>
                             if \<not> arSuccess result then (Some (shellActionError ''place'' (rsID resource) result), w2)
                             else case waitReady env managed desired (rsID resource) (rpTopologyRevision target) w2 of
                               (Inl e, w3) \<Rightarrow> (Some e, w3)
                             | (Inr _, w3) \<Rightarrow> (None, w3)))))"

text \<open>\<open>Ensure\<close> after the request has succeeded.\<close>

definition ensureWait ::
  "'w ShellEnv \<Rightarrow> (ActionRequest \<Rightarrow> 'w \<Rightarrow> (string + ActionResult) \<times> 'w) \<Rightarrow> (string, bool) gomap \<Rightarrow>
   DesiredState \<Rightarrow> ResourceSpec \<Rightarrow> 'w \<Rightarrow> (shellDesktopError + ResourceObservation) \<times> 'w" where
  "ensureWait env request managed desired resource w =
     (case waitPresent env (rsDesktopAppID resource) w of
        (Inl e, w1) \<Rightarrow> (Inl (WaitPresent (rsID resource) e), w1)
      | (Inr _, w1) \<Rightarrow>
          (case (if rsPlacement resource = None then (None, w1)
                 else case seReader env of
                   None \<Rightarrow> (Some NilReader, w1)
                 | Some reader \<Rightarrow> ensurePlacement env reader request managed desired resource w1) of
             (Some e, w2) \<Rightarrow> (Inl e, w2)
           | (None, w2) \<Rightarrow> waitReady env managed desired (rsID resource) '''' w2))"

definition shellEnsure ::
  "'w ShellEnv \<Rightarrow> 'w AdapterState \<Rightarrow> DesiredState \<Rightarrow> ResourceSpec \<Rightarrow>
   (shellDesktopError + ResourceObservation) \<times> 'w AdapterState" where
  "shellEnsure env s desired resource =
     (if rsKind resource \<noteq> ResourceDesktopApp then (Inl (UnsupportedResource (rsID resource) (rsKind resource)), s)
      else case seRequest env of
        None \<Rightarrow> (Inl BrokerUnavailable, s)
      | Some request \<Rightarrow>
          (case request (ensureRequest desired resource) (adWorld s) of
             (Inl e, w1) \<Rightarrow> (Inl (RequestFailed e), s\<lparr>adWorld := w1\<rparr>)
           | (Inr result, w1) \<Rightarrow>
               if \<not> arSuccess result then (Inl (shellActionError ''ensure'' (rsID resource) result), s\<lparr>adWorld := w1\<rparr>)
               else let managed = (if arChanged result \<and> rsOwnership resource = OwnershipManaged
                        then markManaged (dsWorkspaceID desired) (rsID resource) True (adManaged s) else adManaged s)
                    in case ensureWait env request managed desired resource w1 of
                      (out, w2) \<Rightarrow> (out, \<lparr>adManaged = managed, adWorld = w2\<rparr>)))"

fun closeWindows ::
  "(ActionRequest \<Rightarrow> 'w \<Rightarrow> (string + ActionResult) \<times> 'w) \<Rightarrow> DesiredState \<Rightarrow> ResourceSpec \<Rightarrow> string list \<Rightarrow> 'w \<Rightarrow>
   shellDesktopError option \<times> 'w" where
  "closeWindows request desired resource [] w = (None, w)"
| "closeWindows request desired resource (i # is) w =
     (case request (closeRequest desired resource i) w of
        (Inl e, w1) \<Rightarrow> (Some (RequestFailed e), w1)
      | (Inr result, w1) \<Rightarrow>
          if \<not> arSuccess result
          then (Some (CloseWindowFailed (rsID resource) i (arCode result) (arMessage result)), w1)
          else closeWindows request desired resource is w1)"

definition shellClose ::
  "'w ShellEnv \<Rightarrow> 'w AdapterState \<Rightarrow> DesiredState \<Rightarrow> ResourceSpec \<Rightarrow> ResourceObservation \<Rightarrow>
   shellDesktopError option \<times> 'w AdapterState" where
  "shellClose env s desired resource observed =
     (if rsKind resource \<noteq> ResourceDesktopApp then (Some (UnsupportedResource (rsID resource) (rsKind resource)), s)
      else if rsOwnership resource \<noteq> OwnershipManaged \<or> roOwnership observed \<noteq> OwnershipManaged then (None, s)
      else case seRequest env of
        None \<Rightarrow> (Some BrokerUnavailable, s)
      | Some request \<Rightarrow>
          (case (if roSessionRef observed = '''' then Inr [] else seUnmarshal env (roSessionRef observed)) of
             Inl e \<Rightarrow> (Some (DecodeIdentities e), s)
           | Inr windowIDs \<Rightarrow>
               (case closeWindows request desired resource windowIDs (adWorld s) of
                  (Some e, w1) \<Rightarrow> (Some e, s\<lparr>adWorld := w1\<rparr>)
                | (None, w1) \<Rightarrow>
                    (case waitWindowsAbsent env (rsDesktopAppID resource) windowIDs w1 of
                       (Inl e, w2) \<Rightarrow> (Some (CloseNotConverged (rsID resource) e), s\<lparr>adWorld := w2\<rparr>)
                     | (Inr _, w2) \<Rightarrow>
                         (None, \<lparr>adManaged = markManaged (dsWorkspaceID desired) (rsID resource) False (adManaged s),
                                 adWorld = w2\<rparr>)))))"

definition shellDesktop :: "'w ShellEnv \<Rightarrow> ('w AdapterState, shellDesktopError) Desktop" where
  "shellDesktop env = \<lparr>dkObserve = shellObserve env, dkEnsure = shellEnsure env, dkClose = shellClose env\<rparr>"

definition newShellDesktop :: "'w \<Rightarrow> 'w AdapterState" where
  "newShellDesktop w = \<lparr>adManaged = [], adWorld = w\<rparr>"

section \<open>What an observation contains\<close>

lemma observe_foldl_other:
  "\<forall>r \<in> set rs. rsID r \<noteq> i \<Longrightarrow>
   map_of (foldl (observeStep marshal managed snapshot shell desired) m rs) i = map_of m i"
  by (induction rs arbitrary: m) (auto simp: observeStep_def split: option.split)

lemma observe_foldl:
  "map_of (foldl (observeStep marshal managed snapshot shell desired) m rs) i = Some ob \<Longrightarrow>
   map_of m i = Some ob \<or> (\<exists>r \<in> set rs. rsID r = i \<and> observeResource marshal managed snapshot shell desired r = Some ob)"
proof (induction rs arbitrary: m)
  case (Cons r rs)
  from Cons.prems have "map_of (foldl (observeStep marshal managed snapshot shell desired)
      (observeStep marshal managed snapshot shell desired m r) rs) i = Some ob" by simp
  from Cons.IH [OF this] show ?case by (auto simp: observeStep_def split: option.splits if_splits)
qed simp

lemma observed_from:
  assumes "map_of (osResources (observedState marshal managed snapshot shell desired)) i = Some ob"
  obtains r where "r \<in> set (dsResources desired)" and "rsID r = i"
    and "observeResource marshal managed snapshot shell desired r = Some ob"
  using observe_foldl [of marshal managed snapshot shell desired "[]" "dsResources desired" i ob] assms
  by (auto simp: observedState_def)

lemma shellObserve_Inr:
  assumes "shellObserve env s desired = (Inr observed, s')"
  obtains reader snapshot w1 shell w2 where "seReader env = Some reader" and "srSurface reader (adWorld s) = (snapshot, w1)"
    and "srShell reader w1 = (shell, w2)" and "s' = s\<lparr>adWorld := w2\<rparr>"
    and "observed = observedState (seMarshal env) (adManaged s) snapshot shell desired"
  using assms by (auto simp: shellObserve_def split: option.splits prod.splits)

lemma observePlacement_simps [simp]:
  "roPresent (observePlacement shell r ob) = roPresent ob" "roOwnership (observePlacement shell r ob) = roOwnership ob"
  "roSessionRef (observePlacement shell r ob) = roSessionRef ob" "roResourceID (observePlacement shell r ob) = roResourceID ob"
  "roAppID (observePlacement shell r ob) = roAppID ob"
  by (simp_all add: observePlacement_def Let_def split: sum.split option.split)

lemma observePlacement_ready:
  assumes "rsPlacement r \<noteq> None" and "roReady (observePlacement shell r ob)"
  obtains target app w where "resolvePlacement (rsPlacement r) (shTopology shell) = Inr target"
    and "findShellApplication shell (rsDesktopAppID r) = Some app" and "anchorWindow app = Some w"
    and "placementReached target w (tpRevision (shTopology shell))"
  using assms
  by (auto simp: observePlacement_def Let_def bind_eq_Some_conv split: sum.splits option.splits)

lemma observeResource_Some:
  assumes "observeResource marshal managed snapshot shell desired r = Some ob"
  obtains app where "rsKind r = ResourceDesktopApp" and "findApplication snapshot (rsDesktopAppID r) = Some app"
    and "roPresent ob" and "roSessionRef ob = marshal (map wID (asWindows app))" and "roAppID ob = asAppID app"
    and "rsPlacement r = None \<Longrightarrow> roReady ob \<longleftrightarrow> asWindows app \<noteq> []"
    and "roOwnership ob = OwnershipManaged \<longleftrightarrow>
      rsOwnership r = OwnershipManaged \<and> isManaged (dsWorkspaceID desired) (rsID r) managed"
proof -
  have id: "rsPlacement r = None \<Longrightarrow> observePlacement shell r ob = ob" for ob
    by (simp add: observePlacement_def)
  from assms obtain app where "rsKind r = ResourceDesktopApp" "findApplication snapshot (rsDesktopAppID r) = Some app"
    by (auto simp: observeResource_def split: if_splits option.splits)
  then show thesis
    using assms by (intro that [of app]) (auto simp: observeResource_def id ownership_defs split: if_splits)
qed

section \<open>Invariants of the world\<close>

lemma waitLoop_result: "waitLoop check tick n w = (Some r, w') \<Longrightarrow> \<exists>w0. check w0 = (Some r, w')"
  by (induction n arbitrary: w) (auto split: prod.splits option.splits)

lemma waitUntil_Inr: "waitUntil env check w = (Inr r, w') \<Longrightarrow> \<exists>w0. check w0 = (Some (Inr r), w')"
  by (auto simp: waitUntil_def dest: waitLoop_result split: prod.splits option.splits)

lemma waitLoop_invariant:
  assumes "\<And>w. I w \<Longrightarrow> I (snd (check w))" and "\<And>w. I w \<Longrightarrow> I (tick w)"
  shows "I w \<Longrightarrow> I (snd (waitLoop check tick n w))"
proof (induction n arbitrary: w)
  case 0
  then show ?case using assms(1) by simp
next
  case (Suc n)
  with assms show ?case by (fastforce split: prod.split option.split)
qed

text \<open>
  \<open>I\<close> is kept by everything that happens between two requests: the reads of the snapshots and the
  passing of time.
\<close>

definition keptByReads :: "'w ShellEnv \<Rightarrow> ('w \<Rightarrow> bool) \<Rightarrow> bool" where
  "keptByReads env I \<longleftrightarrow>
     (\<forall>w. I w \<longrightarrow> I (seTick env w)) \<and>
     (\<forall>reader w. seReader env = Some reader \<longrightarrow> I w \<longrightarrow>
        I (snd (srSurface reader w)) \<and> I (snd (srShell reader w)))"

lemma keptByReadsD:
  assumes "keptByReads env I" and "I w"
  shows "I (seTick env w)" and "seReader env = Some reader \<Longrightarrow> I (snd (srSurface reader w))"
    and "seReader env = Some reader \<Longrightarrow> I (snd (srShell reader w))"
  using assms unfolding keptByReads_def by blast+

lemma waitUntil_invariant:
  assumes "keptByReads env I" and "\<And>w. I w \<Longrightarrow> I (snd (check w))" and "I w"
  shows "I (snd (waitUntil env check w))"
proof -
  have "I (snd (waitLoop check (seTick env) n w))" for n
    by (rule waitLoop_invariant) (use assms in \<open>auto simp: keptByReads_def\<close>)
  moreover obtain n err where "seDone env w = (n, err)" by fastforce
  moreover obtain r w' where "waitLoop check (seTick env) n w = (r, w')" by fastforce
  ultimately show ?thesis by (auto simp: waitUntil_def split: option.split) (metis snd_conv)+
qed

lemma shellObserve_invariant:
  assumes "keptByReads env I" and "I (adWorld s)"
  shows "I (adWorld (snd (shellObserve env s desired)))" and "adManaged (snd (shellObserve env s desired)) = adManaged s"
proof -
  have "I (adWorld (snd (shellObserve env s desired))) \<and> adManaged (snd (shellObserve env s desired)) = adManaged s"
  proof (cases "seReader env")
    case None
    with assms(2) show ?thesis by (simp add: shellObserve_def)
  next
    case (Some reader)
    obtain snapshot w1 where 1: "srSurface reader (adWorld s) = (snapshot, w1)" by fastforce
    obtain shell w2 where 2: "srShell reader w1 = (shell, w2)" by fastforce
    have "I w1" using assms Some 1 unfolding keptByReads_def by (metis snd_conv)
    then have "I w2" using assms(1) Some 2 unfolding keptByReads_def by (metis snd_conv)
    with Some 1 2 show ?thesis by (simp add: shellObserve_def)
  qed
  then show "I (adWorld (snd (shellObserve env s desired)))" "adManaged (snd (shellObserve env s desired)) = adManaged s" by simp_all
qed

lemma waitWindowsAbsent_invariant:
  assumes "keptByReads env I" and "I w"
  shows "I (snd (waitWindowsAbsent env a is w))"
proof (cases "is = [] \<or> seReader env = None")
  case True
  with assms(2) show ?thesis by (auto simp: waitWindowsAbsent_def)
next
  case False
  then obtain reader where r: "seReader env = Some reader" by blast
  have "I (snd (absentCheck reader a is w))" if "I w" for w
    using keptByReadsD(2) [OF assms(1) that r] by (simp add: absentCheck_def split_beta)
  from waitUntil_invariant [OF assms(1) this assms(2)] show ?thesis
    using False r by (simp add: waitWindowsAbsent_def)
qed

lemma closeWindows_invariant:
  assumes "\<And>i w. i \<in> set is \<Longrightarrow> I w \<Longrightarrow> I (snd (request (closeRequest desired r i) w))" and "I w"
  shows "I (snd (closeWindows request desired r is w))"
  using assms
proof (induction "is" arbitrary: w)
  case (Cons i "is")
  obtain out w1 where out: "request (closeRequest desired r i) w = (out, w1)" by fastforce
  with Cons.prems have "I w1" by (metis list.set_intros(1) snd_conv)
  with Cons out show ?case by (cases out) simp_all
qed simp

lemma isManaged_unmark: "isManaged a b (markManaged w r False m) \<Longrightarrow> isManaged a b m"
  by (simp add: isManaged_def markManaged_def mapGet_def split: if_splits)

lemma shellClose_invariant:
  assumes "keptByReads env I" and "I (adWorld s)"
    and "\<And>request ids i w. seRequest env = Some request \<Longrightarrow> rsOwnership r = OwnershipManaged \<Longrightarrow>
      roOwnership ob = OwnershipManaged \<Longrightarrow> seUnmarshal env (roSessionRef ob) = Inr ids \<Longrightarrow> i \<in> set ids \<Longrightarrow> I w \<Longrightarrow>
      I (snd (request (closeRequest desired r i) w))"
    and "shellClose env s desired r ob = (out, s')"
  shows "I (adWorld s') \<and> (\<forall>a b. isManaged a b (adManaged s') \<longrightarrow> isManaged a b (adManaged s))"
proof (cases "rsKind r = ResourceDesktopApp \<and> rsOwnership r = OwnershipManaged \<and> roOwnership ob = OwnershipManaged \<and>
    seRequest env \<noteq> None \<and> (roSessionRef ob = '''' \<or> (\<exists>ids. seUnmarshal env (roSessionRef ob) = Inr ids))")
  case False
  then have "s' = s" using assms(4) by (auto simp: shellClose_def split: if_splits option.splits sum.splits)
  with assms(2) show ?thesis by simp
next
  case True
  then obtain request where q: "seRequest env = Some request" by blast
  obtain ids where ids: "(if roSessionRef ob = '''' then Inr [] else seUnmarshal env (roSessionRef ob)) = Inr ids"
    using True by (cases "roSessionRef ob = ''''") auto
  obtain err w1 where c: "closeWindows request desired r ids (adWorld s) = (err, w1)" by fastforce
  have "I (snd (closeWindows request desired r ids (adWorld s)))"
    by (rule closeWindows_invariant [where I = I, OF _ assms(2)])
      (use assms(3) [OF q] True ids in \<open>auto split: if_splits\<close>)
  with c have w1: "I w1" by simp
  obtain res w2 where a: "waitWindowsAbsent env (rsDesktopAppID r) ids w1 = (res, w2)" by fastforce
  from waitWindowsAbsent_invariant [OF assms(1) w1, of "rsDesktopAppID r" ids] a have w2: "I w2" by simp
  from assms(4) True q ids c a w1 w2 show ?thesis
    by (cases err; cases res) (auto simp: shellClose_def dest: isManaged_unmark)
qed

text \<open>
  The requests that a closing of \<open>desired\<close> may send: to close a window that some observation shows for
  the application of a managed resource which the adapter has marked as launched.
\<close>

definition mayClose ::
  "DesiredState \<Rightarrow> (string, bool) gomap \<Rightarrow> (string \<Rightarrow> string set) \<Rightarrow> ActionRequest \<Rightarrow> bool" where
  "mayClose desired managed windows q \<longleftrightarrow>
     (\<exists>r \<in> set (dsResources desired). \<exists>i \<in> windows (rsID r). q = closeRequest desired r i \<and>
        rsOwnership r = OwnershipManaged \<and> isManaged (dsWorkspaceID desired) (rsID r) managed)"

lemma closeResources_shell:
  assumes "keptByReads env I"
    and "\<And>request q w. seRequest env = Some request \<Longrightarrow> mayClose desired managed windows q \<Longrightarrow> I w \<Longrightarrow> I (snd (request q w))"
    and "\<And>xs. seUnmarshal env (seMarshal env xs) = Inr xs"
    and "\<And>r app. r \<in> set (dsResources desired) \<Longrightarrow> findApplication snapshot (rsDesktopAppID r) = Some app \<Longrightarrow>
      wID ` set (asWindows app) \<subseteq> windows (rsID r)"
    and "set rs \<subseteq> set (dsResources desired)" and "I (adWorld s)"
    and "closeResources (shellDesktop env) desired
      (observedState (seMarshal env) managed snapshot shell desired) s fs rs = (fs', s')"
  shows "I (adWorld s')"
  using assms(5-7)
proof (induction rs arbitrary: s fs)
  case (Cons r rs)
  let ?o = "observedState (seMarshal env) managed snapshot shell desired"
  show ?case
  proof (cases "rsOwnership r = OwnershipManaged \<and> (\<exists>ob. map_of (osResources ?o) (rsID r) = Some ob \<and> roPresent ob)")
    case False
    with Cons.prems(3) have "closeResources (shellDesktop env) desired ?o s fs rs = (fs', s')"
      by (auto split: if_splits option.splits)
    with Cons show ?thesis by simp
  next
    case True
    then obtain ob where ob: "map_of (osResources ?o) (rsID r) = Some ob" "roPresent ob" by blast
    obtain out s1 where c: "shellClose env s desired r ob = (out, s1)" by fastforce
    obtain r0 where r0: "r0 \<in> set (dsResources desired)" "rsID r0 = rsID r"
      "observeResource (seMarshal env) managed snapshot shell desired r0 = Some ob" by (rule observed_from [OF ob(1)])
    obtain app where app: "findApplication snapshot (rsDesktopAppID r0) = Some app"
      "roSessionRef ob = seMarshal env (map wID (asWindows app))"
      "roOwnership ob = OwnershipManaged \<longleftrightarrow>
        rsOwnership r0 = OwnershipManaged \<and> isManaged (dsWorkspaceID desired) (rsID r0) managed"
      by (rule observeResource_Some [OF r0(3)])
    have "mayClose desired managed windows (closeRequest desired r i)"
      if "roOwnership ob = OwnershipManaged" "seUnmarshal env (roSessionRef ob) = Inr ids" "i \<in> set ids" for ids i
    proof -
      have "i \<in> windows (rsID r)" using that(2,3) assms(3) assms(4) [OF r0(1) app(1)] app(2) r0(2) by auto
      with that(1) app(3) True r0(2) Cons.prems(1) show ?thesis unfolding mayClose_def by auto
    qed
    with assms(2) have "I (adWorld s1)"
      using shellClose_invariant [where I = I, OF assms(1) Cons.prems(2) _ c] by blast
    moreover have "\<exists>fs1. closeResources (shellDesktop env) desired ?o s1 fs1 rs = (fs', s')"
      using Cons.prems(3) True ob c by (auto simp: shellDesktop_def split: option.splits)
    ultimately show ?thesis using Cons.IH Cons.prems(1) by auto
  qed
qed simp

text \<open>
  C5. Closing a workspace on the production desktop sends nothing to the shell but requests to close
  windows that the surfaces show for a managed resource which HWS itself launched in this session:
  whatever is true of the world and is kept by the reads, by time and by such requests is true
  afterwards. An application that was already running when the workspace was activated, an adopted and an
  external one are never touched. The identifiers of windows are relied on to survive their encoding, which
  JSON guarantees for the valid UTF-8 that decoded identifiers are.
\<close>

theorem shell_close_only_launched:
  assumes "keptByReads env I"
    and "\<And>request q w. seRequest env = Some request \<Longrightarrow> mayClose desired (adManaged s) windows q \<Longrightarrow> I w \<Longrightarrow>
      I (snd (request q w))"
    and "\<And>xs. seUnmarshal env (seMarshal env xs) = Inr xs"
    and "\<And>reader w r app. seReader env = Some reader \<Longrightarrow> I w \<Longrightarrow> r \<in> set (dsResources desired) \<Longrightarrow>
      findApplication (fst (srSurface reader w)) (rsDesktopAppID r) = Some app \<Longrightarrow>
      wID ` set (asWindows app) \<subseteq> windows (rsID r)"
    and "I (adWorld s)"
  shows "I (adWorld (snd (CloseManaged (shellDesktop env) s desired)))"
proof (cases "DesiredState_Validate desired")
  case (Some e)
  then show ?thesis using assms(5) by (simp add: CloseManaged_def)
next
  case None
  obtain out s1 where o: "shellObserve env s desired = (out, s1)" by fastforce
  have s1: "I (adWorld s1)" using shellObserve_invariant(1) [OF assms(1,5), of desired] o by simp
  show ?thesis
  proof (cases out)
    case (Inl e)
    with None o s1 show ?thesis by (simp add: CloseManaged_def shellDesktop_def)
  next
    case (Inr observed)
    obtain reader snapshot w1 shell w2 where r: "seReader env = Some reader" "srSurface reader (adWorld s) = (snapshot, w1)"
      "observed = observedState (seMarshal env) (adManaged s) snapshot shell desired"
      by (rule shellObserve_Inr [OF o [unfolded Inr]])
    obtain fs' s' where c: "closeResources (shellDesktop env) desired observed s1 [] (dsResources desired) = (fs', s')"
      by fastforce
    have "I (adWorld s')"
    proof (rule closeResources_shell [where I = I and windows = windows, OF assms(1) _ assms(3) _ subset_refl s1 c [unfolded r(3)]])
      show "I (snd (request q w))"
        if "seRequest env = Some request" "mayClose desired (adManaged s) windows q" "I w" for request q w
        using assms(2) that .
      show "wID ` set (asWindows app) \<subseteq> windows (rsID x)"
        if "x \<in> set (dsResources desired)" "findApplication snapshot (rsDesktopAppID x) = Some app" for x app
        using assms(4) [OF r(1) assms(5) that(1)] r(2) that(2) by simp
    qed
    moreover have "snd (CloseManaged (shellDesktop env) s desired) = s'"
      using None o Inr c by (simp add: CloseManaged_def shellDesktop_def)
    ultimately show ?thesis by simp
  qed
qed

section \<open>Ensuring a resource\<close>

lemma observed_resource:
  assumes "distinct (map rsID (dsResources desired))" and "r \<in> set (dsResources desired)"
  shows "map_of (osResources (observedState marshal managed snapshot shell desired)) (rsID r) =
    observeResource marshal managed snapshot shell desired r"
proof -
  from assms(2) obtain as bs where ds: "dsResources desired = as @ r # bs" by (auto dest: split_list)
  let ?f = "observeStep marshal managed snapshot shell desired"
  have "rsID r \<notin> rsID ` set as" "rsID r \<notin> rsID ` set bs" using assms(1) by (simp_all add: ds)
  then have "\<forall>x \<in> set as. rsID x \<noteq> rsID r" "\<forall>x \<in> set bs. rsID x \<noteq> rsID r" by (metis imageI)+
  then have "map_of (foldl ?f [] as) (rsID r) = None"
    "map_of (foldl ?f (?f (foldl ?f [] as) r) bs) (rsID r) = map_of (?f (foldl ?f [] as) r) (rsID r)"
    using observe_foldl_other [of as "rsID r"] observe_foldl_other [of bs "rsID r"] by simp_all
  then show ?thesis by (simp add: observedState_def ds) (simp add: observeStep_def split: option.split)
qed

lemma readyCheck_Inr:
  assumes "readyCheck env managed desired i expected w = (Some (Inr ob), w')"
  obtains reader snapshot w1 shell where "seReader env = Some reader" and "srSurface reader w = (snapshot, w1)"
    and "srShell reader w1 = (shell, w')"
    and "map_of (osResources (observedState (seMarshal env) managed snapshot shell desired)) i = Some ob"
    and "roPresent ob" and "roReady ob" and "expected \<noteq> '''' \<Longrightarrow> tpRevision (shTopology shell) = expected"
proof -
  obtain out s where o: "shellObserve env \<lparr>adManaged = managed, adWorld = w\<rparr> desired = (out, s)" by fastforce
  from assms o obtain observed where i: "out = Inr observed" by (auto simp: readyCheck_def split: sum.splits)
  obtain reader snapshot w1 shell w2 where r: "seReader env = Some reader" "srSurface reader w = (snapshot, w1)"
    "srShell reader w1 = (shell, w2)" "s = \<lparr>adManaged = managed, adWorld = w2\<rparr>"
    "observed = observedState (seMarshal env) managed snapshot shell desired"
    by (rule shellObserve_Inr [OF o [unfolded i]]) simp
  have "osTopologyRevision observed = tpRevision (shTopology shell)" by (simp add: r(5) observedState_def)
  with assms o i r show thesis
    by (intro that [of reader snapshot w1 shell]) (auto simp: readyCheck_def split: if_splits option.splits)
qed

text \<open>
  C18. When ensuring a resource of a valid definition succeeds, the shell has confirmed the request, and
  the observation that is returned was made from a pair of snapshots read afterwards that show the
  application present and ready: with a window, or, when the definition places it, with its anchor window
  on the resolved monitor and workspace and within the tolerance of the resolved rectangle under the
  topology it was resolved for. The adapter marks the resource as its own exactly when the definition owns
  it and the shell reports that it launched it.
\<close>

theorem shellEnsure_ready:
  assumes "DesiredState_Validate desired = None" and "r \<in> set (dsResources desired)"
    and "shellEnsure env s desired r = (Inr ob, s')"
  shows "\<exists>request result reader snapshot w0 w1 shell app.
    seRequest env = Some request \<and> fst (request (ensureRequest desired r) (adWorld s)) = Inr result \<and> arSuccess result \<and>
    adManaged s' = (if arChanged result \<and> rsOwnership r = OwnershipManaged
      then markManaged (dsWorkspaceID desired) (rsID r) True (adManaged s) else adManaged s) \<and>
    seReader env = Some reader \<and> srSurface reader w0 = (snapshot, w1) \<and> srShell reader w1 = (shell, adWorld s') \<and>
    observeResource (seMarshal env) (adManaged s') snapshot shell desired r = Some ob \<and> roPresent ob \<and> roReady ob \<and>
    findApplication snapshot (rsDesktopAppID r) = Some app \<and>
    (if rsPlacement r = None then asWindows app \<noteq> []
     else \<exists>target sapp w. resolvePlacement (rsPlacement r) (shTopology shell) = Inr target \<and>
       findShellApplication shell (rsDesktopAppID r) = Some sapp \<and> anchorWindow sapp = Some w \<and>
       placementReached target w (tpRevision (shTopology shell)))"
proof -
  have distinct: "distinct (map rsID (dsResources desired))"
    using assms(1) by (simp add: DesiredState_Validate_iff validDesired_def)
  from assms(3) obtain request result w1 managed where q: "seRequest env = Some request"
    "request (ensureRequest desired r) (adWorld s) = (Inr result, w1)" "arSuccess result"
    "managed = (if arChanged result \<and> rsOwnership r = OwnershipManaged
      then markManaged (dsWorkspaceID desired) (rsID r) True (adManaged s) else adManaged s)"
    "ensureWait env request managed desired r w1 = (Inr ob, adWorld s')" "adManaged s' = managed"
    by (auto simp: shellEnsure_def Let_def split: if_splits option.splits prod.splits sum.splits)
  then obtain w2 where "waitReady env managed desired (rsID r) '''' w2 = (Inr ob, adWorld s')"
    by (auto simp: ensureWait_def split: prod.splits sum.splits option.splits if_splits)
  then obtain w0 where rc: "readyCheck env managed desired (rsID r) '''' w0 = (Some (Inr ob), adWorld s')"
    unfolding waitReady_def by (blast dest: waitUntil_Inr)
  obtain reader snapshot wm shell where o: "seReader env = Some reader" "srSurface reader w0 = (snapshot, wm)"
    "srShell reader wm = (shell, adWorld s')"
    "map_of (osResources (observedState (seMarshal env) managed snapshot shell desired)) (rsID r) = Some ob"
    "roPresent ob" "roReady ob" by (rule readyCheck_Inr [OF rc]) (rule that; assumption)
  have ob: "observeResource (seMarshal env) managed snapshot shell desired r = Some ob"
    using o(4) by (simp add: observed_resource [OF distinct assms(2)])
  obtain app where app: "findApplication snapshot (rsDesktopAppID r) = Some app"
    "rsPlacement r = None \<Longrightarrow> roReady ob \<longleftrightarrow> asWindows app \<noteq> []" by (rule observeResource_Some [OF ob]) (rule that; assumption)
  have "\<exists>target sapp w. resolvePlacement (rsPlacement r) (shTopology shell) = Inr target \<and>
       findShellApplication shell (rsDesktopAppID r) = Some sapp \<and> anchorWindow sapp = Some w \<and>
       placementReached target w (tpRevision (shTopology shell))" if "rsPlacement r \<noteq> None"
  proof -
    from ob obtain ob0 where "ob = observePlacement shell r ob0"
      by (auto simp: observeResource_def split: if_splits option.splits)
    with o(6) have "roReady (observePlacement shell r ob0)" by simp
    from observePlacement_ready [OF that this] show ?thesis by metis
  qed
  then have "if rsPlacement r = None then asWindows app \<noteq> []
     else \<exists>target sapp w. resolvePlacement (rsPlacement r) (shTopology shell) = Inr target \<and>
       findShellApplication shell (rsDesktopAppID r) = Some sapp \<and> anchorWindow sapp = Some w \<and>
       placementReached target w (tpRevision (shTopology shell))"
    using app(2) o(6) by auto
  moreover have "fst (request (ensureRequest desired r) (adWorld s)) = Inr result" by (simp add: q(2))
  ultimately show ?thesis
    unfolding q(6)
    by (intro exI [of _ request] exI [of _ result] exI [of _ reader] exI [of _ snapshot] exI [of _ w0] exI [of _ wm]
        exI [of _ shell] exI [of _ app] conjI)
      (assumption | rule q(1,3,4) o(1-3,5,6) ob app(1))+
qed

section \<open>A session\<close>

text \<open>
  A world with one application that runs or not, and the log of the requests. The text of a list of
  strings marks every character, so that it can be read back.
\<close>

definition encodeStrings :: "string list \<Rightarrow> string" where
  "encodeStrings xs = concat (map (\<lambda>s. concat (map (\<lambda>c. [CHR 0x01, c]) s) @ [CHR 0x00]) xs)"

fun decodeStrings :: "string \<Rightarrow> string \<Rightarrow> string list" where
  "decodeStrings acc [] = []"
| "decodeStrings acc [x] = (if x = CHR 0x00 then [acc] else [])"
| "decodeStrings acc (x # c # xs) =
     (if x = CHR 0x00 then acc # decodeStrings '''' (c # xs) else decodeStrings (acc @ [c]) xs)"

lemma decode_item: "decodeStrings acc (concat (map (\<lambda>c. [CHR 0x01, c]) s) @ CHR 0x00 # rest) =
    (acc @ s) # decodeStrings '''' rest"
  by (induction s arbitrary: acc) (cases rest; simp)+

lemma decode_encode: "decodeStrings '''' (encodeStrings xs) = xs"
  by (induction xs) (simp_all add: encodeStrings_def decode_item)

type_synonym sampleWorld = "bool \<times> ActionRequest list"

definition sampleSurface :: "bool \<Rightarrow> SurfaceSnapshot" where
  "sampleSurface running = \<lparr>ssGeneration = 1, ssRevision = ''r'', ssSurfaces =
     (if running then [\<lparr>asAppID = ''zed'', asName = ''Zed'', asIconName = '''', asDesktopAppID = ''zed.desktop'',
        asWindows = [\<lparr>wID = ''w1'', wTitle = '''', wWorkspaceID = '''', wMonitorRef = '''', wFocused = True, wMinimized = False,
          wMRU = 1, wProviderOnly = False, wViews = []\<rparr>],
        asStatus = emptyStatus, asCapabilities = [], asSourceRevision = []\<rparr>] else []), ssProviders = []\<rparr>"

definition sampleShellView :: "bool \<Rightarrow> ShellSnapshot" where
  "sampleShellView running = \<lparr>shSchema = 1, shRevision = 1, shCapturedAt = 1, shTopology = sampleTopology, shApps =
     (if running then [\<lparr>saAppID = ''zed'', saName = ''Zed'', saIconName = '''', saDesktopAppID = ''zed.desktop'',
        saIdentityHints = [], saBusy = False, saWindows = [\<lparr>swID = ''w1'', swTitle = '''', swWorkspaceID = ''workspace:2'',
          swMonitorRef = ''m1'', swFrame = \<lparr>lrX = 961, lrY = 40, lrWidth = 958, lrHeight = 1040\<rparr>, swFocused = True,
          swMinimized = False, swMRU = 1, swAttention = ''''\<rparr>]\<rparr>] else [])\<rparr>"

definition sampleAct :: "ActionRequest \<Rightarrow> sampleWorld \<Rightarrow> (string + ActionResult) \<times> sampleWorld" where
  "sampleAct q w =
     (Inr \<lparr>arSchema = 1, arID = rqID q, arSuccess = True, arChanged = (fst w \<noteq> (rqKind q = KindEnsureDesktopApp)),
           arCode = '''', arMessage = ''''\<rparr>,
      (rqKind q = KindEnsureDesktopApp, snd w @ [q]))"

definition sampleEnv :: "sampleWorld ShellEnv" where
  "sampleEnv = \<lparr>seReader = Some \<lparr>srSurface = (\<lambda>w. (sampleSurface (fst w), w)), srShell = (\<lambda>w. (sampleShellView (fst w), w))\<rparr>,
     seRequest = Some sampleAct, seDone = (\<lambda>_. (3, ''context deadline exceeded'')), seTick = (\<lambda>w. w),
     seMarshal = encodeStrings, seUnmarshal = (\<lambda>s. Inr (decodeStrings '''' s))\<rparr>"

definition sampleEditor :: ResourceSpec where
  "sampleEditor = \<lparr>rsID = ''editor'', rsKind = ResourceDesktopApp, rsRequired = True, rsOwnership = OwnershipManaged,
     rsDesktopAppID = ''zed.desktop'', rsExecutable = '''', rsArgs = [], rsWorkingDirectory = '''',
     rsPlacement = Some rightHalf\<rparr>"

definition sampleDesired :: DesiredState where
  "sampleDesired = \<lparr>dsWorkspaceID = ''dev'', dsRevision = ''1'', dsResources = [sampleEditor]\<rparr>"

definition launchedState :: "sampleWorld AdapterState" where
  "launchedState = snd (shellEnsure sampleEnv (newShellDesktop (False, [])) sampleDesired sampleEditor)"

lemma shellEnsure_ready_witness:
  "\<exists>ob. fst (shellEnsure sampleEnv (newShellDesktop (False, [])) sampleDesired sampleEditor) = Inr ob \<and> roReady ob \<and>
     (\<exists>target w. resolvePlacement (Some rightHalf) sampleTopology = Inr target \<and> placementReached target w ''t1'')"
proof -
  have v: "DesiredState_Validate sampleDesired = None" by code_simp
  have m: "sampleEditor \<in> set (dsResources sampleDesired)" by (simp add: sampleDesired_def)
  have "\<not> isl (fst (shellEnsure sampleEnv (newShellDesktop (False, [])) sampleDesired sampleEditor))" by code_simp
  then obtain ob s' where e: "shellEnsure sampleEnv (newShellDesktop (False, [])) sampleDesired sampleEditor = (Inr ob, s')"
    by (metis prod.collapse sum.collapse(2))
  have t: "shTopology (sampleShellView b) = sampleTopology" "tpRevision sampleTopology = ''t1''" for b
    by (simp_all add: sampleShellView_def sampleTopology_def)
  have p: "rsPlacement sampleEditor = Some rightHalf" by (simp add: sampleEditor_def)
  from shellEnsure_ready [OF v m e] obtain reader w1 shell target w where r: "roReady ob" "seReader sampleEnv = Some reader"
    "srShell reader w1 = (shell, adWorld s')" "resolvePlacement (Some rightHalf) (shTopology shell) = Inr target"
    "placementReached target w (tpRevision (shTopology shell))" unfolding p by auto
  from r(2,3) have "shell = sampleShellView (fst w1)" by (auto simp: sampleEnv_def)
  with r(4,5) have "resolvePlacement (Some rightHalf) sampleTopology = Inr target" "placementReached target w ''t1''"
    by (simp_all add: t)
  with e r(1) show ?thesis by auto
qed

lemma shell_close_only_launched_witness:
  "snd (adWorld (snd (CloseManaged (shellDesktop sampleEnv) launchedState sampleDesired))) =
     [ensureRequest sampleDesired sampleEditor, closeRequest sampleDesired sampleEditor ''w1''] \<and>
   mayClose sampleDesired (adManaged launchedState) (\<lambda>_. {''w1''}) (closeRequest sampleDesired sampleEditor ''w1'')"
proof -
  let ?I = "\<lambda>w :: sampleWorld. snd w \<noteq> [] \<and> (\<forall>q \<in> set (drop 1 (snd w)). mayClose sampleDesired (adManaged launchedState) (\<lambda>_. {''w1''}) q)"
  have "snd (adWorld launchedState) = [ensureRequest sampleDesired sampleEditor]" by code_simp
  then have "?I (adWorld launchedState)" by simp
  then have "?I (adWorld (snd (CloseManaged (shellDesktop sampleEnv) launchedState sampleDesired)))"
  proof (rule shell_close_only_launched [where windows = "\<lambda>_. {''w1''}", rotated 4])
    show "keptByReads sampleEnv ?I" by (auto simp: keptByReads_def sampleEnv_def)
    show "?I (snd (request q w))"
      if "seRequest sampleEnv = Some request" "mayClose sampleDesired (adManaged launchedState) (\<lambda>_. {''w1''}) q" "?I w" for request q w
      using that by (cases "snd w") (auto simp: sampleEnv_def sampleAct_def)
    show "seUnmarshal sampleEnv (seMarshal sampleEnv xs) = Inr xs" for xs by (simp add: sampleEnv_def decode_encode)
    show "wID ` set (asWindows app) \<subseteq> {''w1''}"
      if "seReader sampleEnv = Some reader" "findApplication (fst (srSurface reader w)) (rsDesktopAppID r) = Some app" for reader w r app
      using that by (auto simp: sampleEnv_def sampleSurface_def findApplication_def split: if_splits)
  qed
  moreover have "snd (adWorld (snd (CloseManaged (shellDesktop sampleEnv) launchedState sampleDesired))) =
     [ensureRequest sampleDesired sampleEditor, closeRequest sampleDesired sampleEditor ''w1'']" by code_simp
  ultimately show ?thesis by simp
qed

end
