(* ===== verification/Hub.thy ===== *)
theory Hub
  imports PanelCompile ProviderServer GnomeShell
begin

text \<open>
  \<open>internal/daemon/hub.go\<close> and \<open>internal/daemon/surface_reader.go\<close>: the hub of the daemon, which feeds
  the registry, publishes the aggregated surfaces and their panel, follows the panel's configuration file
  and sends commands to the providers. Its operations are written as one step each; the section on
  concurrent refreshes splits \<open>Refresh\<close> into its critical sections.
\<close>

section \<open>State\<close>

text \<open>What is not the hub's own: case folding, the orders of map iterations and the digest of a snapshot.\<close>

record HubEnv =
  heFold :: "string \<Rightarrow> string"
  heSnapshots :: "Registry \<Rightarrow> Registry"
  heHealth :: "Registry \<Rightarrow> Registry"
  heAggregates :: "(string, aggregate) gomap \<Rightarrow> (string, aggregate) gomap"
  heReplace :: "Registry \<Rightarrow> Registry"
  heAttrs :: iteration
  heDigest :: "semanticState \<Rightarrow> string"

record Hub =
  hbRegistry :: Registry
  hbManager :: DslManager
  hbActions :: "Actions option"
  hbConfigPath :: string
  hbConfigMod :: int
  hbConfigSize :: int
  hbSurface :: SurfaceSnapshot
  hbPanel :: PanelSnapshot
  hbPanelRevision :: "64 word"
  hbConfigRevision :: "64 word"
  hbLastSpecRevision :: "64 word"
  hbOnPanelChanged :: bool
  hbOnPanelConfigChanged :: bool

datatype hubError =
    HubRegistry registryError | HubShell shellError | HubSnapshot snapshotError | HubCompile compileError
  | HubBuiltIn compileError | HubIO string | HubPathRequired | HubNotConfigured
  | SurfaceNotFound string | ViewNotFound string string | ViewActivationUnsupported string | ViewCloseUnsupported string
  | TransportUnavailable | NoProviderIdentity | InvalidTabIdentity string | HubSend sendError

text \<open>The calls of the two notifiers. The hub's last two fields say which of them are set.\<close>

datatype notice = PanelChanged "64 word" | PanelConfigChanged "64 word"

definition emptySnapshot :: SurfaceSnapshot where
  "emptySnapshot = \<lparr>ssGeneration = 0, ssRevision = '''', ssSurfaces = [], ssProviders = []\<rparr>"

definition emptyPanel :: PanelSnapshot where
  "emptyPanel = \<lparr>pnRevision = 0, pnGeneratedAt = 0,
     pnRender = \<lparr>rcEdge = '''', rcHeight = 0, rcGap = 0, rcOverflow = ''''\<rparr>, pnCards = []\<rparr>"

definition NewHub :: "Registry option \<Rightarrow> Hub" where
  "NewHub registry =
     \<lparr>hbRegistry = (case registry of Some r \<Rightarrow> r | None \<Rightarrow> []), hbManager = zeroDslManager, hbActions = None,
      hbConfigPath = '''', hbConfigMod = 0, hbConfigSize = 0, hbSurface = emptySnapshot, hbPanel = emptyPanel,
      hbPanelRevision = 0, hbConfigRevision = 0, hbLastSpecRevision = 0,
      hbOnPanelChanged = False, hbOnPanelConfigChanged = False\<rparr>"

definition SetActions :: "Actions option \<Rightarrow> Hub \<Rightarrow> Hub" where
  "SetActions a h = h\<lparr>hbActions := a\<rparr>"

definition SetNotifiers :: "bool \<Rightarrow> bool \<Rightarrow> Hub \<Rightarrow> Hub" where
  "SetNotifiers panelChanged panelConfigChanged h =
     h\<lparr>hbOnPanelChanged := panelChanged, hbOnPanelConfigChanged := panelConfigChanged\<rparr>"

definition HubSurfaceSnapshot :: "Hub \<Rightarrow> SurfaceSnapshot" where
  "HubSurfaceSnapshot h = SurfaceSnapshot_Clone (hbSurface h)"

section \<open>Refresh\<close>

text \<open>The snapshot that a refresh builds from the registry and the previous snapshot.\<close>

definition buildNext ::
  "HubEnv \<Rightarrow> ApplicationSurface list \<Rightarrow> ProviderHealth list \<Rightarrow> SurfaceSnapshot \<Rightarrow> snapshotError + SurfaceSnapshot" where
  "buildNext env aggregated health previous = NewSnapshot (heDigest env) previous aggregated health"

definition aggregateSurfaces ::
  "HubEnv \<Rightarrow> int \<Rightarrow> Registry \<Rightarrow> ApplicationSurface list" where
  "aggregateSurfaces env now r = Registry_Apply (heFold env) (heSnapshots env) [] now r"

definition healthOf :: "HubEnv \<Rightarrow> int \<Rightarrow> Registry \<Rightarrow> ProviderHealth list" where
  "healthOf env now r = Registry_Health (heHealth env) (heAggregates env) now r"

definition panelSpecOf :: "DslManager \<Rightarrow> PanelSpec \<times> 64 word" where
  "panelSpecOf m =
     (case DslManager_Current m of
        (spec, revision, valid) \<Rightarrow> (if valid then spec else DefaultSpec ''runtime'', revision))"

text \<open>The critical section that publishes, and the call of the notifier that follows it, if one is set.\<close>

definition publish :: "SurfaceSnapshot \<Rightarrow> PanelSpec \<times> 64 word \<Rightarrow> int \<Rightarrow> Hub \<Rightarrow> Hub \<times> notice list" where
  "publish nxt spec now h =
     (let surfaceChanged = ssRevision nxt \<noteq> ssRevision (hbSurface h);
          specChanged = snd spec \<noteq> hbLastSpecRevision h;
          revision = (if surfaceChanged \<or> specChanged \<or> hbPanelRevision h = 0
                      then hbPanelRevision h + 1 else hbPanelRevision h)
      in (h\<lparr>hbSurface := nxt, hbLastSpecRevision := snd spec, hbPanelRevision := revision,
            hbPanel := ProjectWithSpec (ssSurfaces nxt) (fst spec) revision now\<rparr>,
          if (surfaceChanged \<or> specChanged) \<and> hbOnPanelChanged h then [PanelChanged revision] else []))"

definition Hub_Refresh :: "HubEnv \<Rightarrow> int \<Rightarrow> Hub \<Rightarrow> hubError option \<times> Hub \<times> notice list" where
  "Hub_Refresh env now h =
     (let aggregated = aggregateSurfaces env now (hbRegistry h);
          health = healthOf env now (hbRegistry h);
          previous = SurfaceSnapshot_Clone (hbSurface h)
      in case buildNext env aggregated health previous of
           Inl e \<Rightarrow> (Some (HubSnapshot e), h, [])
         | Inr nxt \<Rightarrow> (None, publish nxt (panelSpecOf (hbManager h)) now h))"

definition Hub_Ingest :: "HubEnv \<Rightarrow> int \<Rightarrow> ProviderSnapshot \<Rightarrow> Hub \<Rightarrow> hubError option \<times> Hub \<times> notice list" where
  "Hub_Ingest env now s h =
     (case Registry_Ingest (heFold env) s (hbRegistry h) of
        (Some e, r) \<Rightarrow> (Some (HubRegistry e), h\<lparr>hbRegistry := r\<rparr>, [])
      | (None, r) \<Rightarrow> Hub_Refresh env now (h\<lparr>hbRegistry := r\<rparr>))"

definition Hub_ReplaceShell ::
  "HubEnv \<Rightarrow> (string \<Rightarrow> string + ShellSnapshot) \<Rightarrow> int \<Rightarrow> string \<Rightarrow> Hub \<Rightarrow> hubError option \<times> Hub \<times> notice list" where
  "Hub_ReplaceShell env unmarshal now payload h =
     (case Decode unmarshal payload of
        Inl e \<Rightarrow> (Some (HubShell e), h, [])
      | Inr snapshot \<Rightarrow>
          (case Registry_ReplaceProvider (heFold env) (heReplace env) ShellProviderID (ProviderSnapshots snapshot) (hbRegistry h) of
             (Some e, r) \<Rightarrow> (Some (HubRegistry e), h\<lparr>hbRegistry := r\<rparr>, [])
           | (None, r) \<Rightarrow> Hub_Refresh env now (h\<lparr>hbRegistry := r\<rparr>)))"

section \<open>The panel's configuration\<close>

definition DefaultPanelSource :: string where
  "DefaultPanelSource = quotedLines
     [''panel |main| {'',
      ''  edge = |top|'',
      ''  height = 40'',
      ''  gap = 6'',
      ''  overflow = |popover|'',
      '''',
      ''  group |applications| {'',
      ''    source = |running|'',
      ''    app {'',
      ''      density = |adaptive|'',
      ''      min_width = 64'',
      ''      preferred_width = 156'',
      ''      max_width = 240'',
      ''      surfaces {'',
      ''        mode = |segments|'',
      ''        max_visible = 4'',
      ''        overflow = |count|'',
      ''      }'',
      ''    }'',
      ''    on |click| { action = |focus_or_cycle| }'',
      ''    on |scroll| { action = |cycle_surface| }'',
      ''    on |middle_click| { action = |new_window| }'',
      ''    on |secondary_click| { action = |surface_menu| }'',
      ''  }'',
      '''',
      ''  group |system| {'',
      ''    widget |network| { variant = |mini| }'',
      ''    widget |audio| { variant = |mini| }'',
      ''    widget |clock| { format = |HH:mm| }'',
      ''  }'',
      ''}'']"

text \<open>
  A reload reads the file, compiles it and, when that succeeds, records the file's time and size and
  refreshes; the stat comes after the compilation, in the world \<open>later w\<close>, and when it fails the
  recorded values stay.
\<close>

definition Hub_ReloadPanel :: "HubEnv \<Rightarrow> 'w FS \<Rightarrow> ('w \<Rightarrow> 'w) \<Rightarrow> 'w \<Rightarrow> int \<Rightarrow> Hub \<Rightarrow> hubError option \<times> Hub \<times> notice list" where
  "Hub_ReloadPanel env fs later w now h =
     (if hbConfigPath h = '''' then (Some HubNotConfigured, h, [])
      else case fsReadFile fs (hbConfigPath h) w of
        Inl e \<Rightarrow> (Some (HubIO e), h, [])
      | Inr data \<Rightarrow>
          (case DslManager_Apply (heAttrs env) data (hbManager h) of
             ((_, _, Some e), m) \<Rightarrow> (Some (HubCompile e), h\<lparr>hbManager := m\<rparr>, [])
           | ((_, revision, None), m) \<Rightarrow>
               let h1 = h\<lparr>hbManager := m, hbConfigRevision := revision\<rparr>;
                   h2 = (case fsStat fs (hbConfigPath h) (later w) of
                           Inr info \<Rightarrow> h1\<lparr>hbConfigMod := fiModTime info, hbConfigSize := fiSize info\<rparr>
                         | Inl _ \<Rightarrow> h1)
               in case Hub_Refresh env now h2 of
                    (Some e, h3, ns) \<Rightarrow> (Some e, h3, ns)
                  | (None, h3, ns) \<Rightarrow> (None, h3, ns @ (if hbOnPanelConfigChanged h then [PanelConfigChanged revision] else []))))"

definition Hub_PollConfig :: "HubEnv \<Rightarrow> 'w FS \<Rightarrow> ('w \<Rightarrow> 'w) \<Rightarrow> 'w \<Rightarrow> int \<Rightarrow> Hub \<Rightarrow> hubError option \<times> Hub \<times> notice list" where
  "Hub_PollConfig env fs later w now h =
     (if hbConfigPath h = '''' then (None, h, [])
      else case fsStat fs (hbConfigPath h) w of
        Inl e \<Rightarrow> (Some (HubIO (statText e)), h, [])
      | Inr info \<Rightarrow>
          if fiSize info = hbConfigSize h \<and> fiModTime info = hbConfigMod h then (None, h, [])
          else Hub_ReloadPanel env fs later w now h)"

definition Hub_Configure ::
  "HubEnv \<Rightarrow> 'w FS \<Rightarrow> ('w \<Rightarrow> 'w) \<Rightarrow> string \<Rightarrow> 'w \<Rightarrow> int \<Rightarrow> Hub \<Rightarrow> hubError option \<times> 'w \<times> Hub \<times> notice list" where
  "Hub_Configure env fs later path w now h =
     (if TrimSpace path = '''' then (Some HubPathRequired, w, h, [])
      else case DslManager_Apply (heAttrs env) DefaultPanelSource (hbManager h) of
        ((_, _, Some e), m) \<Rightarrow> (Some (HubBuiltIn e), w, h\<lparr>hbManager := m\<rparr>, [])
      | ((_, _, None), m) \<Rightarrow>
          let h1 = h\<lparr>hbManager := m, hbConfigPath := path\<rparr>;
              reload = (\<lambda>w. case Hub_ReloadPanel env fs later w now h1 of
                  (None, h2, ns) \<Rightarrow> (None, w, h2, ns)
                | (Some e, h2, ns) \<Rightarrow> (case Hub_Refresh env now h2 of (_, h3, ns') \<Rightarrow> (Some e, w, h3, ns @ ns')))
          in case fsMkdirAll fs (fsDir fs path) w of
               (Some e, w1) \<Rightarrow> (Some (HubIO e), w1, h1, [])
             | (None, w1) \<Rightarrow>
                 (case fsStat fs path w1 of
                    Inl NotExist \<Rightarrow>
                      (case fsWriteFile fs path DefaultPanelSource w1 of
                         (Some e, w2) \<Rightarrow> (Some (HubIO e), w2, h1, [])
                       | (None, w2) \<Rightarrow> reload w2)
                  | Inl (StatError e) \<Rightarrow> (Some (HubIO e), w1, h1, [])
                  | Inr _ \<Rightarrow> reload w1))"

text \<open>One tick of \<open>RunMaintenance\<close> with the errors it reports.\<close>

definition maintenanceTick ::
  "HubEnv \<Rightarrow> 'w FS \<Rightarrow> ('w \<Rightarrow> 'w) \<Rightarrow> 'w \<Rightarrow> int \<Rightarrow> int \<Rightarrow> Hub \<Rightarrow> hubError list \<times> Hub \<times> notice list" where
  "maintenanceTick env fs later w now1 now2 h =
     (case Hub_PollConfig env fs later w now1 h of
        (e1, h1, ns1) \<Rightarrow>
          (case Hub_Refresh env now2 h1 of
             (e2, h2, ns2) \<Rightarrow> ((case e1 of Some e \<Rightarrow> [e] | None \<Rightarrow> []) @ (case e2 of Some e \<Rightarrow> [e] | None \<Rightarrow> []), h2, ns1 @ ns2)))"

section \<open>Reading\<close>

text \<open>The values that \<open>SpecJSON\<close>, \<open>HealthJSON\<close> and \<open>ApplicationJSON\<close> encode.\<close>

definition SpecPayload :: "Hub \<Rightarrow> 64 word \<times> bool \<times> PanelSpec" where
  "SpecPayload h = (case DslManager_Current (hbManager h) of (spec, revision, valid) \<Rightarrow> (revision, valid, spec))"

record HealthPayload =
  hpStatus :: string
  hpSurfaceRevision :: string
  hpGeneration :: "64 word"
  hpPanelRevision :: "64 word"
  hpConfigRevision :: "64 word"
  hpConfigValid :: bool
  hpConfigError :: "compileError option"
  hpApplications :: int
  hpWindows :: int
  hpViews :: int
  hpProviders :: "ProviderHealth list"

definition Hub_Health :: "Hub \<Rightarrow> HealthPayload" where
  "Hub_Health h =
     (let snapshot = SurfaceSnapshot_Clone (hbSurface h)
      in \<lparr>hpStatus = ''ok'', hpSurfaceRevision = ssRevision snapshot, hpGeneration = ssGeneration snapshot,
          hpPanelRevision = hbPanelRevision h, hpConfigRevision = hbConfigRevision h,
          hpConfigValid = snd (snd (DslManager_Current (hbManager h))),
          hpConfigError = DslManager_LastError (hbManager h),
          hpApplications = int (length (ssSurfaces snapshot)),
          hpWindows = foldl (\<lambda>n a. n + WindowCount a) 0 (ssSurfaces snapshot),
          hpViews = foldl (\<lambda>n a. n + ViewCount a) 0 (ssSurfaces snapshot),
          hpProviders = ssProviders snapshot\<rparr>)"

definition Hub_Application :: "Hub \<Rightarrow> string \<Rightarrow> hubError + ApplicationSurface" where
  "Hub_Application h appID =
     (case find (\<lambda>a. asAppID a = appID) (ssSurfaces (SurfaceSnapshot_Clone (hbSurface h))) of
        Some a \<Rightarrow> Inr a | None \<Rightarrow> Inl (SurfaceNotFound appID))"

section \<open>Commands\<close>

definition findView :: "Hub \<Rightarrow> string \<Rightarrow> string \<Rightarrow> hubError + ApplicationSurface \<times> View" where
  "findView h appID viewID =
     (case Hub_Application h appID of
        Inl e \<Rightarrow> Inl e
      | Inr app \<Rightarrow>
          (case find (\<lambda>v. vID v = viewID) (concat (map wViews (asWindows app))) of
             Some v \<Rightarrow> Inr (app, v) | None \<Rightarrow> Inl (ViewNotFound viewID appID)))"

record ViewCommand =
  vcType :: string
  vcViewID :: string
  vcResource :: "string option"
  vcTabID :: "int option"

text \<open>The provider and the command for a view; \<open>ParseInt\<close> of base 10 and 64 bits is \<open>Atoi\<close>.\<close>

definition viewCommand :: "View \<Rightarrow> string \<Rightarrow> hubError + string \<times> ViewCommand" where
  "viewCommand view commandType =
     (if vProviderID view = '''' then Inl NoProviderIdentity
      else let c = \<lparr>vcType = commandType, vcViewID = vID view,
             vcResource = (if vResourceRef view \<noteq> '''' then Some (vResourceRef view) else None), vcTabID = None\<rparr>
           in if HasPrefix (vProviderID view) ''browser:'' then
                (case Atoi (TrimPrefix (vID view) ''tab:'') of
                   None \<Rightarrow> Inl (InvalidTabIdentity (vID view))
                 | Some i \<Rightarrow> Inr (vProviderID view, c\<lparr>vcTabID := Some i\<rparr>))
              else Inr (vProviderID view, c))"

text \<open>\<open>send c\<close> is the outcome of writing the command \<open>c\<close> to a connection.\<close>

definition sendViewCommand :: "(ViewCommand \<Rightarrow> nat \<Rightarrow> string option) \<Rightarrow> Hub \<Rightarrow> View \<Rightarrow> string \<Rightarrow> hubError option" where
  "sendViewCommand send h view commandType =
     (case hbActions h of
        None \<Rightarrow> Some TransportUnavailable
      | Some a \<Rightarrow>
          (case viewCommand view commandType of
             Inl e \<Rightarrow> Some e
           | Inr (provider, c) \<Rightarrow> map_option HubSend (Actions_Send (send c) provider a)))"

definition Hub_ActivateView :: "(ViewCommand \<Rightarrow> nat \<Rightarrow> string option) \<Rightarrow> Hub \<Rightarrow> string \<Rightarrow> string \<Rightarrow> hubError option" where
  "Hub_ActivateView send h appID viewID =
     (case findView h appID viewID of
        Inl e \<Rightarrow> Some e
      | Inr (app, view) \<Rightarrow>
          if \<not> mapGet False (asCapabilities app) CapabilityViewActivate then Some (ViewActivationUnsupported appID)
          else sendViewCommand send h view ''activateView'')"

definition Hub_CloseView :: "(ViewCommand \<Rightarrow> nat \<Rightarrow> string option) \<Rightarrow> Hub \<Rightarrow> string \<Rightarrow> string \<Rightarrow> hubError option" where
  "Hub_CloseView send h appID viewID =
     (case findView h appID viewID of
        Inl e \<Rightarrow> Some e
      | Inr (app, view) \<Rightarrow>
          if \<not> mapGet False (asCapabilities app) CapabilityViewClose then Some (ViewCloseUnsupported appID)
          else sendViewCommand send h view ''closeView'')"

section \<open>Concurrent refreshes\<close>

text \<open>
  A refresh takes the registry's lock twice, the hub's lock to copy the previous snapshot, the manager's
  to read the specification and the hub's again to publish; between these anything may happen. The
  phases of a refresh in one thread, and the events of the whole. \<open>hsCompiled\<close> records the
  specifications that the manager has accepted, in order.
\<close>

datatype refreshPhase =
    Aggregated int "ApplicationSurface list"
  | Measured int "ApplicationSurface list" "ProviderHealth list"
  | Prepared int SurfaceSnapshot
  | WithSpec int SurfaceSnapshot "PanelSpec \<times> 64 word"
  | RefreshDone "hubError option"

record HubSystem =
  hsHub :: Hub
  hsThreads :: "nat \<Rightarrow> refreshPhase option"
  hsCompiled :: "PanelSpec list"

datatype hubEvent =
    EvIngest ProviderSnapshot
  | EvReplaceProvider string "ProviderSnapshot list"
  | EvCompile string
  | EvAggregate nat int
  | EvHealth nat
  | EvPrepare nat
  | EvReadSpec nat
  | EvPublish nat

definition setThread :: "nat \<Rightarrow> refreshPhase \<Rightarrow> HubSystem \<Rightarrow> HubSystem" where
  "setThread t p S = S\<lparr>hsThreads := (hsThreads S)(t \<mapsto> p)\<rparr>"

fun hubStep :: "HubEnv \<Rightarrow> hubEvent \<Rightarrow> HubSystem \<Rightarrow> HubSystem option" where
  "hubStep env (EvIngest s) S =
     Some (S\<lparr>hsHub := (hsHub S)\<lparr>hbRegistry := snd (Registry_Ingest (heFold env) s (hbRegistry (hsHub S)))\<rparr>\<rparr>)"
| "hubStep env (EvReplaceProvider p ss) S =
     Some (S\<lparr>hsHub := (hsHub S)\<lparr>hbRegistry :=
       snd (Registry_ReplaceProvider (heFold env) (heReplace env) p ss (hbRegistry (hsHub S)))\<rparr>\<rparr>)"
| "hubStep env (EvCompile src) S =
     (case DslManager_Apply (heAttrs env) src (hbManager (hsHub S)) of
        ((spec, _, err), m) \<Rightarrow>
          Some (S\<lparr>hsHub := (hsHub S)\<lparr>hbManager := m\<rparr>,
                  hsCompiled := (if err = None then hsCompiled S @ [spec] else hsCompiled S)\<rparr>))"
| "hubStep env (EvAggregate t now) S =
     (if hsThreads S t \<noteq> None then None
      else Some (setThread t (Aggregated now (aggregateSurfaces env now (hbRegistry (hsHub S)))) S))"
| "hubStep env (EvHealth t) S =
     (case hsThreads S t of
        Some (Aggregated now as) \<Rightarrow> Some (setThread t (Measured now as (healthOf env now (hbRegistry (hsHub S)))) S)
      | _ \<Rightarrow> None)"
| "hubStep env (EvPrepare t) S =
     (case hsThreads S t of
        Some (Measured now as ps) \<Rightarrow>
          (case buildNext env as ps (SurfaceSnapshot_Clone (hbSurface (hsHub S))) of
             Inl e \<Rightarrow> Some (setThread t (RefreshDone (Some (HubSnapshot e))) S)
           | Inr nxt \<Rightarrow> Some (setThread t (Prepared now nxt) S))
      | _ \<Rightarrow> None)"
| "hubStep env (EvReadSpec t) S =
     (case hsThreads S t of
        Some (Prepared now nxt) \<Rightarrow> Some (setThread t (WithSpec now nxt (panelSpecOf (hbManager (hsHub S)))) S)
      | _ \<Rightarrow> None)"
| "hubStep env (EvPublish t) S =
     (case hsThreads S t of
        Some (WithSpec now nxt spec) \<Rightarrow>
          Some (setThread t (RefreshDone None) (S\<lparr>hsHub := fst (publish nxt spec now (hsHub S))\<rparr>))
      | _ \<Rightarrow> None)"

definition newHubSystem :: "Registry option \<Rightarrow> HubSystem" where
  "newHubSystem r = \<lparr>hsHub = NewHub r, hsThreads = (\<lambda>_. None), hsCompiled = []\<rparr>"

inductive hubReach :: "HubEnv \<Rightarrow> Registry option \<Rightarrow> HubSystem \<Rightarrow> bool" for env r where
  start: "hubReach env r (newHubSystem r)"
| step: "hubReach env r S \<Longrightarrow> hubStep env ev S = Some S' \<Longrightarrow> hubReach env r S'"

fun runHub :: "HubEnv \<Rightarrow> hubEvent list \<Rightarrow> HubSystem \<Rightarrow> HubSystem option" where
  "runHub env [] S = Some S"
| "runHub env (ev # evs) S = (case hubStep env ev S of None \<Rightarrow> None | Some S' \<Rightarrow> runHub env evs S')"

text \<open>The \<open>k\<close>-th specification the manager has handed out: before the first one, the built-in one.\<close>

definition specNumber :: "PanelSpec list \<Rightarrow> nat \<Rightarrow> PanelSpec" where
  "specNumber cs k = (if k = 0 then DefaultSpec ''runtime'' else cs ! (k - 1))"

definition numberedSpec :: "PanelSpec list \<Rightarrow> PanelSpec \<times> 64 word \<Rightarrow> bool" where
  "numberedSpec cs spec \<longleftrightarrow> (\<exists>k \<le> length cs. spec = (specNumber cs k, of_nat k))"

lemma numberedSpec_append: "numberedSpec cs spec \<Longrightarrow> numberedSpec (cs @ ds) spec"
  unfolding numberedSpec_def specNumber_def by (force simp: nth_append)

definition managerOK :: "PanelSpec list \<Rightarrow> DslManager \<Rightarrow> bool" where
  "managerOK cs m \<longleftrightarrow> dmRevision m = of_nat (length cs) \<and> dmValid m = (cs \<noteq> []) \<and>
     (cs \<noteq> [] \<longrightarrow> dmCurrent m = last cs) \<and> (\<forall>s \<in> set cs. soundSpec s)"

text \<open>Nothing is published yet, or the published panel is the projection of the published surfaces.\<close>

definition publishedOK :: "PanelSpec list \<Rightarrow> Hub \<Rightarrow> bool" where
  "publishedOK cs h \<longleftrightarrow>
     hbSurface h = emptySnapshot \<and> hbPanel h = emptyPanel \<and> hbPanelRevision h = 0 \<and> hbLastSpecRevision h = 0 \<or>
     (\<exists>spec now. numberedSpec cs (spec, hbLastSpecRevision h) \<and>
        hbPanel h = ProjectWithSpec (ssSurfaces (hbSurface h)) spec (hbPanelRevision h) now)"

definition hubOK :: "HubSystem \<Rightarrow> bool" where
  "hubOK S \<longleftrightarrow> managerOK (hsCompiled S) (hbManager (hsHub S)) \<and> publishedOK (hsCompiled S) (hsHub S) \<and>
     (\<forall>t now nxt spec. hsThreads S t = Some (WithSpec now nxt spec) \<longrightarrow> numberedSpec (hsCompiled S) spec)"

lemma managerOK_spec: "managerOK cs m \<Longrightarrow> numberedSpec cs (panelSpecOf m)"
  unfolding numberedSpec_def
  by (rule exI [of _ "length cs"])
    (auto simp: managerOK_def panelSpecOf_def DslManager_Current_def specNumber_def last_conv_nth)

lemma managerOK_Apply:
  assumes "managerOK cs m" and "DslManager_Apply it src m = ((spec, r, err), m')"
  shows "managerOK (if err = None then cs @ [spec] else cs) m'"
  using assms by (auto simp: managerOK_def DslManager_Apply_def dest: Compile_sound split: sum.splits)

lemma publish_simps:
  "hbManager (fst (publish nxt spec now h)) = hbManager h"
  "hbRegistry (fst (publish nxt spec now h)) = hbRegistry h"
  "hbSurface (fst (publish nxt spec now h)) = nxt"
  "hbLastSpecRevision (fst (publish nxt spec now h)) = snd spec"
  "hbPanel (fst (publish nxt spec now h)) =
     ProjectWithSpec (ssSurfaces nxt) (fst spec) (hbPanelRevision (fst (publish nxt spec now h))) now"
  by (simp_all add: publish_def Let_def)

lemma publish_OK: "numberedSpec cs spec \<Longrightarrow> publishedOK cs (fst (publish nxt spec now h))"
  unfolding publishedOK_def publish_simps by (cases spec) auto

lemma publishedOK_registry [simp]:
  "publishedOK cs (h\<lparr>hbRegistry := r\<rparr>) = publishedOK cs h" "publishedOK cs (h\<lparr>hbManager := m\<rparr>) = publishedOK cs h"
  by (simp_all add: publishedOK_def)

lemma publishedOK_append: "publishedOK cs h \<Longrightarrow> publishedOK (cs @ ds) h"
  unfolding publishedOK_def by (blast dest: numberedSpec_append)

lemma hubStep_OK:
  assumes "hubOK S" and "hubStep env ev S = Some S'"
  shows "hubOK S'"
proof (cases ev)
  case (EvCompile src)
  obtain spec r err m where a: "DslManager_Apply (heAttrs env) src (hbManager (hsHub S)) = ((spec, r, err), m)"
    by (metis prod.collapse)
  have "managerOK (if err = None then hsCompiled S @ [spec] else hsCompiled S) m"
    using managerOK_Apply [OF _ a] assms(1) by (simp add: hubOK_def)
  then show ?thesis
    using assms a EvCompile by (cases err) (auto simp: hubOK_def intro!: publishedOK_append numberedSpec_append)
next
  case (EvReadSpec t)
  have "numberedSpec (hsCompiled S) (panelSpecOf (hbManager (hsHub S)))"
    using assms(1) managerOK_spec by (simp add: hubOK_def)
  then show ?thesis
    using assms EvReadSpec
    by (auto simp: hubOK_def setThread_def split: option.splits refreshPhase.splits if_splits)
next
  case (EvPublish t)
  with assms(2) obtain now nxt spec where p: "hsThreads S t = Some (WithSpec now nxt spec)"
    "S' = setThread t (RefreshDone None) (S\<lparr>hsHub := fst (publish nxt spec now (hsHub S))\<rparr>)"
    by (auto split: option.splits refreshPhase.splits)
  from assms(1) p(1) have "numberedSpec (hsCompiled S) spec" unfolding hubOK_def by blast
  then show ?thesis
    using assms(1) publish_OK by (auto simp: hubOK_def p(2) setThread_def publish_simps split: if_splits)
qed (use assms in \<open>auto simp: hubOK_def setThread_def split: option.splits refreshPhase.splits if_splits sum.splits\<close>)

lemma hubReach_OK: "hubReach env r S \<Longrightarrow> hubOK S"
proof (induction rule: hubReach.induct)
  case start
  show ?case
    by (simp add: hubOK_def newHubSystem_def NewHub_def managerOK_def publishedOK_def zeroDslManager_def)
qed (rule hubStep_OK)

text \<open>
  C3. However the refreshes of several threads interleave with one another, with the providers and with
  the compilation of configurations: once anything is published, the published panel is the projection
  of the published surfaces under a specification that the manager handed out, numbered by the recorded
  specification revision, and valid unless it is the built-in one; and a step that does not change the
  panel's revision changes neither the revision of the surfaces nor the specification, so whoever keeps a
  panel by its revision misses nothing.
\<close>

theorem hub_panel_consistent:
  assumes "hubReach env r S" and "hubStep env ev S = Some S'"
  shows "(hbPanelRevision (hsHub S') = 0 \<and> hbPanel (hsHub S') = emptyPanel \<and> hbSurface (hsHub S') = emptySnapshot \<or>
     (\<exists>k now. k \<le> length (hsCompiled S') \<and> hbLastSpecRevision (hsHub S') = of_nat k \<and>
        (k > 0 \<longrightarrow> soundSpec (specNumber (hsCompiled S') k)) \<and>
        hbPanel (hsHub S') =
          ProjectWithSpec (ssSurfaces (hbSurface (hsHub S'))) (specNumber (hsCompiled S') k) (hbPanelRevision (hsHub S')) now)) \<and>
    (hbPanelRevision (hsHub S') = hbPanelRevision (hsHub S) \<longrightarrow>
       ssRevision (hbSurface (hsHub S')) = ssRevision (hbSurface (hsHub S)) \<and>
       hbLastSpecRevision (hsHub S') = hbLastSpecRevision (hsHub S))"
proof (rule conjI)
  have ok: "hubOK S'" using hubStep_OK [OF hubReach_OK [OF assms(1)] assms(2)] .
  then have sound: "soundSpec (specNumber (hsCompiled S') k)" if "k \<le> length (hsCompiled S')" "k > 0" for k
    using that by (simp add: hubOK_def managerOK_def specNumber_def)
  show "hbPanelRevision (hsHub S') = 0 \<and> hbPanel (hsHub S') = emptyPanel \<and> hbSurface (hsHub S') = emptySnapshot \<or>
     (\<exists>k now. k \<le> length (hsCompiled S') \<and> hbLastSpecRevision (hsHub S') = of_nat k \<and>
        (k > 0 \<longrightarrow> soundSpec (specNumber (hsCompiled S') k)) \<and>
        hbPanel (hsHub S') =
          ProjectWithSpec (ssSurfaces (hbSurface (hsHub S'))) (specNumber (hsCompiled S') k) (hbPanelRevision (hsHub S')) now)"
    using ok sound unfolding hubOK_def publishedOK_def numberedSpec_def prod.inject by blast
  show "hbPanelRevision (hsHub S') = hbPanelRevision (hsHub S) \<longrightarrow>
       ssRevision (hbSurface (hsHub S')) = ssRevision (hbSurface (hsHub S)) \<and>
       hbLastSpecRevision (hsHub S') = hbLastSpecRevision (hsHub S)"
  proof (cases ev)
    case (EvPublish t)
    then show ?thesis
      using assms(2) by (auto simp: publish_def Let_def setThread_def split: option.splits refreshPhase.splits if_splits)
  qed (use assms(2) in \<open>auto simp: setThread_def split: option.splits refreshPhase.splits sum.splits prod.splits if_splits\<close>)
qed

section \<open>Runs\<close>

lemma runHub_reach: "hubReach env r S \<Longrightarrow> runHub env evs S = Some S' \<Longrightarrow> hubReach env r S'"
  by (induction evs arbitrary: S) (auto intro: hubReach.step split: option.splits)

definition sampleHubEnv :: HubEnv where
  "sampleHubEnv = \<lparr>heFold = (\<lambda>s. s), heSnapshots = (\<lambda>m. m), heHealth = (\<lambda>m. m), heAggregates = (\<lambda>m. m),
     heReplace = (\<lambda>m. m), heAttrs = (\<lambda>m. m), heDigest = (\<lambda>st. ''sha256:'' @ concat (map asName (fst st)))\<rparr>"

definition nativeApp :: "string \<Rightarrow> 64 word \<Rightarrow> ProviderSnapshot" where
  "nativeApp name revision = blankSnapshot\<lparr>pvProviderID := ''gnome-shell'', pvKind := SourceNative, pvAppID := ''a'',
     pvObservedAt := 1, pvTTL := 5 * second, pvRevision := revision, pvAllowOrphan := True, pvApplicationName := name\<rparr>"

definition hubRun :: "hubEvent list \<Rightarrow> Hub option" where
  "hubRun evs = map_option hsHub (runHub sampleHubEnv evs (newHubSystem None))"

definition refreshEvents :: "nat \<Rightarrow> int \<Rightarrow> hubEvent list" where
  "refreshEvents t now = [EvAggregate t now, EvHealth t, EvPrepare t, EvReadSpec t, EvPublish t]"

definition publishedNames :: "hubEvent list \<Rightarrow> (string list \<times> 64 word \<times> 64 word) option" where
  "publishedNames evs =
     map_option (\<lambda>h. (map asName (ssSurfaces (hbSurface h)), ssGeneration (hbSurface h), hbPanelRevision h)) (hubRun evs)"

lemma hub_panel_consistent_witness:
  "\<exists>S S'. hubReach sampleHubEnv None S \<and> hubStep sampleHubEnv (EvPublish 0) S = Some S' \<and>
     hbPanelRevision (hsHub S') = 1 \<and> length (pnCards (hbPanel (hsHub S'))) = 1 \<and>
     (\<exists>now. hbPanel (hsHub S') = ProjectWithSpec (ssSurfaces (hbSurface (hsHub S'))) (DefaultSpec ''runtime'') 1 now)"
proof -
  let ?evs = "[EvIngest (nativeApp ''old'' 1), EvAggregate 0 2, EvHealth 0, EvPrepare 0, EvReadSpec 0]"
  have "case runHub sampleHubEnv ?evs (newHubSystem None) of None \<Rightarrow> False
    | Some S \<Rightarrow> (case hubStep sampleHubEnv (EvPublish 0) S of None \<Rightarrow> False
        | Some S' \<Rightarrow> hbPanelRevision (hsHub S') = 1 \<and> length (pnCards (hbPanel (hsHub S'))) = 1 \<and> hsCompiled S' = [])"
    by code_simp
  then obtain S S' where run: "runHub sampleHubEnv ?evs (newHubSystem None) = Some S"
    and S': "hubStep sampleHubEnv (EvPublish 0) S = Some S'" "hbPanelRevision (hsHub S') = 1"
      "length (pnCards (hbPanel (hsHub S'))) = 1" "hsCompiled S' = []"
    by (auto split: option.splits simp del: runHub.simps hubStep.simps)
  have reach: "hubReach sampleHubEnv None S" by (rule runHub_reach [OF hubReach.start run])
  from hub_panel_consistent [OF reach S'(1)] S' obtain now where
    "hbPanel (hsHub S') = ProjectWithSpec (ssSurfaces (hbSurface (hsHub S'))) (DefaultSpec ''runtime'') 1 now"
    by (auto simp: specNumber_def)
  with reach S' show ?thesis by blast
qed

text \<open>
  Two refreshes at once: the one that read the registry first may publish last, and then the hub shows
  the older state of the application, under the generation that the newer one has already used.
\<close>

lemma stale_refresh_published:
  "publishedNames ([EvIngest (nativeApp ''old'' 1), EvAggregate 0 2, EvHealth 0, EvPrepare 0, EvReadSpec 0,
      EvIngest (nativeApp ''new'' 2)] @ refreshEvents 1 3) = Some ([''new''], 1, 1) \<and>
   publishedNames ([EvIngest (nativeApp ''old'' 1), EvAggregate 0 2, EvHealth 0, EvPrepare 0, EvReadSpec 0,
      EvIngest (nativeApp ''new'' 2)] @ refreshEvents 1 3 @ [EvPublish 0]) = Some ([''old''], 1, 2)"
  by code_simp

section \<open>Following the configuration file\<close>

text \<open>
  The hub keeps the last good panel: reloads and polls, in whatever worlds they run, are inputs of the
  contract of a configuration manager.
\<close>

datatype 'w panelEvent = ReloadPanelEv 'w int | PollPanelEv 'w int

definition panelStep :: "HubEnv \<Rightarrow> 'w FS \<Rightarrow> ('w \<Rightarrow> 'w) \<Rightarrow> Hub \<Rightarrow> 'w panelEvent \<Rightarrow> Hub" where
  "panelStep env fs later h ev =
     (case ev of
        ReloadPanelEv w now \<Rightarrow> fst (snd (Hub_ReloadPanel env fs later w now h))
      | PollPanelEv w now \<Rightarrow> fst (snd (Hub_PollConfig env fs later w now h)))"

definition panelRead :: "'w FS \<Rightarrow> string \<Rightarrow> 'w \<Rightarrow> string option" where
  "panelRead fs path w =
     (if path = '''' then None else case fsReadFile fs path w of Inr data \<Rightarrow> Some data | Inl _ \<Rightarrow> None)"

definition panelSubmitted :: "'w FS \<Rightarrow> Hub \<Rightarrow> 'w panelEvent \<Rightarrow> string option" where
  "panelSubmitted fs h ev =
     (case ev of
        ReloadPanelEv w now \<Rightarrow> panelRead fs (hbConfigPath h) w
      | PollPanelEv w now \<Rightarrow>
          if pollDue fs (hbConfigPath h) (hbConfigSize h) (hbConfigMod h) w then panelRead fs (hbConfigPath h) w else None)"

lemma Refresh_manager [simp]: "hbManager (fst (snd (Hub_Refresh env now h))) = hbManager h"
  by (auto simp: Hub_Refresh_def Let_def publish_simps split: sum.split)

lemma Reload_manager:
  "hbManager (fst (snd (Hub_ReloadPanel env fs later w now h))) =
     (case panelRead fs (hbConfigPath h) w of
        None \<Rightarrow> hbManager h | Some data \<Rightarrow> dslStep (heAttrs env) (hbManager h) data)"
proof (cases "panelRead fs (hbConfigPath h) w")
  case None
  then show ?thesis by (auto simp: panelRead_def Hub_ReloadPanel_def split: if_splits sum.splits)
next
  case (Some data)
  obtain spec revision err m where a: "DslManager_Apply (heAttrs env) data (hbManager h) = ((spec, revision, err), m)"
    by (metis prod.collapse)
  define h2 where "h2 = (case fsStat fs (hbConfigPath h) (later w) of
      Inr info \<Rightarrow> h\<lparr>hbManager := m, hbConfigRevision := revision, hbConfigMod := fiModTime info, hbConfigSize := fiSize info\<rparr>
    | Inl _ \<Rightarrow> h\<lparr>hbManager := m, hbConfigRevision := revision\<rparr>)"
  have m: "hbManager h2 = m" by (simp add: h2_def split: sum.split)
  obtain e h3 ns where r: "Hub_Refresh env now h2 = (e, h3, ns)" by (metis prod.collapse)
  have "hbManager h3 = m" using Refresh_manager [of env now h2] r m by simp
  with Some a r show ?thesis
    by (cases err; cases e)
      (auto simp: panelRead_def Hub_ReloadPanel_def Let_def dslStep_def h2_def [symmetric] split: if_splits sum.splits)
qed

lemma Poll_manager:
  "hbManager (fst (snd (Hub_PollConfig env fs later w now h))) =
     (if hbConfigPath h \<noteq> '''' \<and> pollDue fs (hbConfigPath h) (hbConfigSize h) (hbConfigMod h) w
      then hbManager (fst (snd (Hub_ReloadPanel env fs later w now h))) else hbManager h)"
  by (auto simp: Hub_PollConfig_def pollDue_def split: sum.splits)

lemma panelStep_manager:
  "hbManager (panelStep env fs later h ev) =
     (case panelSubmitted fs h ev of None \<Rightarrow> hbManager h | Some data \<Rightarrow> dslStep (heAttrs env) (hbManager h) data)"
  by (cases ev) (simp_all add: panelStep_def panelSubmitted_def Reload_manager Poll_manager panelRead_def split: option.split)

interpretation hub_panel: last_known_good "panelStep env fs later" "panelSubmitted fs" "Compile (heAttrs env)"
    "\<lambda>h. dslCurrent (hbManager h)" "\<lambda>h. dmRevision (hbManager h)" "\<lambda>h. dmLastErr (hbManager h)"
  for env and fs :: "'w FS" and later
  by unfold_locales
    (auto simp: panelStep_manager dslStep_def DslManager_Apply_def dslCurrent_def split: sum.splits)

text \<open>
  A change of the file between the read and the stat of a reload is never loaded: the recorded time and
  size are those of the new file, so the polls that follow see no difference.
\<close>

definition twoFiles :: "bool FS" where
  "twoFiles = \<lparr>fsDir = (\<lambda>s. s), fsMkdirAll = (\<lambda>_ w. (None, w)),
     fsStat = (\<lambda>_ w. Inr \<lparr>fiModTime = (if w then 2 else 1), fiSize = 11\<rparr>),
     fsReadFile = (\<lambda>_ w. Inr (quotedLines [if w then ''panel |b| {}'' else ''panel |a| {}''])),
     fsWriteFile = (\<lambda>_ _ w. (None, w))\<rparr>"

lemma reload_misses_change:
  "case Hub_ReloadPanel sampleHubEnv twoFiles (\<lambda>_. True) False 1 ((NewHub None)\<lparr>hbConfigPath := ''p''\<rparr>) of
     (err, h, _) \<Rightarrow> err = None \<and> psID (dmCurrent (hbManager h)) = ''a'' \<and>
       fst (Hub_PollConfig sampleHubEnv twoFiles (\<lambda>w. w) True 2 h) = None \<and>
       psID (dmCurrent (hbManager (fst (snd (Hub_PollConfig sampleHubEnv twoFiles (\<lambda>w. w) True 2 h))))) = ''a''"
  by code_simp

section \<open>Commands reach the tab\<close>

text \<open>
  C30. A command for a tab that a browser has reported goes to that browser: when the hub shows the view
  of a tab of the browser \<open>b\<close>, the application can do the command and the browser has a connection, the
  command written to its newest connection carries the identifier of the tab as the browser knows it,
  and the result is the outcome of that write.
\<close>

theorem tab_command:
  assumes "findView h appID (vID (tabView t)) = Inr (app, v)" and "vProviderID v = ''browser:'' @ b"
    and "in64 (btID t)" and "hbActions h = Some (foldl actionStep NewActions evs)"
    and "liveClient (''browser:'' @ b) (rev evs) = Some client"
  shows "let c = \<lambda>ty. \<lparr>vcType = ty, vcViewID = ''tab:'' @ Itoa (btID t),
        vcResource = (if vResourceRef v \<noteq> '''' then Some (vResourceRef v) else None), vcTabID = Some (btID t)\<rparr>;
      outcome = \<lambda>ty. map_option (\<lambda>e. HubSend (SendFailed e)) (send (c ty) client)
    in Hub_ActivateView send h appID (vID (tabView t)) =
         (if mapGet False (asCapabilities app) CapabilityViewActivate then outcome ''activateView''
          else Some (ViewActivationUnsupported appID)) \<and>
       Hub_CloseView send h appID (vID (tabView t)) =
         (if mapGet False (asCapabilities app) CapabilityViewClose then outcome ''closeView''
          else Some (ViewCloseUnsupported appID))"
proof -
  let ?p = "''browser:'' @ b"
  have v: "vID v = ''tab:'' @ Itoa (btID t)"
    using assms(1) by (auto simp: findView_def tabView_def Let_def dest!: find_in split: sum.splits option.splits)
  have "viewCommand v ty = Inr (?p, \<lparr>vcType = ty, vcViewID = ''tab:'' @ Itoa (btID t),
      vcResource = (if vResourceRef v \<noteq> '''' then Some (vResourceRef v) else None), vcTabID = Some (btID t)\<rparr>)" for ty
    using Atoi_Itoa [OF assms(3)] by (simp add: viewCommand_def Let_def assms(2) v HasPrefix_def TrimPrefix_def)
  moreover have "Actions_Send (send c) ?p (foldl actionStep NewActions evs) = map_option SendFailed (send c client)" for c
    using Actions_newest [of ?p evs] assms(5) by (simp add: Actions_Send_def split: option.split)
  ultimately show ?thesis
    using assms(1,4)
    by (simp add: Hub_ActivateView_def Hub_CloseView_def sendViewCommand_def Let_def option.map_comp comp_def)
qed

definition tabHub :: Hub where
  "tabHub = (case hubRun (EvIngest (BrowserSnapshot_ProviderSnapshot (\<lambda>m. m)
        \<lparr>bsSchema = 1, bsBrowser = ''ff'', bsAppID = ''firefox'', bsRevision = 1, bsCapturedAt = 1,
         bsTabs = [\<lparr>btID = 7, btWindowID = 1, btTitle = ''t'', btActive = True, btPinned = False, btAudible = False,
                   btMuted = False, btIncognito = False, btMRU = 1\<rparr>]\<rparr>) # refreshEvents 0 2) of
     Some h \<Rightarrow> SetActions (Some (foldl actionStep NewActions [Register ''browser:ff'' 3])) h | None \<Rightarrow> NewHub None)"

definition tabSeven :: BrowserTab where
  "tabSeven = \<lparr>btID = 7, btWindowID = 1, btTitle = ''t'', btActive = True, btPinned = False, btAudible = False,
     btMuted = False, btIncognito = False, btMRU = 1\<rparr>"

definition onlyCloseTab :: "ViewCommand \<Rightarrow> nat \<Rightarrow> string option" where
  "onlyCloseTab c client =
     (if c = \<lparr>vcType = ''closeView'', vcViewID = ''tab:7'', vcResource = None, vcTabID = Some 7\<rparr> \<and> client = 3
      then None else Some ''wrong'')"

lemma tab_command_witness: "Hub_CloseView onlyCloseTab tabHub ''firefox'' ''tab:7'' = None"
proof -
  have "case findView tabHub ''firefox'' (vID (tabView tabSeven)) of Inl _ \<Rightarrow> False
    | Inr (app, v) \<Rightarrow> vProviderID v = ''browser:'' @ ''ff'' \<and> vResourceRef v = '''' \<and>
        mapGet False (asCapabilities app) CapabilityViewClose" by code_simp
  then obtain app v where f: "findView tabHub ''firefox'' (vID (tabView tabSeven)) = Inr (app, v)"
    "vProviderID v = ''browser:'' @ ''ff''" "vResourceRef v = ''''" "mapGet False (asCapabilities app) CapabilityViewClose"
    by (auto split: sum.splits)
  have i: "in64 (btID tabSeven)" by code_simp
  have a: "hbActions tabHub = Some (foldl actionStep NewActions [Register ''browser:ff'' 3])" by code_simp
  have l: "liveClient (''browser:'' @ ''ff'') (rev [Register ''browser:ff'' 3]) = Some 3" by simp
  have t: "vID (tabView tabSeven) = ''tab:7''" "''tab:'' @ Itoa (btID tabSeven) = ''tab:7''" "btID tabSeven = 7" "Itoa 7 = ''7''" by code_simp+
  show ?thesis
    using tab_command [OF f(1,2) i a l, of onlyCloseTab] f(3,4) by (simp add: t onlyCloseTab_def Let_def)
qed

end
