(* ===== verification/Lifecycle.thy ===== *)
theory Lifecycle
  imports FakeDesktop Catalog
begin

text \<open>
  \<open>internal/orchestration/workspace\<close>: the lifecycle of a workspace. \<open>model.go\<close> is a table of rules over
  the state of an execution, which is data here as it is there; \<open>engine.go\<close> registers the two
  activities, which run the reconciler, and sends events. The engine that runs the table is a library
  outside the repository: it is a parameter, and what is relied on is stated as the relation \<open>dispatched\<close>.
\<close>

section \<open>State and events\<close>

definition StatusInactive :: string where "StatusInactive = ''inactive''"
definition StatusPreparing :: string where "StatusPreparing = ''preparing''"
definition StatusActive :: string where "StatusActive = ''active''"
definition StatusDegraded :: string where "StatusDegraded = ''degraded''"
definition StatusRecovering :: string where "StatusRecovering = ''recovering''"
definition StatusClosing :: string where "StatusClosing = ''closing''"
definition StatusFailed :: string where "StatusFailed = ''failed''"

lemmas statuses = StatusInactive_def StatusPreparing_def StatusActive_def StatusDegraded_def
  StatusRecovering_def StatusClosing_def StatusFailed_def

record LcState =
  lcStatus :: string
  lcWorkspaceID :: string
  lcDefinitionRevision :: string
  lcOperationKey :: string
  lcReachedRequired :: int
  lcTotalRequired :: int
  lcLastFailureCode :: string

text \<open>The zero value, which \<open>State\<close> fills in for an execution that was never started.\<close>

definition zeroState :: LcState where
  "zeroState = \<lparr>lcStatus = '''', lcWorkspaceID = '''', lcDefinitionRevision = '''', lcOperationKey = '''',
     lcReachedRequired = 0, lcTotalRequired = 0, lcLastFailureCode = ''''\<rparr>"

datatype lcEvent =
    Activate string string string
  | Recover string
  | Resume string
  | Suspend
  | Close string

section \<open>The language of the rule table\<close>

text \<open>The fields that \<open>model.Key\<close> declares, by type.\<close>

datatype strField = Status | WorkspaceID | DefinitionRevision | OperationKey | LastFailureCode
datatype intField = ReachedRequired | TotalRequired

datatype eventType = ActivateT | RecoverT | ResumeT | SuspendT | CloseT

datatype strExpr = StrLit string | EventField strField | OutputString string
datatype intExpr = IntLit int | OutputInt string

datatype lcSet = SetStr strField strExpr | SetInt intField intExpr
datatype trigger = OnEvent eventType | StateChanged strField

record lcRule =
  ruName :: string
  ruOn :: trigger
  ruWhen :: "(strField \<times> string) option"
  ruRun :: "string option"
  ruSets :: "lcSet list"

record lcPolicy =
  poRetry :: nat
  poTimeout :: int
  poConcurrency :: string
  poIdempotency :: string

record lcActivity =
  acInputs :: "(string \<times> strField) list"
  acOutputs :: "(string \<times> string) list"
  acEffect :: string
  acKey :: strField
  acPolicy :: string

datatype lcClaim = AtLeast intField int | EqualImpliesExists strField string strField

record lcDefinition =
  dfName :: string
  dfVersion :: string
  dfDefaults :: LcState
  dfPolicies :: "(string \<times> lcPolicy) list"
  dfActivities :: "(string \<times> lcActivity) list"
  dfRules :: "lcRule list"
  dfClaims :: "(string \<times> lcClaim) list"

definition workspaceActivity :: "(string \<times> string) list \<Rightarrow> lcActivity" where
  "workspaceActivity outputs =
     \<lparr>acInputs = [(''workspaceId'', WorkspaceID), (''definitionRevision'', DefinitionRevision),
        (''operationKey'', OperationKey)],
      acOutputs = outputs, acEffect = ''external'', acKey = OperationKey, acPolicy = ''workspaceIO''\<rparr>"

definition eventRule :: "string \<Rightarrow> eventType \<Rightarrow> lcSet list \<Rightarrow> lcRule" where
  "eventRule name ev sets = \<lparr>ruName = name, ruOn = OnEvent ev, ruWhen = None, ruRun = None, ruSets = sets\<rparr>"

definition statusRule :: "string \<Rightarrow> string \<Rightarrow> string \<Rightarrow> lcSet list \<Rightarrow> lcRule" where
  "statusRule name status activity sets =
     \<lparr>ruName = name, ruOn = StateChanged Status, ruWhen = Some (Status, status), ruRun = Some activity, ruSets = sets\<rparr>"

definition reconcileSets :: "lcSet list" where
  "reconcileSets = [SetInt ReachedRequired (OutputInt ''reachedRequired''),
     SetInt TotalRequired (OutputInt ''totalRequired''),
     SetStr LastFailureCode (OutputString ''failureCode''), SetStr Status (OutputString ''status'')]"

definition BuildDefinition :: lcDefinition where
  "BuildDefinition =
     \<lparr>dfName = ''HWSWorkspaceLifecycle'', dfVersion = ''1'',
      dfDefaults = zeroState\<lparr>lcStatus := StatusInactive\<rparr>,
      dfPolicies = [(''workspaceIO'', \<lparr>poRetry = 2, poTimeout = 5000000000, poConcurrency = ''once'',
        poIdempotency = ''required''\<rparr>)],
      dfActivities =
        [(''ReconcileWorkspace'', workspaceActivity [(''status'', ''String''), (''reachedRequired'', ''Int''),
            (''totalRequired'', ''Int''), (''failureCode'', ''String'')]),
         (''CloseWorkspace'', workspaceActivity [(''status'', ''String''), (''failureCode'', ''String'')])],
      dfRules =
        [eventRule ''activate'' ActivateT
           [SetStr WorkspaceID (EventField WorkspaceID), SetStr DefinitionRevision (EventField DefinitionRevision),
            SetStr OperationKey (EventField OperationKey), SetStr LastFailureCode (StrLit ''''),
            SetStr Status (StrLit StatusPreparing)],
         statusRule ''reconcilePreparing'' StatusPreparing ''ReconcileWorkspace'' reconcileSets,
         eventRule ''recover'' RecoverT
           [SetStr OperationKey (EventField OperationKey), SetStr Status (StrLit StatusRecovering)],
         statusRule ''reconcileRecovering'' StatusRecovering ''ReconcileWorkspace'' reconcileSets,
         eventRule ''resume'' ResumeT
           [SetStr OperationKey (EventField OperationKey), SetStr Status (StrLit StatusPreparing)],
         eventRule ''suspend'' SuspendT [SetStr Status (StrLit StatusInactive)],
         eventRule ''closeRequested'' CloseT
           [SetStr OperationKey (EventField OperationKey), SetStr Status (StrLit StatusClosing)],
         statusRule ''closeManagedResources'' StatusClosing ''CloseWorkspace''
           [SetStr LastFailureCode (OutputString ''failureCode''), SetStr Status (OutputString ''status'')]],
      dfClaims =
        [(''requiredCountsNonNegative'', AtLeast ReachedRequired 0),
         (''totalRequiredNonNegative'', AtLeast TotalRequired 0),
         (''activeRequiresWorkspaceIdentity'', EqualImpliesExists Status StatusActive WorkspaceID)]\<rparr>"

section \<open>What the table means\<close>

fun getStr :: "strField \<Rightarrow> LcState \<Rightarrow> string" where
  "getStr Status = lcStatus"
| "getStr WorkspaceID = lcWorkspaceID"
| "getStr DefinitionRevision = lcDefinitionRevision"
| "getStr OperationKey = lcOperationKey"
| "getStr LastFailureCode = lcLastFailureCode"

fun setStr :: "strField \<Rightarrow> string \<Rightarrow> LcState \<Rightarrow> LcState" where
  "setStr Status v s = s\<lparr>lcStatus := v\<rparr>"
| "setStr WorkspaceID v s = s\<lparr>lcWorkspaceID := v\<rparr>"
| "setStr DefinitionRevision v s = s\<lparr>lcDefinitionRevision := v\<rparr>"
| "setStr OperationKey v s = s\<lparr>lcOperationKey := v\<rparr>"
| "setStr LastFailureCode v s = s\<lparr>lcLastFailureCode := v\<rparr>"

fun getInt :: "intField \<Rightarrow> LcState \<Rightarrow> int" where
  "getInt ReachedRequired = lcReachedRequired"
| "getInt TotalRequired = lcTotalRequired"

fun setInt :: "intField \<Rightarrow> int \<Rightarrow> LcState \<Rightarrow> LcState" where
  "setInt ReachedRequired v s = s\<lparr>lcReachedRequired := v\<rparr>"
| "setInt TotalRequired v s = s\<lparr>lcTotalRequired := v\<rparr>"

fun eventTypeOf :: "lcEvent \<Rightarrow> eventType" where
  "eventTypeOf (Activate _ _ _) = ActivateT"
| "eventTypeOf (Recover _) = RecoverT"
| "eventTypeOf (Resume _) = ResumeT"
| "eventTypeOf Suspend = SuspendT"
| "eventTypeOf (Close _) = CloseT"

fun eventField :: "lcEvent \<Rightarrow> strField \<Rightarrow> string" where
  "eventField (Activate w r k) WorkspaceID = w"
| "eventField (Activate w r k) DefinitionRevision = r"
| "eventField (Activate w r k) OperationKey = k"
| "eventField (Recover k) OperationKey = k"
| "eventField (Resume k) OperationKey = k"
| "eventField (Close k) OperationKey = k"
| "eventField _ _ = ''''"

text \<open>The typed outputs of an activity, by their JSON names.\<close>

record lcOutput =
  outStrings :: "(string \<times> string) list"
  outInts :: "(string \<times> int) list"

definition noOutput :: lcOutput where "noOutput = \<lparr>outStrings = [], outInts = []\<rparr>"

fun applySet :: "(strField \<Rightarrow> string) \<Rightarrow> lcOutput \<Rightarrow> lcSet \<Rightarrow> LcState \<Rightarrow> LcState" where
  "applySet field out (SetStr f e) s =
     setStr f (case e of StrLit v \<Rightarrow> v | EventField g \<Rightarrow> field g
               | OutputString n \<Rightarrow> mapGet '''' (outStrings out) n) s"
| "applySet field out (SetInt f e) s =
     setInt f (case e of IntLit v \<Rightarrow> v | OutputInt n \<Rightarrow> mapGet 0 (outInts out) n) s"

definition applyRule :: "(strField \<Rightarrow> string) \<Rightarrow> lcOutput \<Rightarrow> lcRule \<Rightarrow> LcState \<Rightarrow> LcState" where
  "applyRule field out rule s = fold (applySet field out) (ruSets rule) s"

definition guardHolds :: "lcRule \<Rightarrow> LcState \<Rightarrow> bool" where
  "guardHolds rule s = (case ruWhen rule of None \<Rightarrow> True | Some (f, v) \<Rightarrow> getStr f s = v)"

definition claimHolds :: "lcClaim \<Rightarrow> LcState \<Rightarrow> bool" where
  "claimHolds c s =
     (case c of AtLeast f n \<Rightarrow> n \<le> getInt f s
      | EqualImpliesExists f v g \<Rightarrow> getStr f s = v \<longrightarrow> getStr g s \<noteq> '''')"

text \<open>
  What is relied on of the engine, a library outside the repository: this is its assumed contract, no code of
  the program, and the properties that need it have it as a hypothesis. An event fires the rule that listens to it; a rule on a changed field
  fires when that field has changed and the rule's guard holds, with some outputs of the activity it
  runs for the inputs taken from the state. \<open>acts a inputs out\<close> says that \<open>out\<close> is a possible outcome of
  the activity: it may come from an earlier run under the same operation key, or from a retry. Whether
  an assignment of the value that a field has counts as a change is left open.
\<close>

type_synonym activities = "string \<Rightarrow> (string \<times> string) list \<Rightarrow> lcOutput \<Rightarrow> bool"

fun assigned :: "lcSet \<Rightarrow> strField option" where
  "assigned (SetStr f _) = Some f"
| "assigned (SetInt _ _) = None"

definition mayChange :: "lcRule \<Rightarrow> LcState \<Rightarrow> LcState \<Rightarrow> strField set \<Rightarrow> bool" where
  "mayChange rule s s' changed \<longleftrightarrow>
     {f. getStr f s' \<noteq> getStr f s} \<subseteq> changed \<and> Some ` changed \<subseteq> assigned ` set (ruSets rule)"

definition inputsOf :: "lcActivity \<Rightarrow> LcState \<Rightarrow> (string \<times> string) list" where
  "inputsOf a s = map (\<lambda>(n, f). (n, getStr f s)) (acInputs a)"

definition mayOutput :: "lcDefinition \<Rightarrow> activities \<Rightarrow> lcRule \<Rightarrow> LcState \<Rightarrow> lcOutput \<Rightarrow> bool" where
  "mayOutput df acts rule s out =
     (case ruRun rule of None \<Rightarrow> out = noOutput
      | Some n \<Rightarrow> (case map_of (dfActivities df) n of None \<Rightarrow> False | Some a \<Rightarrow> acts n (inputsOf a s) out))"

definition triggered :: "lcRule \<Rightarrow> strField set \<Rightarrow> LcState \<Rightarrow> bool" where
  "triggered rule changed s \<longleftrightarrow> (\<exists>f \<in> changed. ruOn rule = StateChanged f) \<and> guardHolds rule s"

inductive runs :: "lcDefinition \<Rightarrow> activities \<Rightarrow> lcEvent \<Rightarrow> LcState \<Rightarrow> strField set \<Rightarrow> LcState \<Rightarrow> bool"
  for df acts ev s where
  runs_event: "rule \<in> set (dfRules df) \<Longrightarrow> ruOn rule = OnEvent (eventTypeOf ev) \<Longrightarrow> guardHolds rule s \<Longrightarrow>
    mayOutput df acts rule s out \<Longrightarrow> s1 = applyRule (eventField ev) out rule s \<Longrightarrow> mayChange rule s s1 c \<Longrightarrow>
    runs df acts ev s c s1"
| runs_react: "runs df acts ev s c s1 \<Longrightarrow> rule \<in> set (dfRules df) \<Longrightarrow> triggered rule c s1 \<Longrightarrow>
    mayOutput df acts rule s1 out \<Longrightarrow> s2 = applyRule (\<lambda>_. '''') out rule s1 \<Longrightarrow> mayChange rule s1 s2 c' \<Longrightarrow>
    runs df acts ev s c' s2"

definition quiet :: "lcDefinition \<Rightarrow> strField set \<Rightarrow> LcState \<Rightarrow> bool" where
  "quiet df c s \<longleftrightarrow> (\<forall>rule \<in> set (dfRules df). \<not> triggered rule c s)"

definition dispatched :: "lcDefinition \<Rightarrow> activities \<Rightarrow> lcEvent \<Rightarrow> LcState \<Rightarrow> LcState \<Rightarrow> bool" where
  "dispatched df acts ev s s' \<longleftrightarrow> (\<exists>c. runs df acts ev s c s' \<and> quiet df c s')"

section \<open>What an event does\<close>

text \<open>The states after the rule of the event, and after the activity that it leads to.\<close>

fun accepted :: "lcEvent \<Rightarrow> LcState \<Rightarrow> LcState" where
  "accepted (Activate w r k) s = s\<lparr>lcWorkspaceID := w, lcDefinitionRevision := r, lcOperationKey := k,
     lcLastFailureCode := '''', lcStatus := StatusPreparing\<rparr>"
| "accepted (Recover k) s = s\<lparr>lcOperationKey := k, lcStatus := StatusRecovering\<rparr>"
| "accepted (Resume k) s = s\<lparr>lcOperationKey := k, lcStatus := StatusPreparing\<rparr>"
| "accepted Suspend s = s\<lparr>lcStatus := StatusInactive\<rparr>"
| "accepted (Close k) s = s\<lparr>lcOperationKey := k, lcStatus := StatusClosing\<rparr>"

definition activityFor :: "string \<Rightarrow> string option" where
  "activityFor status =
     (if status = StatusPreparing \<or> status = StatusRecovering then Some ''ReconcileWorkspace''
      else if status = StatusClosing then Some ''CloseWorkspace'' else None)"

definition activityInputs :: "LcState \<Rightarrow> (string \<times> string) list" where
  "activityInputs s = [(''workspaceId'', lcWorkspaceID s), (''definitionRevision'', lcDefinitionRevision s),
     (''operationKey'', lcOperationKey s)]"

definition finished :: "string \<Rightarrow> lcOutput \<Rightarrow> LcState \<Rightarrow> LcState" where
  "finished activity out s =
     (let s1 = (if activity = ''ReconcileWorkspace''
                then s\<lparr>lcReachedRequired := mapGet 0 (outInts out) ''reachedRequired'',
                       lcTotalRequired := mapGet 0 (outInts out) ''totalRequired''\<rparr> else s)
      in s1\<lparr>lcLastFailureCode := mapGet '''' (outStrings out) ''failureCode'',
            lcStatus := mapGet '''' (outStrings out) ''status''\<rparr>)"

lemma status_distinct [simp]:
  "StatusPreparing \<noteq> StatusRecovering" "StatusPreparing \<noteq> StatusClosing" "StatusRecovering \<noteq> StatusClosing"
  "StatusRecovering \<noteq> StatusPreparing" "StatusClosing \<noteq> StatusPreparing" "StatusClosing \<noteq> StatusRecovering"
  "StatusInactive \<noteq> StatusPreparing" "StatusInactive \<noteq> StatusRecovering" "StatusInactive \<noteq> StatusClosing"
  "StatusActive \<noteq> StatusPreparing" "StatusActive \<noteq> StatusRecovering" "StatusActive \<noteq> StatusClosing"
  "StatusActive \<noteq> StatusInactive" "StatusInactive \<noteq> StatusActive"
  "StatusDegraded \<noteq> StatusPreparing" "StatusDegraded \<noteq> StatusRecovering" "StatusDegraded \<noteq> StatusClosing"
  "StatusFailed \<noteq> StatusPreparing" "StatusFailed \<noteq> StatusRecovering" "StatusFailed \<noteq> StatusClosing"
  by (simp_all add: statuses)

lemmas rule_defs = eventRule_def statusRule_def reconcileSets_def

lemma event_rule:
  "rule \<in> set (dfRules BuildDefinition) \<and> ruOn rule = OnEvent (eventTypeOf ev) \<Longrightarrow>
   guardHolds rule s \<and> ruRun rule = None \<and> applyRule (eventField ev) out rule s = accepted ev s \<and>
   Some Status \<in> assigned ` set (ruSets rule)"
  by (cases ev) (auto simp: BuildDefinition_def rule_defs guardHolds_def applyRule_def)

lemma event_rule_exists:
  "\<exists>rule \<in> set (dfRules BuildDefinition). ruOn rule = OnEvent (eventTypeOf ev)"
  by (cases ev) (simp_all add: BuildDefinition_def rule_defs)

lemma status_rule:
  "rule \<in> set (dfRules BuildDefinition) \<and> triggered rule c s \<Longrightarrow>
   Status \<in> c \<and> (\<exists>a. activityFor (lcStatus s) = Some a \<and> ruRun rule = Some a \<and>
     applyRule field out rule s = finished a out s)"
  by (auto simp: BuildDefinition_def rule_defs guardHolds_def triggered_def applyRule_def activityFor_def finished_def)

lemma status_rule_exists:
  "activityFor (lcStatus s) \<noteq> None \<and> Status \<in> c \<Longrightarrow> \<exists>rule \<in> set (dfRules BuildDefinition). triggered rule c s"
  by (auto simp: BuildDefinition_def rule_defs guardHolds_def triggered_def activityFor_def split: if_splits)

lemma quiet_iff: "quiet BuildDefinition c s \<longleftrightarrow> Status \<notin> c \<or> activityFor (lcStatus s) = None"
  unfolding quiet_def by (metis option.discI status_rule status_rule_exists)


lemma mayOutput_status:
  "mayOutput BuildDefinition acts rule s out \<Longrightarrow> ruRun rule = Some a \<Longrightarrow> activityFor (lcStatus s) = Some a \<Longrightarrow>
   acts a (activityInputs s) out"
  by (auto simp: mayOutput_def BuildDefinition_def workspaceActivity_def inputsOf_def activityInputs_def
      activityFor_def split: if_splits)

lemma mayOutput_statusI:
  "acts a (activityInputs s) out \<Longrightarrow> ruRun rule = Some a \<Longrightarrow> activityFor (lcStatus s) = Some a \<Longrightarrow>
   mayOutput BuildDefinition acts rule s out"
  by (auto simp: mayOutput_def BuildDefinition_def workspaceActivity_def inputsOf_def activityInputs_def
      activityFor_def split: if_splits)

lemma getStr_setStr: "getStr f (setStr g v s) = (if f = g then v else getStr f s)"
  by (cases f; cases g) simp_all

lemma getStr_setInt [simp]: "getStr f (setInt g v s) = getStr f s"
  by (cases f; cases g) simp_all

lemma getStr_fold:
  "getStr f (fold (applySet field out) sets s) \<noteq> getStr f s \<Longrightarrow> Some f \<in> assigned ` set sets"
proof (induction sets arbitrary: s)
  case (Cons x xs)
  then show ?case
    by (cases x) (fastforce simp: getStr_setStr split: if_splits)+
qed simp

definition changedFields :: "LcState \<Rightarrow> LcState \<Rightarrow> strField set" where
  "changedFields s s' = {f. getStr f s' \<noteq> getStr f s}"

lemma mayChange_fields: "s' = applyRule field out rule s \<Longrightarrow> mayChange rule s s' (changedFields s s')"
  unfolding mayChange_def changedFields_def applyRule_def using getStr_fold by blast

text \<open>The outcomes of the activities never name a status that leads to another activity.\<close>

definition settledActs :: "activities \<Rightarrow> bool" where
  "settledActs acts \<longleftrightarrow>
     (\<forall>a inputs out. acts a inputs out \<longrightarrow> activityFor (mapGet '''' (outStrings out) ''status'') = None)"

lemma finished_settled:
  "settledActs acts \<Longrightarrow> acts a inputs out \<Longrightarrow> activityFor (lcStatus (finished a out s)) = None"
  by (simp add: settledActs_def finished_def Let_def)

lemma runs_closed:
  assumes "runs BuildDefinition acts ev s c s'" and "settledActs acts"
  shows "s' = accepted ev s \<or>
    (\<exists>a out. activityFor (lcStatus (accepted ev s)) = Some a \<and> acts a (activityInputs (accepted ev s)) out \<and>
       s' = finished a out (accepted ev s))"
  using assms(1)
proof induction
  case (runs_event rule out s1 c)
  then show ?case using event_rule by metis
next
  case (runs_react c s1 rule out s2 c')
  from status_rule [of rule c s1 "\<lambda>_. ''''" out] runs_react.hyps
  obtain a where a: "activityFor (lcStatus s1) = Some a" "ruRun rule = Some a" "s2 = finished a out s1" by blast
  with runs_react.hyps mayOutput_status have out: "acts a (activityInputs s1) out" by blast
  from runs_react.IH show ?case
  proof
    assume "s1 = accepted ev s"
    with a out show ?thesis by blast
  next
    assume "\<exists>a out. activityFor (lcStatus (accepted ev s)) = Some a \<and> acts a (activityInputs (accepted ev s)) out \<and>
      s1 = finished a out (accepted ev s)"
    with finished_settled [OF assms(2)] a(1) show ?thesis by fastforce
  qed
qed

lemma runs_accepted: "\<exists>c. runs BuildDefinition acts ev s c (accepted ev s) \<and> c = changedFields s (accepted ev s)"
proof -
  obtain rule where r: "rule \<in> set (dfRules BuildDefinition)" "ruOn rule = OnEvent (eventTypeOf ev)"
    using event_rule_exists by blast
  note e = event_rule [of rule ev s noOutput, OF conjI [OF r]]
  have out: "mayOutput BuildDefinition acts rule s noOutput" using e by (simp add: mayOutput_def)
  have eq: "accepted ev s = applyRule (eventField ev) noOutput rule s" using e by simp
  show ?thesis
    using runs_event [OF r _ out eq mayChange_fields [OF eq]] e by blast
qed

lemma outcome_closed:
  assumes "settledActs acts" and "activityFor (lcStatus s) = None"
  shows "dispatched BuildDefinition acts ev s s' \<longleftrightarrow>
    (case activityFor (lcStatus (accepted ev s)) of
       None \<Rightarrow> s' = accepted ev s
     | Some a \<Rightarrow> \<exists>out. acts a (activityInputs (accepted ev s)) out \<and> s' = finished a out (accepted ev s))"
    (is "_ \<longleftrightarrow> ?closed")
proof
  assume "dispatched BuildDefinition acts ev s s'"
  then obtain c where c: "runs BuildDefinition acts ev s c s'" "quiet BuildDefinition c s'"
    by (auto simp: dispatched_def)
  from runs_closed [OF c(1) assms(1)] show ?closed
  proof
    assume s': "s' = accepted ev s"
    have "Status \<in> c \<or> activityFor (lcStatus (accepted ev s)) = None"
      using c(1)
    proof cases
      case (runs_event rule out)
      have "getStr Status s' \<noteq> getStr Status s \<or> activityFor (lcStatus (accepted ev s)) = None"
        by (cases "lcStatus s' = lcStatus s") (use s' assms(2) in simp_all)
      moreover have "{f. getStr f s' \<noteq> getStr f s} \<subseteq> c"
        using \<open>mayChange rule s s' c\<close> by (simp add: mayChange_def)
      ultimately show ?thesis by auto
    next
      case (runs_react c' s1 rule out)
      with status_rule [of rule c' s1 "\<lambda>_. ''''" out] mayOutput_status
        obtain a where "s' = finished a out s1" "acts a (activityInputs s1) out" by metis
      with finished_settled [OF assms(1), of a "activityInputs s1" out s1] s' show ?thesis by simp
    qed
    with c(2) s' show ?closed by (auto simp: quiet_iff)
  qed auto
next
  assume ?closed
  obtain c where c: "runs BuildDefinition acts ev s c (accepted ev s)" "c = changedFields s (accepted ev s)"
    using runs_accepted by blast
  show "dispatched BuildDefinition acts ev s s'"
  proof (cases "activityFor (lcStatus (accepted ev s))")
    case None
    with \<open>?closed\<close> c show ?thesis by (auto simp: dispatched_def quiet_iff)
  next
    case (Some a)
    with \<open>?closed\<close> obtain out where out: "acts a (activityInputs (accepted ev s)) out"
      and s': "s' = finished a out (accepted ev s)" by auto
    have "lcStatus (accepted ev s) \<noteq> lcStatus s" using Some assms(2) by auto
    then have "Status \<in> c" using c(2) by (simp add: changedFields_def)
    then obtain rule where r: "rule \<in> set (dfRules BuildDefinition)" "triggered rule c (accepted ev s)"
      using status_rule_exists Some by blast
    from status_rule [of rule c "accepted ev s" "\<lambda>_. ''''" out, OF conjI [OF r]] Some s'
    have eq: "s' = applyRule (\<lambda>_. '''') out rule (accepted ev s)" and run: "ruRun rule = Some a" by auto
    have "runs BuildDefinition acts ev s (changedFields (accepted ev s) s') s'"
      by (rule runs_react [OF c(1) r mayOutput_statusI [of acts, OF out run Some] eq mayChange_fields [OF eq]])
    moreover have "quiet BuildDefinition (changedFields (accepted ev s) s') s'"
      using finished_settled [OF assms(1) out] s' by (simp add: quiet_iff)
    ultimately show ?thesis by (auto simp: dispatched_def)
  qed
qed


text \<open>
  In the table itself, the rule of \<open>Suspend\<close> runs no activity and only sets the status to inactive, and no
  rule mentions a status for suspending.
\<close>

lemma suspend_releases_nothing:
  "[(ruRun rule, ruSets rule). rule \<leftarrow> dfRules BuildDefinition, ruOn rule = OnEvent SuspendT] =
     [(None, [SetStr Status (StrLit StatusInactive)])] \<and>
   list_all (\<lambda>rule. case ruWhen rule of None \<Rightarrow> True
     | Some (f, v) \<Rightarrow> v \<in> {StatusPreparing, StatusRecovering, StatusClosing}) (dfRules BuildDefinition)"
  by code_simp

section \<open>The activities\<close>

text \<open>\<open>Resolve\<close> reads the catalogue, which may change: it is a function of the world \<open>'s\<close> of the desktop.\<close>

type_synonym ('s, 'c) Resolver = "'s \<Rightarrow> string \<Rightarrow> string \<Rightarrow> 'c + DesiredState"

record ReconcileWorkspaceOutput =
  rwStatus :: string
  rwReachedRequired :: int
  rwTotalRequired :: int
  rwFailureCode :: string

record CloseWorkspaceOutput =
  cwStatus :: string
  cwFailureCode :: string

definition definitionNotFound :: string where "definitionNotFound = ''definition_not_found''"

definition ReconcileWorkspace ::
  "('s, 'c) Resolver \<Rightarrow> ('s, 'e) Desktop \<Rightarrow> string \<Rightarrow> string \<Rightarrow> 's \<Rightarrow> ('e reconcileError + ReconcileWorkspaceOutput) \<times> 's" where
  "ReconcileWorkspace resolve dk wid revision w =
     (case resolve w wid revision of
        Inl _ \<Rightarrow> (Inr \<lparr>rwStatus = StatusFailed, rwReachedRequired = 0, rwTotalRequired = 0,
                    rwFailureCode = definitionNotFound\<rparr>, w)
      | Inr desired \<Rightarrow>
          (case Reconcile dk w desired of
             (Inl e, w') \<Rightarrow> (Inl e, w')
           | (Inr result, w') \<Rightarrow>
               (Inr \<lparr>rwStatus = TargetStatus result, rwReachedRequired = evRequiredReached (resEvaluation result),
                     rwTotalRequired = evRequiredTotal (resEvaluation result),
                     rwFailureCode = FailureCode result\<rparr>, w')))"

definition CloseWorkspace ::
  "('s, 'c) Resolver \<Rightarrow> ('s, 'e) Desktop \<Rightarrow> string \<Rightarrow> string \<Rightarrow> 's \<Rightarrow> ('e reconcileError + CloseWorkspaceOutput) \<times> 's" where
  "CloseWorkspace resolve dk wid revision w =
     (case resolve w wid revision of
        Inl _ \<Rightarrow> (Inr \<lparr>cwStatus = StatusFailed, cwFailureCode = definitionNotFound\<rparr>, w)
      | Inr desired \<Rightarrow>
          (case CloseManaged dk w desired of
             (Inl e, w') \<Rightarrow> (Inl e, w')
           | (Inr [], w') \<Rightarrow> (Inr \<lparr>cwStatus = StatusInactive, cwFailureCode = ''''\<rparr>, w')
           | (Inr (f # _), w') \<Rightarrow> (Inr \<lparr>cwStatus = StatusDegraded, cwFailureCode = failCode f\<rparr>, w')))"

text \<open>The JSON names of the outputs.\<close>

definition encodeReconcile :: "ReconcileWorkspaceOutput \<Rightarrow> lcOutput" where
  "encodeReconcile o1 = \<lparr>outStrings = [(''status'', rwStatus o1), (''failureCode'', rwFailureCode o1)],
     outInts = [(''reachedRequired'', rwReachedRequired o1), (''totalRequired'', rwTotalRequired o1)]\<rparr>"

definition encodeClose :: "CloseWorkspaceOutput \<Rightarrow> lcOutput" where
  "encodeClose o1 = \<lparr>outStrings = [(''status'', cwStatus o1), (''failureCode'', cwFailureCode o1)], outInts = []\<rparr>"

text \<open>The outcomes that the registered activities can have, in whatever world they run.\<close>

definition lifecycleActs :: "('s, 'c) Resolver \<Rightarrow> ('s, 'e) Desktop \<Rightarrow> activities" where
  "lifecycleActs resolve dk a inputs out \<longleftrightarrow>
     (let wid = mapGet '''' inputs ''workspaceId''; revision = mapGet '''' inputs ''definitionRevision''
      in (\<exists>w w' o1. a = ''ReconcileWorkspace'' \<and> ReconcileWorkspace resolve dk wid revision w = (Inr o1, w') \<and>
            out = encodeReconcile o1) \<or>
         (\<exists>w w' o1. a = ''CloseWorkspace'' \<and> CloseWorkspace resolve dk wid revision w = (Inr o1, w') \<and>
            out = encodeClose o1))"

lemma activityFor_simps [simp]:
  "activityFor StatusPreparing = Some ''ReconcileWorkspace''" "activityFor StatusRecovering = Some ''ReconcileWorkspace''"
  "activityFor StatusClosing = Some ''CloseWorkspace''" "activityFor StatusInactive = None"
  "activityFor StatusActive = None" "activityFor StatusDegraded = None" "activityFor StatusFailed = None"
  by (simp_all add: activityFor_def statuses)

lemma TargetStatus_cases:
  "TargetStatus r = StatusActive \<or> TargetStatus r = StatusDegraded \<or> TargetStatus r = StatusFailed"
  by (simp add: TargetStatus_def statuses Let_def)

lemma ReconcileWorkspace_status:
  "ReconcileWorkspace resolve dk wid revision w = (Inr o1, w') \<Longrightarrow>
   rwStatus o1 = StatusActive \<or> rwStatus o1 = StatusDegraded \<or> rwStatus o1 = StatusFailed"
  by (auto simp: ReconcileWorkspace_def split: sum.splits prod.splits) (use TargetStatus_cases in blast)

lemma CloseWorkspace_status:
  "CloseWorkspace resolve dk wid revision w = (Inr o1, w') \<Longrightarrow>
   cwStatus o1 = StatusInactive \<or> cwStatus o1 = StatusDegraded \<or> cwStatus o1 = StatusFailed"
  by (auto simp: CloseWorkspace_def split: sum.splits prod.splits list.splits)

lemma encode_simps [simp]:
  "mapGet '''' (outStrings (encodeReconcile o1)) ''status'' = rwStatus o1"
  "mapGet '''' (outStrings (encodeReconcile o1)) ''failureCode'' = rwFailureCode o1"
  "mapGet 0 (outInts (encodeReconcile o1)) ''reachedRequired'' = rwReachedRequired o1"
  "mapGet 0 (outInts (encodeReconcile o1)) ''totalRequired'' = rwTotalRequired o1"
  "mapGet '''' (outStrings (encodeClose o2)) ''status'' = cwStatus o2"
  "mapGet '''' (outStrings (encodeClose o2)) ''failureCode'' = cwFailureCode o2"
  by (simp_all add: encodeReconcile_def encodeClose_def mapGet_def)

lemma inputs_simps [simp]:
  "mapGet '''' (activityInputs s) ''workspaceId'' = lcWorkspaceID s"
  "mapGet '''' (activityInputs s) ''definitionRevision'' = lcDefinitionRevision s"
  "mapGet '''' (activityInputs s) ''operationKey'' = lcOperationKey s"
  by (simp_all add: activityInputs_def mapGet_def)

lemma settled_lifecycleActs: "settledActs (lifecycleActs resolve dk)"
  unfolding settledActs_def
proof (intro allI impI)
  fix a inputs out assume "lifecycleActs resolve dk a inputs out"
  then show "activityFor (mapGet '''' (outStrings out) ''status'') = None"
    using ReconcileWorkspace_status CloseWorkspace_status
    unfolding lifecycleActs_def Let_def by (metis activityFor_simps(4-7) encode_simps(1,5))
qed

section \<open>Operations of the lifecycle\<close>

text \<open>
  The engine: sending an event to an execution, and reading its state; both may fail, with the text of
  the error. The state of the engine is \<open>'x\<close>.
\<close>

record 'x Engine =
  enDispatch :: "string \<Rightarrow> lcEvent \<Rightarrow> 'x \<Rightarrow> string option \<times> 'x"
  enState :: "string \<Rightarrow> 'x \<Rightarrow> string + LcState"

datatype lifecycleError = FieldsRequired | KeyRequired | EngineError string

definition sendEvent :: "'x Engine \<Rightarrow> string \<Rightarrow> lcEvent \<Rightarrow> 'x \<Rightarrow> lifecycleError option \<times> 'x" where
  "sendEvent en wid ev x = (case enDispatch en wid ev x of (e, x') \<Rightarrow> (map_option EngineError e, x'))"

definition Lifecycle_Activate :: "'x Engine \<Rightarrow> string \<Rightarrow> string \<Rightarrow> string \<Rightarrow> 'x \<Rightarrow> lifecycleError option \<times> 'x" where
  "Lifecycle_Activate en wid revision key x =
     (if wid = '''' \<or> revision = '''' \<or> key = '''' then (Some FieldsRequired, x)
      else sendEvent en wid (Activate wid revision key) x)"

definition Lifecycle_Recover :: "'x Engine \<Rightarrow> string \<Rightarrow> string \<Rightarrow> 'x \<Rightarrow> lifecycleError option \<times> 'x" where
  "Lifecycle_Recover en wid key x = sendEvent en wid (Recover key) x"

definition Lifecycle_Close :: "'x Engine \<Rightarrow> string \<Rightarrow> string \<Rightarrow> 'x \<Rightarrow> lifecycleError option \<times> 'x" where
  "Lifecycle_Close en wid key x = sendEvent en wid (Close key) x"

definition Lifecycle_Suspend :: "'x Engine \<Rightarrow> string \<Rightarrow> 'x \<Rightarrow> lifecycleError option \<times> 'x" where
  "Lifecycle_Suspend en wid x = sendEvent en wid Suspend x"

definition Lifecycle_Resume :: "'x Engine \<Rightarrow> string \<Rightarrow> string \<Rightarrow> 'x \<Rightarrow> lifecycleError option \<times> 'x" where
  "Lifecycle_Resume en wid key x =
     (if key = '''' then (Some KeyRequired, x) else sendEvent en wid (Resume key) x)"

definition isExecutionNotFound :: "string \<Rightarrow> bool" where
  "isExecutionNotFound e \<longleftrightarrow> e = ''execution not found''"

definition Lifecycle_State :: "'x Engine \<Rightarrow> string \<Rightarrow> 'x \<Rightarrow> lifecycleError + LcState" where
  "Lifecycle_State en wid x =
     (case enState en wid x of
        Inr s \<Rightarrow> Inr s
      | Inl e \<Rightarrow> if isExecutionNotFound e then Inr (zeroState\<lparr>lcStatus := StatusInactive, lcWorkspaceID := wid\<rparr>)
                else Inl (EngineError e))"


section \<open>Histories\<close>

text \<open>
  What is relied on of the engine: an event changes the state of its own execution only, an event that
  is accepted leaves a state that the rule table reaches, one that fails leaves the old state or one on
  the way, and reading gives the current state. \<open>cur x wid\<close> is the state of execution \<open>wid\<close>, if it was
  ever started.
\<close>

definition stateOr :: "LcState option \<Rightarrow> LcState" where
  "stateOr s = (case s of None \<Rightarrow> dfDefaults BuildDefinition | Some s \<Rightarrow> s)"

definition engineRuns :: "activities \<Rightarrow> 'x Engine \<Rightarrow> ('x \<Rightarrow> string \<Rightarrow> LcState option) \<Rightarrow> bool" where
  "engineRuns acts en cur \<longleftrightarrow>
     (\<forall>wid ev x e x'. enDispatch en wid ev x = (e, x') \<longrightarrow>
        (\<forall>other. other \<noteq> wid \<longrightarrow> cur x' other = cur x other) \<and>
        (e = None \<longrightarrow> (\<exists>s. cur x' wid = Some s \<and> dispatched BuildDefinition acts ev (stateOr (cur x wid)) s)) \<and>
        (e \<noteq> None \<longrightarrow> cur x' wid = cur x wid \<or>
           (\<exists>c s. cur x' wid = Some s \<and> runs BuildDefinition acts ev (stateOr (cur x wid)) c s))) \<and>
     (\<forall>wid x s. enState en wid x = Inr s \<longrightarrow> cur x wid = Some s)"

datatype lcOp =
    OpActivate string string string
  | OpRecover string string
  | OpResume string string
  | OpSuspend string
  | OpClose string string

fun lcStep :: "'x Engine \<Rightarrow> 'x \<Rightarrow> lcOp \<Rightarrow> 'x" where
  "lcStep en x (OpActivate w r k) = snd (Lifecycle_Activate en w r k x)"
| "lcStep en x (OpRecover w k) = snd (Lifecycle_Recover en w k x)"
| "lcStep en x (OpResume w k) = snd (Lifecycle_Resume en w k x)"
| "lcStep en x (OpSuspend w) = snd (Lifecycle_Suspend en w x)"
| "lcStep en x (OpClose w k) = snd (Lifecycle_Close en w k x)"

text \<open>The events that the operations send.\<close>

definition eventFor :: "string \<Rightarrow> lcEvent \<Rightarrow> bool" where
  "eventFor wid ev = (case ev of Activate w r k \<Rightarrow> w = wid \<and> w \<noteq> '''' \<and> r \<noteq> '''' | _ \<Rightarrow> True)"

lemma snd_sendEvent [simp]: "snd (sendEvent en wid ev x) = snd (enDispatch en wid ev x)"
  by (simp add: sendEvent_def split: prod.splits)

fun lcEventOf :: "lcOp \<Rightarrow> string \<times> lcEvent" where
  "lcEventOf (OpActivate w r k) = (w, Activate w r k)"
| "lcEventOf (OpRecover w k) = (w, Recover k)"
| "lcEventOf (OpResume w k) = (w, Resume k)"
| "lcEventOf (OpSuspend w) = (w, Suspend)"
| "lcEventOf (OpClose w k) = (w, Close k)"

lemma lcStep_sendEvent:
  "lcStep en x op = x \<or>
   eventFor (fst (lcEventOf op)) (snd (lcEventOf op)) \<and>
   lcStep en x op = snd (enDispatch en (fst (lcEventOf op)) (snd (lcEventOf op)) x)"
  by (cases op) (simp_all add: Lifecycle_Activate_def Lifecycle_Recover_def Lifecycle_Resume_def
      Lifecycle_Suspend_def Lifecycle_Close_def eventFor_def)

text \<open>An invariant of the states of one execution holds after any history of operations.\<close>

lemma history_invariant:
  assumes "engineRuns acts en cur"
    and start: "\<And>wid. I wid (dfDefaults BuildDefinition)"
    and step: "\<And>wid ev s c s'. I wid s \<Longrightarrow> eventFor wid ev \<Longrightarrow> runs BuildDefinition acts ev s c s' \<Longrightarrow> I wid s'"
    and "\<And>wid. cur x wid = None"
  shows "I wid (stateOr (cur (foldl (lcStep en) x ops) wid))"
proof (induction ops arbitrary: wid rule: rev_induct)
  case Nil
  then show ?case using assms(4) start by (simp add: stateOr_def)
next
  case (snoc op ops)
  let ?x = "foldl (lcStep en) x ops"
  from lcStep_sendEvent [of en ?x op] show ?case
  proof
    assume "lcStep en ?x op = ?x"
    then show ?thesis using snoc.IH by simp
  next
    assume op: "eventFor (fst (lcEventOf op)) (snd (lcEventOf op)) \<and>
      lcStep en ?x op = snd (enDispatch en (fst (lcEventOf op)) (snd (lcEventOf op)) ?x)"
    obtain w ev where "lcEventOf op = (w, ev)" by fastforce
    with op have ev: "eventFor w ev" "lcStep en ?x op = snd (enDispatch en w ev ?x)" by simp_all
    obtain e x' where d: "enDispatch en w ev ?x = (e, x')" by fastforce
    with assms(1) have frame: "w' \<noteq> w \<Longrightarrow> cur x' w' = cur ?x w'" for w'
      unfolding engineRuns_def by blast
    have "cur x' w = cur ?x w \<or> (\<exists>c s. cur x' w = Some s \<and> runs BuildDefinition acts ev (stateOr (cur ?x w)) c s)"
      using assms(1) d unfolding engineRuns_def dispatched_def by (cases "e = None") blast+
    then have "I w (stateOr (cur x' w))"
      using snoc.IH [of w] step [OF snoc.IH ev(1)] by (auto simp: stateOr_def)
    with frame snoc.IH ev(2) d show ?thesis by (cases "wid = w") (auto simp: stateOr_def)
  qed
qed

text \<open>What every state of an execution satisfies.\<close>

definition observedActive :: "('s, 'c) Resolver \<Rightarrow> ('s, 'e) Desktop \<Rightarrow> LcState \<Rightarrow> bool" where
  "observedActive resolve dk s \<longleftrightarrow>
     (\<exists>w desired result w'. resolve w (lcWorkspaceID s) (lcDefinitionRevision s) = Inr desired \<and>
        Reconcile dk w desired = (Inr result, w') \<and>
        (\<forall>r \<in> set (dsResources desired). rsRequired r \<longrightarrow> reached (resObserved result) r) \<and>
        lcReachedRequired s = int (length (filter rsRequired (dsResources desired))) \<and>
        lcTotalRequired s = lcReachedRequired s)"

definition lcGood :: "('s, 'c) Resolver \<Rightarrow> ('s, 'e) Desktop \<Rightarrow> string \<Rightarrow> LcState \<Rightarrow> bool" where
  "lcGood resolve dk wid s \<longleftrightarrow>
     (lcWorkspaceID s = '''' \<and> lcDefinitionRevision s = '''' \<or>
      lcWorkspaceID s = wid \<and> wid \<noteq> '''' \<and> lcDefinitionRevision s \<noteq> '''') \<and>
     0 \<le> lcReachedRequired s \<and> lcReachedRequired s \<le> lcTotalRequired s \<and>
     (lcStatus s = StatusActive \<longrightarrow> observedActive resolve dk s)"

lemma evaluation_bounds:
  "0 \<le> evRequiredReached (EvaluateReconcile d ob)" "evRequiredReached (EvaluateReconcile d ob) \<le> evRequiredTotal (EvaluateReconcile d ob)"
  "evRequiredTotal (EvaluateReconcile d ob) = int (length (filter rsRequired (dsResources d)))"
  using evaluation_totals [of d ob] EvaluateReconcile_exact [of d ob]
  by (auto simp: EvaluateReconcile_def foldl_evalStep zeroEvaluation_def)


lemma Reconcile_observed:
  assumes "Reconcile dk w desired = (Inr result, w')"
  shows "0 \<le> evRequiredReached (resEvaluation result)"
    "evRequiredReached (resEvaluation result) \<le> evRequiredTotal (resEvaluation result)"
    "TargetStatus result = StatusActive \<Longrightarrow>
       (\<forall>r \<in> set (dsResources desired). rsRequired r \<longrightarrow> reached (resObserved result) r) \<and>
       evRequiredReached (resEvaluation result) = int (length (filter rsRequired (dsResources desired))) \<and>
       evRequiredTotal (resEvaluation result) = evRequiredReached (resEvaluation result)"
proof -
  have ev: "resEvaluation result = EvaluateReconcile desired (resObserved result)"
    using Reconcile_Inr [OF assms] by blast
  show "0 \<le> evRequiredReached (resEvaluation result)"
    "evRequiredReached (resEvaluation result) \<le> evRequiredTotal (resEvaluation result)"
    unfolding ev by (rule evaluation_bounds)+
  assume "TargetStatus result = StatusActive"
  then have "evRequiredTotal (resEvaluation result) = 0 \<or>
      evRequiredReached (resEvaluation result) = evRequiredTotal (resEvaluation result)"
    by (auto simp: TargetStatus_def statuses Let_def split: if_splits)
  then have "evRequiredReached (resEvaluation result) = evRequiredTotal (resEvaluation result)"
    using evaluation_bounds(1,2) [of desired "resObserved result"] unfolding ev by linarith
  then show "(\<forall>r \<in> set (dsResources desired). rsRequired r \<longrightarrow> reached (resObserved result) r) \<and>
       evRequiredReached (resEvaluation result) = int (length (filter rsRequired (dsResources desired))) \<and>
       evRequiredTotal (resEvaluation result) = evRequiredReached (resEvaluation result)"
    unfolding ev using required_reached_total evaluation_bounds(3) by metis
qed

lemma good_accepted:
  "lcGood resolve dk wid s \<Longrightarrow> eventFor wid ev \<Longrightarrow> lcGood resolve dk wid (accepted ev s)"
  by (cases ev) (auto simp: lcGood_def eventFor_def statuses)

lemma good_finished:
  assumes "lcGood resolve dk wid s" and "lifecycleActs resolve dk a (activityInputs s) out"
  shows "lcGood resolve dk wid (finished a out s)"
  using assms(2)
  unfolding lifecycleActs_def Let_def inputs_simps
proof (elim disjE exE conjE)
  fix w w' o1
  assume a: "a = ''ReconcileWorkspace''" "out = encodeReconcile o1"
    and run: "ReconcileWorkspace resolve dk (lcWorkspaceID s) (lcDefinitionRevision s) w = (Inr o1, w')"
  show ?thesis
  proof (cases "resolve w (lcWorkspaceID s) (lcDefinitionRevision s)")
    case (Inl e)
    with run a assms(1) show ?thesis
      by (auto simp: ReconcileWorkspace_def lcGood_def finished_def Let_def statuses)
  next
    case (Inr desired)
    with run obtain result w1 where r: "Reconcile dk w desired = (Inr result, w1)"
      and o1: "rwStatus o1 = TargetStatus result" "rwReachedRequired o1 = evRequiredReached (resEvaluation result)"
        "rwTotalRequired o1 = evRequiredTotal (resEvaluation result)"
      by (auto simp: ReconcileWorkspace_def split: sum.splits prod.splits)
    have "observedActive resolve dk (finished a out s)" if "TargetStatus result = StatusActive"
      unfolding observedActive_def
      by (rule exI [of _ w], rule exI [of _ desired], rule exI [of _ result], rule exI [of _ w1])
        (use Inr r Reconcile_observed(3) [OF r that] o1 a in \<open>simp add: finished_def Let_def\<close>)
    then show ?thesis
      using assms(1) Reconcile_observed(1,2) [OF r] o1 a by (simp add: lcGood_def finished_def Let_def)
  qed
next
  fix w w' o1
  assume a: "a = ''CloseWorkspace''" "out = encodeClose o1"
    and "CloseWorkspace resolve dk (lcWorkspaceID s) (lcDefinitionRevision s) w = (Inr o1, w')"
  then have "cwStatus o1 \<noteq> StatusActive" using CloseWorkspace_status by (fastforce simp: statuses)
  with a assms(1) show ?thesis by (simp add: lcGood_def finished_def Let_def)
qed

lemma lifecycle_good:
  assumes "engineRuns (lifecycleActs resolve dk) en cur" and "\<And>wid. cur x wid = None"
  shows "lcGood resolve dk wid (stateOr (cur (foldl (lcStep en) x ops) wid))"
proof (rule history_invariant [where I = "lcGood resolve dk", OF assms(1) _ _ assms(2)])
  show "lcGood resolve dk wid (dfDefaults BuildDefinition)" for wid
    by (simp add: lcGood_def BuildDefinition_def zeroState_def statuses)
  show "lcGood resolve dk wid s'" if "lcGood resolve dk wid s" "eventFor wid ev"
    "runs BuildDefinition (lifecycleActs resolve dk) ev s c s'" for wid ev s c s'
    using runs_closed [OF that(3) settled_lifecycleActs] good_accepted [OF that(1,2)] good_finished by metis
qed

text \<open>The catalogues that the lifecycle reads: whatever was applied, reloaded or polled.\<close>

definition reachedFile :: "workspaceFileDocument Decoder \<Rightarrow>
    ((string, string) gomap \<Rightarrow> (string, string) gomap) \<Rightarrow> 'w FS \<Rightarrow> File \<Rightarrow> bool" where
  "reachedFile dec it fs f \<longleftrightarrow> (\<exists>evs. f = foldl (fileStep (compileWorkspaceFile dec it) fs) NewFile evs)"

lemma resolve_valid:
  assumes "reachedFile dec it fs f" and "File_Resolve f wid r = Inr d"
  shows "DesiredState_Validate d = None \<and> definitionKey (dsWorkspaceID d) (dsRevision d) = definitionKey wid r"
proof -
  have "goodCatalog (cfDefinitions f, cfActive f)"
    using assms(1) unfolding reachedFile_def by (elim exE) (simp add: reachable_good [OF compile_good])
  then show ?thesis
    using assms(2) goodCatalog_definition by (fastforce simp: File_Resolve_def split: option.splits)
qed


lemma resolve_identity:
  assumes "reachedFile dec it fs f" and "File_Resolve f wid r = Inr d"
  shows "\<not> (wid = '''' \<and> r = '''')"
proof
  assume "wid = '''' \<and> r = ''''"
  with resolve_valid [OF assms] have "dsRevision d = ''''" and "validDesired d"
    by (auto simp: definitionKey_def DesiredState_Validate_iff append_eq_Cons_conv)
  then show False by (simp add: validDesired_def blank_def)
qed

text \<open>
  C2. The claims of the lifecycle model hold: whatever is applied to the catalogue and in whatever
  order workspaces are activated, recovered, resumed, suspended and closed, failures included, every state
  that can be read has non-negative counts, at most as many required resources reached as there are, and a
  workspace identity when it is active. The engine is only assumed to run the rule table.
\<close>

theorem lifecycle_claims:
  assumes "engineRuns (lifecycleActs (\<lambda>w. File_Resolve (cat w)) dk) en cur"
    and "\<And>w. reachedFile dec it fs (cat w)" and "\<And>wid. cur x wid = None"
    and "Lifecycle_State en wid (foldl (lcStep en) x ops) = Inr s"
  shows "list_all (\<lambda>(_, c). claimHolds c s) (dfClaims BuildDefinition) \<and> lcReachedRequired s \<le> lcTotalRequired s"
proof -
  let ?x = "foldl (lcStep en) x ops"
  have "lcGood (\<lambda>w. File_Resolve (cat w)) dk wid s \<or> s = zeroState\<lparr>lcStatus := StatusInactive, lcWorkspaceID := wid\<rparr>"
  proof (cases "enState en wid ?x")
    case (Inr s')
    with assms(1) have "cur ?x wid = Some s'" unfolding engineRuns_def by blast
    with lifecycle_good [OF assms(1,3), of wid ops] Inr assms(4) show ?thesis
      by (simp add: stateOr_def Lifecycle_State_def)
  next
    case (Inl e)
    with assms(4) show ?thesis by (simp add: Lifecycle_State_def split: if_splits)
  qed
  moreover have "observedActive (\<lambda>w. File_Resolve (cat w)) dk s \<Longrightarrow>
      \<not> (lcWorkspaceID s = '''' \<and> lcDefinitionRevision s = '''')"
    unfolding observedActive_def using resolve_identity [OF assms(2)] by blast
  ultimately show ?thesis
    by (auto simp: lcGood_def BuildDefinition_def claimHolds_def zeroState_def statuses)
qed

text \<open>
  A workspace whose lifecycle reads active was observed so: the definition that its state names was
  in the catalogue, valid and filed under that identity, and a reconciliation of it observed every required
  resource present and ready; the recorded counts are the number of its required resources. Starting
  commands without an observation, or reconciling another revision, never makes a workspace active.
\<close>

lemma active_observed:
  assumes "engineRuns (lifecycleActs (\<lambda>w. File_Resolve (cat w)) dk) en cur"
    and "\<And>w. reachedFile dec it fs (cat w)" and "\<And>wid. cur x wid = None"
    and "Lifecycle_State en wid (foldl (lcStep en) x ops) = Inr s" and "lcStatus s = StatusActive"
  shows "lcWorkspaceID s = wid \<and> wid \<noteq> '''' \<and> lcDefinitionRevision s \<noteq> '''' \<and>
    (\<exists>w desired result w'. File_Resolve (cat w) wid (lcDefinitionRevision s) = Inr desired \<and>
       DesiredState_Validate desired = None \<and>
       definitionKey (dsWorkspaceID desired) (dsRevision desired) = definitionKey wid (lcDefinitionRevision s) \<and>
       Reconcile dk w desired = (Inr result, w') \<and>
       (\<forall>r \<in> set (dsResources desired). rsRequired r \<longrightarrow> reached (resObserved result) r) \<and>
       lcReachedRequired s = int (length (filter rsRequired (dsResources desired))) \<and>
       lcTotalRequired s = lcReachedRequired s)"
proof -
  let ?x = "foldl (lcStep en) x ops"
  from assms(4,5) have "enState en wid ?x = Inr s"
    by (auto simp: Lifecycle_State_def zeroState_def statuses split: sum.splits if_splits)
  with assms(1) have "cur ?x wid = Some s" unfolding engineRuns_def by blast
  with lifecycle_good [OF assms(1,3), of wid ops] have good: "lcGood (\<lambda>w. File_Resolve (cat w)) dk wid s"
    by (simp add: stateOr_def)
  with assms(5) have obs: "observedActive (\<lambda>w. File_Resolve (cat w)) dk s" by (simp add: lcGood_def)
  then have id: "lcWorkspaceID s = wid" "wid \<noteq> ''''" "lcDefinitionRevision s \<noteq> ''''"
    using good resolve_identity [OF assms(2)] unfolding observedActive_def lcGood_def by blast+
  from obs obtain w desired result w' where
    o: "File_Resolve (cat w) wid (lcDefinitionRevision s) = Inr desired" "Reconcile dk w desired = (Inr result, w')"
      "\<forall>r \<in> set (dsResources desired). rsRequired r \<longrightarrow> reached (resObserved result) r"
      "lcReachedRequired s = int (length (filter rsRequired (dsResources desired)))"
      "lcTotalRequired s = lcReachedRequired s"
    unfolding observedActive_def id(1) by blast
  with id resolve_valid [OF assms(2) o(1)] show ?thesis by blast
qed


section \<open>An engine that runs the table\<close>

text \<open>
  An engine in memory, to show that what is relied on can hold: it runs the activity at once and
  records nothing when it fails.
\<close>

definition runActivity ::
  "('s, 'c) Resolver \<Rightarrow> ('s, 'e) Desktop \<Rightarrow> string \<Rightarrow> LcState \<Rightarrow> 's \<Rightarrow> lcOutput option \<times> 's" where
  "runActivity resolve dk a s w =
     (if a = ''ReconcileWorkspace''
      then (case ReconcileWorkspace resolve dk (lcWorkspaceID s) (lcDefinitionRevision s) w of
              (Inl _, w') \<Rightarrow> (None, w') | (Inr o1, w') \<Rightarrow> (Some (encodeReconcile o1), w'))
      else (case CloseWorkspace resolve dk (lcWorkspaceID s) (lcDefinitionRevision s) w of
              (Inl _, w') \<Rightarrow> (None, w') | (Inr o1, w') \<Rightarrow> (Some (encodeClose o1), w')))"

definition sampleDispatch ::
  "('s, 'c) Resolver \<Rightarrow> ('s, 'e) Desktop \<Rightarrow> string \<Rightarrow> lcEvent \<Rightarrow> 's \<times> (string, LcState) gomap \<Rightarrow>
   string option \<times> ('s \<times> (string, LcState) gomap)" where
  "sampleDispatch resolve dk wid ev x =
     (let s = stateOr (map_of (snd x) wid); s1 = accepted ev s
      in if activityFor (lcStatus s) \<noteq> None then (Some ''busy'', x)
         else case activityFor (lcStatus s1) of
           None \<Rightarrow> (None, (fst x, put wid s1 (snd x)))
         | Some a \<Rightarrow> (case runActivity resolve dk a s1 (fst x) of
             (None, w) \<Rightarrow> (Some ''activity failed'', (w, snd x))
           | (Some out, w) \<Rightarrow> (None, (w, put wid (finished a out s1) (snd x)))))"

definition sampleEngine :: "('s, 'c) Resolver \<Rightarrow> ('s, 'e) Desktop \<Rightarrow> ('s \<times> (string, LcState) gomap) Engine" where
  "sampleEngine resolve dk = \<lparr>enDispatch = sampleDispatch resolve dk,
     enState = (\<lambda>wid x. case map_of (snd x) wid of None \<Rightarrow> Inl ''execution not found'' | Some s \<Rightarrow> Inr s)\<rparr>"

lemma runActivity_acts:
  assumes "runActivity resolve dk a s w = (Some out, w')" and "activityFor (lcStatus s') = Some a"
  shows "lifecycleActs resolve dk a (activityInputs s) out"
proof -
  from assms(2) consider "a = ''ReconcileWorkspace''" | "a = ''CloseWorkspace''"
    by (auto simp: activityFor_def split: if_splits)
  then show ?thesis
  proof cases
    case 1
    with assms(1) obtain o1 where "ReconcileWorkspace resolve dk (lcWorkspaceID s) (lcDefinitionRevision s) w = (Inr o1, w')"
      "out = encodeReconcile o1" by (auto simp: runActivity_def split: sum.splits prod.splits)
    with 1 show ?thesis unfolding lifecycleActs_def Let_def inputs_simps by blast
  next
    case 2
    with assms(1) obtain o1 where "CloseWorkspace resolve dk (lcWorkspaceID s) (lcDefinitionRevision s) w = (Inr o1, w')"
      "out = encodeClose o1" by (auto simp: runActivity_def split: sum.splits prod.splits)
    with 2 show ?thesis unfolding lifecycleActs_def Let_def inputs_simps by blast
  qed
qed

lemma sampleDispatch_runs:
  assumes "sampleDispatch resolve dk wid ev x = (e, x')"
  shows "(e = None \<longrightarrow> (\<exists>s. snd x' = put wid s (snd x) \<and>
      dispatched BuildDefinition (lifecycleActs resolve dk) ev (stateOr (map_of (snd x) wid)) s)) \<and>
    (e \<noteq> None \<longrightarrow> snd x' = snd x)"
proof (cases "activityFor (lcStatus (stateOr (map_of (snd x) wid)))")
  case (Some a)
  with assms show ?thesis by (auto simp: sampleDispatch_def Let_def)
next
  case None
  let ?s1 = "accepted ev (stateOr (map_of (snd x) wid))"
  note out = outcome_closed [OF settled_lifecycleActs [of resolve dk] None, of ev]
  show ?thesis
  proof (cases "activityFor (lcStatus ?s1)")
    case fin: None
    with assms None show ?thesis unfolding out by (auto simp: sampleDispatch_def Let_def)
  next
    case (Some a)
    obtain o1 w' where r: "runActivity resolve dk a ?s1 (fst x) = (o1, w')" by fastforce
    with assms None Some runActivity_acts [of resolve dk a ?s1 "fst x" _ w' ?s1] show ?thesis
      unfolding out by (cases o1) (auto simp: sampleDispatch_def Let_def)
  qed
qed

lemma sampleEngine_runs:
  "engineRuns (lifecycleActs resolve dk) (sampleEngine resolve dk) (\<lambda>x. map_of (snd x))"
  unfolding engineRuns_def
proof (intro conjI allI impI)
  fix wid ev x e x' other
  assume d: "enDispatch (sampleEngine resolve dk) wid ev x = (e, x')"
  note runs = sampleDispatch_runs [of resolve dk wid ev x e x']
  from d have d': "sampleDispatch resolve dk wid ev x = (e, x')" by (simp add: sampleEngine_def)
  show "map_of (snd x') other = map_of (snd x) other" if "other \<noteq> wid"
    using runs [OF d'] that by (cases "e = None") auto
  show "\<exists>s. map_of (snd x') wid = Some s \<and>
      dispatched BuildDefinition (lifecycleActs resolve dk) ev (stateOr (map_of (snd x) wid)) s" if "e = None"
    using runs [OF d'] that by auto
  show "map_of (snd x') wid = map_of (snd x) wid \<or> (\<exists>c s. map_of (snd x') wid = Some s \<and>
      runs BuildDefinition (lifecycleActs resolve dk) ev (stateOr (map_of (snd x) wid)) c s)" if "e \<noteq> None"
    using runs [OF d'] that by simp
qed (auto simp: sampleEngine_def split: option.splits)

abbreviation "sampleCatalog \<equiv> foldl (fileStep sampleCompile sampleFS) NewFile [ApplySource ''good'']"
abbreviation "sampleResolve \<equiv> (\<lambda>_ :: FakeState. File_Resolve sampleCatalog)"
abbreviation "activeRun \<equiv> foldl (lcStep (sampleEngine sampleResolve fakeDesktop)) (NewDesktop, [])
  [OpActivate ''a'' ''1'' ''k'']"


lemma activeRun_state:
  "Lifecycle_State (sampleEngine sampleResolve fakeDesktop) ''a'' activeRun =
     Inr \<lparr>lcStatus = ''active'', lcWorkspaceID = ''a'', lcDefinitionRevision = ''1'', lcOperationKey = ''k'',
       lcReachedRequired = 1, lcTotalRequired = 1, lcLastFailureCode = ''''\<rparr>"
  by code_simp

lemma sampleCatalog_reached:
  "reachedFile (sampleDecoder (sampleDocument [(''a'', '' 1'')] [(''a '', ''1'')])) (\<lambda>m. m) sampleFS sampleCatalog"
  unfolding reachedFile_def by (rule exI [of _ "[ApplySource ''good'']"]) (rule refl)

lemma started: "map_of (snd (NewDesktop, [] :: (string \<times> LcState) list)) wid = None"
  by simp

lemma lifecycle_claims_witness:
  "list_all (\<lambda>(_, c). claimHolds c (projr (Lifecycle_State (sampleEngine sampleResolve fakeDesktop) ''a'' activeRun)))
     (dfClaims BuildDefinition)"
  unfolding activeRun_state sum.sel
  using lifecycle_claims [OF sampleEngine_runs [of sampleResolve fakeDesktop] sampleCatalog_reached started
      activeRun_state]
  by (rule conjunct1)


text \<open>
  The table has no guards on the status of the workspace, and recovering and closing take an empty
  operation key: recovering a suspended workspace activates it again, under no key.
\<close>

lemma recover_suspended_without_key:
  "map_sum (\<lambda>_. ()) (\<lambda>s. (lcStatus s, lcOperationKey s)) (Lifecycle_State (sampleEngine sampleResolve fakeDesktop) ''a''
     (foldl (lcStep (sampleEngine sampleResolve fakeDesktop)) (NewDesktop, [])
        [OpActivate ''a'' ''1'' ''k'', OpSuspend ''a'', OpRecover ''a'' ''''])) =
   Inr (''active'', '''')"
  by code_simp

text \<open>Closing keeps the counts of the last reconciliation in a workspace that is inactive.\<close>

lemma closed_keeps_counts:
  "map_sum (\<lambda>_. ()) (\<lambda>s. (lcStatus s, lcReachedRequired s)) (Lifecycle_State (sampleEngine sampleResolve fakeDesktop) ''a''
     (foldl (lcStep (sampleEngine sampleResolve fakeDesktop)) (NewDesktop, [])
        [OpActivate ''a'' ''1'' ''k'', OpClose ''a'' ''c''])) =
   Inr (''inactive'', 1)"
  by code_simp

end
