(* ===== verification/Runtime.thy ===== *)
theory Runtime
  imports Lifecycle Hub ContextTree ShellDesktop
begin

text \<open>
  \<open>internal/daemon/runtime.go\<close>: the runtime of the daemon, which puts the hub, the hierarchy, the
  catalogue of workspaces, the lifecycle and the shell together. JSON texts that are only encoded are
  left as the values that they encode.
\<close>

section \<open>State\<close>

record ('w, 'x) RtEnv =
  reHub :: HubEnv
  reShell :: "string \<Rightarrow> string + ShellSnapshot"
  reFS :: "'w FS"
  reTree :: treeCompiler
  reCatalog :: "string \<Rightarrow> catalogError + compiledCatalog"
  reEngine :: "'x Engine"
  reKeys :: "(string, string) gomap \<Rightarrow> (string, string) gomap"

text \<open>
  \<open>rtLifecycle\<close> is the state of the engine and the store to close, once the lifecycle is open; the last two
  fields say whether the notifiers are set.
\<close>

record ('x, 'd) Runtime =
  rtHub :: Hub
  rtHierarchy :: Manager
  rtWorkspaces :: File
  rtLifecycle :: "('x \<times> 'd option) option"
  rtStateRevision :: "64 word"
  rtShellSnapshot :: ShellSnapshot
  rtOnTreeChanged :: bool
  rtOnWorkspaceChanged :: bool

datatype runtimeError =
    LifecycleUnavailable | StorePathRequired | LifecycleOpen | StoreError string
  | ActivationKeyRequired | OperationKeyRequired | WorkspaceIDRequired
  | RtCatalog catalogError | RtLifecycle lifecycleError | RtHub hubError | RtShell shellError
  | NoHierarchy | RtTree contextError

text \<open>The calls of the notifiers.\<close>

datatype rtNotice = HubNotice notice | TreeChanged "64 word" | WorkspaceChanged string "64 word"

definition zeroShellSnapshot :: ShellSnapshot where
  "zeroShellSnapshot = \<lparr>shSchema = 0, shRevision = 0, shCapturedAt = 0,
     shTopology = \<lparr>tpRevision = '''', tpPrimaryMonitorRef = '''', tpMonitors = []\<rparr>, shApps = []\<rparr>"

definition NewRuntime :: "Hub option \<Rightarrow> ('x, 'd) Runtime" where
  "NewRuntime hub = \<lparr>rtHub = (case hub of Some h \<Rightarrow> h | None \<Rightarrow> NewHub None), rtHierarchy = zeroManager,
     rtWorkspaces = NewFile, rtLifecycle = None, rtStateRevision = 1, rtShellSnapshot = zeroShellSnapshot,
     rtOnTreeChanged = False, rtOnWorkspaceChanged = False\<rparr>"

definition SetTreeNotifier :: "bool \<Rightarrow> ('x, 'd) Runtime \<Rightarrow> ('x, 'd) Runtime" where
  "SetTreeNotifier notify rt = rt\<lparr>rtOnTreeChanged := notify\<rparr>"

definition SetWorkspaceNotifier :: "bool \<Rightarrow> ('x, 'd) Runtime \<Rightarrow> ('x, 'd) Runtime" where
  "SetWorkspaceNotifier notify rt = rt\<lparr>rtOnWorkspaceChanged := notify\<rparr>"

section \<open>Opening and closing\<close>

text \<open>
  \<open>OpenProduction\<close> opens the store and then the engine over it, and closes the store again when the
  engine does not open. A lifecycle is its engine and the store to close.
\<close>

record ('w, 'd, 'x) StoreOps =
  soOpen :: "string \<Rightarrow> 'w \<Rightarrow> (string + 'd) \<times> 'w"
  soEngine :: "'d \<Rightarrow> 'w \<Rightarrow> (string + 'x) \<times> 'w"
  soClose :: "'d \<Rightarrow> 'w \<Rightarrow> string option \<times> 'w"

definition OpenProduction :: "('w, 'd, 'x) StoreOps \<Rightarrow> string \<Rightarrow> 'w \<Rightarrow> (runtimeError + 'x \<times> 'd option) \<times> 'w" where
  "OpenProduction so path w =
     (if TrimSpace path = '''' then (Inl StorePathRequired, w)
      else case soOpen so path w of
        (Inl e, w1) \<Rightarrow> (Inl (StoreError e), w1)
      | (Inr store, w1) \<Rightarrow>
          (case soEngine so store w1 of
             (Inl e, w2) \<Rightarrow> (case soClose so store w2 of (_, w3) \<Rightarrow> (Inl (StoreError e), w3))
           | (Inr x, w2) \<Rightarrow> (Inr (x, Some store), w2)))"

definition Lifecycle_Shutdown :: "('w, 'd, 'x) StoreOps \<Rightarrow> 'x \<times> 'd option \<Rightarrow> 'w \<Rightarrow> string option \<times> ('x \<times> 'd option) \<times> 'w" where
  "Lifecycle_Shutdown so l w =
     (case l of
        (x, None) \<Rightarrow> (None, l, w)
      | (x, Some store) \<Rightarrow> (case soClose so store w of (e, w1) \<Rightarrow> (e, (x, None), w1)))"

definition OpenWorkspaceLifecycle ::
  "('w, 'd, 'x) StoreOps \<Rightarrow> 'w FS \<Rightarrow> string \<Rightarrow> ('x, 'd) Runtime \<Rightarrow> 'w \<Rightarrow> runtimeError option \<times> ('x, 'd) Runtime \<times> 'w" where
  "OpenWorkspaceLifecycle so fs path rt w =
     (if TrimSpace path = '''' then (Some StorePathRequired, rt, w)
      else if rtLifecycle rt \<noteq> None then (Some LifecycleOpen, rt, w)
      else case fsMkdirAll fs (fsDir fs path) w of
        (Some e, w1) \<Rightarrow> (Some (StoreError e), rt, w1)
      | (None, w1) \<Rightarrow>
          (case OpenProduction so path w1 of
             (Inl e, w2) \<Rightarrow> (Some e, rt, w2)
           | (Inr l, w2) \<Rightarrow> (None, rt\<lparr>rtLifecycle := Some l\<rparr>, w2)))"

definition Runtime_Shutdown ::
  "('w, 'd, 'x) StoreOps \<Rightarrow> ('x, 'd) Runtime \<Rightarrow> 'w \<Rightarrow> string option \<times> ('x, 'd) Runtime \<times> 'w" where
  "Runtime_Shutdown so rt w =
     (case rtLifecycle rt of
        None \<Rightarrow> (None, rt, w)
      | Some l \<Rightarrow> (case Lifecycle_Shutdown so l w of (e, _, w1) \<Rightarrow> (e, rt\<lparr>rtLifecycle := None\<rparr>, w1)))"

section \<open>The snapshot of the shell\<close>

text \<open>A copy of all parts; sharing is not visible in a value.\<close>

definition cloneShellSnapshot :: "ShellSnapshot \<Rightarrow> ShellSnapshot" where
  "cloneShellSnapshot s =
     s\<lparr>shTopology := (shTopology s)\<lparr>tpMonitors := [] @ tpMonitors (shTopology s)\<rparr>,
       shApps := map (\<lambda>i. (shApps s ! i)\<lparr>saIdentityHints := [] @ saIdentityHints (shApps s ! i),
         saWindows := [] @ saWindows (shApps s ! i)\<rparr>) [0..<length (shApps s)]\<rparr>"

lemma cloneShellSnapshot_id [simp]: "cloneShellSnapshot s = s"
  by (simp add: cloneShellSnapshot_def map_nth)

text \<open>The two parts of \<open>ReplaceShellSnapshotJSON\<close>: what the hub is given, and what is retained.\<close>

definition shellToHub ::
  "('w, 'x) RtEnv \<Rightarrow> int \<Rightarrow> string \<Rightarrow> ('x, 'd) Runtime \<Rightarrow> (runtimeError + ShellSnapshot) \<times> ('x, 'd) Runtime \<times> rtNotice list" where
  "shellToHub env now payload rt =
     (case Decode (reShell env) payload of
        Inl e \<Rightarrow> (Inl (RtShell e), rt, [])
      | Inr snapshot \<Rightarrow>
          (case Hub_ReplaceShell (reHub env) (reShell env) now payload (rtHub rt) of
             (Some e, h, ns) \<Rightarrow> (Inl (RtHub e), rt\<lparr>rtHub := h\<rparr>, map HubNotice ns)
           | (None, h, ns) \<Rightarrow> (Inr snapshot, rt\<lparr>rtHub := h\<rparr>, map HubNotice ns)))"

definition shellRetain :: "ShellSnapshot \<Rightarrow> ('x, 'd) Runtime \<Rightarrow> ('x, 'd) Runtime" where
  "shellRetain snapshot rt = rt\<lparr>rtShellSnapshot := cloneShellSnapshot snapshot\<rparr>"

definition Runtime_ReplaceShell ::
  "('w, 'x) RtEnv \<Rightarrow> int \<Rightarrow> string \<Rightarrow> ('x, 'd) Runtime \<Rightarrow> runtimeError option \<times> ('x, 'd) Runtime \<times> rtNotice list" where
  "Runtime_ReplaceShell env now payload rt =
     (case shellToHub env now payload rt of
        (Inl e, rt1, ns) \<Rightarrow> (Some e, rt1, ns)
      | (Inr snapshot, rt1, ns) \<Rightarrow> (None, shellRetain snapshot rt1, ns))"

definition Runtime_ShellSnapshot :: "('x, 'd) Runtime \<Rightarrow> ShellSnapshot" where
  "Runtime_ShellSnapshot rt = cloneShellSnapshot (rtShellSnapshot rt)"

text \<open>
  What the production desktop reads: the hub's surfaces and the retained snapshot; \<open>others\<close> is what
  the other threads do after each read.
\<close>

definition runtimeReader :: "('w \<Rightarrow> ('x, 'd) Runtime) \<Rightarrow> ('w \<Rightarrow> 'w) \<Rightarrow> 'w ShellReader" where
  "runtimeReader rt others = \<lparr>srSurface = (\<lambda>w. (HubSurfaceSnapshot (rtHub (rt w)), others w)),
     srShell = (\<lambda>w. (Runtime_ShellSnapshot (rt w), others w))\<rparr>"

section \<open>Shell actions\<close>

text \<open>\<open>encode\<close> is the JSON encoder of a request, \<open>emit\<close> the signal.\<close>

definition SetShellActionEmitter ::
  "(ActionRequest \<Rightarrow> string + string) \<Rightarrow> (string \<Rightarrow> 'w \<Rightarrow> 'w) option \<Rightarrow>
   (ActionRequest \<Rightarrow> 'w \<Rightarrow> string option \<times> 'w) Broker \<Rightarrow> (ActionRequest \<Rightarrow> 'w \<Rightarrow> string option \<times> 'w) Broker" where
  "SetShellActionEmitter encode emit b =
     (case emit of
        None \<Rightarrow> SetEmitter None b
      | Some send \<Rightarrow> SetEmitter (Some (\<lambda>request w. case encode request of
            Inl e \<Rightarrow> (Some e, w) | Inr payload \<Rightarrow> (None, send payload w))) b)"

section \<open>Configuration\<close>

definition ConfigureHierarchy ::
  "('w, 'x) RtEnv \<Rightarrow> string \<Rightarrow> 'w \<Rightarrow> ('x, 'd) Runtime \<Rightarrow> runtimeError option \<times> 'w \<times> ('x, 'd) Runtime" where
  "ConfigureHierarchy env path w rt =
     (case Manager_Configure (reTree env) (reFS env) path w (rtHierarchy rt) of
        (e, w', m) \<Rightarrow> (map_option RtTree e, w', rt\<lparr>rtHierarchy := m\<rparr>))"

definition ConfigureWorkspaces ::
  "('w, 'x) RtEnv \<Rightarrow> string \<Rightarrow> 'w \<Rightarrow> ('x, 'd) Runtime \<Rightarrow> runtimeError option \<times> 'w \<times> ('x, 'd) Runtime" where
  "ConfigureWorkspaces env path w rt =
     (case File_Configure (reCatalog env) (reFS env) path w (rtWorkspaces rt) of
        (e, w', f) \<Rightarrow> (map_option RtCatalog e, w', rt\<lparr>rtWorkspaces := f\<rparr>))"

section \<open>The state of a workspace\<close>

definition validateWorkspaceID :: "string \<Rightarrow> runtimeError + string" where
  "validateWorkspaceID workspaceID =
     (let wid = TrimSpace workspaceID in if wid = '''' then Inl WorkspaceIDRequired else Inr wid)"

definition validateWorkspaceMutation :: "string \<Rightarrow> string \<Rightarrow> runtimeError + string \<times> string" where
  "validateWorkspaceMutation workspaceID operationKey =
     (case validateWorkspaceID workspaceID of
        Inl e \<Rightarrow> Inl e
      | Inr wid \<Rightarrow>
          (let key = TrimSpace operationKey in if key = '''' then Inl OperationKeyRequired else Inr (wid, key)))"

definition workspaceState ::
  "'x Engine \<Rightarrow> 'x \<Rightarrow> string \<Rightarrow> string \<Rightarrow> ('x, 'd) Runtime \<Rightarrow> runtimeError + LcState" where
  "workspaceState en x wid definitionRevision rt =
     (case Lifecycle_State en wid x of
        Inl e \<Rightarrow> Inl (RtLifecycle e)
      | Inr s \<Rightarrow>
          let s1 = (if lcStatus s = '''' then s\<lparr>lcStatus := StatusInactive\<rparr> else s);
              s2 = (if lcWorkspaceID s1 = '''' then s1\<lparr>lcWorkspaceID := wid\<rparr> else s1);
              revision = (if definitionRevision = ''''
                then (case File_Current (rtWorkspaces rt) wid of Inr desired \<Rightarrow> dsRevision desired | Inl _ \<Rightarrow> definitionRevision)
                else definitionRevision)
          in Inr (if lcDefinitionRevision s2 = '''' then s2\<lparr>lcDefinitionRevision := revision\<rparr> else s2))"

text \<open>
  The critical section of \<open>notifyWorkspaceChanged\<close>: the new revision, and whether a notifier is set. The
  notifier is called after the lock is released; what comes in between is the section on announcements.
\<close>

definition incrementRevision :: "('x, 'd) Runtime \<Rightarrow> ('x, 'd) Runtime \<times> 64 word \<times> bool" where
  "incrementRevision rt =
     (let revision = rtStateRevision rt + 1
      in (rt\<lparr>rtStateRevision := revision\<rparr>, revision, rtOnWorkspaceChanged rt))"

definition notifyWorkspaceChanged :: "string \<Rightarrow> ('x, 'd) Runtime \<Rightarrow> ('x, 'd) Runtime \<times> rtNotice list" where
  "notifyWorkspaceChanged wid rt =
     (case incrementRevision rt of
        (rt1, revision, notify) \<Rightarrow> (rt1, if notify then [WorkspaceChanged wid revision] else []))"

lemma notifyWorkspaceChanged_eq:
  "notifyWorkspaceChanged wid rt =
     (rt\<lparr>rtStateRevision := rtStateRevision rt + 1\<rparr>,
      if rtOnWorkspaceChanged rt then [WorkspaceChanged wid (rtStateRevision rt + 1)] else [])"
  by (simp add: notifyWorkspaceChanged_def incrementRevision_def Let_def)

definition setEngine :: "'x \<Rightarrow> ('x, 'd) Runtime \<Rightarrow> ('x, 'd) Runtime" where
  "setEngine x rt = rt\<lparr>rtLifecycle := map_option (\<lambda>(_, store). (x, store)) (rtLifecycle rt)\<rparr>"

definition runWorkspaceMutation ::
  "('w, 'x) RtEnv \<Rightarrow> string \<Rightarrow> ('x \<Rightarrow> lifecycleError option \<times> 'x) \<Rightarrow> ('x, 'd) Runtime \<Rightarrow>
   (runtimeError + LcState) \<times> ('x, 'd) Runtime \<times> rtNotice list" where
  "runWorkspaceMutation env wid mutate rt =
     (case rtLifecycle rt of
        None \<Rightarrow> (Inl LifecycleUnavailable, rt, [])
      | Some (x, _) \<Rightarrow>
          (case mutate x of
             (Some e, x1) \<Rightarrow> (Inl (RtLifecycle e), setEngine x1 rt, [])
           | (None, x1) \<Rightarrow>
               (case workspaceState (reEngine env) x1 wid '''' (setEngine x1 rt) of
                  Inl e \<Rightarrow> (Inl e, setEngine x1 rt, [])
                | Inr s \<Rightarrow> (case notifyWorkspaceChanged wid (setEngine x1 rt) of (rt2, ns) \<Rightarrow> (Inr s, rt2, ns)))))"

definition Runtime_Activate ::
  "('w, 'x) RtEnv \<Rightarrow> string \<Rightarrow> string \<Rightarrow> ('x, 'd) Runtime \<Rightarrow> (runtimeError + LcState) \<times> ('x, 'd) Runtime \<times> rtNotice list" where
  "Runtime_Activate env workspaceID operationKey rt =
     (if rtLifecycle rt = None then (Inl LifecycleUnavailable, rt, [])
      else let key = TrimSpace operationKey
      in if key = '''' then (Inl ActivationKeyRequired, rt, [])
         else case File_Current (rtWorkspaces rt) (TrimSpace workspaceID) of
           Inl e \<Rightarrow> (Inl (RtCatalog e), rt, [])
         | Inr desired \<Rightarrow> runWorkspaceMutation env (dsWorkspaceID desired)
             (Lifecycle_Activate (reEngine env) (dsWorkspaceID desired) (dsRevision desired) key) rt)"

definition keyedMutation ::
  "('w, 'x) RtEnv \<Rightarrow> (string \<Rightarrow> string \<Rightarrow> 'x \<Rightarrow> lifecycleError option \<times> 'x) \<Rightarrow> string \<Rightarrow> string \<Rightarrow> ('x, 'd) Runtime \<Rightarrow>
   (runtimeError + LcState) \<times> ('x, 'd) Runtime \<times> rtNotice list" where
  "keyedMutation env mutate workspaceID operationKey rt =
     (case validateWorkspaceMutation workspaceID operationKey of
        Inl e \<Rightarrow> (Inl e, rt, [])
      | Inr (wid, key) \<Rightarrow> runWorkspaceMutation env wid (mutate wid key) rt)"

definition Runtime_Recover where
  "Runtime_Recover env = keyedMutation env (Lifecycle_Recover (reEngine env))"

definition Runtime_Resume where
  "Runtime_Resume env = keyedMutation env (Lifecycle_Resume (reEngine env))"

definition Runtime_Close where
  "Runtime_Close env = keyedMutation env (Lifecycle_Close (reEngine env))"

definition Runtime_Suspend ::
  "('w, 'x) RtEnv \<Rightarrow> string \<Rightarrow> ('x, 'd) Runtime \<Rightarrow> (runtimeError + LcState) \<times> ('x, 'd) Runtime \<times> rtNotice list" where
  "Runtime_Suspend env workspaceID rt =
     (case validateWorkspaceID workspaceID of
        Inl e \<Rightarrow> (Inl e, rt, [])
      | Inr wid \<Rightarrow> runWorkspaceMutation env wid (Lifecycle_Suspend (reEngine env) wid) rt)"

section \<open>Reading\<close>

definition Runtime_WorkspaceState :: "('w, 'x) RtEnv \<Rightarrow> string \<Rightarrow> ('x, 'd) Runtime \<Rightarrow> runtimeError + LcState" where
  "Runtime_WorkspaceState env workspaceID rt =
     (case validateWorkspaceID workspaceID of
        Inl e \<Rightarrow> Inl e
      | Inr wid \<Rightarrow>
          (case rtLifecycle rt of
             None \<Rightarrow> Inl LifecycleUnavailable
           | Some (x, _) \<Rightarrow> workspaceState (reEngine env) x wid '''' rt))"

record WorkspaceStatesSnapshot =
  wssSchema :: "32 word"
  wssRevision :: "64 word"
  wssCatalogRevision :: "64 word"
  wssStates :: "LcState list"

definition addState ::
  "('w, 'x) RtEnv \<Rightarrow> 'x \<Rightarrow> WorkspaceSnapshot \<Rightarrow> ('x, 'd) Runtime \<Rightarrow> LcState list \<Rightarrow> string \<Rightarrow> runtimeError + LcState list" where
  "addState env x snapshot rt states wid =
     (case workspaceState (reEngine env) x wid (mapGet '''' (wsActive snapshot) wid) rt of
        Inl e \<Rightarrow> Inl e
      | Inr s \<Rightarrow> Inr (states @ [s]))"

definition Runtime_WorkspaceStates :: "('w, 'x) RtEnv \<Rightarrow> ('x, 'd) Runtime \<Rightarrow> runtimeError + WorkspaceStatesSnapshot" where
  "Runtime_WorkspaceStates env rt =
     (case rtLifecycle rt of
        None \<Rightarrow> Inl LifecycleUnavailable
      | Some (x, _) \<Rightarrow>
          let snapshot = File_Snapshot (rtWorkspaces rt);
              ids = sortStrings (map fst (reKeys env (wsActive snapshot)))
          in case foldE (addState env x snapshot rt) [] ids of
               Inl e \<Rightarrow> Inl e
             | Inr states \<Rightarrow> Inr \<lparr>wssSchema = 1, wssRevision = rtStateRevision rt,
                 wssCatalogRevision = wsRevision snapshot, wssStates = states\<rparr>)"

definition Runtime_Tree :: "('x, 'd) Runtime \<Rightarrow> runtimeError + ctSnapshot" where
  "Runtime_Tree rt = (case Manager_Snapshot (rtHierarchy rt) of None \<Rightarrow> Inl NoHierarchy | Some s \<Rightarrow> Inr s)"

definition Runtime_Path :: "string \<Rightarrow> ('x, 'd) Runtime \<Rightarrow> (runtimeError + ctNode list) option" where
  "Runtime_Path nodeID rt =
     map_option (\<lambda>r. case r of Inl e \<Rightarrow> Inl (RtTree e) | Inr p \<Rightarrow> Inr p) (Manager_Path (rtHierarchy rt) nodeID)"

record RuntimeHealth = HealthPayload +
  hpHierarchyRevision :: "64 word"
  hpHierarchyValid :: bool
  hpHierarchyError :: "contextError option"
  hpCatalogRevision :: "64 word"
  hpDefinitions :: int
  hpCatalogValid :: bool
  hpLifecycleReady :: bool
  hpStateRevision :: "64 word"
  hpCatalogError :: "catalogError option"

text \<open>
  The health of the hub is decoded into \<open>any\<close> and encoded again, so its 64-bit numbers pass through
  a \<open>float64\<close>: \<open>num\<close> is what that makes of one (the number itself up to 2 to the power of 53).
\<close>

definition Runtime_Health :: "(64 word \<Rightarrow> 64 word) \<Rightarrow> ('x, 'd) Runtime \<Rightarrow> RuntimeHealth" where
  "Runtime_Health num rt =
     (let base = Hub_Health (rtHub rt);
          payload = base\<lparr>hpGeneration := num (hpGeneration base), hpPanelRevision := num (hpPanelRevision base),
            hpConfigRevision := num (hpConfigRevision base),
            hpProviders := map (\<lambda>p. p\<lparr>phRevision := num (phRevision p)\<rparr>) (hpProviders base)\<rparr>
      in HealthPayload.extend payload
       (RuntimeHealth.fields (cmRevision (rtHierarchy rt)) (Manager_Valid (rtHierarchy rt)) (cmLastErr (rtHierarchy rt))
          (wsRevision (File_Snapshot (rtWorkspaces rt))) (wsDefinitionCount (File_Snapshot (rtWorkspaces rt)))
          (File_Valid (rtWorkspaces rt)) (rtLifecycle rt \<noteq> None) (rtStateRevision rt) (cfLastErr (rtWorkspaces rt))))"

section \<open>Maintenance\<close>

text \<open>One tick of each loop, with the error it reports.\<close>

definition hierarchyTick ::
  "('w, 'x) RtEnv \<Rightarrow> 'w \<Rightarrow> ('x, 'd) Runtime \<Rightarrow> runtimeError option \<times> ('x, 'd) Runtime \<times> rtNotice list" where
  "hierarchyTick env w rt =
     (case Manager_Poll (reTree env) (reFS env) w (rtHierarchy rt) of
        (Inl e, m) \<Rightarrow> (Some (RtTree e), rt\<lparr>rtHierarchy := m\<rparr>, [])
      | (Inr changed, m) \<Rightarrow> (None, rt\<lparr>rtHierarchy := m\<rparr>, if changed \<and> rtOnTreeChanged rt then [TreeChanged (cmRevision m)] else []))"

definition workspaceTick ::
  "('w, 'x) RtEnv \<Rightarrow> 'w \<Rightarrow> ('x, 'd) Runtime \<Rightarrow> runtimeError option \<times> ('x, 'd) Runtime \<times> rtNotice list" where
  "workspaceTick env w rt =
     (case File_Poll (reCatalog env) (reFS env) w (rtWorkspaces rt) of
        (Inl e, f) \<Rightarrow> (Some (RtCatalog e), rt\<lparr>rtWorkspaces := f\<rparr>, [])
      | (Inr changed, f) \<Rightarrow>
          (let rt1 = rt\<lparr>rtWorkspaces := f\<rparr>
           in if changed then (case notifyWorkspaceChanged '''' rt1 of (rt2, ns) \<Rightarrow> (None, rt2, ns))
              else (None, rt1, [])))"


section \<open>Histories\<close>

datatype 'w rtOp =
    RtActivate string string
  | RtRecover string string
  | RtResume string string
  | RtSuspend string
  | RtClose string string
  | RtShellPayload int string
  | RtIngest int ProviderSnapshot
  | RtConfigureHierarchy string 'w
  | RtConfigureWorkspaces string 'w
  | RtHierarchyTick 'w
  | RtWorkspaceTick 'w
  | RtSetNotifiers bool bool
  | RtSetTreeNotifier bool
  | RtSetWorkspaceNotifier bool

text \<open>The runtime after an operation, and the notifications it sent.\<close>

fun rtStep :: "('w, 'x) RtEnv \<Rightarrow> 'w rtOp \<Rightarrow> ('x, 'd) Runtime \<Rightarrow> ('x, 'd) Runtime \<times> rtNotice list" where
  "rtStep env (RtActivate w k) rt = snd (Runtime_Activate env w k rt)"
| "rtStep env (RtRecover w k) rt = snd (Runtime_Recover env w k rt)"
| "rtStep env (RtResume w k) rt = snd (Runtime_Resume env w k rt)"
| "rtStep env (RtSuspend w) rt = snd (Runtime_Suspend env w rt)"
| "rtStep env (RtClose w k) rt = snd (Runtime_Close env w k rt)"
| "rtStep env (RtShellPayload now p) rt = snd (Runtime_ReplaceShell env now p rt)"
| "rtStep env (RtIngest now s) rt =
     (case Hub_Ingest (reHub env) now s (rtHub rt) of (_, h, ns) \<Rightarrow> (rt\<lparr>rtHub := h\<rparr>, map HubNotice ns))"
| "rtStep env (RtConfigureHierarchy p w) rt = (snd (snd (ConfigureHierarchy env p w rt)), [])"
| "rtStep env (RtConfigureWorkspaces p w) rt = (snd (snd (ConfigureWorkspaces env p w rt)), [])"
| "rtStep env (RtHierarchyTick w) rt = snd (hierarchyTick env w rt)"
| "rtStep env (RtWorkspaceTick w) rt = snd (workspaceTick env w rt)"
| "rtStep env (RtSetNotifiers p c) rt = (rt\<lparr>rtHub := SetNotifiers p c (rtHub rt)\<rparr>, [])"
| "rtStep env (RtSetTreeNotifier b) rt = (SetTreeNotifier b rt, [])"
| "rtStep env (RtSetWorkspaceNotifier b) rt = (SetWorkspaceNotifier b rt, [])"

fun rtRun :: "('w, 'x) RtEnv \<Rightarrow> 'w rtOp list \<Rightarrow> ('x, 'd) Runtime \<times> rtNotice list \<Rightarrow> ('x, 'd) Runtime \<times> rtNotice list" where
  "rtRun env [] st = st"
| "rtRun env (op # ops) (rt, ns) = (case rtStep env op rt of (rt', ns') \<Rightarrow> rtRun env ops (rt', ns @ ns'))"

text \<open>A runtime whose lifecycle has just been opened with the engine in state \<open>x\<close>.\<close>

definition openRuntime :: "Hub option \<Rightarrow> 'x \<Rightarrow> 'd \<Rightarrow> ('x, 'd) Runtime" where
  "openRuntime hub x store = (NewRuntime hub)\<lparr>rtLifecycle := Some (x, Some store)\<rparr>"

lemma rtRun_invariant:
  assumes "I (rt, ns)"
    and "\<And>op rt ns rt' ns'. I (rt, ns) \<Longrightarrow> rtStep env op rt = (rt', ns') \<Longrightarrow> I (rt', ns @ ns')"
  shows "I (rtRun env ops (rt, ns))"
  using assms(1) by (induction ops arbitrary: rt ns) (auto split: prod.split intro: assms(2))

lemma setEngine_simps [simp]:
  "rtHub (setEngine x rt) = rtHub rt" "rtHierarchy (setEngine x rt) = rtHierarchy rt"
  "rtWorkspaces (setEngine x rt) = rtWorkspaces rt" "rtStateRevision (setEngine x rt) = rtStateRevision rt"
  "rtShellSnapshot (setEngine x rt) = rtShellSnapshot rt" "rtOnTreeChanged (setEngine x rt) = rtOnTreeChanged rt"
  "rtOnWorkspaceChanged (setEngine x rt) = rtOnWorkspaceChanged rt"
  "rtLifecycle (setEngine x rt) = map_option (\<lambda>(_, store). (x, store)) (rtLifecycle rt)"
  by (simp_all add: setEngine_def)

text \<open>Everything a mutation can do.\<close>

lemma runWorkspaceMutation_cases:
  assumes "runWorkspaceMutation env wid mutate rt = (res, rt', ns)" and "rtLifecycle rt = Some (x, store)"
  obtains (refused) "rt' = setEngine (snd (mutate x)) rt" "ns = []" "\<exists>e. res = Inl e"
  | (applied) "fst (mutate x) = None" "rt' = (setEngine (snd (mutate x)) rt)\<lparr>rtStateRevision := rtStateRevision rt + 1\<rparr>"
      "ns = (if rtOnWorkspaceChanged rt then [WorkspaceChanged wid (rtStateRevision rt + 1)] else [])"
      "\<exists>s. res = Inr s \<and> workspaceState (reEngine env) (snd (mutate x)) wid '''' (setEngine (snd (mutate x)) rt) = Inr s"
  using assms
  by (auto simp: runWorkspaceMutation_def notifyWorkspaceChanged_eq Let_def split: prod.splits option.splits sum.splits)
    metis

lemma runWorkspaceMutation_closed:
  "rtLifecycle rt = None \<Longrightarrow> runWorkspaceMutation env wid mutate rt = (Inl LifecycleUnavailable, rt, [])"
  by (simp add: runWorkspaceMutation_def)

text \<open>The mutations, as one lemma: refused without any effect, or one operation of the lifecycle.\<close>

definition mutates :: "('w, 'x) RtEnv \<Rightarrow> ('x, 'd) Runtime \<Rightarrow> ('x, 'd) Runtime \<Rightarrow> rtNotice list \<Rightarrow> bool" where
  "mutates env rt rt' ns \<longleftrightarrow> rt' = rt \<and> ns = [] \<or>
     (\<exists>x store op. rtLifecycle rt = Some (x, store) \<and>
        (rt' = setEngine (lcStep (reEngine env) x op) rt \<and> ns = [] \<or>
         (\<exists>wid. rt' = (setEngine (lcStep (reEngine env) x op) rt)\<lparr>rtStateRevision := rtStateRevision rt + 1\<rparr> \<and>
                ns = (if rtOnWorkspaceChanged rt then [WorkspaceChanged wid (rtStateRevision rt + 1)] else []))))"

lemma runWorkspaceMutation_mutates:
  assumes "runWorkspaceMutation env wid mutate rt = (res, rt', ns)" and "\<And>x. snd (mutate x) = lcStep (reEngine env) x op"
  shows "mutates env rt rt' ns"
proof (cases "rtLifecycle rt")
  case None
  with assms(1) show ?thesis by (simp add: runWorkspaceMutation_closed mutates_def)
next
  case (Some l)
  obtain x store where l: "l = (x, store)" by fastforce
  show ?thesis
    using assms(1) Some unfolding l
    by (cases rule: runWorkspaceMutation_cases) (use Some l assms(2) in \<open>auto simp: mutates_def\<close>)
qed


lemma keyedMutation_mutates:
  assumes "keyedMutation env mutate wid k rt = (res, rt', ns)"
    and "\<And>w k x. snd (mutate w k x) = lcStep (reEngine env) x (op w k)"
  shows "mutates env rt rt' ns"
proof (cases "validateWorkspaceMutation wid k")
  case (Inl e)
  with assms(1) show ?thesis by (simp add: keyedMutation_def mutates_def)
next
  case (Inr v)
  obtain w' k' where v: "v = (w', k')" by fastforce
  have "runWorkspaceMutation env w' (mutate w' k') rt = (res, rt', ns)"
    using assms(1) Inr v by (simp add: keyedMutation_def)
  from runWorkspaceMutation_mutates [OF this assms(2)] show ?thesis .
qed

lemma mutations:
  "snd (Runtime_Activate env w k rt) = (rt', ns) \<Longrightarrow> mutates env rt rt' ns"
  "snd (Runtime_Recover env w k rt) = (rt', ns) \<Longrightarrow> mutates env rt rt' ns"
  "snd (Runtime_Resume env w k rt) = (rt', ns) \<Longrightarrow> mutates env rt rt' ns"
  "snd (Runtime_Suspend env w rt) = (rt', ns) \<Longrightarrow> mutates env rt rt' ns"
  "snd (Runtime_Close env w k rt) = (rt', ns) \<Longrightarrow> mutates env rt rt' ns"
proof -
  have same: "mutates env rt rt []" by (simp add: mutates_def)
  show "snd (Runtime_Activate env w k rt) = (rt', ns) \<Longrightarrow> mutates env rt rt' ns"
    using same runWorkspaceMutation_mutates [of env _ _ rt _ rt' ns "OpActivate _ _ _"]
    by (auto simp: Runtime_Activate_def Let_def split: if_splits sum.splits)
      (metis eq_snd_iff lcStep.simps(1))
  show "snd (Runtime_Suspend env w rt) = (rt', ns) \<Longrightarrow> mutates env rt rt' ns"
    using same runWorkspaceMutation_mutates [of env _ _ rt _ rt' ns "OpSuspend _"]
    by (auto simp: Runtime_Suspend_def split: sum.splits) (metis eq_snd_iff lcStep.simps(4))
  show "snd (Runtime_Recover env w k rt) = (rt', ns) \<Longrightarrow> mutates env rt rt' ns"
    "snd (Runtime_Resume env w k rt) = (rt', ns) \<Longrightarrow> mutates env rt rt' ns"
    "snd (Runtime_Close env w k rt) = (rt', ns) \<Longrightarrow> mutates env rt rt' ns"
    unfolding Runtime_Recover_def Runtime_Resume_def Runtime_Close_def
    by (metis eq_snd_iff keyedMutation_mutates lcStep.simps(2,3,5))+
qed


section \<open>What histories keep\<close>

text \<open>
  An operation either is a mutation, or counts one change of the catalogue, or leaves the lifecycle and the
  revision alone.
\<close>

definition quietStep :: "('x, 'd) Runtime \<Rightarrow> ('x, 'd) Runtime \<Rightarrow> bool" where
  "quietStep rt rt' \<longleftrightarrow> rtLifecycle rt' = rtLifecycle rt \<and>
     (rtStateRevision rt' = rtStateRevision rt \<or> rtStateRevision rt' = rtStateRevision rt + 1)"

lemma rtStep_kinds:
  assumes "rtStep env op rt = (rt', ns)"
  shows "mutates env rt rt' ns \<or> quietStep rt rt'"
proof (cases op)
  case (RtShellPayload now p)
  with assms show ?thesis
    by (auto simp: Runtime_ReplaceShell_def shellToHub_def shellRetain_def quietStep_def
        split: sum.splits prod.splits option.splits)
next
  case (RtWorkspaceTick w)
  with assms show ?thesis
    by (auto simp: workspaceTick_def notifyWorkspaceChanged_eq Let_def quietStep_def
        split: sum.splits prod.splits if_splits)
next
  case (RtHierarchyTick w)
  with assms show ?thesis
    by (auto simp: hierarchyTick_def quietStep_def split: sum.splits prod.splits if_splits)
qed (use assms in \<open>auto simp: quietStep_def ConfigureHierarchy_def ConfigureWorkspaces_def SetTreeNotifier_def SetWorkspaceNotifier_def
    split: prod.splits dest: mutations\<close>)

lemma mutates_frame:
  "mutates env rt rt' ns \<Longrightarrow> rtWorkspaces rt' = rtWorkspaces rt \<and> rtShellSnapshot rt' = rtShellSnapshot rt \<and>
     rtHierarchy rt' = rtHierarchy rt \<and> rtHub rt' = rtHub rt"
  by (auto simp: mutates_def)

text \<open>The engine has run some operations of the lifecycle, and the catalogue some of its events.\<close>

lemma reachedFile_step: "reachedFile dec it fs f \<Longrightarrow> reachedFile dec it fs (fileStep (compileWorkspaceFile dec it) fs f ev)"
  unfolding reachedFile_def by (elim exE) (rule_tac x = "evs @ [ev]" in exI, simp)


lemma rtStep_catalog:
  assumes "reachedFile dec it (reFS env) (rtWorkspaces rt)" and "reCatalog env = compileWorkspaceFile dec it"
    and "rtStep env op rt = (rt', ns)"
  shows "reachedFile dec it (reFS env) (rtWorkspaces rt')"
proof -
  have mut: "mutates env rt rt' ns \<Longrightarrow> ?thesis" using mutates_frame assms(1) by metis
  show ?thesis
  proof (cases op)
    case (RtShellPayload now p)
    with assms show ?thesis
      by (auto simp: Runtime_ReplaceShell_def shellToHub_def shellRetain_def split: sum.splits prod.splits option.splits)
  next
    case (RtWorkspaceTick w)
    have "rtWorkspaces rt' = fileStep (reCatalog env) (reFS env) (rtWorkspaces rt) (PollFile w)"
      using assms(3) RtWorkspaceTick
      by (auto simp: workspaceTick_def fileStep_def notifyWorkspaceChanged_eq Let_def split: sum.splits prod.splits if_splits)
    then show ?thesis using reachedFile_step assms(1,2) by metis
  next
    case (RtHierarchyTick w)
    with assms show ?thesis by (auto simp: hierarchyTick_def split: sum.splits prod.splits if_splits)
  next
    case (RtConfigureWorkspaces p w)
    have "rtWorkspaces rt' = snd (snd (File_Configure (reCatalog env) (reFS env) p w (rtWorkspaces rt)))"
      using assms(3) RtConfigureWorkspaces by (auto simp: ConfigureWorkspaces_def split: prod.splits)
    then show ?thesis
      using File_Configure_events [of "reCatalog env" "reFS env" p w "rtWorkspaces rt"] assms(1,2)
      by (auto intro!: reachedFile_step)
  next
    case (RtIngest now s)
    with assms show ?thesis by (auto split: prod.splits)
  next
    case (RtConfigureHierarchy p w)
    with assms show ?thesis by (auto simp: ConfigureHierarchy_def split: prod.splits)
  qed (use assms(1,3) in \<open>auto simp: SetTreeNotifier_def SetWorkspaceNotifier_def dest: mutations intro: mut\<close>)
qed


definition lifecycleHistory :: "'x Engine \<Rightarrow> 'x \<Rightarrow> ('x, 'd) Runtime \<Rightarrow> bool" where
  "lifecycleHistory en x0 rt \<longleftrightarrow> (\<exists>x store. rtLifecycle rt = Some (x, store) \<and> (\<exists>ops. x = foldl (lcStep en) x0 ops))"

lemma lifecycleHistory_mutates:
  assumes "lifecycleHistory (reEngine env) x0 rt" and "mutates env rt rt' ns"
  shows "lifecycleHistory (reEngine env) x0 rt'"
proof -
  from assms(1) obtain x store ops where x: "rtLifecycle rt = Some (x, store)" "x = foldl (lcStep (reEngine env)) x0 ops"
    unfolding lifecycleHistory_def by blast
  have "\<exists>ops'. lcStep (reEngine env) x op = foldl (lcStep (reEngine env)) x0 ops'" for op
    by (rule exI [of _ "ops @ [op]"]) (simp add: x(2))
  with assms x show ?thesis by (auto simp: mutates_def lifecycleHistory_def)
qed

lemma rtRun_history:
  assumes "rtRun env ops (openRuntime hub x0 store, []) = (rt, ns)" and "reCatalog env = compileWorkspaceFile dec it"
  shows "lifecycleHistory (reEngine env) x0 rt \<and> reachedFile dec it (reFS env) (rtWorkspaces rt)"
proof -
  let ?I = "\<lambda>(rt, ns :: rtNotice list). lifecycleHistory (reEngine env) x0 rt \<and> reachedFile dec it (reFS env) (rtWorkspaces rt)"
  have "?I (rtRun env ops (openRuntime hub x0 store, []))"
  proof (rule rtRun_invariant)
    have "\<exists>ops. x0 = foldl (lcStep (reEngine env)) x0 ops" by (rule exI [of _ "[]"]) simp
    moreover have "reachedFile dec it (reFS env) NewFile"
      unfolding reachedFile_def by (rule exI [of _ "[]"]) simp
    ultimately show "?I (openRuntime hub x0 store, [])"
      by (simp add: openRuntime_def NewRuntime_def lifecycleHistory_def)
  next
    fix op rt ns rt' ns'
    assume I: "?I (rt, ns)" and step: "rtStep env op rt = (rt', ns')"
    have "lifecycleHistory (reEngine env) x0 rt'"
      using rtStep_kinds [OF step]
    proof
      assume "mutates env rt rt' ns'"
      with I show ?thesis using lifecycleHistory_mutates by auto
    next
      assume "quietStep rt rt'"
      then show ?thesis using I by (simp add: quietStep_def lifecycleHistory_def)
    qed
    with I rtStep_catalog [OF _ assms(2) step] show "?I (rt', ns @ ns')" by simp
  qed
  then show ?thesis by (simp add: assms(1))
qed

section \<open>What the daemon reports\<close>

lemma workspaceState_active:
  "workspaceState en x wid r rt = Inr s \<Longrightarrow> lcStatus s = StatusActive \<Longrightarrow>
   \<exists>s0. Lifecycle_State en wid x = Inr s0 \<and> lcStatus s0 = StatusActive \<and>
     (lcDefinitionRevision s0 \<noteq> '''' \<longrightarrow> lcDefinitionRevision s = lcDefinitionRevision s0) \<and>
     lcReachedRequired s = lcReachedRequired s0 \<and> lcTotalRequired s = lcTotalRequired s0"
  by (auto simp: workspaceState_def Let_def statuses split: sum.splits if_splits)

text \<open>A required resource as the snapshots show it: a window, or the anchor window in its place.\<close>

definition shownAsRequired :: "SurfaceSnapshot \<Rightarrow> ShellSnapshot \<Rightarrow> ResourceSpec \<Rightarrow> bool" where
  "shownAsRequired snapshot shell r \<longleftrightarrow>
     rsKind r = ResourceDesktopApp \<and>
     (\<exists>app. findApplication snapshot (rsDesktopAppID r) = Some app \<and>
        (if rsPlacement r = None then asWindows app \<noteq> []
         else \<exists>target sapp w. resolvePlacement (rsPlacement r) (shTopology shell) = Inr target \<and>
           findShellApplication shell (rsDesktopAppID r) = Some sapp \<and> anchorWindow sapp = Some w \<and>
           placementReached target w (tpRevision (shTopology shell))))"

lemma reached_shown:
  assumes "distinct (map rsID (dsResources desired))" and "r \<in> set (dsResources desired)"
    and "reached (observedState marshal managed snapshot shell desired) r"
  shows "shownAsRequired snapshot shell r"
proof -
  from assms(3) obtain ob where ob: "observeResource marshal managed snapshot shell desired r = Some ob" "roReady ob"
    by (auto simp: reached_def observed_resource [OF assms(1,2)] split: option.splits)
  obtain app where app: "rsKind r = ResourceDesktopApp" "findApplication snapshot (rsDesktopAppID r) = Some app"
    "rsPlacement r = None \<Longrightarrow> roReady ob \<longleftrightarrow> asWindows app \<noteq> []"
    by (rule observeResource_Some [OF ob(1)]) (rule that; assumption)
  show ?thesis
  proof (cases "rsPlacement r = None")
    case True
    with app ob(2) show ?thesis by (simp add: shownAsRequired_def)
  next
    case False
    from ob obtain ob0 where "roReady (observePlacement shell r ob0)"
      by (auto simp: observeResource_def split: if_splits option.splits)
    from observePlacement_ready [OF False this] app False show ?thesis
      unfolding shownAsRequired_def by metis
  qed
qed


lemma reconciled_shown:
  assumes "Reconcile (shellDesktop se) s desired = (Inr result, s')" and "DesiredState_Validate desired = None"
    and "seReader se = Some (runtimeReader world others)"
  obtains w where "\<And>r. r \<in> set (dsResources desired) \<Longrightarrow> reached (resObserved result) r \<Longrightarrow>
    shownAsRequired (HubSurfaceSnapshot (rtHub (world w))) (Runtime_ShellSnapshot (world (others w))) r"
proof -
  from Reconcile_Inr [OF assms(1)] obtain s2 where o: "shellObserve se s2 desired = (Inr (resObserved result), s')"
    by (auto simp: shellDesktop_def)
  obtain reader snapshot w1 shell w2 where r: "seReader se = Some reader" "srSurface reader (adWorld s2) = (snapshot, w1)"
    "srShell reader w1 = (shell, w2)" "resObserved result = observedState (seMarshal se) (adManaged s2) snapshot shell desired"
    by (rule shellObserve_Inr [OF o]) (rule that; assumption)
  have "snapshot = HubSurfaceSnapshot (rtHub (world (adWorld s2)))"
    "shell = Runtime_ShellSnapshot (world (others (adWorld s2)))"
    using r(1-3) assms(3) by (auto simp: runtimeReader_def)
  moreover have "distinct (map rsID (dsResources desired))"
    using assms(2) by (simp add: DesiredState_Validate_iff validDesired_def)
  ultimately show thesis
    by (intro that [of "adWorld s2"]) (auto simp: r(4) intro: reached_shown)
qed

text \<open>
  C1. When the daemon reports a workspace active, its windows are there: the definition that the report
  names was valid and in the catalogue, and at some moment the hub's surfaces showed, and the shell
  snapshot retained next confirmed, every required resource of it as a running desktop application with a
  window, and where the definition places it with the anchor window on the monitor and workspace and in
  the rectangle that the placement resolves to. This is for any history of operations, catalogue reloads
  and failures, and whatever the other threads do in between.
\<close>

theorem reported_active_is_shown:
  assumes "engineRuns (lifecycleActs (\<lambda>s. File_Resolve (cat (adWorld s))) (shellDesktop se)) (reEngine env) cur"
    and "\<And>w. reachedFile dec it fs (cat w)" and "\<And>wid. cur x0 wid = None"
    and "seReader se = Some (runtimeReader world others)"
    and "reCatalog env = compileWorkspaceFile dec it"
    and "rtRun env ops (openRuntime hub x0 store, []) = (rt, ns)"
    and "Runtime_WorkspaceState env wid rt = Inr s" and "lcStatus s = StatusActive"
  shows "\<exists>desired wc w. File_Resolve (cat wc) (TrimSpace wid) (lcDefinitionRevision s) = Inr desired \<and>
    DesiredState_Validate desired = None \<and>
    (\<forall>r \<in> set (dsResources desired). rsRequired r \<longrightarrow>
       shownAsRequired (HubSurfaceSnapshot (rtHub (world w))) (Runtime_ShellSnapshot (world (others w))) r) \<and>
    lcReachedRequired s = int (length (filter rsRequired (dsResources desired))) \<and>
    lcTotalRequired s = lcReachedRequired s"
proof -
  from rtRun_history [OF assms(6,5)] obtain x l lops where x: "rtLifecycle rt = Some (x, l)"
    "x = foldl (lcStep (reEngine env)) x0 lops" unfolding lifecycleHistory_def by blast
  let ?id = "TrimSpace wid"
  from assms(7) x(1) have "workspaceState (reEngine env) x ?id '''' rt = Inr s"
    by (auto simp: Runtime_WorkspaceState_def validateWorkspaceID_def Let_def split: if_splits)
  from workspaceState_active [OF this assms(8)] obtain s0 where
    s0: "Lifecycle_State (reEngine env) ?id x = Inr s0" "lcStatus s0 = StatusActive"
    "lcDefinitionRevision s0 \<noteq> '''' \<longrightarrow> lcDefinitionRevision s = lcDefinitionRevision s0"
    "lcReachedRequired s = lcReachedRequired s0" "lcTotalRequired s = lcTotalRequired s0" by blast
  from active_observed [OF assms(1,2,3) s0(1) [unfolded x(2)] s0(2)]
  obtain w desired result w' where o: "lcDefinitionRevision s0 \<noteq> ''''"
    "File_Resolve (cat (adWorld w)) ?id (lcDefinitionRevision s0) = Inr desired" "DesiredState_Validate desired = None"
    "Reconcile (shellDesktop se) w desired = (Inr result, w')"
    "\<forall>r \<in> set (dsResources desired). rsRequired r \<longrightarrow> reached (resObserved result) r"
    "lcReachedRequired s0 = int (length (filter rsRequired (dsResources desired)))"
    "lcTotalRequired s0 = lcReachedRequired s0" by blast
  obtain w0 where "\<And>r. r \<in> set (dsResources desired) \<Longrightarrow> reached (resObserved result) r \<Longrightarrow>
    shownAsRequired (HubSurfaceSnapshot (rtHub (world w0))) (Runtime_ShellSnapshot (world (others w0))) r"
    by (rule reconciled_shown [OF o(4,3) assms(4)]) (rule that)
  with o s0 show ?thesis by (intro exI [of _ desired] exI [of _ "adWorld w"] exI [of _ w0]) simp
qed


lemma foldE_addState:
  "foldE (addState env x snapshot rt) acc ids = Inr states \<Longrightarrow>
   \<exists>ss. states = acc @ ss \<and>
     list_all2 (\<lambda>wid s. workspaceState (reEngine env) x wid (mapGet '''' (wsActive snapshot) wid) rt = Inr s) ids ss"
proof (induction ids arbitrary: acc)
  case (Cons wid ids)
  show ?case
  proof (cases "workspaceState (reEngine env) x wid (mapGet '''' (wsActive snapshot) wid) rt")
    case (Inl e)
    then have "addState env x snapshot rt acc wid = Inl e" by (simp add: addState_def)
    with Cons.prems show ?thesis by simp
  next
    case (Inr s)
    then have "addState env x snapshot rt acc wid = Inr (acc @ [s])" by (simp add: addState_def)
    with Cons.prems have "foldE (addState env x snapshot rt) (acc @ [s]) ids = Inr states" by simp
    from Cons.IH [OF this] Inr show ?thesis by fastforce
  qed
qed simp

lemma list_all2_map: "list_all2 (\<lambda>x y. f y = x \<and> P y) xs ys \<Longrightarrow> map f ys = xs \<and> list_all P ys"
  by (induction rule: list_all2_induct) auto

lemma workspaceState_identity:
  assumes "workspaceState en x wid r rt = Inr s" and "lcGood resolve dk wid (stateOr (cur x wid))"
    and "engineRuns acts en cur"
  shows "lcWorkspaceID s = wid \<and> lcStatus s \<noteq> ''''"
proof -
  from assms(1) obtain s0 where s0: "Lifecycle_State en wid x = Inr s0"
    by (auto simp: workspaceState_def split: sum.splits)
  have "lcWorkspaceID s0 = '''' \<or> lcWorkspaceID s0 = wid"
  proof (cases "enState en wid x")
    case (Inl e)
    with s0 show ?thesis by (auto simp: Lifecycle_State_def split: if_splits)
  next
    case (Inr s')
    with assms(3) have "cur x wid = Some s'" unfolding engineRuns_def by blast
    with Inr s0 assms(2) show ?thesis by (auto simp: Lifecycle_State_def stateOr_def lcGood_def)
  qed
  with assms(1) s0 show ?thesis
    by (auto simp: workspaceState_def Let_def statuses split: if_splits)
qed

text \<open>
  C38. The list of workspace states is complete and in a fixed order: after any history of the daemon it
  has exactly one state for every workspace with an active revision in the catalogue, under that
  workspace's own identity and with a status, sorted by identifier whatever order the map of active
  revisions is visited in, and it carries the current revisions of the states and of the catalogue.
\<close>

theorem workspace_states_complete:
  assumes "engineRuns (lifecycleActs resolve dk) (reEngine env) cur" and "\<And>wid. cur x0 wid = None"
    and "reCatalog env = compileWorkspaceFile dec it" and "isIteration (reKeys env)"
    and "rtRun env ops (openRuntime hub x0 store, []) = (rt, ns)"
    and "Runtime_WorkspaceStates env rt = Inr snap"
  shows "sorted (map lcWorkspaceID (wssStates snap)) \<and> distinct (map lcWorkspaceID (wssStates snap)) \<and>
    set (map lcWorkspaceID (wssStates snap)) = dom (map_of (cfActive (rtWorkspaces rt))) \<and>
    list_all (\<lambda>s. lcStatus s \<noteq> '''') (wssStates snap) \<and>
    wssRevision snap = rtStateRevision rt \<and> wssCatalogRevision snap = cfRevision (rtWorkspaces rt)"
proof -
  from rtRun_history [OF assms(5,3)] obtain x l lops where x: "rtLifecycle rt = Some (x, l)"
    "x = foldl (lcStep (reEngine env)) x0 lops" unfolding lifecycleHistory_def by blast
  let ?active = "copyMap (cfActive (rtWorkspaces rt))"
  let ?ids = "sortStrings (map fst (reKeys env ?active))"
  from assms(6) x(1) have run: "foldE (addState env x (File_Snapshot (rtWorkspaces rt)) rt) [] ?ids = Inr (wssStates snap)"
    and rev: "wssRevision snap = rtStateRevision rt" "wssCatalogRevision snap = cfRevision (rtWorkspaces rt)"
    by (auto simp: Runtime_WorkspaceStates_def Let_def File_Snapshot_def split: sum.splits)
  have state: "lcWorkspaceID s = wid \<and> lcStatus s \<noteq> ''''"
    if "workspaceState (reEngine env) x wid r rt = Inr s" for wid r s
    by (rule workspaceState_identity [OF that lifecycle_good [OF assms(1,2), of wid lops, folded x(2)] assms(1)])
  from foldE_addState [OF run] have "list_all2 (\<lambda>wid s. lcWorkspaceID s = wid \<and> lcStatus s \<noteq> '''') ?ids (wssStates snap)"
    by (auto elim: list_all2_mono dest: state)
  from list_all2_map [OF this] have ids: "map lcWorkspaceID (wssStates snap) = ?ids"
    and status: "list_all (\<lambda>s. lcStatus s \<noteq> '''') (wssStates snap)" by simp_all
  have "distinct ?ids"
  proof -
    have "mset ?ids = mset (map fst ?active)"
      using isIteration_mset [OF assms(4)] by (simp add: sortStrings_def)
    moreover have "distinct (map fst ?active)" using wf_copyMap [of "cfActive (rtWorkspaces rt)"] by (simp add: wf_map_def)
    ultimately show ?thesis by (metis mset_eq_imp_distinct_iff)
  qed
  moreover have "set ?ids = dom (map_of (cfActive (rtWorkspaces rt)))"
    using isIteration_set [OF assms(4)] keys_copyMap [of "cfActive (rtWorkspaces rt)"]
    by (simp add: dom_map_of_conv_image_fst)
  ultimately show ?thesis unfolding ids using status rev by simp
qed

definition shellAccepted :: "('w, 'x) RtEnv \<Rightarrow> 'w rtOp \<Rightarrow> ('x, 'd) Runtime \<Rightarrow> string list" where
  "shellAccepted env op rt =
     (case op of RtShellPayload now p \<Rightarrow> if fst (Runtime_ReplaceShell env now p rt) = None then [p] else [] | _ \<Rightarrow> [])"

fun shellHistory :: "('w, 'x) RtEnv \<Rightarrow> 'w rtOp list \<Rightarrow> ('x, 'd) Runtime \<Rightarrow> string list" where
  "shellHistory env [] rt = []"
| "shellHistory env (op # ops) rt = shellAccepted env op rt @ shellHistory env ops (fst (rtStep env op rt))"

lemma rtStep_shell:
  "rtShellSnapshot (fst (rtStep env op rt)) =
     (if shellAccepted env op rt = [] then rtShellSnapshot rt
      else projr (Decode (reShell env) (hd (shellAccepted env op rt)))) \<and>
   (shellAccepted env op rt \<noteq> [] \<longrightarrow> (\<exists>p s. shellAccepted env op rt = [p] \<and> Decode (reShell env) p = Inr s))"
proof -
  have mutation_shell:
    "rtShellSnapshot (fst (snd (Runtime_Activate env w k rt))) = rtShellSnapshot rt"
    "rtShellSnapshot (fst (snd (Runtime_Recover env w k rt))) = rtShellSnapshot rt"
    "rtShellSnapshot (fst (snd (Runtime_Resume env w k rt))) = rtShellSnapshot rt"
    "rtShellSnapshot (fst (snd (Runtime_Suspend env w rt))) = rtShellSnapshot rt"
    "rtShellSnapshot (fst (snd (Runtime_Close env w k rt))) = rtShellSnapshot rt" for w k
    by (metis mutates_frame mutations surjective_pairing)+
  show ?thesis
  proof (cases op)
    case (RtShellPayload now p)
    then show ?thesis
      by (auto simp: shellAccepted_def Runtime_ReplaceShell_def shellToHub_def shellRetain_def
          split: sum.splits prod.splits option.splits)
  next
    case (RtWorkspaceTick w)
    then show ?thesis
      by (auto simp: shellAccepted_def workspaceTick_def notifyWorkspaceChanged_eq Let_def split: sum.splits prod.splits)
  next
    case (RtHierarchyTick w)
    then show ?thesis by (auto simp: shellAccepted_def hierarchyTick_def split: sum.splits prod.splits)
  qed (auto simp: shellAccepted_def ConfigureHierarchy_def ConfigureWorkspaces_def SetTreeNotifier_def SetWorkspaceNotifier_def
      mutation_shell split: prod.splits)
qed

text \<open>
  The placement observation is the last good one: after any history, the retained snapshot of the shell
  is the decoded payload of the last submission that succeeded, validated, or the empty one when none did;
  a payload that does not decode, does not validate or that the hub refuses leaves it alone.
\<close>

lemma shell_snapshot_last_good:
  "let rt0 = openRuntime hub x store; accepted = shellHistory env ops rt0; rt = fst (rtRun env ops (rt0, []))
   in list_all (\<lambda>p. \<not> isl (Decode (reShell env) p)) accepted \<and>
      Runtime_ShellSnapshot rt =
        (if accepted = [] then zeroShellSnapshot else projr (Decode (reShell env) (last accepted)))"
proof -
  have "list_all (\<lambda>p. \<not> isl (Decode (reShell env) p)) (shellHistory env ops rt) \<and>
      rtShellSnapshot (fst (rtRun env ops (rt, ns))) =
        (if shellHistory env ops rt = [] then rtShellSnapshot rt
         else projr (Decode (reShell env) (last (shellHistory env ops rt))))" for rt :: "('a, 'b) Runtime" and ns
  proof (induction ops arbitrary: rt ns)
    case (Cons op ops)
    obtain rt1 ns1 where s: "rtStep env op rt = (rt1, ns1)" by fastforce
    show ?case
      using Cons.IH [of rt1 "ns @ ns1"] rtStep_shell [of env op rt] by (auto simp: s)
  qed simp
  then show ?thesis
    by (simp add: Let_def Runtime_ShellSnapshot_def openRuntime_def NewRuntime_def)
qed

text \<open>
  Activating a workspace is refused for three reasons only: no operation key, no active revision of
  the workspace in the catalogue, or the engine's own error. The definition that is active is always
  there, so it is never reported missing, the identifier and revision sent to the lifecycle are never empty,
  and a refusal announces nothing; the first two do not touch the daemon's state either.
\<close>

lemma activate_refused:
  assumes "reachedFile dec it fs (rtWorkspaces rt)" and "rtLifecycle rt = Some (x, store)"
    and "Runtime_Activate env wid key rt = (Inl e, rt', ns)"
  shows "ns = [] \<and>
    (e = ActivationKeyRequired \<and> TrimSpace key = '''' \<and> rt' = rt \<or>
     e = RtCatalog (NoActiveRevision (TrimSpace wid)) \<and> TrimSpace wid \<notin> dom (map_of (cfActive (rtWorkspaces rt))) \<and> rt' = rt \<or>
     (\<exists>m. e = RtLifecycle (EngineError m)))"
proof -
  have good: "goodCatalog (cfDefinitions (rtWorkspaces rt), cfActive (rtWorkspaces rt))"
    using assms(1) unfolding reachedFile_def by (elim exE) (simp add: reachable_good [OF compile_good])
  consider (key) "TrimSpace key = ''''" | (inactive) "TrimSpace key \<noteq> ''''" "map_of (cfActive (rtWorkspaces rt)) (TrimSpace wid) = None"
    | (active) r where "TrimSpace key \<noteq> ''''" "map_of (cfActive (rtWorkspaces rt)) (TrimSpace wid) = Some r" by blast
  then show ?thesis
  proof cases
    case (active r)
    from goodCatalog_active [OF good active(2)] obtain d
      where d: "map_of (cfDefinitions (rtWorkspaces rt)) (definitionKey (TrimSpace wid) r) = Some d" ..
    from goodCatalog_definition [OF good d] have "validDesired d" by (simp add: DesiredState_Validate_iff)
    then have "dsWorkspaceID d \<noteq> ''''" "dsRevision d \<noteq> ''''"
      by (auto simp: validDesired_def validID_def blank_def)
    with active d assms(2,3) show ?thesis
      by (auto simp: Runtime_Activate_def File_Current_def Let_def runWorkspaceMutation_def Lifecycle_Activate_def
          sendEvent_def workspaceState_def Lifecycle_State_def notifyWorkspaceChanged_eq
          split: prod.splits option.splits sum.splits if_splits)
  qed (use assms(2,3) in \<open>auto simp: Runtime_Activate_def File_Current_def Let_def\<close>)
qed


section \<open>Announcements\<close>

text \<open>
  The notifier is called after the lock is released, so that the calls of several threads can overtake each
  other, and it is set after the bus has been opened. The state: the calls that are still to be made, one
  per thread; those that have been made; and for each change so far its workspace and whether a notifier
  was set then. Between the steps of one thread everything else in the runtime may change.
\<close>

record ('x, 'd) revSystem =
  rvRuntime :: "('x, 'd) Runtime"
  rvCalls :: "(nat \<times> string \<times> 64 word) list"
  rvSent :: "(string \<times> 64 word) list"
  rvChanges :: "(string \<times> bool) list"

definition newRevSystem :: "Hub option \<Rightarrow> ('x, 'd) revSystem" where
  "newRevSystem hub = \<lparr>rvRuntime = NewRuntime hub, rvCalls = [], rvSent = [], rvChanges = []\<rparr>"

inductive revStep :: "('x, 'd) revSystem \<Rightarrow> ('x, 'd) revSystem \<Rightarrow> bool" where
  change: "t \<notin> fst ` set (rvCalls S) \<Longrightarrow> incrementRevision (rvRuntime S) = (rt', revision, notify) \<Longrightarrow>
    revStep S (S\<lparr>rvRuntime := rt', rvCalls := rvCalls S @ (if notify then [(t, wid, revision)] else []),
      rvChanges := rvChanges S @ [(wid, rtOnWorkspaceChanged (rvRuntime S))]\<rparr>)"
| call: "rvCalls S = before @ (t, wid, revision) # after \<Longrightarrow>
    revStep S (S\<lparr>rvCalls := before @ after, rvSent := rvSent S @ [(wid, revision)]\<rparr>)"
| setNotifier: "revStep S (S\<lparr>rvRuntime := SetWorkspaceNotifier b (rvRuntime S)\<rparr>)"
| other: "rtStateRevision rt' = rtStateRevision (rvRuntime S) \<Longrightarrow>
    rtOnWorkspaceChanged rt' = rtOnWorkspaceChanged (rvRuntime S) \<Longrightarrow> revStep S (S\<lparr>rvRuntime := rt'\<rparr>)"

text \<open>The announcements that are due for the changes so far.\<close>

definition dueAnnouncements :: "(string \<times> bool) list \<Rightarrow> (string \<times> 64 word) list" where
  "dueAnnouncements changes = map (\<lambda>i. (fst (changes ! i), of_nat (i + 2))) (filter (\<lambda>i. snd (changes ! i)) [0..<length changes])"

lemma dueAnnouncements_Nil [simp]: "dueAnnouncements [] = []"
  by (simp add: dueAnnouncements_def)

lemma dueAnnouncements_snoc [simp]: "dueAnnouncements (changes @ [(wid, notify)]) = dueAnnouncements changes @ (if notify then [(wid, of_nat (length changes + 2))] else [])"
proof -
  have "filter (\<lambda>i. snd ((changes @ [(wid, notify)]) ! i)) [0..<length changes] = filter (\<lambda>i. snd (changes ! i)) [0..<length changes]"
    by (intro filter_cong refl) (simp add: nth_append)
  then show ?thesis by (auto simp: dueAnnouncements_def nth_append)
qed

definition revOK :: "('x, 'd) revSystem \<Rightarrow> bool" where
  "revOK S \<longleftrightarrow> rtStateRevision (rvRuntime S) = of_nat (length (rvChanges S) + 1) \<and> distinct (map fst (rvCalls S)) \<and>
     mset (rvSent S) + mset (map snd (rvCalls S)) = mset (dueAnnouncements (rvChanges S))"

lemma revStep_OK: "revStep S S' \<Longrightarrow> revOK S \<Longrightarrow> revOK S'"
proof (induction rule: revStep.induct)
  case (change t S rt' revision notify wid)
  then show ?case
    by (auto simp: revOK_def incrementRevision_def Let_def add.commute [of 1])
next
  case (call S before t wid revision after)
  then show ?case by (auto simp: revOK_def)
qed (auto simp: revOK_def SetWorkspaceNotifier_def)

text \<open>A notification without anything in between is these two steps.\<close>

lemma notifyWorkspaceChanged_steps:
  assumes "notifyWorkspaceChanged wid (rvRuntime S) = (rt', ns)" and "t \<notin> fst ` set (rvCalls S)"
  shows "revStep\<^sup>*\<^sup>* S (S\<lparr>rvRuntime := rt', rvSent := rvSent S @ map (\<lambda>n. (wid, rtStateRevision rt')) ns,
    rvChanges := rvChanges S @ [(wid, rtOnWorkspaceChanged (rvRuntime S))]\<rparr>)"
proof -
  let ?rt = "rvRuntime S" and ?cs = "rvCalls S"
  obtain revision notify where i: "incrementRevision ?rt = (rt', revision, notify)"
    and ns: "ns = (if notify then [WorkspaceChanged wid revision] else [])" and r: "revision = rtStateRevision rt'"
    using assms(1) by (auto simp: notifyWorkspaceChanged_def incrementRevision_def Let_def)
  note change = revStep.change [OF assms(2) i, of wid]
  let ?post = "S\<lparr>rvRuntime := rt', rvSent := rvSent S @ map (\<lambda>n. (wid, rtStateRevision rt')) ns,
    rvChanges := rvChanges S @ [(wid, rtOnWorkspaceChanged ?rt)]\<rparr>"
  show ?thesis
  proof (cases notify)
    case True
    let ?mid = "S\<lparr>rvRuntime := rt', rvCalls := ?cs @ [(t, wid, revision)],
        rvChanges := rvChanges S @ [(wid, rtOnWorkspaceChanged ?rt)]\<rparr>"
    have "revStep S ?mid" using change True by simp
    moreover have "revStep ?mid (?mid\<lparr>rvCalls := ?cs @ [], rvSent := rvSent ?mid @ [(wid, revision)]\<rparr>)"
      by (rule revStep.call) simp
    ultimately have "revStep\<^sup>*\<^sup>* S (?mid\<lparr>rvCalls := ?cs @ [], rvSent := rvSent ?mid @ [(wid, revision)]\<rparr>)"
      by (meson converse_rtranclp_into_rtranclp r_into_rtranclp)
    moreover have "?mid\<lparr>rvCalls := ?cs @ [], rvSent := rvSent ?mid @ [(wid, revision)]\<rparr> = ?post"
      using True ns r by (cases S) simp
    ultimately show ?thesis by (simp only:)
  next
    case False
    have "S\<lparr>rvRuntime := rt', rvCalls := ?cs @ (if notify then [(t, wid, revision)] else []),
        rvChanges := rvChanges S @ [(wid, rtOnWorkspaceChanged ?rt)]\<rparr> = ?post"
      using False ns by (cases S) simp
    with change show ?thesis by (simp only: r_into_rtranclp)
  qed
qed

lemma revOK_new: "revOK (newRevSystem hub)"
  by (simp add: revOK_def newRevSystem_def NewRuntime_def)

lemma revReach_OK: "revStep\<^sup>*\<^sup>* S S' \<Longrightarrow> revOK S \<Longrightarrow> revOK S'"
  by (induction rule: rtranclp_induct) (auto intro: revStep_OK)


text \<open>
  Two changes, and the notifier is called for the second one first; a change before the notifier is set is
  never announced.
\<close>

definition overtaken :: "(unit, unit) revSystem" where
  "overtaken = \<lparr>rvRuntime = (NewRuntime None)\<lparr>rtStateRevision := 4, rtOnWorkspaceChanged := True\<rparr>, rvCalls = [],
     rvSent = [(''b'', 4), (''a'', 3)], rvChanges = [(''early'', False), (''a'', True), (''b'', True)]\<rparr>"

lemma announcements_overtake: "revStep\<^sup>*\<^sup>* (newRevSystem None) overtaken"
proof -
  define rt where "rt n b = (NewRuntime None :: (unit, unit) Runtime)\<lparr>rtStateRevision := n, rtOnWorkspaceChanged := b\<rparr>" for n b
  define sys where "sys n b cs ss hs = \<lparr>rvRuntime = rt n b, rvCalls = cs, rvSent = ss, rvChanges = hs\<rparr>" for n b cs ss hs
  have inc: "incrementRevision (rt n b) = (rt (n + 1) b, n + 1, b)" for n b
    by (simp add: incrementRevision_def rt_def Let_def)
  have on: "rtOnWorkspaceChanged (rt n b) = b" for n b by (simp add: rt_def)
  have ch: "revStep (sys n b cs ss hs) (sys (n + 1) b (cs @ (if b then [(t, w, n + 1)] else [])) ss (hs @ [(w, b)]))"
    if "t \<notin> fst ` set cs" for n b cs ss hs t w
    using revStep.change [of t "sys n b cs ss hs" "rt (n + 1) b" "n + 1" b w] that inc on by (simp add: sys_def)
  have ca: "revStep (sys n b (us @ (t, w, r) # vs) ss hs) (sys n b (us @ vs) (ss @ [(w, r)]) hs)" for n b us t w r vs ss hs
    using revStep.call [of "sys n b (us @ (t, w, r) # vs) ss hs"] by (simp add: sys_def)
  have se: "revStep (sys n b cs ss hs) (sys n True cs ss hs)" for n b cs ss hs
    using revStep.setNotifier [of "sys n b cs ss hs" True] by (simp add: sys_def rt_def SetWorkspaceNotifier_def)
  have "revStep (sys 1 False [] [] []) (sys 2 False [] [] [(''early'', False)])"
    using ch [of 0 "[]" 1 False "[]" "[]" "''early''"] by simp
  moreover have "revStep (sys 2 False [] [] [(''early'', False)]) (sys 2 True [] [] [(''early'', False)])" by (rule se)
  moreover have "revStep (sys 2 True [] [] [(''early'', False)]) (sys 3 True [(0, ''a'', 3)] [] [(''early'', False), (''a'', True)])"
    using ch [of 0 "[]" 2 True "[]" "[(''early'', False)]" "''a''"] by simp
  moreover have "revStep (sys 3 True [(0, ''a'', 3)] [] [(''early'', False), (''a'', True)])
      (sys 4 True [(0, ''a'', 3), (1, ''b'', 4)] [] [(''early'', False), (''a'', True), (''b'', True)])"
    using ch [of 1 "[(0, ''a'', 3)]" 3 True "[]" "[(''early'', False), (''a'', True)]" "''b''"] by simp
  moreover have "revStep (sys 4 True [(0, ''a'', 3), (1, ''b'', 4)] [] [(''early'', False), (''a'', True), (''b'', True)])
      (sys 4 True [(0, ''a'', 3)] [(''b'', 4)] [(''early'', False), (''a'', True), (''b'', True)])"
    using ca [of 4 True "[(0, ''a'', 3)]" 1 "''b''" 4 "[]" "[]"] by simp
  moreover have "revStep (sys 4 True [(0, ''a'', 3)] [(''b'', 4)] [(''early'', False), (''a'', True), (''b'', True)])
      (sys 4 True [] [(''b'', 4), (''a'', 3)] [(''early'', False), (''a'', True), (''b'', True)])"
    using ca [of 4 True "[]" 0 "''a''" 3 "[]" "[(''b'', 4)]"] by simp
  ultimately have "revStep\<^sup>*\<^sup>* (sys 1 False [] [] []) (sys 4 True [] [(''b'', 4), (''a'', 3)] [(''early'', False), (''a'', True), (''b'', True)])"
    by (meson rtranclp.rtrancl_into_rtrancl rtranclp.rtrancl_refl)
  moreover have "sys 1 False [] [] [] = newRevSystem None"
    by (simp add: sys_def rt_def newRevSystem_def NewRuntime_def)
  moreover have "sys 4 True [] [(''b'', 4), (''a'', 3)] [(''early'', False), (''a'', True), (''b'', True)] = overtaken"
    by (simp add: sys_def rt_def overtaken_def)
  ultimately show ?thesis by simp
qed


section \<open>Samples\<close>

text \<open>A definition of one desktop application, and a daemon that shows it.\<close>

definition editorDocument :: workspaceFileDocument where
  "editorDocument = \<lparr>wfSchema = 1, wfActive = [(''dev'', ''1'')],
     wfWorkspaces = [\<lparr>wdID = ''dev'', wdRevision = ''1'',
       wdResources = [\<lparr>rdID = ''editor'', rdKind = ''desktop_app'', rdRequired = True, rdOwnership = ''managed'',
         rdDesktopAppID = rsDesktopAppID sampleEditor, rdExecutable = '''', rdArgs = [], rdWorkingDirectory = '''',
         rdPlacement = None\<rparr>]\<rparr>]\<rparr>"

definition editorDecoder :: "workspaceFileDocument Decoder" where
  "editorDecoder = \<lparr>decDocument = (\<lambda>_. Inr editorDocument), decTrailing = (\<lambda>_. AtEOF)\<rparr>"

definition editorCompile :: "string \<Rightarrow> catalogError + compiledCatalog" where
  "editorCompile = compileWorkspaceFile editorDecoder (\<lambda>m. m)"

lemma editorCompile_any: "editorCompile src = editorCompile ''''"
  by (simp add: editorCompile_def compileWorkspaceFile_def decodeSingle_def editorDecoder_def)

lemma editorCompile_value [code]:
  "editorCompile src = Inr ([(''dev@1'', \<lparr>dsWorkspaceID = ''dev'', dsRevision = ''1'',
     dsResources = [\<lparr>rsID = ''editor'', rsKind = ''desktop_app'', rsRequired = True, rsOwnership = ''managed'',
       rsDesktopAppID = ''zed.desktop'', rsExecutable = '''', rsArgs = [], rsWorkingDirectory = '''',
       rsPlacement = None\<rparr>]\<rparr>)], [(''dev'', ''1'')])"
  unfolding editorCompile_any [of src] by code_simp

definition editorCatalog :: File where
  "editorCatalog = foldl (fileStep editorCompile sampleFS) NewFile [ApplySource ''good'']"

definition shownRuntime :: "(unit, unit) Runtime" where
  "shownRuntime = (NewRuntime (Some ((NewHub None)\<lparr>hbSurface := sampleSurface True\<rparr>)))\<lparr>rtShellSnapshot := sampleShellView True\<rparr>"

definition shownEnv :: "unit ShellEnv" where
  "shownEnv = \<lparr>seReader = Some (runtimeReader (\<lambda>_. shownRuntime) (\<lambda>w. w)), seRequest = None,
     seDone = (\<lambda>_. (0, ''deadline'')), seTick = (\<lambda>w. w), seMarshal = encodeStrings,
     seUnmarshal = (\<lambda>s. Inr (decodeStrings '''' s))\<rparr>"

type_synonym sampleEngineState = "unit AdapterState \<times> (string, LcState) gomap"

definition shownEngine :: "sampleEngineState Engine" where
  "shownEngine = sampleEngine (\<lambda>_. File_Resolve editorCatalog) (shellDesktop shownEnv)"

definition sampleRtEnv :: "(string, sampleEngineState) RtEnv" where
  "sampleRtEnv = \<lparr>reHub = sampleHubEnv, reShell = (\<lambda>_. Inl ''syntax''), reFS = sampleFS, reTree = (\<lambda>_. Inl ConfigPathRequired),
     reCatalog = editorCompile, reEngine = shownEngine, reKeys = (\<lambda>m. m)\<rparr>"

definition sampleStart :: sampleEngineState where
  "sampleStart = (newShellDesktop (), [])"

definition sampleDaemon :: "(sampleEngineState, unit) Runtime \<times> rtNotice list" where
  "sampleDaemon = rtRun sampleRtEnv [RtConfigureWorkspaces ''p'' ''good'', RtActivate '' dev '' '' k1 '', RtSuspend ''nope'']
     (openRuntime None sampleStart (), [])"


lemma sampleDaemon_run: "rtRun sampleRtEnv [RtConfigureWorkspaces ''p'' ''good'', RtActivate '' dev '' '' k1 '', RtSuspend ''nope'']
    (openRuntime None sampleStart (), []) = (fst sampleDaemon, snd sampleDaemon)"
  by (simp add: sampleDaemon_def)

lemma sample_compiles: "reCatalog sampleRtEnv = compileWorkspaceFile editorDecoder (\<lambda>m. m)"
  by (simp add: sampleRtEnv_def editorCompile_def)

lemma editorCatalog_reached: "reachedFile editorDecoder (\<lambda>m. m) sampleFS editorCatalog"
  unfolding reachedFile_def editorCatalog_def editorCompile_def by blast

lemma shownEngine_runs:
  "engineRuns (lifecycleActs (\<lambda>s. File_Resolve editorCatalog) (shellDesktop shownEnv)) (reEngine sampleRtEnv) (\<lambda>x. map_of (snd x))"
  unfolding sampleRtEnv_def shownEngine_def by (simp add: sampleEngine_runs)

lemma sampleStart_new: "map_of (snd sampleStart) wid = None"
  by (simp add: sampleStart_def)

definition sampleFacts :: "(sampleEngineState, unit) Runtime \<Rightarrow> bool" where
  "sampleFacts rt \<longleftrightarrow>
     (case Runtime_WorkspaceState sampleRtEnv ''dev'' rt of Inl _ \<Rightarrow> False | Inr s \<Rightarrow> lcStatus s = ''active'') \<and>
     \<not> isl (Runtime_WorkspaceStates sampleRtEnv rt) \<and> cfActive (rtWorkspaces rt) = [(''dev'', ''1'')] \<and>
     rtLifecycle rt \<noteq> None \<and>
     (case fst (Runtime_Activate sampleRtEnv ''other'' ''k'' rt) of Inl (RtCatalog _) \<Rightarrow> True | _ \<Rightarrow> False) \<and>
     TrimSpace ''dev'' = ''dev'' \<and> TrimSpace ''other'' = ''other''"

lemma sample_facts: "sampleFacts (fst sampleDaemon)"
  by code_simp

lemma reported_active_is_shown_witness:
  "\<exists>s desired. Runtime_WorkspaceState sampleRtEnv ''dev'' (fst sampleDaemon) = Inr s \<and> lcStatus s = ''active'' \<and>
     File_Resolve editorCatalog ''dev'' (lcDefinitionRevision s) = Inr desired \<and>
     lcReachedRequired s = int (length (filter rsRequired (dsResources desired)))"
proof -
  from sample_facts obtain s where s: "Runtime_WorkspaceState sampleRtEnv ''dev'' (fst sampleDaemon) = Inr s" "lcStatus s = ''active''"
    by (auto simp: sampleFacts_def split: sum.splits)
  have act: "lcStatus s = StatusActive" using s(2) by (simp add: statuses)
  have reader: "seReader shownEnv = Some (runtimeReader (\<lambda>_. shownRuntime) (\<lambda>w. w))" by (simp add: shownEnv_def)
  have trim: "TrimSpace ''dev'' = ''dev''" using sample_facts by (simp add: sampleFacts_def)
  from reported_active_is_shown [OF shownEngine_runs editorCatalog_reached sampleStart_new reader sample_compiles
      sampleDaemon_run s(1) act] s trim show ?thesis by auto
qed

lemma workspace_states_complete_witness:
  "map_sum (\<lambda>_. ()) (\<lambda>snap. set (map lcWorkspaceID (wssStates snap))) (Runtime_WorkspaceStates sampleRtEnv (fst sampleDaemon)) =
     Inr {''dev''}"
proof -
  from sample_facts obtain snap where snap: "Runtime_WorkspaceStates sampleRtEnv (fst sampleDaemon) = Inr snap"
    by (cases "Runtime_WorkspaceStates sampleRtEnv (fst sampleDaemon)") (auto simp: sampleFacts_def)
  have it: "isIteration (reKeys sampleRtEnv)" by (simp add: sampleRtEnv_def)
  have "cfActive (rtWorkspaces (fst sampleDaemon)) = [(''dev'', ''1'')]" using sample_facts by (simp add: sampleFacts_def)
  with workspace_states_complete [OF shownEngine_runs sampleStart_new sample_compiles it sampleDaemon_run snap]
  show ?thesis by (simp add: snap)
qed

text \<open>
  Two submissions of the shell at once: the parts of \<open>ReplaceShellSnapshotJSON\<close> are not one critical
  section, so the older snapshot, though the hub took the newer one last, is the one that stays retained:
  placements are then judged by windows that have moved since.
\<close>

definition plainShell :: "64 word \<Rightarrow> ShellSnapshot" where
  "plainShell revision = zeroShellSnapshot\<lparr>shSchema := 1, shRevision := revision, shCapturedAt := 1\<rparr>"

definition twoShells :: "(string, sampleEngineState) RtEnv" where
  "twoShells = sampleRtEnv\<lparr>reShell := (\<lambda>p. Inr (plainShell (if p = ''old'' then 1 else 2)))\<rparr>"

lemma older_shell_retained:
  "case shellToHub twoShells 1 ''old'' (openRuntime None sampleStart ()) of
     (Inl _, _) \<Rightarrow> False
   | (Inr old, rt1, _) \<Rightarrow>
       (case Runtime_ReplaceShell twoShells 2 ''new'' rt1 of
          (Some _, _) \<Rightarrow> False
        | (None, rt2, _) \<Rightarrow> shRevision (Runtime_ShellSnapshot rt2) = 2 \<and>
            shRevision (Runtime_ShellSnapshot (shellRetain old rt2)) = 1)"
  by code_simp

text \<open>
  A change that takes effect but whose state cannot be read afterwards, say because the deadline that
  the two share has passed, is not announced.
\<close>

definition unreadableEngine :: "nat Engine" where
  "unreadableEngine = \<lparr>enDispatch = (\<lambda>_ _ n. (None, n + 1)), enState = (\<lambda>_ _. Inl ''context deadline exceeded'')\<rparr>"

lemma change_not_announced:
  "case Runtime_Suspend (\<lparr>reHub = sampleHubEnv, reShell = (\<lambda>_. Inl ''''), reFS = sampleFS, reTree = (\<lambda>_. Inl ConfigPathRequired),
       reCatalog = editorCompile, reEngine = unreadableEngine, reKeys = (\<lambda>m. m)\<rparr>) ''dev'' (openRuntime None 0 ()) of
     (res, rt, ns) \<Rightarrow> res = Inl (RtLifecycle (EngineError ''context deadline exceeded'')) \<and> ns = [] \<and>
       rtLifecycle rt = Some (1, Some ())"
  by code_simp

end
