(* ===== verification/DBusApi.thy ===== *)
theory DBusApi
  imports Wire
begin

text \<open>
  The interface on the session bus (\<open>internal/dbusapi\<close>): the service that is exported, the server that
  owns the name and sends the signals, and the client of the command line tool. The bus library is a
  parameter: \<open>bus\<close> calls a method, and the locale \<open>session_bus\<close> says that a call of an exported
  method is answered with what the method returns. The backend is any implementation of the two
  interfaces that the service asks for; texts of errors are the texts that travel.
\<close>

section \<open>Names and values on the bus\<close>

definition InterfaceName :: string where "InterfaceName = ''org.homiakus.HWS1''"
definition BusName :: string where "BusName = ''org.homiakus.HWS1''"
definition ObjectPath :: string where "ObjectPath = ''/org/homiakus/HWS1''"

text \<open>The values that occur, with their type codes.\<close>

datatype busValue = BusU "32 word" | BusT "64 word" | BusS string | BusB bool

fun busType :: "busValue \<Rightarrow> string" where
  "busType (BusU _) = ''u''"
| "busType (BusT _) = ''t''"
| "busType (BusS _) = ''s''"
| "busType (BusB _) = ''b''"

record busError =
  beName :: string
  beBody :: "string list"

type_synonym busReply = "busError + busValue list"

section \<open>The backend\<close>

text \<open>A method that returns a text and an error, or an error only; \<open>'b\<close> is what the backend changes.\<close>

type_synonym 'b textCall = "'b \<Rightarrow> (string \<times> string option) \<times> 'b"
type_synonym 'b plainCall = "'b \<Rightarrow> string option \<times> 'b"

record 'b Backend =
  bkPanelJSON :: "'b textCall"
  bkSpecJSON :: "'b textCall"
  bkHealthJSON :: "'b textCall"
  bkTreeJSON :: "'b textCall"
  bkPathJSON :: "string \<Rightarrow> 'b textCall"
  bkApplicationJSON :: "string \<Rightarrow> 'b textCall"
  bkReplaceShellSnapshotJSON :: "string \<Rightarrow> 'b plainCall"
  bkReloadPanel :: "'b plainCall"
  bkActivateView :: "string \<Rightarrow> string \<Rightarrow> 'b plainCall"
  bkCloseView :: "string \<Rightarrow> string \<Rightarrow> 'b plainCall"

record 'b workspaceBackend =
  wbActivateWorkspaceJSON :: "string \<Rightarrow> string \<Rightarrow> 'b textCall"
  wbRecoverWorkspaceJSON :: "string \<Rightarrow> string \<Rightarrow> 'b textCall"
  wbResumeWorkspaceJSON :: "string \<Rightarrow> string \<Rightarrow> 'b textCall"
  wbSuspendWorkspaceJSON :: "string \<Rightarrow> 'b textCall"
  wbCloseWorkspaceJSON :: "string \<Rightarrow> string \<Rightarrow> 'b textCall"
  wbWorkspaceStateJSON :: "string \<Rightarrow> 'b textCall"
  wbWorkspaceStatesJSON :: "'b textCall"
  wbCompleteShellActionJSON :: "string \<Rightarrow> 'b plainCall"

section \<open>The service\<close>

text \<open>\<open>svWorkspaces\<close> is the backend when it also has the methods of the second interface.\<close>

record 'b Service =
  svBackend :: "'b Backend"
  svWorkspaces :: "'b workspaceBackend option"
  svServerInstance :: string
  svRevisionEpoch :: string

definition hexDigits :: string where "hexDigits = ''0123456789abcdef''"

definition EncodeToString :: "8 word list \<Rightarrow> string" where
  "EncodeToString data = concat (map (\<lambda>b. [hexDigits ! (unat b div 16), hexDigits ! (unat b mod 16)]) data)"

text \<open>The argument is what the system's random source delivers, if it does.\<close>

definition randomID :: "8 word list option \<Rightarrow> string" where
  "randomID random = (case random of None \<Rightarrow> ''hws-instance'' | Some data \<Rightarrow> EncodeToString data)"

definition NewService ::
  "'b Backend \<Rightarrow> 'b workspaceBackend option \<Rightarrow> 8 word list option \<Rightarrow> 8 word list option \<Rightarrow> 'b Service" where
  "NewService backend workspaces random1 random2 =
     \<lparr>svBackend = backend, svWorkspaces = workspaces,
      svServerInstance = randomID random1, svRevisionEpoch = randomID random2\<rparr>"

definition helloCapabilities :: "(string, string) gomap" where
  "helloCapabilities =
     [(''health'', ''supported''), (''panel.snapshot'', ''supported''), (''panel.spec'', ''supported''),
      (''panel.reload'', ''supported''), (''tree.read'', ''supported''), (''shell.snapshot.push'', ''supported''),
      (''shell.action.complete'', ''supported''), (''surface.application'', ''supported''),
      (''view.activate'', ''supported''), (''view.close'', ''supported''), (''workspace.activate'', ''supported''),
      (''workspace.recover'', ''supported''), (''workspace.resume'', ''supported''),
      (''workspace.suspend'', ''supported''), (''workspace.close'', ''supported''),
      (''workspace.state'', ''supported''), (''workspace.states'', ''supported'')]"

text \<open>\<open>marshal\<close> is the JSON encoder of a map of texts.\<close>

type_synonym capEncoder = "(string, string) gomap \<Rightarrow> string"

definition Hello ::
  "capEncoder \<Rightarrow> 'b Service \<Rightarrow> 32 word \<Rightarrow> string \<Rightarrow> (32 word \<times> string \<times> string \<times> string) \<times> busError option" where
  "Hello marshal s clientProtocol clientInstance =
     (if clientProtocol \<noteq> ProtocolVersion then
        ((0, '''', '''', ''''), Some \<lparr>beName = InterfaceName @ ''.ProtocolIncompatible'',
           beBody = [''client protocol '' @ Itoa (uint clientProtocol) @ '' is not supported'']\<rparr>)
      else if clientInstance = '''' then
        ((0, '''', '''', ''''), Some \<lparr>beName = InterfaceName @ ''.InvalidClient'', beBody = [''client instance is required'']\<rparr>)
      else ((ProtocolVersion, svServerInstance s, svRevisionEpoch s, marshal helloCapabilities), None))"

definition asDBusError :: "string option \<Rightarrow> busError option" where
  "asDBusError err =
     (case err of None \<Rightarrow> None | Some text \<Rightarrow> Some \<lparr>beName = InterfaceName @ ''.Error'', beBody = [text]\<rparr>)"

text \<open>The last line of most methods: the value, with the error as one of the bus.\<close>

definition busText :: "(string \<times> string option) \<times> 'b \<Rightarrow> (string \<times> busError option) \<times> 'b" where
  "busText r = (case r of ((value, err), b) \<Rightarrow> ((value, asDBusError err), b))"

definition busPlain :: "string option \<times> 'b \<Rightarrow> busError option \<times> 'b" where
  "busPlain r = (case r of (err, b) \<Rightarrow> (asDBusError err, b))"

type_synonym 'b textMethod = "'b \<Rightarrow> (string \<times> busError option) \<times> 'b"
type_synonym 'b plainMethod = "'b \<Rightarrow> busError option \<times> 'b"

definition GetPanelSnapshot :: "'b Service \<Rightarrow> 'b textMethod" where
  "GetPanelSnapshot s b = busText (bkPanelJSON (svBackend s) b)"
definition GetPanelSpec :: "'b Service \<Rightarrow> 'b textMethod" where
  "GetPanelSpec s b = busText (bkSpecJSON (svBackend s) b)"
definition GetHealth :: "'b Service \<Rightarrow> 'b textMethod" where
  "GetHealth s b = busText (bkHealthJSON (svBackend s) b)"
definition GetTree :: "'b Service \<Rightarrow> 'b textMethod" where
  "GetTree s b = busText (bkTreeJSON (svBackend s) b)"
definition GetPath :: "'b Service \<Rightarrow> string \<Rightarrow> 'b textMethod" where
  "GetPath s nodeID b = busText (bkPathJSON (svBackend s) nodeID b)"
definition GetApplicationSurface :: "'b Service \<Rightarrow> string \<Rightarrow> 'b textMethod" where
  "GetApplicationSurface s appID b = busText (bkApplicationJSON (svBackend s) appID b)"
definition SubmitShellSnapshot :: "'b Service \<Rightarrow> string \<Rightarrow> 'b plainMethod" where
  "SubmitShellSnapshot s payload b = busPlain (bkReplaceShellSnapshotJSON (svBackend s) payload b)"

definition ReloadPanel :: "'b Service \<Rightarrow> 'b \<Rightarrow> (bool \<times> string \<times> busError option) \<times> 'b" where
  "ReloadPanel s b =
     (case bkReloadPanel (svBackend s) b of
        (Some err, b1) \<Rightarrow> ((False, err, None), b1)
      | (None, b1) \<Rightarrow> ((True, '''', None), b1))"

definition ActivateView :: "'b Service \<Rightarrow> string \<Rightarrow> string \<Rightarrow> 'b plainMethod" where
  "ActivateView s appID viewID b = busPlain (bkActivateView (svBackend s) appID viewID b)"
definition CloseView :: "'b Service \<Rightarrow> string \<Rightarrow> string \<Rightarrow> 'b plainMethod" where
  "CloseView s appID viewID b = busPlain (bkCloseView (svBackend s) appID viewID b)"

definition workspacesOf :: "'b Service \<Rightarrow> busError + 'b workspaceBackend" where
  "workspacesOf s =
     (case svWorkspaces s of
        None \<Rightarrow> Inl \<lparr>beName = InterfaceName @ ''.Unsupported'', beBody = [''workspace lifecycle is unavailable'']\<rparr>
      | Some backend \<Rightarrow> Inr backend)"

definition ActivateWorkspace :: "'b Service \<Rightarrow> string \<Rightarrow> string \<Rightarrow> 'b textMethod" where
  "ActivateWorkspace s workspaceID operationKey b =
     (case workspacesOf s of Inl err \<Rightarrow> (('''', Some err), b)
      | Inr backend \<Rightarrow> busText (wbActivateWorkspaceJSON backend workspaceID operationKey b))"
definition RecoverWorkspace :: "'b Service \<Rightarrow> string \<Rightarrow> string \<Rightarrow> 'b textMethod" where
  "RecoverWorkspace s workspaceID operationKey b =
     (case workspacesOf s of Inl err \<Rightarrow> (('''', Some err), b)
      | Inr backend \<Rightarrow> busText (wbRecoverWorkspaceJSON backend workspaceID operationKey b))"
definition ResumeWorkspace :: "'b Service \<Rightarrow> string \<Rightarrow> string \<Rightarrow> 'b textMethod" where
  "ResumeWorkspace s workspaceID operationKey b =
     (case workspacesOf s of Inl err \<Rightarrow> (('''', Some err), b)
      | Inr backend \<Rightarrow> busText (wbResumeWorkspaceJSON backend workspaceID operationKey b))"
definition SuspendWorkspace :: "'b Service \<Rightarrow> string \<Rightarrow> 'b textMethod" where
  "SuspendWorkspace s workspaceID b =
     (case workspacesOf s of Inl err \<Rightarrow> (('''', Some err), b)
      | Inr backend \<Rightarrow> busText (wbSuspendWorkspaceJSON backend workspaceID b))"
definition CloseWorkspaceMethod :: "'b Service \<Rightarrow> string \<Rightarrow> string \<Rightarrow> 'b textMethod" where
  "CloseWorkspaceMethod s workspaceID operationKey b =
     (case workspacesOf s of Inl err \<Rightarrow> (('''', Some err), b)
      | Inr backend \<Rightarrow> busText (wbCloseWorkspaceJSON backend workspaceID operationKey b))"
definition GetWorkspaceState :: "'b Service \<Rightarrow> string \<Rightarrow> 'b textMethod" where
  "GetWorkspaceState s workspaceID b =
     (case workspacesOf s of Inl err \<Rightarrow> (('''', Some err), b)
      | Inr backend \<Rightarrow> busText (wbWorkspaceStateJSON backend workspaceID b))"
definition GetWorkspaceStates :: "'b Service \<Rightarrow> 'b textMethod" where
  "GetWorkspaceStates s b =
     (case workspacesOf s of Inl err \<Rightarrow> (('''', Some err), b)
      | Inr backend \<Rightarrow> busText (wbWorkspaceStatesJSON backend b))"
definition CompleteShellActionMethod :: "'b Service \<Rightarrow> string \<Rightarrow> 'b plainMethod" where
  "CompleteShellActionMethod s payload b =
     (case workspacesOf s of Inl err \<Rightarrow> (Some err, b)
      | Inr backend \<Rightarrow> busPlain (wbCompleteShellActionJSON backend payload b))"

section \<open>What is exported\<close>

text \<open>
  The methods of the service as a table: Go finds them by reflection. A handler takes the arguments
  when their number and types are those of the method.
\<close>

type_synonym 'b handler = "busValue list \<Rightarrow> ('b \<Rightarrow> busReply \<times> 'b) option"

definition textReply :: "'b textMethod \<Rightarrow> 'b \<Rightarrow> busReply \<times> 'b" where
  "textReply m b = (case m b of ((v, None), b1) \<Rightarrow> (Inr [BusS v], b1) | ((_, Some e), b1) \<Rightarrow> (Inl e, b1))"

definition plainReply :: "'b plainMethod \<Rightarrow> 'b \<Rightarrow> busReply \<times> 'b" where
  "plainReply m b = (case m b of (None, b1) \<Rightarrow> (Inr [], b1) | (Some e, b1) \<Rightarrow> (Inl e, b1))"

definition reloadReply :: "('b \<Rightarrow> (bool \<times> string \<times> busError option) \<times> 'b) \<Rightarrow> 'b \<Rightarrow> busReply \<times> 'b" where
  "reloadReply m b =
     (case m b of ((ok, t, None), b1) \<Rightarrow> (Inr [BusB ok, BusS t], b1) | ((_, _, Some e), b1) \<Rightarrow> (Inl e, b1))"

definition helloReply :: "(32 word \<times> string \<times> string \<times> string) \<times> busError option \<Rightarrow> 'b \<Rightarrow> busReply \<times> 'b" where
  "helloReply r b =
     (case r of ((p, i, e, c), None) \<Rightarrow> (Inr [BusU p, BusS i, BusS e, BusS c], b) | (_, Some e) \<Rightarrow> (Inl e, b))"

definition noArgs :: "('b \<Rightarrow> busReply \<times> 'b) \<Rightarrow> 'b handler" where
  "noArgs m args = (case args of [] \<Rightarrow> Some m | _ \<Rightarrow> None)"

definition oneText :: "(string \<Rightarrow> 'b \<Rightarrow> busReply \<times> 'b) \<Rightarrow> 'b handler" where
  "oneText m args = (case args of [BusS x] \<Rightarrow> Some (m x) | _ \<Rightarrow> None)"

definition twoTexts :: "(string \<Rightarrow> string \<Rightarrow> 'b \<Rightarrow> busReply \<times> 'b) \<Rightarrow> 'b handler" where
  "twoTexts m args = (case args of [BusS x, BusS y] \<Rightarrow> Some (m x y) | _ \<Rightarrow> None)"

definition numberAndText :: "(32 word \<Rightarrow> string \<Rightarrow> 'b \<Rightarrow> busReply \<times> 'b) \<Rightarrow> 'b handler" where
  "numberAndText m args = (case args of [BusU x, BusS y] \<Rightarrow> Some (m x y) | _ \<Rightarrow> None)"

definition exportedMethods :: "capEncoder \<Rightarrow> 'b Service \<Rightarrow> (string \<times> 'b handler) list" where
  "exportedMethods marshal s =
     [(''Hello'', numberAndText (\<lambda>p i. helloReply (Hello marshal s p i))),
      (''GetPanelSnapshot'', noArgs (textReply (GetPanelSnapshot s))),
      (''GetPanelSpec'', noArgs (textReply (GetPanelSpec s))),
      (''GetHealth'', noArgs (textReply (GetHealth s))),
      (''GetTree'', noArgs (textReply (GetTree s))),
      (''GetPath'', oneText (\<lambda>x. textReply (GetPath s x))),
      (''GetApplicationSurface'', oneText (\<lambda>x. textReply (GetApplicationSurface s x))),
      (''SubmitShellSnapshot'', oneText (\<lambda>x. plainReply (SubmitShellSnapshot s x))),
      (''ReloadPanel'', noArgs (reloadReply (ReloadPanel s))),
      (''ActivateView'', twoTexts (\<lambda>x y. plainReply (ActivateView s x y))),
      (''CloseView'', twoTexts (\<lambda>x y. plainReply (CloseView s x y))),
      (''ActivateWorkspace'', twoTexts (\<lambda>x y. textReply (ActivateWorkspace s x y))),
      (''RecoverWorkspace'', twoTexts (\<lambda>x y. textReply (RecoverWorkspace s x y))),
      (''ResumeWorkspace'', twoTexts (\<lambda>x y. textReply (ResumeWorkspace s x y))),
      (''SuspendWorkspace'', oneText (\<lambda>x. textReply (SuspendWorkspace s x))),
      (''CloseWorkspace'', twoTexts (\<lambda>x y. textReply (CloseWorkspaceMethod s x y))),
      (''GetWorkspaceState'', oneText (\<lambda>x. textReply (GetWorkspaceState s x))),
      (''GetWorkspaceStates'', noArgs (textReply (GetWorkspaceStates s))),
      (''CompleteShellAction'', oneText (\<lambda>x. plainReply (CompleteShellActionMethod s x)))]"

section \<open>The description of the interface\<close>

record busMethod =
  bmName :: string
  bmIn :: "(string \<times> string) list"
  bmOut :: "(string \<times> string) list"

record busSignal =
  bsName :: string
  bsArgs :: "(string \<times> string) list"

definition textOut :: "string \<Rightarrow> (string \<times> string) list \<Rightarrow> busMethod" where
  "textOut name ins = \<lparr>bmName = name, bmIn = ins, bmOut = [(''json'', ''s'')]\<rparr>"

definition introspectionMethods :: "busMethod list" where
  "introspectionMethods =
     [\<lparr>bmName = ''Hello'', bmIn = [(''clientProtocol'', ''u''), (''clientInstance'', ''s'')],
       bmOut = [(''serverProtocol'', ''u''), (''serverInstance'', ''s''), (''revisionEpoch'', ''s''), (''capabilities'', ''s'')]\<rparr>,
      textOut ''GetPanelSnapshot'' [], textOut ''GetPanelSpec'' [], textOut ''GetHealth'' [], textOut ''GetTree'' [],
      textOut ''GetPath'' [(''nodeId'', ''s'')], textOut ''GetApplicationSurface'' [(''appId'', ''s'')],
      \<lparr>bmName = ''SubmitShellSnapshot'', bmIn = [(''json'', ''s'')], bmOut = []\<rparr>,
      \<lparr>bmName = ''CompleteShellAction'', bmIn = [(''json'', ''s'')], bmOut = []\<rparr>,
      \<lparr>bmName = ''ReloadPanel'', bmIn = [], bmOut = [(''ok'', ''b''), (''diagnostic'', ''s'')]\<rparr>,
      \<lparr>bmName = ''ActivateView'', bmIn = [(''appId'', ''s''), (''viewId'', ''s'')], bmOut = []\<rparr>,
      \<lparr>bmName = ''CloseView'', bmIn = [(''appId'', ''s''), (''viewId'', ''s'')], bmOut = []\<rparr>,
      textOut ''ActivateWorkspace'' [(''workspaceId'', ''s''), (''operationKey'', ''s'')],
      textOut ''RecoverWorkspace'' [(''workspaceId'', ''s''), (''operationKey'', ''s'')],
      textOut ''ResumeWorkspace'' [(''workspaceId'', ''s''), (''operationKey'', ''s'')],
      textOut ''SuspendWorkspace'' [(''workspaceId'', ''s'')],
      textOut ''CloseWorkspace'' [(''workspaceId'', ''s''), (''operationKey'', ''s'')],
      textOut ''GetWorkspaceState'' [(''workspaceId'', ''s'')], textOut ''GetWorkspaceStates'' []]"

definition introspectionSignals :: "busSignal list" where
  "introspectionSignals =
     [\<lparr>bsName = ''PanelChanged'', bsArgs = [(''revision'', ''t'')]\<rparr>,
      \<lparr>bsName = ''PanelConfigChanged'', bsArgs = [(''revision'', ''t'')]\<rparr>,
      \<lparr>bsName = ''TreeChanged'', bsArgs = [(''revision'', ''t'')]\<rparr>,
      \<lparr>bsName = ''WorkspaceChanged'', bsArgs = [(''workspaceId'', ''s''), (''revision'', ''t'')]\<rparr>,
      \<lparr>bsName = ''ShellActionRequested'', bsArgs = [(''json'', ''s'')]\<rparr>]"

section \<open>The server\<close>

text \<open>\<open>srvConn\<close>: there is a connection. What the server does to it is the list of actions.\<close>

record Server =
  srvConn :: bool
  srvClosed :: bool

datatype busAction = Emitted string "busValue list" | NameReleased | ConnectionClosed

definition emit :: "string \<Rightarrow> busValue list \<Rightarrow> Server \<Rightarrow> Server \<times> busAction list" where
  "emit signal args s =
     (if srvClosed s \<or> \<not> srvConn s then (s, [])
      else (s, [Emitted (InterfaceName @ ''.'' @ signal) args]))"

definition EmitPanelChanged :: "64 word \<Rightarrow> Server \<Rightarrow> Server \<times> busAction list" where
  "EmitPanelChanged revision = emit ''PanelChanged'' [BusT revision]"
definition EmitPanelConfigChanged :: "64 word \<Rightarrow> Server \<Rightarrow> Server \<times> busAction list" where
  "EmitPanelConfigChanged revision = emit ''PanelConfigChanged'' [BusT revision]"
definition EmitTreeChanged :: "64 word \<Rightarrow> Server \<Rightarrow> Server \<times> busAction list" where
  "EmitTreeChanged revision = emit ''TreeChanged'' [BusT revision]"
definition EmitShellActionRequested :: "string \<Rightarrow> Server \<Rightarrow> Server \<times> busAction list" where
  "EmitShellActionRequested payload s =
     (if payload = '''' then (s, []) else emit ''ShellActionRequested'' [BusS payload] s)"
definition EmitWorkspaceChanged :: "string \<Rightarrow> 64 word \<Rightarrow> Server \<Rightarrow> Server \<times> busAction list" where
  "EmitWorkspaceChanged workspaceID revision = emit ''WorkspaceChanged'' [BusS workspaceID, BusT revision]"

definition Server_Close :: "Server \<Rightarrow> Server \<times> busAction list" where
  "Server_Close s =
     (if srvClosed s then (s, [])
      else (s\<lparr>srvClosed := True\<rparr>, if srvConn s then [NameReleased, ConnectionClosed] else []))"

text \<open>\<open>Run\<close> closes the server when its context is done.\<close>

definition Server_Run :: "Server \<Rightarrow> Server \<times> busAction list" where
  "Server_Run s = Server_Close s"

text \<open>
  \<open>OpenSession\<close> asks for a connection, exports twice and asks for the name; the record holds the
  answers. Its actions are what it does to the connection it got.
\<close>

record sessionAnswers =
  anConnect :: "string option"
  anExport :: "string option"
  anIntrospection :: "string option"
  anRequestName :: "string + nat"

definition RequestNameReplyPrimaryOwner :: nat where "RequestNameReplyPrimaryOwner = 1"

datatype sessionError = ConnectBus string | ExportInterface string | ExportIntrospection string
  | RequestName string | NameOwned string

definition OpenSession :: "sessionAnswers \<Rightarrow> (sessionError + Server) \<times> busAction list" where
  "OpenSession a =
     (case anConnect a of Some e \<Rightarrow> (Inl (ConnectBus e), [])
      | None \<Rightarrow>
     (case anExport a of Some e \<Rightarrow> (Inl (ExportInterface e), [ConnectionClosed])
      | None \<Rightarrow>
     (case anIntrospection a of Some e \<Rightarrow> (Inl (ExportIntrospection e), [ConnectionClosed])
      | None \<Rightarrow>
     (case anRequestName a of
        Inl e \<Rightarrow> (Inl (RequestName e), [ConnectionClosed])
      | Inr reply \<Rightarrow>
          if reply \<noteq> RequestNameReplyPrimaryOwner then (Inl (NameOwned BusName), [ConnectionClosed])
          else (Inr \<lparr>srvConn = True, srvClosed = False\<rparr>, [])))))"

text \<open>The calls that a server gets, each a critical section of its lock.\<close>

datatype serverCall = PanelChangedTo "64 word" | PanelConfigChangedTo "64 word" | TreeChangedTo "64 word"
  | ShellActionRequestedWith string | WorkspaceChangedTo string "64 word" | CloseServer

fun serverStep :: "serverCall \<Rightarrow> Server \<Rightarrow> Server \<times> busAction list" where
  "serverStep (PanelChangedTo r) = EmitPanelChanged r"
| "serverStep (PanelConfigChangedTo r) = EmitPanelConfigChanged r"
| "serverStep (TreeChangedTo r) = EmitTreeChanged r"
| "serverStep (ShellActionRequestedWith p) = EmitShellActionRequested p"
| "serverStep (WorkspaceChangedTo w r) = EmitWorkspaceChanged w r"
| "serverStep CloseServer = Server_Close"

fun serverRun :: "serverCall list \<Rightarrow> Server \<Rightarrow> Server \<times> busAction list" where
  "serverRun [] s = (s, [])"
| "serverRun (c # cs) s = (case serverStep c s of (s1, as) \<Rightarrow> case serverRun cs s1 of (s2, bs) \<Rightarrow> (s2, as @ bs))"

section \<open>The client\<close>

text \<open>\<open>bus\<close> calls a method by its full name; the text is that of the error of the call.\<close>

type_synonym 'b bus = "string \<Rightarrow> busValue list \<Rightarrow> 'b \<Rightarrow> (string + busValue list) \<times> 'b"

record Client =
  clInstance :: string
  clServer :: string
  clRevisionEpoch :: string
  clCapabilities :: "(string, string) gomap"

datatype clientError =
    ConnectFailed string | HelloFailed string | ProtocolMismatch "32 word" | DecodeCapabilities string
  | CallFailed string string

text \<open>
  \<open>Store\<close> takes the values of a reply when their number and types are those of its targets, and
  reports \<open>badReply\<close> otherwise.
\<close>

definition badReply :: string where "badReply = ''dbus.Store: length mismatch''"

definition storeText :: "string + busValue list \<Rightarrow> string + string" where
  "storeText r = (case r of Inl e \<Rightarrow> Inl e | Inr [BusS v] \<Rightarrow> Inr v | Inr _ \<Rightarrow> Inl badReply)"

definition storeReload :: "string + busValue list \<Rightarrow> string + bool \<times> string" where
  "storeReload r = (case r of Inl e \<Rightarrow> Inl e | Inr [BusB ok, BusS t] \<Rightarrow> Inr (ok, t) | Inr _ \<Rightarrow> Inl badReply)"

definition storeHello :: "string + busValue list \<Rightarrow> string + 32 word \<times> string \<times> string \<times> string" where
  "storeHello r =
     (case r of Inl e \<Rightarrow> Inl e | Inr [BusU p, BusS i, BusS e, BusS c] \<Rightarrow> Inr (p, i, e, c) | Inr _ \<Rightarrow> Inl badReply)"

definition fullName :: "string \<Rightarrow> string" where "fullName name = InterfaceName @ ''.'' @ name"

text \<open>
  \<open>ConnectSession\<close>: \<open>connect\<close> is the error of the connection, \<open>unmarshal\<close> decodes a map of texts;
  the last component says whether the connection is left open.
\<close>

definition ConnectSession ::
  "(string \<Rightarrow> string + (string, string) gomap) \<Rightarrow> 'b bus \<Rightarrow> string option \<Rightarrow> 8 word list option \<Rightarrow> 'b \<Rightarrow>
   (clientError + Client) \<times> 'b \<times> bool" where
  "ConnectSession unmarshal bus connect random b =
     (case connect of
        Some e \<Rightarrow> (Inl (ConnectFailed e), b, False)
      | None \<Rightarrow>
          let inst = randomID random
          in (case bus (fullName ''Hello'') [BusU ProtocolVersion, BusS inst] b of
                (reply, b1) \<Rightarrow>
                  (case storeHello reply of
                     Inl e \<Rightarrow> (Inl (HelloFailed e), b1, False)
                   | Inr (protocol, server, epoch, capabilities) \<Rightarrow>
                       if protocol \<noteq> ProtocolVersion then (Inl (ProtocolMismatch protocol), b1, False)
                       else if capabilities = '''' then
                         (Inr \<lparr>clInstance = inst, clServer = server, clRevisionEpoch = epoch, clCapabilities = []\<rparr>, b1, True)
                       else (case unmarshal capabilities of
                           Inl e \<Rightarrow> (Inl (DecodeCapabilities e), b1, False)
                         | Inr caps \<Rightarrow> (Inr \<lparr>clInstance = inst, clServer = server, clRevisionEpoch = epoch,
                             clCapabilities = caps\<rparr>, b1, True)))))"

definition Client_Capabilities ::
  "((string, string) gomap \<Rightarrow> (string, string) gomap) \<Rightarrow> Client \<Rightarrow> (string, string) gomap" where
  "Client_Capabilities it c = foldl (\<lambda>out (key, value). put key value out) [] (it (clCapabilities c))"

type_synonym ('b, 'r) clientCall = "'b \<Rightarrow> (clientError + 'r) \<times> 'b"

definition stringCall :: "'b bus \<Rightarrow> string \<Rightarrow> ('b, string) clientCall" where
  "stringCall bus name b =
     (case bus (fullName name) [] b of (reply, b1) \<Rightarrow>
        (case storeText reply of Inl e \<Rightarrow> (Inl (CallFailed name e), b1) | Inr v \<Rightarrow> (Inr v, b1)))"

definition stringArgCall :: "'b bus \<Rightarrow> string \<Rightarrow> string \<Rightarrow> ('b, string) clientCall" where
  "stringArgCall bus name arg b =
     (case bus (fullName name) [BusS arg] b of (reply, b1) \<Rightarrow>
        (case storeText reply of Inl e \<Rightarrow> (Inl (CallFailed name e), b1) | Inr v \<Rightarrow> (Inr v, b1)))"

definition workspaceMutationCall :: "'b bus \<Rightarrow> string \<Rightarrow> string \<Rightarrow> string \<Rightarrow> ('b, string) clientCall" where
  "workspaceMutationCall bus name workspaceID operationKey b =
     (case bus (fullName name) [BusS workspaceID, BusS operationKey] b of (reply, b1) \<Rightarrow>
        (case storeText reply of Inl e \<Rightarrow> (Inl (CallFailed name e), b1) | Inr v \<Rightarrow> (Inr v, b1)))"

definition Client_HealthJSON :: "'b bus \<Rightarrow> ('b, string) clientCall" where
  "Client_HealthJSON bus = stringCall bus ''GetHealth''"
definition Client_PanelJSON :: "'b bus \<Rightarrow> ('b, string) clientCall" where
  "Client_PanelJSON bus = stringCall bus ''GetPanelSnapshot''"
definition Client_SpecJSON :: "'b bus \<Rightarrow> ('b, string) clientCall" where
  "Client_SpecJSON bus = stringCall bus ''GetPanelSpec''"
definition Client_TreeJSON :: "'b bus \<Rightarrow> ('b, string) clientCall" where
  "Client_TreeJSON bus = stringCall bus ''GetTree''"
definition Client_PathJSON :: "'b bus \<Rightarrow> string \<Rightarrow> ('b, string) clientCall" where
  "Client_PathJSON bus nodeID = stringArgCall bus ''GetPath'' nodeID"
definition Client_ApplicationJSON :: "'b bus \<Rightarrow> string \<Rightarrow> ('b, string) clientCall" where
  "Client_ApplicationJSON bus appID = stringArgCall bus ''GetApplicationSurface'' appID"

definition Client_ReloadPanel :: "'b bus \<Rightarrow> ('b, bool \<times> string) clientCall" where
  "Client_ReloadPanel bus b =
     (case bus (fullName ''ReloadPanel'') [] b of (reply, b1) \<Rightarrow>
        (case storeReload reply of Inl e \<Rightarrow> (Inl (CallFailed ''ReloadPanel'' e), b1) | Inr r \<Rightarrow> (Inr r, b1)))"

definition Client_ActivateWorkspace :: "'b bus \<Rightarrow> string \<Rightarrow> string \<Rightarrow> ('b, string) clientCall" where
  "Client_ActivateWorkspace bus = workspaceMutationCall bus ''ActivateWorkspace''"
definition Client_RecoverWorkspace :: "'b bus \<Rightarrow> string \<Rightarrow> string \<Rightarrow> ('b, string) clientCall" where
  "Client_RecoverWorkspace bus = workspaceMutationCall bus ''RecoverWorkspace''"
definition Client_ResumeWorkspace :: "'b bus \<Rightarrow> string \<Rightarrow> string \<Rightarrow> ('b, string) clientCall" where
  "Client_ResumeWorkspace bus = workspaceMutationCall bus ''ResumeWorkspace''"
definition Client_SuspendWorkspace :: "'b bus \<Rightarrow> string \<Rightarrow> ('b, string) clientCall" where
  "Client_SuspendWorkspace bus = stringArgCall bus ''SuspendWorkspace''"
definition Client_CloseWorkspace :: "'b bus \<Rightarrow> string \<Rightarrow> string \<Rightarrow> ('b, string) clientCall" where
  "Client_CloseWorkspace bus = workspaceMutationCall bus ''CloseWorkspace''"
definition Client_WorkspaceStateJSON :: "'b bus \<Rightarrow> string \<Rightarrow> ('b, string) clientCall" where
  "Client_WorkspaceStateJSON bus = stringArgCall bus ''GetWorkspaceState''"
definition Client_WorkspaceStatesJSON :: "'b bus \<Rightarrow> ('b, string) clientCall" where
  "Client_WorkspaceStatesJSON bus = stringCall bus ''GetWorkspaceStates''"

definition Client_CompleteShellAction :: "'b bus \<Rightarrow> string \<Rightarrow> ('b, unit) clientCall" where
  "Client_CompleteShellAction bus payload b =
     (case bus (fullName ''CompleteShellAction'') [BusS payload] b of
        (Inl e, b1) \<Rightarrow> (Inl (CallFailed ''CompleteShellAction'' e), b1)
      | (Inr _, b1) \<Rightarrow> (Inr (), b1))"

text \<open>Closing a client, if there is one with a connection.\<close>

definition Client_Close :: "(Client \<times> bool) option \<Rightarrow> busAction list" where
  "Client_Close c = (case c of Some (_, True) \<Rightarrow> [ConnectionClosed] | _ \<Rightarrow> [])"

section \<open>The library between them\<close>

text \<open>
  What a client relies on: a call of an exported method with arguments of its types is answered with
  what the method returns, or fails with the text of its error.
\<close>

locale session_bus =
  fixes bus :: "'b bus" and handlers :: "(string \<times> 'b handler) list" and errText :: "busError \<Rightarrow> string"
  assumes answers: "map_of handlers name = Some h \<Longrightarrow> h args = Some m \<Longrightarrow> m b = (Inr vs, b1) \<Longrightarrow>
      bus (fullName name) args b = (Inr vs, b1)"
    and refuses: "map_of handlers name = Some h \<Longrightarrow> h args = Some m \<Longrightarrow> m b = (Inl e, b1) \<Longrightarrow>
      bus (fullName name) args b = (Inl (errText e), b1)"
begin

text \<open>A method that returns a text, called by a client that stores a text.\<close>

lemma text_answer:
  assumes "map_of handlers name = Some h" and "h args = Some (textReply m)"
  shows "(case bus (fullName name) args b of (reply, b1) \<Rightarrow>
      (case storeText reply of Inl e \<Rightarrow> (Inl (CallFailed name e), b1) | Inr v \<Rightarrow> (Inr v, b1))) =
    (case m b of ((v, None), b1) \<Rightarrow> (Inr v, b1) | ((_, Some e), b1) \<Rightarrow> (Inl (CallFailed name (errText e)), b1))"
proof -
  obtain v e b1 where m: "m b = ((v, e), b1)" by (metis prod.collapse)
  show ?thesis
  proof (cases e)
    case None
    with m have "textReply m b = (Inr [BusS v], b1)" by (simp add: textReply_def)
    from answers [OF assms this] m None show ?thesis by (simp add: storeText_def)
  next
    case (Some x)
    with m have "textReply m b = (Inl x, b1)" by (simp add: textReply_def)
    from refuses [OF assms this] m Some show ?thesis by (simp add: storeText_def)
  qed
qed

lemma plain_answer:
  assumes "map_of handlers name = Some h" and "h args = Some (plainReply m)"
  shows "bus (fullName name) args b =
    (case m b of (None, b1) \<Rightarrow> (Inr [], b1) | (Some e, b1) \<Rightarrow> (Inl (errText e), b1))"
  using answers [OF assms, of b] refuses [OF assms, of b]
  by (auto simp: plainReply_def split: prod.splits option.splits)

end

text \<open>The library that dispatches at once: the error's text is the first part of its body, as \<open>Error\<close> of the library has it.\<close>

definition busErrorText :: "busError \<Rightarrow> string" where
  "busErrorText e = (case beBody e of t # _ \<Rightarrow> t | [] \<Rightarrow> beName e)"

definition directBus :: "(string \<times> 'b handler) list \<Rightarrow> 'b bus" where
  "directBus handlers full args b =
     (case map_of handlers (TrimPrefix full (InterfaceName @ ''.'')) of
        None \<Rightarrow> (Inl ''Unknown method'', b)
      | Some h \<Rightarrow> (case h args of
          None \<Rightarrow> (Inl ''Invalid arguments'', b)
        | Some m \<Rightarrow> (case m b of (Inl e, b1) \<Rightarrow> (Inl (busErrorText e), b1) | (Inr vs, b1) \<Rightarrow> (Inr vs, b1))))"

lemma directBus_full [simp]:
  "directBus handlers (fullName name) args b =
     (case map_of handlers name of
        None \<Rightarrow> (Inl ''Unknown method'', b)
      | Some h \<Rightarrow> (case h args of
          None \<Rightarrow> (Inl ''Invalid arguments'', b)
        | Some m \<Rightarrow> (case m b of (Inl e, b1) \<Rightarrow> (Inl (busErrorText e), b1) | (Inr vs, b1) \<Rightarrow> (Inr vs, b1))))"
  using TrimPrefix_append [of "InterfaceName @ ''.''" name] by (simp add: directBus_def fullName_def)

interpretation direct: session_bus "directBus (exportedMethods marshal s)" "exportedMethods marshal s" busErrorText
  for marshal :: capEncoder and s :: "'b Service"
  by unfold_locales simp_all

section \<open>The interface is what its description says\<close>

definition describes :: "string list \<Rightarrow> string list \<Rightarrow> 'b handler \<Rightarrow> bool" where
  "describes ins outs h \<longleftrightarrow> (\<forall>args. h args \<noteq> None \<longleftrightarrow> map busType args = ins) \<and>
     (\<forall>args m b vs b1. h args = Some m \<longrightarrow> m b = (Inr vs, b1) \<longrightarrow> map busType vs = outs)"

lemma busType_iff [simp]:
  "busType v = ''s'' \<longleftrightarrow> (\<exists>x. v = BusS x)" "busType v = ''u'' \<longleftrightarrow> (\<exists>x. v = BusU x)"
  "busType v = ''t'' \<longleftrightarrow> (\<exists>x. v = BusT x)" "busType v = ''b'' \<longleftrightarrow> (\<exists>x. v = BusB x)"
  by (cases v; simp)+

lemma map_two: "map f xs = [a, b] \<longleftrightarrow> (\<exists>x y. xs = [x, y] \<and> f x = a \<and> f y = b)"
  by (auto simp: map_eq_Cons_conv)

lemma map_one: "map f xs = [a] \<longleftrightarrow> (\<exists>x. xs = [x] \<and> f x = a)"
  by (auto simp: map_eq_Cons_conv)

lemmas arities = noArgs_def oneText_def twoTexts_def numberAndText_def

lemma accepts:
  "noArgs m0 args \<noteq> None \<longleftrightarrow> map busType args = []"
  "oneText m1 args \<noteq> None \<longleftrightarrow> map busType args = [''s'']"
  "twoTexts m2 args \<noteq> None \<longleftrightarrow> map busType args = [''s'', ''s'']"
  "numberAndText m3 args \<noteq> None \<longleftrightarrow> map busType args = [''u'', ''s'']"
  by (auto simp: arities map_one map_two split: list.splits busValue.splits)

lemma replies:
  "textReply m b = (Inr vs, b1) \<Longrightarrow> map busType vs = [''s'']"
  "plainReply m' b = (Inr vs, b1) \<Longrightarrow> map busType vs = []"
  "reloadReply m'' b = (Inr vs, b1) \<Longrightarrow> map busType vs = [''b'', ''s'']"
  "helloReply r b = (Inr vs, b1) \<Longrightarrow> map busType vs = [''u'', ''s'', ''s'', ''s'']"
  by (auto simp: textReply_def plainReply_def reloadReply_def helloReply_def split: prod.splits option.splits)

lemma takes:
  "noArgs m0 args = Some m \<Longrightarrow> m = m0"
  "oneText m1 args = Some m \<Longrightarrow> \<exists>x. m = m1 x"
  "twoTexts m2 args = Some m \<Longrightarrow> \<exists>x y. m = m2 x y"
  "numberAndText m3 args = Some m \<Longrightarrow> \<exists>x y. m = m3 x y"
  by (auto simp: arities split: list.splits busValue.splits)

lemma described:
  "describes [] [''s''] (noArgs (textReply m))"
  "describes [] [''b'', ''s''] (noArgs (reloadReply m'))"
  "describes [''s''] [''s''] (oneText (\<lambda>x. textReply (m1 x)))"
  "describes [''s''] [] (oneText (\<lambda>x. plainReply (m1' x)))"
  "describes [''s'', ''s''] [''s''] (twoTexts (\<lambda>x y. textReply (m2 x y)))"
  "describes [''s'', ''s''] [] (twoTexts (\<lambda>x y. plainReply (m2' x y)))"
  "describes [''u'', ''s''] [''u'', ''s'', ''s'', ''s''] (numberAndText (\<lambda>x y. helloReply (r x y)))"
  unfolding describes_def by (intro conjI allI impI accepts; auto dest!: takes replies; fail)+

lemma exported_lookup [simp]:
  "map_of (exportedMethods marshal s) ''Hello'' = Some (numberAndText (\<lambda>p i. helloReply (Hello marshal s p i)))"
  "map_of (exportedMethods marshal s) ''GetPanelSnapshot'' = Some (noArgs (textReply (GetPanelSnapshot s)))"
  "map_of (exportedMethods marshal s) ''GetPanelSpec'' = Some (noArgs (textReply (GetPanelSpec s)))"
  "map_of (exportedMethods marshal s) ''GetHealth'' = Some (noArgs (textReply (GetHealth s)))"
  "map_of (exportedMethods marshal s) ''GetTree'' = Some (noArgs (textReply (GetTree s)))"
  "map_of (exportedMethods marshal s) ''GetPath'' = Some (oneText (\<lambda>x. textReply (GetPath s x)))"
  "map_of (exportedMethods marshal s) ''GetApplicationSurface'' = Some (oneText (\<lambda>x. textReply (GetApplicationSurface s x)))"
  "map_of (exportedMethods marshal s) ''SubmitShellSnapshot'' = Some (oneText (\<lambda>x. plainReply (SubmitShellSnapshot s x)))"
  "map_of (exportedMethods marshal s) ''ReloadPanel'' = Some (noArgs (reloadReply (ReloadPanel s)))"
  "map_of (exportedMethods marshal s) ''ActivateView'' = Some (twoTexts (\<lambda>x y. plainReply (ActivateView s x y)))"
  "map_of (exportedMethods marshal s) ''CloseView'' = Some (twoTexts (\<lambda>x y. plainReply (CloseView s x y)))"
  "map_of (exportedMethods marshal s) ''ActivateWorkspace'' = Some (twoTexts (\<lambda>x y. textReply (ActivateWorkspace s x y)))"
  "map_of (exportedMethods marshal s) ''RecoverWorkspace'' = Some (twoTexts (\<lambda>x y. textReply (RecoverWorkspace s x y)))"
  "map_of (exportedMethods marshal s) ''ResumeWorkspace'' = Some (twoTexts (\<lambda>x y. textReply (ResumeWorkspace s x y)))"
  "map_of (exportedMethods marshal s) ''SuspendWorkspace'' = Some (oneText (\<lambda>x. textReply (SuspendWorkspace s x)))"
  "map_of (exportedMethods marshal s) ''CloseWorkspace'' = Some (twoTexts (\<lambda>x y. textReply (CloseWorkspaceMethod s x y)))"
  "map_of (exportedMethods marshal s) ''GetWorkspaceState'' = Some (oneText (\<lambda>x. textReply (GetWorkspaceState s x)))"
  "map_of (exportedMethods marshal s) ''GetWorkspaceStates'' = Some (noArgs (textReply (GetWorkspaceStates s)))"
  "map_of (exportedMethods marshal s) ''CompleteShellAction'' = Some (oneText (\<lambda>x. plainReply (CompleteShellActionMethod s x)))"
  by (simp_all add: exportedMethods_def)

lemma exported_names: "set (map bmName introspectionMethods) = set (map fst (exportedMethods marshal s))"
proof -
  define names where "names = map fst (exportedMethods (\<lambda>_. '''') (undefined :: unit Service))"
  have "map fst (exportedMethods marshal s) = names" by (simp add: exportedMethods_def names_def)
  moreover have "set (map bmName introspectionMethods) = set names"
    unfolding introspectionMethods_def textOut_def names_def exportedMethods_def list.map fst_conv busMethod.select_convs
    by code_simp
  ultimately show ?thesis by simp
qed

lemma distinct_methods: "distinct (map bmName introspectionMethods)"
  by (simp add: introspectionMethods_def textOut_def)

lemma methods_described:
  "m \<in> set introspectionMethods \<Longrightarrow>
   \<exists>h. map_of (exportedMethods marshal s) (bmName m) = Some h \<and> describes (map snd (bmIn m)) (map snd (bmOut m)) h"
  unfolding introspectionMethods_def by (auto simp: textOut_def described)

lemma emitted_signal:
  "Emitted n vs \<in> set (snd (emit signal args srv)) \<longleftrightarrow> srvConn srv \<and> \<not> srvClosed srv \<and> n = fullName signal \<and> vs = args"
  by (auto simp: emit_def fullName_def)

lemmas serverOps = EmitPanelChanged_def EmitPanelConfigChanged_def EmitTreeChanged_def EmitShellActionRequested_def
  EmitWorkspaceChanged_def Server_Close_def

lemma signals_described:
  assumes "Emitted n vs \<in> set (snd (serverStep c srv))"
  shows "\<exists>sg\<in>set introspectionSignals. n = fullName (bsName sg) \<and> map busType vs = map snd (bsArgs sg)"
  using assms
  by (cases c) (auto simp: serverOps emitted_signal introspectionSignals_def split: if_splits)

definition openServer :: Server where
  "openServer = \<lparr>srvConn = True, srvClosed = False\<rparr>"

definition emittedWhenOpen :: "busSignal \<Rightarrow> bool" where
  "emittedWhenOpen sg \<longleftrightarrow>
     (\<exists>c vs. Emitted (fullName (bsName sg)) vs \<in> set (snd (serverStep c openServer)) \<and> map busType vs = map snd (bsArgs sg))"

lemma emittedWhenOpenI:
  "Emitted (fullName (bsName sg)) vs \<in> set (snd (serverStep c openServer)) \<Longrightarrow> map busType vs = map snd (bsArgs sg) \<Longrightarrow>
   emittedWhenOpen sg"
  unfolding emittedWhenOpen_def by blast

lemma described_signals: "\<forall>sg \<in> set introspectionSignals. emittedWhenOpen sg"
proof -
  have "emittedWhenOpen \<lparr>bsName = ''PanelChanged'', bsArgs = [(''revision'', ''t'')]\<rparr>"
    by (rule emittedWhenOpenI [where c = "PanelChangedTo 0" and vs = "[BusT 0]"])
      (simp_all add: serverOps emitted_signal openServer_def)
  moreover have "emittedWhenOpen \<lparr>bsName = ''PanelConfigChanged'', bsArgs = [(''revision'', ''t'')]\<rparr>"
    by (rule emittedWhenOpenI [where c = "PanelConfigChangedTo 0" and vs = "[BusT 0]"])
      (simp_all add: serverOps emitted_signal openServer_def)
  moreover have "emittedWhenOpen \<lparr>bsName = ''TreeChanged'', bsArgs = [(''revision'', ''t'')]\<rparr>"
    by (rule emittedWhenOpenI [where c = "TreeChangedTo 0" and vs = "[BusT 0]"])
      (simp_all add: serverOps emitted_signal openServer_def)
  moreover have "emittedWhenOpen \<lparr>bsName = ''WorkspaceChanged'', bsArgs = [(''workspaceId'', ''s''), (''revision'', ''t'')]\<rparr>"
    by (rule emittedWhenOpenI [where c = "WorkspaceChangedTo ''w'' 0" and vs = "[BusS ''w'', BusT 0]"])
      (simp_all add: serverOps emitted_signal openServer_def)
  moreover have "emittedWhenOpen \<lparr>bsName = ''ShellActionRequested'', bsArgs = [(''json'', ''s'')]\<rparr>"
    by (rule emittedWhenOpenI [where c = "ShellActionRequestedWith ''p''" and vs = "[BusS ''p'']"])
      (simp_all add: serverOps emitted_signal openServer_def)
  ultimately show ?thesis unfolding introspectionSignals_def by simp
qed

text \<open>
  C39. The description of the interface that a client can ask for is exact: it names every exported
  method once and no other; a method takes arguments exactly when their number and types are those of
  its description, and a reply has the described types; every signal that the server emits is
  described, once and with the types of its arguments; and every signal that is described is emitted,
  with these types, by some call of an open server.
\<close>

theorem introspection_exact:
  "distinct (map bmName introspectionMethods) \<and>
   set (map bmName introspectionMethods) = set (map fst (exportedMethods marshal s)) \<and>
   (\<forall>m\<in>set introspectionMethods. \<exists>h. map_of (exportedMethods marshal s) (bmName m) = Some h \<and>
      describes (map snd (bmIn m)) (map snd (bmOut m)) h) \<and>
   distinct (map bsName introspectionSignals) \<and>
   (\<forall>c srv n vs. Emitted n vs \<in> set (snd (serverStep c srv)) \<longrightarrow>
      (\<exists>sg\<in>set introspectionSignals. n = fullName (bsName sg) \<and> map busType vs = map snd (bsArgs sg))) \<and>
   (\<forall>sg\<in>set introspectionSignals. \<exists>c vs.
      Emitted (fullName (bsName sg)) vs \<in> set (snd (serverStep c openServer)) \<and> map busType vs = map snd (bsArgs sg))"
proof -
  have "distinct (map bsName introspectionSignals)" by (simp add: introspectionSignals_def)
  then show ?thesis
    using distinct_methods exported_names methods_described signals_described described_signals [unfolded emittedWhenOpen_def]
    by blast
qed

section \<open>The server after it is closed\<close>

lemma serverStep_open:
  "c \<noteq> CloseServer \<Longrightarrow> fst (serverStep c openServer) = openServer"
  by (cases c) (simp_all add: serverOps emit_def openServer_def)

lemma serverRun_closed: "srvClosed srv \<Longrightarrow> serverRun cs srv = (srv, [])"
proof (induction cs)
  case (Cons c cs)
  then have "serverStep c srv = (srv, [])" by (cases c) (simp_all add: serverOps emit_def)
  with Cons show ?case by simp
qed simp

text \<open>
  Whatever calls arrive in whatever order, the connection carries the signals of the calls before the
  first \<open>Close\<close>, each once and in order; the first \<open>Close\<close> gives the name back and closes the
  connection, and nothing follows.
\<close>

lemma server_signals:
  "snd (serverRun cs openServer) =
     concat (map (\<lambda>c. snd (serverStep c openServer)) (takeWhile (\<lambda>c. c \<noteq> CloseServer) cs)) @
     (if CloseServer \<in> set cs then [NameReleased, ConnectionClosed] else [])"
proof (induction cs)
  case (Cons c cs)
  show ?case
  proof (cases "c = CloseServer")
    case True
    then show ?thesis by (simp add: Server_Close_def openServer_def serverRun_closed)
  next
    case False
    from serverStep_open [OF this] obtain as where c: "serverStep c openServer = (openServer, as)"
      by (metis prod.collapse)
    with False Cons show ?thesis by (auto split: prod.split)
  qed
qed simp

text \<open>A server that could not be opened leaves no connection behind, and one that was opened keeps it.\<close>

lemma OpenSession_cleans_up:
  "OpenSession a = (r, actions) \<Longrightarrow>
   (case r of Inr srv \<Rightarrow> srv = openServer \<and> actions = []
    | Inl _ \<Rightarrow> actions = (if anConnect a = None then [ConnectionClosed] else []))"
  by (auto simp: OpenSession_def openServer_def split: option.splits sum.splits if_splits)

section \<open>The client reaches the backend\<close>

text \<open>What a client is given for an outcome of the backend.\<close>

definition answer :: "(busError \<Rightarrow> string) \<Rightarrow> string \<Rightarrow> (string \<times> string option) \<times> 'b \<Rightarrow> (clientError + string) \<times> 'b" where
  "answer errText name r =
     (case r of
        ((v, None), b) \<Rightarrow> (Inr v, b)
      | ((_, Some e), b) \<Rightarrow> (Inl (CallFailed name (errText \<lparr>beName = InterfaceName @ ''.Error'', beBody = [e]\<rparr>)), b))"

lemma answer_busText:
  "(case busText r of ((v, None), b1) \<Rightarrow> (Inr v, b1) | ((_, Some e), b1) \<Rightarrow> (Inl (CallFailed name (errText e)), b1)) =
     answer errText name r"
  by (auto simp: busText_def answer_def asDBusError_def split: prod.splits option.splits)

lemmas service_texts = GetPanelSnapshot_def GetPanelSpec_def GetHealth_def GetTree_def GetPath_def
  GetApplicationSurface_def ActivateWorkspace_def RecoverWorkspace_def ResumeWorkspace_def
  SuspendWorkspace_def CloseWorkspaceMethod_def GetWorkspaceState_def GetWorkspaceStates_def workspacesOf_def

lemmas client_calls = Client_HealthJSON_def Client_PanelJSON_def Client_SpecJSON_def Client_TreeJSON_def
  Client_PathJSON_def Client_ApplicationJSON_def Client_ActivateWorkspace_def Client_RecoverWorkspace_def
  Client_ResumeWorkspace_def Client_SuspendWorkspace_def Client_CloseWorkspace_def
  Client_WorkspaceStateJSON_def Client_WorkspaceStatesJSON_def
  stringCall_def stringArgCall_def workspaceMutationCall_def

lemma transparent_reload:
  assumes "session_bus bus (exportedMethods marshal s) errText"
  shows "Client_ReloadPanel bus b =
    (case bkReloadPanel (svBackend s) b of (None, b1) \<Rightarrow> (Inr (True, ''''), b1) | (Some e, b1) \<Rightarrow> (Inr (False, e), b1))"
proof -
  have "\<exists>ok t b1. ReloadPanel s b = ((ok, t, None), b1)"
    by (auto simp: ReloadPanel_def split: prod.split option.split)
  then obtain ok t b1 where r: "ReloadPanel s b = ((ok, t, None), b1)" by blast
  then have "reloadReply (ReloadPanel s) b = (Inr [BusB ok, BusS t], b1)" by (simp add: reloadReply_def)
  then have "bus (fullName ''ReloadPanel'') [] b = (Inr [BusB ok, BusS t], b1)"
    by (intro session_bus.answers [OF assms, where h = "noArgs (reloadReply (ReloadPanel s))" and
          m = "reloadReply (ReloadPanel s)"]) (simp_all add: noArgs_def)
  then have "Client_ReloadPanel bus b = (Inr (ok, t), b1)"
    by (simp add: Client_ReloadPanel_def storeReload_def)
  with r show ?thesis by (auto simp: ReloadPanel_def split: prod.splits option.splits)
qed

lemma transparent_complete:
  assumes "session_bus bus (exportedMethods marshal s) errText" and "svWorkspaces s = Some wb"
  shows "Client_CompleteShellAction bus x b =
    (case wbCompleteShellActionJSON wb x b of (None, b1) \<Rightarrow> (Inr (), b1)
     | (Some e, b1) \<Rightarrow>
         (Inl (CallFailed ''CompleteShellAction'' (errText \<lparr>beName = InterfaceName @ ''.Error'', beBody = [e]\<rparr>)), b1))"
  using session_bus.plain_answer [OF assms(1) exported_lookup(19), of "[BusS x]" "CompleteShellActionMethod s x" b]
  by (auto simp: Client_CompleteShellAction_def oneText_def CompleteShellActionMethod_def workspacesOf_def assms(2)
      busPlain_def asDBusError_def split: prod.splits option.splits)

lemma transparent_texts:
  assumes "session_bus bus (exportedMethods marshal s) errText" and "svWorkspaces s = Some wb"
  shows "Client_HealthJSON bus b = answer errText ''GetHealth'' (bkHealthJSON (svBackend s) b)"
    and "Client_PanelJSON bus b = answer errText ''GetPanelSnapshot'' (bkPanelJSON (svBackend s) b)"
    and "Client_SpecJSON bus b = answer errText ''GetPanelSpec'' (bkSpecJSON (svBackend s) b)"
    and "Client_TreeJSON bus b = answer errText ''GetTree'' (bkTreeJSON (svBackend s) b)"
    and "Client_PathJSON bus x b = answer errText ''GetPath'' (bkPathJSON (svBackend s) x b)"
    and "Client_ApplicationJSON bus x b = answer errText ''GetApplicationSurface'' (bkApplicationJSON (svBackend s) x b)"
    and "Client_ActivateWorkspace bus x y b = answer errText ''ActivateWorkspace'' (wbActivateWorkspaceJSON wb x y b)"
    and "Client_RecoverWorkspace bus x y b = answer errText ''RecoverWorkspace'' (wbRecoverWorkspaceJSON wb x y b)"
    and "Client_ResumeWorkspace bus x y b = answer errText ''ResumeWorkspace'' (wbResumeWorkspaceJSON wb x y b)"
    and "Client_SuspendWorkspace bus x b = answer errText ''SuspendWorkspace'' (wbSuspendWorkspaceJSON wb x b)"
    and "Client_CloseWorkspace bus x y b = answer errText ''CloseWorkspace'' (wbCloseWorkspaceJSON wb x y b)"
    and "Client_WorkspaceStateJSON bus x b = answer errText ''GetWorkspaceState'' (wbWorkspaceStateJSON wb x b)"
    and "Client_WorkspaceStatesJSON bus b = answer errText ''GetWorkspaceStates'' (wbWorkspaceStatesJSON wb b)"
  by (simp_all add: client_calls service_texts assms(2) session_bus.text_answer [OF assms(1)] arities
      answer_busText [symmetric])

text \<open>
  C13. The client is transparent: over a bus that answers, what a call of the client returns and
  does is what the method of the daemon's backend of the same meaning returns and does, with the
  arguments in their places; an error of the backend arrives as an error with its text, under the name
  of the method, and a reload that is refused arrives as a diagnostic. That holds for every one of its
  fifteen calls, for what they do to the daemon as for what they return.
\<close>

theorem client_is_transparent:
  assumes "session_bus bus (exportedMethods marshal s) errText" and "svWorkspaces s = Some wb"
  shows "Client_HealthJSON bus b = answer errText ''GetHealth'' (bkHealthJSON (svBackend s) b) \<and>
    Client_PanelJSON bus b = answer errText ''GetPanelSnapshot'' (bkPanelJSON (svBackend s) b) \<and>
    Client_SpecJSON bus b = answer errText ''GetPanelSpec'' (bkSpecJSON (svBackend s) b) \<and>
    Client_TreeJSON bus b = answer errText ''GetTree'' (bkTreeJSON (svBackend s) b) \<and>
    Client_PathJSON bus x b = answer errText ''GetPath'' (bkPathJSON (svBackend s) x b) \<and>
    Client_ApplicationJSON bus x b = answer errText ''GetApplicationSurface'' (bkApplicationJSON (svBackend s) x b) \<and>
    Client_ActivateWorkspace bus x y b = answer errText ''ActivateWorkspace'' (wbActivateWorkspaceJSON wb x y b) \<and>
    Client_RecoverWorkspace bus x y b = answer errText ''RecoverWorkspace'' (wbRecoverWorkspaceJSON wb x y b) \<and>
    Client_ResumeWorkspace bus x y b = answer errText ''ResumeWorkspace'' (wbResumeWorkspaceJSON wb x y b) \<and>
    Client_SuspendWorkspace bus x b = answer errText ''SuspendWorkspace'' (wbSuspendWorkspaceJSON wb x b) \<and>
    Client_CloseWorkspace bus x y b = answer errText ''CloseWorkspace'' (wbCloseWorkspaceJSON wb x y b) \<and>
    Client_WorkspaceStateJSON bus x b = answer errText ''GetWorkspaceState'' (wbWorkspaceStateJSON wb x b) \<and>
    Client_WorkspaceStatesJSON bus b = answer errText ''GetWorkspaceStates'' (wbWorkspaceStatesJSON wb b) \<and>
    Client_ReloadPanel bus b =
      (case bkReloadPanel (svBackend s) b of (None, b1) \<Rightarrow> (Inr (True, ''''), b1) | (Some e, b1) \<Rightarrow> (Inr (False, e), b1)) \<and>
    Client_CompleteShellAction bus x b =
      (case wbCompleteShellActionJSON wb x b of (None, b1) \<Rightarrow> (Inr (), b1)
       | (Some e, b1) \<Rightarrow>
           (Inl (CallFailed ''CompleteShellAction'' (errText \<lparr>beName = InterfaceName @ ''.Error'', beBody = [e]\<rparr>)), b1))"
  by (intro conjI transparent_texts [OF assms] transparent_reload [OF assms(1)] transparent_complete [OF assms])

lemma randomID_not_empty: "random \<noteq> Some [] \<Longrightarrow> randomID random \<noteq> ''''"
  by (auto simp: randomID_def EncodeToString_def split: option.splits list.splits)

lemma ConnectSession_closes: "ConnectSession unmarshal bus connect random b = (Inl e, b1, open) \<Longrightarrow> \<not> open"
  by (auto simp: ConnectSession_def Let_def split: option.splits prod.splits sum.splits if_splits)

text \<open>The copy of the capabilities that a caller gets has all of them.\<close>

lemma Client_Capabilities_all:
  assumes "isIteration it" and "wf_map (clCapabilities c)"
  shows "map_of (Client_Capabilities it c) = map_of (clCapabilities c)"
  using map_of_iteration [OF assms] by (simp add: Client_Capabilities_def flip: copyMap_def)

text \<open>
  A JSON codec of maps of texts that gives back the lookups of a map; \<open>plainMarshal\<close> and
  \<open>plainUnmarshal\<close> are what it does on texts that need no escapes.
\<close>

definition jsonMap :: "capEncoder \<Rightarrow> (string \<Rightarrow> string + (string, string) gomap) \<Rightarrow> (string, string) gomap \<Rightarrow> bool" where
  "jsonMap marshal unmarshal m \<longleftrightarrow> marshal m \<noteq> '''' \<and>
     (\<exists>m'. unmarshal (marshal m) = Inr m' \<and> wf_map m' \<and> map_of m' = map_of m)"

lemma connects:
  assumes "session_bus bus (exportedMethods marshal s) errText"
    and "jsonMap marshal unmarshal helloCapabilities" and "random \<noteq> Some []"
  obtains caps where "wf_map caps" "map_of caps = map_of helloCapabilities"
    "\<And>b. ConnectSession unmarshal bus None random b =
      (Inr \<lparr>clInstance = randomID random, clServer = svServerInstance s, clRevisionEpoch = svRevisionEpoch s,
        clCapabilities = caps\<rparr>, b, True)"
proof -
  obtain caps where caps: "unmarshal (marshal helloCapabilities) = Inr caps" "wf_map caps" "map_of caps = map_of helloCapabilities"
    and m: "marshal helloCapabilities \<noteq> ''''"
    using assms(2) by (auto simp: jsonMap_def)
  let ?reply = "[BusU ProtocolVersion, BusS (svServerInstance s), BusS (svRevisionEpoch s), BusS (marshal helloCapabilities)]"
  have "bus (fullName ''Hello'') [BusU ProtocolVersion, BusS (randomID random)] b = (Inr ?reply, b)" for b
    using randomID_not_empty [OF assms(3)]
    by (intro session_bus.answers [OF assms(1) exported_lookup(1),
          where m = "helloReply (Hello marshal s ProtocolVersion (randomID random))"])
      (simp_all add: numberAndText_def Hello_def helloReply_def)
  then have "ConnectSession unmarshal bus None random b =
      (Inr \<lparr>clInstance = randomID random, clServer = svServerInstance s, clRevisionEpoch = svRevisionEpoch s,
        clCapabilities = caps\<rparr>, b, True)" for b
    using caps(1) m by (simp add: ConnectSession_def storeHello_def)
  with caps(2,3) show thesis by (rule that)
qed

text \<open>
  A client and a daemon of the same protocol find each other: over a bus that answers,
  connecting always succeeds, whatever the random source delivers, keeps the connection open, and
  tells the client the instance and the revision epoch of the server and exactly its capabilities. The
  daemon refuses every other version of the protocol and a client without an instance; and whenever
  connecting fails, over any bus, the connection is closed again.
\<close>

lemma handshake:
  assumes "session_bus bus (exportedMethods marshal s) errText"
    and "jsonMap marshal unmarshal helloCapabilities" and "random \<noteq> Some []" and "isIteration it"
  shows "(\<exists>c. ConnectSession unmarshal bus None random b = (Inr c, b, True) \<and> clServer c = svServerInstance s \<and>
      clRevisionEpoch c = svRevisionEpoch s \<and> map_of (Client_Capabilities it c) = map_of helloCapabilities) \<and>
    (\<forall>p i. (snd (Hello marshal s p i) = None) = (p = ProtocolVersion \<and> i \<noteq> '''')) \<and>
    (\<forall>any connect e b1 open. ConnectSession unmarshal any connect random b = (Inl e, b1, open) \<longrightarrow> \<not> open)"
proof -
  obtain caps where c: "wf_map caps" "map_of caps = map_of helloCapabilities"
    "ConnectSession unmarshal bus None random b =
      (Inr \<lparr>clInstance = randomID random, clServer = svServerInstance s, clRevisionEpoch = svRevisionEpoch s,
        clCapabilities = caps\<rparr>, b, True)"
    using connects [OF assms(1-3)] by metis
  have "(snd (Hello marshal s p i) = None) = (p = ProtocolVersion \<and> i \<noteq> '''')" for p i
    by (simp add: Hello_def)
  with c show ?thesis
    using Client_Capabilities_all [OF assms(4)] ConnectSession_closes by fastforce
qed

section \<open>Samples\<close>

text \<open>A backend with a counter of calls; every answer names the method and its arguments.\<close>

definition echoBackend :: "nat Backend" where
  "echoBackend = \<lparr>bkPanelJSON = \<lambda>n. ((''panel'', None), n + 1), bkSpecJSON = \<lambda>n. ((''spec'', None), n + 1),
     bkHealthJSON = \<lambda>n. ((''health'', None), n + 1), bkTreeJSON = \<lambda>n. (('''', Some ''no tree''), n + 1),
     bkPathJSON = \<lambda>x n. ((x, None), n + 1), bkApplicationJSON = \<lambda>x n. ((x, None), n + 1),
     bkReplaceShellSnapshotJSON = \<lambda>x n. (None, n + 1), bkReloadPanel = \<lambda>n. (Some ''bad panel'', n + 1),
     bkActivateView = \<lambda>x y n. (None, n + 1), bkCloseView = \<lambda>x y n. (None, n + 1)\<rparr>"

definition echoWorkspaces :: "nat workspaceBackend" where
  "echoWorkspaces = \<lparr>wbActivateWorkspaceJSON = \<lambda>x y n. ((x @ '' '' @ y, None), n + 1),
     wbRecoverWorkspaceJSON = \<lambda>x y n. ((x, None), n + 1), wbResumeWorkspaceJSON = \<lambda>x y n. ((x, None), n + 1),
     wbSuspendWorkspaceJSON = \<lambda>x n. ((x, None), n + 1), wbCloseWorkspaceJSON = \<lambda>x y n. ((x, None), n + 1),
     wbWorkspaceStateJSON = \<lambda>x n. (('''', Some ''unknown''), n + 1), wbWorkspaceStatesJSON = \<lambda>n. ((''[]'', None), n + 1),
     wbCompleteShellActionJSON = \<lambda>x n. (None, n + 1)\<rparr>"

definition echoService :: "nat Service" where
  "echoService = NewService echoBackend (Some echoWorkspaces) (Some [10, 255]) None"

definition quoteMark :: char where "quoteMark = char_of (34 :: nat)"

definition plainMarshal :: capEncoder where
  "plainMarshal m = ''{'' @ concat (map (\<lambda>(k, v). [quoteMark] @ k @ [quoteMark, CHR '':'', quoteMark] @ v @ [quoteMark, CHR '','']) (butlast m)) @
     (if m = [] then '''' else case last m of (k, v) \<Rightarrow> [quoteMark] @ k @ [quoteMark, CHR '':'', quoteMark] @ v @ [quoteMark]) @ ''}''"

fun quotedTexts :: "string list \<Rightarrow> (string, string) gomap" where
  "quotedTexts (_ # k # _ # v # rest) = put k v (quotedTexts rest)"
| "quotedTexts _ = []"

fun splitAtQuotes :: "string \<Rightarrow> string \<Rightarrow> string list" where
  "splitAtQuotes acc [] = [rev acc]"
| "splitAtQuotes acc (c # cs) = (if c = quoteMark then rev acc # splitAtQuotes [] cs else splitAtQuotes (c # acc) cs)"

definition plainUnmarshal :: "string \<Rightarrow> string + (string, string) gomap" where
  "plainUnmarshal s = (if HasPrefix s ''{'' then Inr (quotedTexts (splitAtQuotes [] s)) else Inl ''not an object'')"

lemma plain_capabilities: "plainUnmarshal (plainMarshal helloCapabilities) = Inr (rev helloCapabilities)"
  by code_simp

lemma plain_jsonMap: "jsonMap plainMarshal plainUnmarshal helloCapabilities"
proof -
  have "plainMarshal helloCapabilities \<noteq> ''''" by (simp add: plainMarshal_def)
  moreover have "wf_map (rev helloCapabilities)" "map_of (rev helloCapabilities) = map_of helloCapabilities"
    using map_of_iteration [of rev helloCapabilities] by (simp_all add: wf_map_def helloCapabilities_def)
  ultimately show ?thesis using plain_capabilities by (auto simp: jsonMap_def)
qed

lemma client_is_transparent_witness:
  "Client_ActivateWorkspace (directBus (exportedMethods plainMarshal echoService)) ''dev'' ''k'' 0 = (Inr ''dev k'', 1) \<and>
   Client_ReloadPanel (directBus (exportedMethods plainMarshal echoService)) 4 = (Inr (False, ''bad panel''), 5) \<and>
   Client_CompleteShellAction (directBus (exportedMethods plainMarshal echoService)) ''{}'' 4 = (Inr (), 5)"
proof -
  have wb: "svWorkspaces echoService = Some echoWorkspaces" "svBackend echoService = echoBackend"
    by (simp_all add: echoService_def NewService_def)
  note t = client_is_transparent [OF direct.session_bus_axioms wb(1), of plainMarshal]
  show ?thesis
    using t [of 0 "''dev''" "''k''"] t [of 4 "''{}''" "''k''"] wb(2)
    by (simp add: answer_def echoWorkspaces_def echoBackend_def)
qed

lemma introspection_exact_witness:
  "map_of (exportedMethods plainMarshal echoService) ''CompleteShellAction'' \<noteq> None \<and> ''CompleteShellActions'' \<notin> set (map fst (exportedMethods plainMarshal echoService))"
proof -
  note t = introspection_exact [of plainMarshal echoService]
  have m: "\<lparr>bmName = ''CompleteShellAction'', bmIn = [(''json'', ''s'')], bmOut = []\<rparr> \<in> set introspectionMethods"
    by (simp add: introspectionMethods_def)
  have n: "''CompleteShellActions'' \<notin> set (map bmName introspectionMethods)" by code_simp
  show ?thesis using t m n by (metis busMethod.select_convs(1) option.distinct(1))
qed

end
