(* ===== verification/Hwsctl.thy ===== *)
theory Hwsctl
  imports DBusApi Runtime
begin

text \<open>
  The command line tool (\<open>cmd/hwsctl/main.go\<close>) and the daemon's runtime as the backend that it reaches
  over the session bus. What a command prints is a list of lines; the lines of \<open>doctor\<close> are left as
  the values that they show.
\<close>

section \<open>Reports\<close>

record reportProvider =
  rpProviderID :: string
  rpKind :: string
  rpConnected :: bool
  rpStale :: bool
  rpPartial :: bool
  rpRevision :: "64 word"

record healthReport =
  hrStatus :: string
  hrConfigValid :: bool
  hrConfigError :: string
  hrHierarchyValid :: bool
  hrHierarchyError :: string
  hrHierarchyRevision :: "64 word"
  hrWorkspaceCatalogValid :: bool
  hrWorkspaceCatalogError :: string
  hrWorkspaceCatalogRevision :: "64 word"
  hrWorkspaceDefinitions :: int
  hrWorkspaceLifecycleReady :: bool
  hrApplications :: int
  hrWindows :: int
  hrViews :: int
  hrPanelRevision :: "64 word"
  hrSurfaceRevision :: string
  hrProviders :: "reportProvider list"

datatype ctlLine =
    Stdout string | Stderr string | UsageText
  | DaemonLine string | ServerLine string string | SurfaceLine int int int "64 word"
  | PanelLine "string option" | HierarchyLine "string + 64 word" | WorkspacesLine "string + 64 word \<times> int \<times> bool"
  | ProviderLine string string string "64 word"
  | DemoLine string string int int string

datatype ctlError =
    CtlClient clientError | Usage string | MissingWorkspaceID | UnknownCommand string | UnknownAction string
  | ConfigRejected string | FormatFailed string | DecodeHealth string | DoctorFound
  | DemoDefinition workspaceError | DemoOpen string | DemoLifecycle lifecycleError

section \<open>What the tool uses\<close>

text \<open>
  The bus and the client's connection; \<open>ceFormat\<close> decodes a JSON text and encodes it indented, if it is
  one; \<open>ceHealth\<close> decodes a report; \<open>ceNow\<close> is the clock; \<open>ceOpen\<close> opens the lifecycle of the demo, over
  a catalogue and a new in-memory desktop.
\<close>

record ('b, 'x) ctlEnv =
  ceBus :: "'b bus"
  ceConnect :: "string option"
  ceRandom :: "8 word list option"
  ceUnmarshal :: "string \<Rightarrow> string + (string, string) gomap"
  ceFormat :: "string \<Rightarrow> (string + string) option"
  ceHealth :: "string \<Rightarrow> string + healthReport"
  ceNow :: int
  ceOpen :: "Memory \<Rightarrow> string + 'x Engine \<times> 'x"

type_synonym 'b command = "'b \<Rightarrow> ctlError option \<times> ctlLine list \<times> 'b"

definition withClient :: "('b, 'x) ctlEnv \<Rightarrow> (Client \<Rightarrow> 'b command) \<Rightarrow> 'b command" where
  "withClient env f b =
     (case ConnectSession (ceUnmarshal env) (ceBus env) (ceConnect env) (ceRandom env) b of
        (Inl e, b1, _) \<Rightarrow> (Some (CtlClient e), [], b1)
      | (Inr client, b1, _) \<Rightarrow> f client b1)"

definition printJSON :: "('b, 'x) ctlEnv \<Rightarrow> clientError + string \<Rightarrow> ctlError option \<times> ctlLine list" where
  "printJSON env r =
     (case r of
        Inl e \<Rightarrow> (Some (CtlClient e), [])
      | Inr value \<Rightarrow>
          (case ceFormat env value of
             None \<Rightarrow> (None, [Stdout value])
           | Some (Inl e) \<Rightarrow> (Some (FormatFailed e), [])
           | Some (Inr formatted) \<Rightarrow> (None, [Stdout formatted])))"

definition showCall :: "('b, 'x) ctlEnv \<Rightarrow> ('b, string) clientCall \<Rightarrow> 'b command" where
  "showCall env call b = (case call b of (r, b1) \<Rightarrow> (case printJSON env r of (e, out) \<Rightarrow> (e, out, b1)))"

section \<open>Workspace commands\<close>

definition operationKey :: "int \<Rightarrow> string \<Rightarrow> string \<Rightarrow> string list \<Rightarrow> string" where
  "operationKey now action workspaceID optional =
     (if length optional = 1 \<and> TrimSpace (optional ! 0) \<noteq> '''' then TrimSpace (optional ! 0)
      else action @ '':'' @ workspaceID @ '':'' @ Itoa now)"

definition keyedActions :: "string list" where
  "keyedActions = [''activate'', ''recover'', ''resume'', ''close'']"

definition keyedCall :: "'b bus \<Rightarrow> string \<Rightarrow> string \<Rightarrow> string \<Rightarrow> ('b, string) clientCall" where
  "keyedCall bus action =
     (if action = ''activate'' then Client_ActivateWorkspace bus
      else if action = ''recover'' then Client_RecoverWorkspace bus
      else if action = ''resume'' then Client_ResumeWorkspace bus
      else Client_CloseWorkspace bus)"

definition runWorkspace :: "('b, 'x) ctlEnv \<Rightarrow> string list \<Rightarrow> 'b command" where
  "runWorkspace env args b =
     (if length args < 2
      then (Some (Usage ''hwsctl workspace <activate|state|recover|resume|suspend|close> <workspace-id> [operation-key]''), [], b)
      else let action = args ! 0; workspaceID = TrimSpace (args ! 1)
      in if workspaceID = '''' then (Some MissingWorkspaceID, [], b)
      else withClient env (\<lambda>client b.
        if action = ''state'' then
          (if length args \<noteq> 2 then (Some (Usage ''hwsctl workspace state <workspace-id>''), [], b)
           else showCall env (Client_WorkspaceStateJSON (ceBus env) workspaceID) b)
        else if action = ''suspend'' then
          (if length args \<noteq> 2 then (Some (Usage ''hwsctl workspace suspend <workspace-id>''), [], b)
           else showCall env (Client_SuspendWorkspace (ceBus env) workspaceID) b)
        else if action \<in> set keyedActions then
          (if length args > 3 then (Some (Usage (''hwsctl workspace '' @ action @ '' <workspace-id> [operation-key]'')), [], b)
           else let key = operationKey (ceNow env) action workspaceID (drop 2 args)
           in (case keyedCall (ceBus env) action workspaceID key b of
                 (r, b1) \<Rightarrow> (case printJSON env r of
                   (e, out) \<Rightarrow> (e, (case r of Inr _ \<Rightarrow> [Stderr (''operation-key: '' @ key)] | Inl _ \<Rightarrow> []) @ out, b1))))
        else (Some (UnknownAction action), [], b)) b)"

section \<open>The doctor\<close>

definition providerState :: "reportProvider \<Rightarrow> string" where
  "providerState p =
     (if rpStale p then ''stale'' else if rpPartial p then ''partial''
      else if \<not> rpConnected p then ''disconnected'' else ''connected'')"

definition doctorLines :: "Client \<Rightarrow> healthReport \<Rightarrow> ctlLine list" where
  "doctorLines client h =
     [DaemonLine (hrStatus h), ServerLine (clServer client) (clRevisionEpoch client),
      SurfaceLine (hrApplications h) (hrWindows h) (hrViews h) (hrPanelRevision h),
      PanelLine (if hrConfigValid h then None else Some (hrConfigError h)),
      HierarchyLine (if hrHierarchyValid h then Inr (hrHierarchyRevision h) else Inl (hrHierarchyError h)),
      WorkspacesLine (if hrWorkspaceCatalogValid h
        then Inr (hrWorkspaceCatalogRevision h, hrWorkspaceDefinitions h, hrWorkspaceLifecycleReady h)
        else Inl (hrWorkspaceCatalogError h))] @
     map (\<lambda>p. ProviderLine (rpProviderID p) (providerState p) (rpKind p) (rpRevision p))
       (sortBy (\<lambda>p q. rpProviderID p < rpProviderID q) (hrProviders h))"

definition runDoctor :: "('b, 'x) ctlEnv \<Rightarrow> 'b command" where
  "runDoctor env = withClient env (\<lambda>client b.
     case Client_HealthJSON (ceBus env) b of
       (Inl e, b1) \<Rightarrow> (Some (CtlClient e), [], b1)
     | (Inr raw, b1) \<Rightarrow>
         (case ceHealth env raw of
            Inl e \<Rightarrow> (Some (DecodeHealth e), [], b1)
          | Inr h \<Rightarrow>
              (if \<not> hrConfigValid h \<or> \<not> hrHierarchyValid h \<or> \<not> hrWorkspaceCatalogValid h \<or> \<not> hrWorkspaceLifecycleReady h
               then Some DoctorFound else None, doctorLines client h, b1)))"

section \<open>The demo\<close>

definition demoDesired :: DesiredState where
  "demoDesired = \<lparr>dsWorkspaceID = ''local-dev'', dsRevision = ''v1'', dsResources =
     [\<lparr>rsID = ''editor'', rsKind = ResourceDesktopApp, rsRequired = True, rsOwnership = OwnershipManaged,
       rsDesktopAppID = ''dev.zed.Zed.desktop'', rsExecutable = '''', rsArgs = [], rsWorkingDirectory = '''', rsPlacement = None\<rparr>,
      \<lparr>rsID = ''terminal'', rsKind = ResourceTerminal, rsRequired = True, rsOwnership = OwnershipManaged,
       rsDesktopAppID = '''', rsExecutable = ''bash'', rsArgs = [], rsWorkingDirectory = ''.'', rsPlacement = None\<rparr>]\<rparr>"

definition runDemo :: "(Memory \<Rightarrow> string + 'x Engine \<times> 'x) \<Rightarrow> ctlError option \<times> ctlLine list" where
  "runDemo openWith =
     (case Memory_Put demoDesired [] of
        (Some e, _) \<Rightarrow> (Some (DemoDefinition e), [])
      | (None, definitions) \<Rightarrow>
          (case openWith definitions of
             Inl e \<Rightarrow> (Some (DemoOpen e), [])
           | Inr (lifecycle, x) \<Rightarrow>
               (case Lifecycle_Activate lifecycle (dsWorkspaceID demoDesired) (dsRevision demoDesired)
                       ''activate:local-dev:v1:demo'' x of
                  (Some e, _) \<Rightarrow> (Some (DemoLifecycle e), [])
                | (None, x1) \<Rightarrow>
                    (case Lifecycle_State lifecycle (dsWorkspaceID demoDesired) x1 of
                       Inl e \<Rightarrow> (Some (DemoLifecycle e), [])
                     | Inr s \<Rightarrow> (None, [DemoLine (lcWorkspaceID s) (lcStatus s) (lcReachedRequired s)
                         (lcTotalRequired s) (lcLastFailureCode s)])))))"

section \<open>Commands\<close>

definition reloadCommand :: "('b, 'x) ctlEnv \<Rightarrow> 'b command" where
  "reloadCommand env = withClient env (\<lambda>client b.
     case Client_ReloadPanel (ceBus env) b of
       (Inl e, b1) \<Rightarrow> (Some (CtlClient e), [], b1)
     | (Inr (ok, diagnostic), b1) \<Rightarrow>
         if \<not> ok then (Some (ConfigRejected diagnostic), [], b1)
         else (None, [Stdout ''panel configuration reloaded''], b1))"

definition run :: "('b, 'x) ctlEnv \<Rightarrow> string list \<Rightarrow> 'b command" where
  "run env argv b =
     (let (command, args) = (case argv of [] \<Rightarrow> (''demo'', []) | c # as \<Rightarrow> (c, as)); bus = ceBus env
      in if command = ''demo'' then (case runDemo (ceOpen env) of (e, out) \<Rightarrow> (e, out, b))
      else if command = ''health'' then withClient env (\<lambda>_. showCall env (Client_HealthJSON bus)) b
      else if command = ''panel'' then withClient env (\<lambda>_. showCall env (Client_PanelJSON bus)) b
      else if command = ''spec'' then withClient env (\<lambda>_. showCall env (Client_SpecJSON bus)) b
      else if command = ''tree'' then withClient env (\<lambda>_. showCall env (Client_TreeJSON bus)) b
      else if command = ''path'' then
        (if length args \<noteq> 1 then (Some (Usage ''hwsctl path <node-id>''), [], b)
         else withClient env (\<lambda>_. showCall env (Client_PathJSON bus (args ! 0))) b)
      else if command = ''app'' then
        (if length args \<noteq> 1 then (Some (Usage ''hwsctl app <application-id>''), [], b)
         else withClient env (\<lambda>_. showCall env (Client_ApplicationJSON bus (args ! 0))) b)
      else if command = ''workspace'' then runWorkspace env args b
      else if command = ''reload'' then reloadCommand env b
      else if command = ''doctor'' then runDoctor env b
      else if command \<in> {''help'', ''-h'', ''--help''} then (None, [UsageText], b)
      else (Some (UnknownCommand command), [], b))"

section \<open>The runtime as a backend\<close>

text \<open>
  The runtime with the notifications it has sent so far, as the backend of the service. \<open>enc\<close> encodes a
  state, \<open>encs\<close> a list of states and \<open>txt\<close> is the text of an error; \<open>completeAction\<close> is the broker's part.
\<close>

type_synonym ('x, 'd) daemon = "('x, 'd) Runtime \<times> rtNotice list"

definition backendText :: "('r \<Rightarrow> string) \<Rightarrow> ('e \<Rightarrow> string) \<Rightarrow> 'e + 'r \<Rightarrow> string \<times> string option" where
  "backendText enc txt r = (case r of Inl e \<Rightarrow> ('''', Some (txt e)) | Inr s \<Rightarrow> (enc s, None))"

definition backendStep ::
  "(LcState \<Rightarrow> string) \<Rightarrow> (runtimeError \<Rightarrow> string) \<Rightarrow>
   (('x, 'd) Runtime \<Rightarrow> (runtimeError + LcState) \<times> ('x, 'd) Runtime \<times> rtNotice list) \<Rightarrow> ('x, 'd) daemon textCall" where
  "backendStep enc txt op b =
     (case b of (rt, ns) \<Rightarrow> case op rt of (r, rt1, ns1) \<Rightarrow> (backendText enc txt r, (rt1, ns @ ns1)))"

definition runtimeWorkspaces ::
  "('w, 'x) RtEnv \<Rightarrow> (LcState \<Rightarrow> string) \<Rightarrow> (WorkspaceStatesSnapshot \<Rightarrow> string) \<Rightarrow> (runtimeError \<Rightarrow> string) \<Rightarrow>
   (string \<Rightarrow> ('x, 'd) daemon plainCall) \<Rightarrow> ('x, 'd) daemon workspaceBackend" where
  "runtimeWorkspaces env enc encs txt completeAction =
     \<lparr>wbActivateWorkspaceJSON = \<lambda>w k. backendStep enc txt (Runtime_Activate env w k),
      wbRecoverWorkspaceJSON = \<lambda>w k. backendStep enc txt (Runtime_Recover env w k),
      wbResumeWorkspaceJSON = \<lambda>w k. backendStep enc txt (Runtime_Resume env w k),
      wbSuspendWorkspaceJSON = \<lambda>w. backendStep enc txt (Runtime_Suspend env w),
      wbCloseWorkspaceJSON = \<lambda>w k. backendStep enc txt (Runtime_Close env w k),
      wbWorkspaceStateJSON = \<lambda>w b. (backendText enc txt (Runtime_WorkspaceState env w (fst b)), b),
      wbWorkspaceStatesJSON = \<lambda>b. (backendText encs txt (Runtime_WorkspaceStates env (fst b)), b),
      wbCompleteShellActionJSON = completeAction\<rparr>"

section \<open>A client that is connected\<close>

text \<open>
  What a command relies on: the bus answers for the service \<open>s\<close>, whose backend has the workspaces \<open>wb\<close>,
  and the capabilities survive their encoding.
\<close>

definition connected ::
  "capEncoder \<Rightarrow> (busError \<Rightarrow> string) \<Rightarrow> 'b Service \<Rightarrow> 'b workspaceBackend \<Rightarrow> ('b, 'x) ctlEnv \<Rightarrow> bool" where
  "connected marshal errText s wb env \<longleftrightarrow>
     session_bus (ceBus env) (exportedMethods marshal s) errText \<and> svWorkspaces s = Some wb \<and>
     jsonMap marshal (ceUnmarshal env) helloCapabilities \<and> ceConnect env = None \<and> ceRandom env \<noteq> Some []"

lemma withClient_connected:
  assumes "connected marshal errText s wb env"
  obtains c where "\<And>f b. withClient env f b = f c b" "clServer c = svServerInstance s" "clRevisionEpoch c = svRevisionEpoch s"
proof -
  from assms have c: "session_bus (ceBus env) (exportedMethods marshal s) errText"
    "jsonMap marshal (ceUnmarshal env) helloCapabilities" "ceRandom env \<noteq> Some []" "ceConnect env = None"
    by (simp_all add: connected_def)
  obtain caps where caps: "\<And>b. ConnectSession (ceUnmarshal env) (ceBus env) None (ceRandom env) b =
      (Inr \<lparr>clInstance = randomID (ceRandom env), clServer = svServerInstance s, clRevisionEpoch = svRevisionEpoch s,
        clCapabilities = caps\<rparr>, b, True)"
    using connects [OF c(1-3)] by metis
  show thesis
    by (rule that [of "\<lparr>clInstance = randomID (ceRandom env), clServer = svServerInstance s,
          clRevisionEpoch = svRevisionEpoch s, clCapabilities = caps\<rparr>"])
      (simp_all only: withClient_def c(4) caps prod.case sum.case Client.select_convs)
qed

section \<open>The keys of operations\<close>

lemma colon_not_in_Itoa: "CHR '':'' \<notin> set (Itoa i)"
proof -
  have "CHR '':'' \<notin> set (digitsOf n)" for n
    using digitsOf_digits [of n] by (auto simp: list_all_iff isDigit_def)
  then show ?thesis by (simp add: Itoa_def)
qed

text \<open>Two texts that are cut at the same separator are cut at the same place, from either side.\<close>

lemma cut_first:
  assumes "c \<notin> set a" and "c \<notin> set a'"
  shows "a @ c # b = a' @ c # b' \<longleftrightarrow> a = a' \<and> b = b'"
  using separator_inj [OF assms] by auto

lemma cut_last:
  assumes "c \<notin> set b" "c \<notin> set b'"
  shows "a @ c # b = a' @ c # b' \<longleftrightarrow> a = a' \<and> b = b'"
proof
  assume "a @ c # b = a' @ c # b'"
  then have "rev (a @ c # b) = rev (a' @ c # b')" by (rule arg_cong)
  then have "rev b @ c # rev a = rev b' @ c # rev a'" by simp
  with assms have "rev b = rev b' \<and> rev a = rev a'" by (subst (asm) cut_first) simp_all
  then show "a = a' \<and> b = b'" by simp
qed simp

lemma colon_not_blank: "CHR '':'' \<in> set s \<Longrightarrow> \<not> blank s"
  by (rule nonspace_not_blank [where x = "CHR '':''"]) (simp_all add: spaceEncodings_def)

text \<open>
  C40. Operation keys make retries idempotent and nothing else: a key that the user supplies is
  used as it is, without the blanks around it, so repeating the command repeats the key; a key that is
  generated is never blank, and two generated keys are equal only for the same action on the same
  workspace at the same nanosecond, whatever characters the workspace's name has.
\<close>

theorem operationKey_unique:
  assumes "action \<in> set keyedActions" and "action' \<in> set keyedActions"
  shows "(\<not> blank k \<longrightarrow> operationKey now action w [k] = TrimSpace k) \<and>
    \<not> blank (operationKey now action w opt) \<and>
    (operationKey now action w [] = operationKey now' action' w' [] \<longleftrightarrow> action = action' \<and> w = w' \<and> now = now')"
proof (intro conjI impI)
  have clean: "CHR '':'' \<notin> set action" "CHR '':'' \<notin> set action'"
    using assms by (auto simp: keyedActions_def)
  show "operationKey now action w [k] = TrimSpace k" if "\<not> blank k"
    using that by (simp add: operationKey_def blank_def)
  show "operationKey now action w [] = operationKey now' action' w' [] \<longleftrightarrow> action = action' \<and> w = w' \<and> now = now'"
    by (auto simp: operationKey_def cut_first [OF clean] cut_last [OF colon_not_in_Itoa colon_not_in_Itoa] dest: Itoa_inj)
  show "\<not> blank (operationKey now action w opt)"
    using assms(1) by (auto simp: operationKey_def colon_not_blank simp flip: blank_def)
qed

section \<open>A command does what the runtime does\<close>

text \<open>The operation of the runtime that belongs to an action, and the method that is called for it.\<close>

definition runtimeMutation ::
  "('w, 'x) RtEnv \<Rightarrow> string \<Rightarrow> string \<Rightarrow> string \<Rightarrow> ('x, 'd) Runtime \<Rightarrow> (runtimeError + LcState) \<times> ('x, 'd) Runtime \<times> rtNotice list" where
  "runtimeMutation renv action =
     (if action = ''activate'' then Runtime_Activate renv
      else if action = ''recover'' then Runtime_Recover renv
      else if action = ''resume'' then Runtime_Resume renv
      else Runtime_Close renv)"

definition methodName :: "string \<Rightarrow> string" where
  "methodName action =
     (if action = ''activate'' then ''ActivateWorkspace'' else if action = ''recover'' then ''RecoverWorkspace''
      else if action = ''resume'' then ''ResumeWorkspace'' else ''CloseWorkspace'')"

text \<open>The error that the tool reports for an error of the runtime.\<close>

definition reported :: "(busError \<Rightarrow> string) \<Rightarrow> (runtimeError \<Rightarrow> string) \<Rightarrow> string \<Rightarrow> runtimeError \<Rightarrow> clientError" where
  "reported errText txt name e = CallFailed name (errText \<lparr>beName = InterfaceName @ ''.Error'', beBody = [txt e]\<rparr>)"

lemma answer_step:
  "answer errText name (backendStep enc txt op (rt, ns)) =
     (case op rt of
        (Inr st, rt1, ns1) \<Rightarrow> (Inr (enc st), (rt1, ns @ ns1))
      | (Inl e, rt1, ns1) \<Rightarrow> (Inl (reported errText txt name e), (rt1, ns @ ns1)))"
  by (auto simp: answer_def backendStep_def backendText_def reported_def split: prod.splits sum.splits)

lemma keyedCall_runtime:
  assumes "session_bus bus (exportedMethods marshal s) errText"
    and "svWorkspaces s = Some (runtimeWorkspaces renv enc encs txt completeAction)" and "action \<in> set keyedActions"
  shows "keyedCall bus action w k (rt, ns) =
     (case runtimeMutation renv action w k rt of
        (Inr st, rt1, ns1) \<Rightarrow> (Inr (enc st), (rt1, ns @ ns1))
      | (Inl e, rt1, ns1) \<Rightarrow> (Inl (reported errText txt (methodName action) e), (rt1, ns @ ns1)))"
proof -
  note calls = transparent_texts(7-9,11) [OF assms(1,2)]
  note defs = keyedCall_def runtimeMutation_def methodName_def runtimeWorkspaces_def workspaceBackend.select_convs
  from assms(3) consider "action = ''activate''" | "action = ''recover''" | "action = ''resume''" | "action = ''close''"
    by (auto simp: keyedActions_def)
  then show ?thesis
    by cases (simp_all add: calls [unfolded runtimeWorkspaces_def] defs answer_step split: prod.split sum.split)
qed

text \<open>The invocations of \<open>workspace\<close> that ask for nothing.\<close>

definition malformed :: "string list \<Rightarrow> bool" where
  "malformed args \<longleftrightarrow> length args < 2 \<or> TrimSpace (args ! 1) = '''' \<or> length args > 3 \<or>
     args ! 0 \<notin> set (''state'' # ''suspend'' # keyedActions) \<or> (args ! 0 \<in> {''state'', ''suspend''} \<and> length args \<noteq> 2)"

lemma runWorkspace_malformed:
  assumes "connected marshal errText s wb env" and "malformed args"
  shows "\<exists>e. runWorkspace env args b = (Some e, [], b)"
proof -
  obtain c where c: "\<And>f b. withClient env f b = f c b" using withClient_connected [OF assms(1)] by metis
  show ?thesis
  proof (cases "length args < 2 \<or> TrimSpace (args ! 1) = ''''")
    case True
    then show ?thesis by (auto simp: runWorkspace_def Let_def)
  next
    case False
    define action where "action = args ! 0"
    have "length args > 3 \<or> action \<notin> set (''state'' # ''suspend'' # keyedActions) \<or>
        (action = ''state'' \<or> action = ''suspend'') \<and> length args \<noteq> 2"
      using assms(2) False unfolding malformed_def action_def by blast
    then show ?thesis
      unfolding runWorkspace_def Let_def c action_def [symmetric] using False by (elim disjE) auto
  qed
qed

text \<open>What the tool shows of an operation of the runtime whose error it reports under the name of the method.\<close>

definition shown ::
  "('b, 'x) ctlEnv \<Rightarrow> (busError \<Rightarrow> string) \<Rightarrow> (runtimeError \<Rightarrow> string) \<Rightarrow> (LcState \<Rightarrow> string) \<Rightarrow> string \<Rightarrow>
   ctlLine list \<Rightarrow> runtimeError + LcState \<Rightarrow> ctlError option \<times> ctlLine list" where
  "shown env errText txt enc name before r =
     (case r of
        Inl e \<Rightarrow> (Some (CtlClient (reported errText txt name e)), [])
      | Inr st \<Rightarrow> (case printJSON env (Inr (enc st)) of (e, out) \<Rightarrow> (e, before @ out)))"

text \<open>
  C12. A command of the tool is the operation of the runtime: over a bus that answers,
  \<open>hwsctl workspace activate\<close>, \<open>recover\<close>, \<open>resume\<close> and \<open>close\<close> do to the daemon exactly what the
  operation of the runtime does with the trimmed name and the operation key, print the key and the state
  when it succeeds and report its error, and nothing else, when it fails; \<open>suspend\<close> does what the
  runtime's does and \<open>state\<close> reads the state and changes nothing, and both show the state or the error;
  every invocation with a wrong number of arguments, a blank name or an unknown action reports an error
  and leaves the daemon as it is. There is no other invocation.
\<close>

theorem ctl_workspace:
  assumes "connected marshal errText s (runtimeWorkspaces renv enc encs txt completeAction) env"
  shows "(action \<in> set keyedActions \<and> \<not> blank wid \<and> length opt \<le> 1 \<longrightarrow>
      run env (''workspace'' # action # wid # opt) (rt, ns) =
      (let key = operationKey (ceNow env) action (TrimSpace wid) opt
       in case runtimeMutation renv action (TrimSpace wid) key rt of
            (r, rt1, ns1) \<Rightarrow>
              (case shown env errText txt enc (methodName action) [Stderr (''operation-key: '' @ key)] r of
                 (e, out) \<Rightarrow> (e, out, (rt1, ns @ ns1))))) \<and>
    (\<not> blank wid \<longrightarrow>
      run env [''workspace'', ''suspend'', wid] (rt, ns) =
      (case Runtime_Suspend renv (TrimSpace wid) rt of
         (r, rt1, ns1) \<Rightarrow>
           (case shown env errText txt enc ''SuspendWorkspace'' [] r of (e, out) \<Rightarrow> (e, out, (rt1, ns @ ns1))))) \<and>
    (\<not> blank wid \<longrightarrow>
      run env [''workspace'', ''state'', wid] (rt, ns) =
      (case shown env errText txt enc ''GetWorkspaceState'' [] (Runtime_WorkspaceState renv (TrimSpace wid) rt) of
         (e, out) \<Rightarrow> (e, out, (rt, ns)))) \<and>
    (malformed args \<longrightarrow> (\<exists>e. run env (''workspace'' # args) b = (Some e, [], b))) \<and>
    (\<not> malformed args \<longrightarrow>
      (\<exists>a w. \<not> blank w \<and> (args = [''suspend'', w] \<or> args = [''state'', w] \<or>
         a \<in> set keyedActions \<and> (\<exists>o1. length o1 \<le> 1 \<and> args = a # w # o1))))"
proof (intro conjI impI)
  obtain c where client: "\<And>f b. withClient env f b = f c b" using withClient_connected [OF assms] by metis
  have run: "run env (''workspace'' # as) b = runWorkspace env as b" for as b by (simp add: run_def)
  show "\<exists>e. run env (''workspace'' # args) b = (Some e, [], b)" if "malformed args"
    using runWorkspace_malformed [OF assms that] run by simp
  have bus: "session_bus (ceBus env) (exportedMethods marshal s) errText"
    "svWorkspaces s = Some (runtimeWorkspaces renv enc encs txt completeAction)"
    using assms by (simp_all add: connected_def)
  show "\<exists>a w. \<not> blank w \<and> (args = [''suspend'', w] \<or> args = [''state'', w] \<or>
         a \<in> set keyedActions \<and> (\<exists>o1. length o1 \<le> 1 \<and> args = a # w # o1))" if "\<not> malformed args"
  proof -
    from that obtain a w o1 where args: "args = a # w # o1"
      by (cases args rule: remdups_adj.cases) (auto simp: malformed_def)
    with that show ?thesis by (auto simp: malformed_def blank_def)
  qed
  show "run env [''workspace'', ''suspend'', wid] (rt, ns) =
      (case Runtime_Suspend renv (TrimSpace wid) rt of
         (r, rt1, ns1) \<Rightarrow>
           (case shown env errText txt enc ''SuspendWorkspace'' [] r of (e, out) \<Rightarrow> (e, out, (rt1, ns @ ns1))))"
    if "\<not> blank wid"
    using that unfolding run
    by (simp add: runWorkspace_def client Let_def blank_def showCall_def shown_def transparent_texts(10) [OF bus]
        runtimeWorkspaces_def answer_step printJSON_def split: prod.split sum.split)
  show "run env [''workspace'', ''state'', wid] (rt, ns) =
      (case shown env errText txt enc ''GetWorkspaceState'' [] (Runtime_WorkspaceState renv (TrimSpace wid) rt) of
         (e, out) \<Rightarrow> (e, out, (rt, ns)))"
    if "\<not> blank wid"
    using that unfolding run
    by (simp add: runWorkspace_def client Let_def blank_def showCall_def shown_def transparent_texts(12) [OF bus]
        runtimeWorkspaces_def answer_def backendText_def reported_def printJSON_def split: prod.split sum.split)
  assume a: "action \<in> set keyedActions \<and> \<not> blank wid \<and> length opt \<le> 1"
  have "action \<noteq> ''state''" "action \<noteq> ''suspend''" using a by (auto simp: keyedActions_def)
  with a show "run env (''workspace'' # action # wid # opt) (rt, ns) =
      (let key = operationKey (ceNow env) action (TrimSpace wid) opt
       in case runtimeMutation renv action (TrimSpace wid) key rt of
            (r, rt1, ns1) \<Rightarrow>
              (case shown env errText txt enc (methodName action) [Stderr (''operation-key: '' @ key)] r of
                 (e, out) \<Rightarrow> (e, out, (rt1, ns @ ns1))))"
    unfolding run by (simp add: runWorkspace_def client Let_def blank_def keyedCall_runtime [OF bus] shown_def printJSON_def
        split: prod.split sum.split)
qed

section \<open>The doctor's verdict\<close>

text \<open>What the tool decodes of the health that the runtime encodes; \<open>ctxt\<close> and so on are the texts of errors.\<close>

definition reportOf ::
  "(compileError \<Rightarrow> string) \<Rightarrow> (contextError \<Rightarrow> string) \<Rightarrow> (catalogError \<Rightarrow> string) \<Rightarrow> RuntimeHealth \<Rightarrow> healthReport" where
  "reportOf ptxt htxt wtxt h =
     \<lparr>hrStatus = hpStatus h, hrConfigValid = hpConfigValid h,
      hrConfigError = (case hpConfigError h of None \<Rightarrow> '''' | Some e \<Rightarrow> ptxt e),
      hrHierarchyValid = hpHierarchyValid h,
      hrHierarchyError = (case hpHierarchyError h of None \<Rightarrow> '''' | Some e \<Rightarrow> htxt e),
      hrHierarchyRevision = hpHierarchyRevision h, hrWorkspaceCatalogValid = hpCatalogValid h,
      hrWorkspaceCatalogError = (case hpCatalogError h of None \<Rightarrow> '''' | Some e \<Rightarrow> wtxt e),
      hrWorkspaceCatalogRevision = hpCatalogRevision h, hrWorkspaceDefinitions = hpDefinitions h,
      hrWorkspaceLifecycleReady = hpLifecycleReady h, hrApplications = hpApplications h, hrWindows = hpWindows h,
      hrViews = hpViews h, hrPanelRevision = hpPanelRevision h, hrSurfaceRevision = hpSurfaceRevision h,
      hrProviders = map (\<lambda>p. \<lparr>rpProviderID = phProviderID p, rpKind = phKind p, rpConnected = phConnected p,
        rpStale = phStale p, rpPartial = phPartial p, rpRevision = phRevision p\<rparr>) (hpProviders h)\<rparr>"

text \<open>The last of the sources was accepted: nothing is wrong with the file as it is.\<close>

definition lastAccepted :: "(string \<Rightarrow> 'e + 'v) \<Rightarrow> string list \<Rightarrow> bool" where
  "lastAccepted cpl srcs \<longleftrightarrow> srcs \<noteq> [] \<and> (\<exists>v. cpl (last srcs) = Inr v)"

text \<open>The managers of a runtime after these panel sources and these events of the two files.\<close>

definition managed ::
  "iteration \<Rightarrow> string list \<Rightarrow> treeCompiler \<Rightarrow> 'w FS \<Rightarrow> 'w treeEvent list \<Rightarrow>
   (string \<Rightarrow> catalogError + compiledCatalog) \<Rightarrow> 'w fileEvent list \<Rightarrow> ('x, 'd) Runtime \<Rightarrow> bool" where
  "managed it panels tcpl fs tevs ccpl cevs rt \<longleftrightarrow>
     hbManager (rtHub rt) = foldl (dslStep it) zeroDslManager panels \<and>
     rtHierarchy rt = foldl (treeStep tcpl fs) zeroManager tevs \<and>
     rtWorkspaces rt = foldl (fileStep ccpl fs) NewFile cevs"

lemma panel_valid_iff:
  "dmValid (foldl (dslStep it) zeroDslManager panels) \<longleftrightarrow> (\<exists>src \<in> set panels. \<exists>spec. Compile it src = Inr spec)"
  using DslManager_run [of it panels] by (auto simp: Let_def filter_empty_conv)


section \<open>Samples\<close>

text \<open>The demo, run on the engine in memory: the workspace ends active, with both of its resources.\<close>

definition demoOpen :: "Memory \<Rightarrow> string + (FakeState \<times> (string, LcState) gomap) Engine \<times> (FakeState \<times> (string, LcState) gomap)" where
  "demoOpen m = Inr (sampleEngine (\<lambda>_. Memory_Resolve m) fakeDesktop, (NewDesktop, []))"

lemma demo_active: "runDemo demoOpen = (None, [DemoLine ''local-dev'' ''active'' 2 2 ''''])"
  by code_simp

definition plainTexts :: "runtimeError \<Rightarrow> string" where
  "plainTexts e = (case e of LifecycleUnavailable \<Rightarrow> ''workspace lifecycle is unavailable'' | _ \<Rightarrow> ''error'')"

definition newDaemon :: "(sampleEngineState, unit) Runtime" where
  "newDaemon = NewRuntime None"

definition daemonBackend :: "(sampleEngineState, unit) daemon Backend" where
  "daemonBackend =
     (let no = (\<lambda>b. (('''', Some ''not in this sample''), b)); plain = (\<lambda>b. (None, b))
      in \<lparr>bkPanelJSON = no, bkSpecJSON = no,
          bkHealthJSON = (\<lambda>b. (((\<lambda>_. ''health'') (Runtime_Health (\<lambda>n. n) (fst b)), None), b)),
          bkTreeJSON = no, bkPathJSON = \<lambda>_. no, bkApplicationJSON = \<lambda>_. no, bkReplaceShellSnapshotJSON = \<lambda>_. plain,
          bkReloadPanel = plain, bkActivateView = \<lambda>_ _. plain, bkCloseView = \<lambda>_ _. plain\<rparr>)"

definition daemonWorkspaces :: "(sampleEngineState, unit) daemon workspaceBackend" where
  "daemonWorkspaces = runtimeWorkspaces sampleRtEnv lcStatus (\<lambda>_. ''states'') plainTexts (\<lambda>_ b. (None, b))"

definition daemonService :: "(sampleEngineState, unit) daemon Service" where
  "daemonService = NewService daemonBackend (Some daemonWorkspaces) (Some [1, 2]) (Some [3])"

definition ctlSample :: "((sampleEngineState, unit) daemon, unit) ctlEnv" where
  "ctlSample = \<lparr>ceBus = directBus (exportedMethods plainMarshal daemonService), ceConnect = None, ceRandom = None,
     ceUnmarshal = plainUnmarshal, ceFormat = (\<lambda>_. None),
     ceHealth = (\<lambda>_. Inr (reportOf (\<lambda>_. ''e'') (\<lambda>_. ''e'') (\<lambda>_. ''e'') (Runtime_Health (\<lambda>n. n) newDaemon))),
     ceNow = 7, ceOpen = (\<lambda>_. Inl ''no demo'')\<rparr>"

lemma ctlSample_connected: "connected plainMarshal busErrorText daemonService daemonWorkspaces ctlSample"
  by (simp add: connected_def ctlSample_def direct.session_bus_axioms plain_jsonMap daemonService_def NewService_def)

lemma operationKey_unique_witness:
  "operationKey 5 ''activate'' ''dev'' ['' k ''] = ''k'' \<and> \<not> blank (operationKey 5 ''activate'' ''dev'' []) \<and>
   operationKey 5 ''activate'' ''dev'' [] \<noteq> operationKey 5 ''close'' ''dev'' []"
proof -
  have a: "''activate'' \<in> set keyedActions" "''close'' \<in> set keyedActions" by (simp_all add: keyedActions_def)
  have k: "\<not> blank '' k ''" "TrimSpace '' k '' = ''k''" by code_simp+
  note t = operationKey_unique [OF a, of "'' k ''" 5 "''dev''" "[]" 5 "''dev''"]
  from t k have "operationKey 5 ''activate'' ''dev'' ['' k ''] = ''k''" by metis
  moreover have "''activate'' \<noteq> ''close''" by simp
  ultimately show ?thesis using t by metis
qed

lemma ctl_workspace_witness:
  "run ctlSample [''workspace'', ''activate'', '' dev ''] (newDaemon, []) =
     (Some (CtlClient (CallFailed ''ActivateWorkspace'' ''workspace lifecycle is unavailable'')), [], (newDaemon, [])) \<and>
   run ctlSample [''workspace'', ''state'', '' dev ''] sampleDaemon = (None, [Stdout ''active''], sampleDaemon) \<and>
   (\<exists>e. run ctlSample [''workspace'', ''activate''] (newDaemon, []) = (Some e, [], (newDaemon, [])))"
proof -
  have d: "\<not> blank '' dev ''" "TrimSpace '' dev '' = ''dev''" by code_simp+
  have a: "''activate'' \<in> set keyedActions" by (simp add: keyedActions_def)
  have off: "Runtime_Activate sampleRtEnv w k newDaemon = (Inl LifecycleUnavailable, newDaemon, [])" for w k
    by (simp add: Runtime_Activate_def newDaemon_def NewRuntime_def)
  have m: "malformed [''activate'']" by (simp add: malformed_def)
  from sample_facts obtain st where st: "Runtime_WorkspaceState sampleRtEnv ''dev'' (fst sampleDaemon) = Inr st" "lcStatus st = ''active''"
    by (auto simp: sampleFacts_def split: sum.splits)
  note t = ctl_workspace [OF ctlSample_connected [unfolded daemonWorkspaces_def], of "''activate''" "'' dev ''" "[]" _ _
      "[''activate'']" "(newDaemon, [])"]
  have f: "ceFormat ctlSample v = None" for v by (simp add: ctlSample_def)
  have "run ctlSample [''workspace'', ''activate'', '' dev ''] (newDaemon, []) =
     (Some (CtlClient (CallFailed ''ActivateWorkspace'' ''workspace lifecycle is unavailable'')), [], (newDaemon, []))"
    using t [of newDaemon "[]"] a d off
    by (simp add: runtimeMutation_def reported_def busErrorText_def plainTexts_def methodName_def Let_def shown_def)
  moreover have "run ctlSample [''workspace'', ''state'', '' dev ''] sampleDaemon = (None, [Stdout ''active''], sampleDaemon)"
    using t [of "fst sampleDaemon" "snd sampleDaemon"] d st f by (simp add: shown_def printJSON_def)
  moreover have "\<exists>e. run ctlSample [''workspace'', ''activate''] (newDaemon, []) = (Some e, [], (newDaemon, []))"
    using t [of newDaemon "[]"] m by blast
  ultimately show ?thesis by blast
qed

text \<open>
  Two daemons: one whose hierarchy and catalogue are accepted and whose last panel source is not, where
  the report has the error and the doctor finds nothing; and one whose last catalogue is rejected as well.
\<close>

definition doctorPanels :: "string list" where
  "doctorPanels = [quotedLines [''panel |a| {}''], ''panel'']"

definition doctorTree :: treeCompiler where
  "doctorTree = compile sampleTreeDecoder (\<lambda>m. m) rev"

definition doctorDaemon :: "string list \<Rightarrow> (sampleEngineState, unit) Runtime" where
  "doctorDaemon catalogs = (fst sampleDaemon)\<lparr>
     rtHub := (rtHub (fst sampleDaemon))\<lparr>hbManager := foldl (dslStep (\<lambda>m. m)) zeroDslManager doctorPanels\<rparr>,
     rtHierarchy := foldl (treeStep doctorTree sampleFS) zeroManager [ApplyTree ''good''],
     rtWorkspaces := foldl (fileStep sampleCompile sampleFS) NewFile (map ApplySource catalogs)\<rparr>"

definition doctorSample :: "string list \<Rightarrow> ((sampleEngineState, unit) daemon, unit) ctlEnv" where
  "doctorSample catalogs = ctlSample\<lparr>ceHealth :=
     (\<lambda>_. Inr (reportOf (\<lambda>_. ''rejected'') (\<lambda>_. ''e'') (\<lambda>_. ''e'') (Runtime_Health (\<lambda>n. n) (doctorDaemon catalogs))))\<rparr>"

lemma doctorSample_connected: "connected plainMarshal busErrorText daemonService daemonWorkspaces (doctorSample catalogs)"
  using ctlSample_connected by (simp add: connected_def doctorSample_def)

definition doctorFacts :: bool where
  "doctorFacts \<longleftrightarrow> \<not> isl (Compile (\<lambda>m. m) (hd doctorPanels)) \<and> isl (Compile (\<lambda>m. m) (last doctorPanels)) \<and>
     \<not> isl (doctorTree ''good'') \<and> \<not> isl (sampleCompile ''good'') \<and> isl (sampleCompile ''bad'')"

lemma doctor_facts: doctorFacts
  by code_simp

lemma doctor_accepts:
  "\<exists>v. Compile (\<lambda>m. m) (hd doctorPanels) = Inr v" "\<exists>e. Compile (\<lambda>m. m) (last doctorPanels) = Inl e"
  "\<exists>v. doctorTree ''good'' = Inr v" "\<exists>v. sampleCompile ''good'' = Inr v" "\<exists>e. sampleCompile ''bad'' = Inl e"
proof -
  have "isl r \<longleftrightarrow> (\<exists>e. r = Inl e)" "\<not> isl r \<longleftrightarrow> (\<exists>v. r = Inr v)" for r :: "'e + 'v"
    by (cases r; simp)+
  note sums = this
  have f: "\<not> isl (Compile (\<lambda>m. m) (hd doctorPanels))" "isl (Compile (\<lambda>m. m) (last doctorPanels))"
    "\<not> isl (doctorTree ''good'')" "\<not> isl (sampleCompile ''good'')" "isl (sampleCompile ''bad'')"
    using doctor_facts unfolding doctorFacts_def by blast+
  show "\<exists>v. Compile (\<lambda>m. m) (hd doctorPanels) = Inr v" using f(1) by (simp only: sums(2))
  show "\<exists>e. Compile (\<lambda>m. m) (last doctorPanels) = Inl e" using f(2) by (simp only: sums(1))
  show "\<exists>v. doctorTree ''good'' = Inr v" using f(3) by (simp only: sums(2))
  show "\<exists>v. sampleCompile ''good'' = Inr v" using f(4) by (simp only: sums(2))
  show "\<exists>e. sampleCompile ''bad'' = Inl e" using f(5) by (simp only: sums(1))
qed

lemma rejected_panel_reported:
  "hpConfigValid (Runtime_Health num (doctorDaemon cs)) \<and> hpConfigError (Runtime_Health num (doctorDaemon cs)) \<noteq> None"
proof -
  obtain s e where s: "Compile (\<lambda>m. m) (hd doctorPanels) = Inr s" and e: "Compile (\<lambda>m. m) (last doctorPanels) = Inl e"
    using doctor_accepts(1,2) by blast
  have "\<exists>src \<in> set doctorPanels. \<exists>spec. Compile (\<lambda>m. m) src = Inr spec"
    using s by (auto simp: doctorPanels_def)
  then have "dmValid (foldl (dslStep (\<lambda>m. m)) zeroDslManager doctorPanels)" by (simp only: panel_valid_iff)
  moreover have "dmLastErr (foldl (dslStep (\<lambda>m. m)) zeroDslManager doctorPanels) = Some e"
    using e by (simp add: doctorPanels_def dslStep_def DslManager_Apply_def)
  ultimately show ?thesis
    by (simp add: Runtime_Health_def Hub_Health_def Let_def HealthPayload.defs RuntimeHealth.defs doctorDaemon_def
        DslManager_Current_def DslManager_LastError_def)
qed


end
