(* ===== verification/BrowserBridge.thy ===== *)
theory BrowserBridge
  imports Wire
begin

text \<open>
  The native messaging host of the browser (\<open>cmd/hws-browser-bridge/main.go\<close>): it reads frames from the
  browser, forwards each as an envelope over the provider socket, acknowledges it, and passes the
  commands that arrive on the socket back to the browser. The loop and the readers of the connections
  run concurrently; what the readers do between the steps of the loop is part of a turn of the loop.
\<close>

section \<open>State\<close>

text \<open>
  Connections are numbered in the order in which they are dialled. \<open>rlNext\<close> counts them, \<open>rlClosed\<close> and
  \<open>rlSent\<close> record which have been closed and what has been sent on them.
\<close>

record 'w Relay =
  rlConn :: "nat option"
  rlNext :: nat
  rlClosed :: "nat list"
  rlSent :: "(nat \<times> Envelope) list"
  rlDone :: bool
  rlOut :: 'w

definition newRelay :: "'w \<Rightarrow> 'w Relay" where
  "newRelay w = \<lparr>rlConn = None, rlNext = 0, rlClosed = [], rlSent = [], rlDone = False, rlOut = w\<rparr>"

text \<open>
  The JSON of the messages: whether a text is decoded into a map (it is an object or null), how a
  string is written as JSON, and what a line from the socket is encoded to when it is decoded into a map.
\<close>

record bridgeCodec =
  bcObject :: "string \<Rightarrow> bool"
  bcQuote :: "string \<Rightarrow> string"
  bcCommand :: "string \<Rightarrow> string option"

text \<open>The text of \<open>ack\<close>: without an error \<open>ok\<close> is true; an empty error is omitted.\<close>

definition ackText :: "bridgeCodec \<Rightarrow> string option \<Rightarrow> string" where
  "ackText co outcome =
     (case outcome of
        None \<Rightarrow> [CHR 0x7B, CHR 0x22] @ ''ok'' @ [CHR 0x22] @ '':true'' @ [CHR 0x7D]
      | Some e \<Rightarrow>
          [CHR 0x7B, CHR 0x22] @ ''ok'' @ [CHR 0x22] @ '':false'' @
          (if e = '''' then [] else '','' @ [CHR 0x22] @ ''error'' @ [CHR 0x22] @ '':'' @ bcQuote co e) @ [CHR 0x7D])"

text \<open>What the reader of a connection does: it got a line, or its connection ended.\<close>

datatype bridgeEvent = SocketLine string | SocketEnded nat

text \<open>
  A turn of the loop: the time, what dialling and sending would answer (the error, if any), and what the
  readers do before the frame is forwarded, before it is sent, and before it is acknowledged.
\<close>

record turn =
  tuNow :: int
  tuDial :: "string option"
  tuSend :: "string option"
  tuBefore :: "bridgeEvent list"
  tuDuring :: "bridgeEvent list"
  tuAfter :: "bridgeEvent list"

type_synonym 'w writer = "string \<Rightarrow> 'w \<Rightarrow> string option \<times> 'w"

section \<open>Operations\<close>

definition writeNative :: "'w writer \<Rightarrow> string \<Rightarrow> 'w Relay \<Rightarrow> frameError option \<times> 'w Relay" where
  "writeNative wr b r = (case frameWrite wr b (rlOut r) of (e, w) \<Rightarrow> (e, r\<lparr>rlOut := w\<rparr>))"

definition ensureConn :: "string option \<Rightarrow> 'w Relay \<Rightarrow> (string + nat) \<times> 'w Relay" where
  "ensureConn dial r =
     (case rlConn r of
        Some conn \<Rightarrow> (Inr conn, r)
      | None \<Rightarrow>
          (case dial of
             Some e \<Rightarrow> (Inl (''connect provider socket: '' @ e), r)
           | None \<Rightarrow> (Inr (rlNext r), r\<lparr>rlConn := Some (rlNext r), rlNext := rlNext r + 1\<rparr>)))"

definition dropConn :: "nat \<Rightarrow> 'w Relay \<Rightarrow> 'w Relay" where
  "dropConn conn r =
     (if rlConn r = Some conn then r\<lparr>rlConn := None, rlClosed := rlClosed r @ [conn]\<rparr> else r)"

definition closeRelay :: "'w Relay \<Rightarrow> 'w Relay" where
  "closeRelay r =
     (if rlDone r then r
      else case rlConn r of
        None \<Rightarrow> r\<lparr>rlDone := True\<rparr>
      | Some conn \<Rightarrow> r\<lparr>rlDone := True, rlConn := None, rlClosed := rlClosed r @ [conn]\<rparr>)"

text \<open>A step of \<open>readCommands\<close>.\<close>

fun readCommands :: "'w writer \<Rightarrow> bridgeCodec \<Rightarrow> bridgeEvent \<Rightarrow> 'w Relay \<Rightarrow> 'w Relay" where
  "readCommands wr co (SocketLine line) r =
     (case bcCommand co line of None \<Rightarrow> r | Some message \<Rightarrow> snd (writeNative wr message r))"
| "readCommands wr co (SocketEnded conn) r = dropConn conn r"

definition happen :: "'w writer \<Rightarrow> bridgeCodec \<Rightarrow> bridgeEvent list \<Rightarrow> 'w Relay \<Rightarrow> 'w Relay" where
  "happen wr co evs r = fold (readCommands wr co) evs r"

definition forward :: "'w writer \<Rightarrow> bridgeCodec \<Rightarrow> turn \<Rightarrow> Envelope \<Rightarrow> 'w Relay \<Rightarrow> string option \<times> 'w Relay" where
  "forward wr co t e r =
     (case ensureConn (tuDial t) r of
        (Inl err, r1) \<Rightarrow> (Some err, r1)
      | (Inr conn, r1) \<Rightarrow>
          let r2 = happen wr co (tuDuring t) r1
          in (case tuSend t of
                Some err \<Rightarrow> (Some err, dropConn conn r2)
              | None \<Rightarrow> (None, r2\<lparr>rlSent := rlSent r2 @ [(conn, e)]\<rparr>)))"

definition bridgeEnvelope :: "int \<Rightarrow> string \<Rightarrow> Envelope" where
  "bridgeEnvelope now p = \<lparr>evSchema = EnvelopeSchemaVersion, evType = ''browser.snapshot'',
     evSource = ''native-messaging'', evReceivedAt = now, evPayload = p\<rparr>"

datatype bridgeError = ReadError frameError | WriteError frameError

text \<open>One frame that was read: the error with which the loop returns, if it does.\<close>

definition handleFrame :: "'w writer \<Rightarrow> bridgeCodec \<Rightarrow> turn \<Rightarrow> string \<Rightarrow> 'w Relay \<Rightarrow> bridgeError option \<times> 'w Relay" where
  "handleFrame wr co t p r =
     (let r0 = happen wr co (tuBefore t) r
      in if \<not> bcObject co p then (None, snd (writeNative wr (ackText co (Some ''invalid json'')) r0))
         else case forward wr co t (bridgeEnvelope (tuNow t) p) r0 of
           (Some err, r1) \<Rightarrow> (None, snd (writeNative wr (ackText co (Some err)) (happen wr co (tuAfter t) r1)))
         | (None, r1) \<Rightarrow>
             (case writeNative wr (ackText co None) (happen wr co (tuAfter t) r1) of
                (Some err, r2) \<Rightarrow> (Some (WriteError err), r2)
              | (None, r2) \<Rightarrow> (None, r2)))"

lemma frameRead_shorter: "frameRead s = (Inr p, rest) \<Longrightarrow> length rest < length s"
  by (auto simp: frameRead_def Let_def split: if_splits)

function frameLoop ::
  "'w writer \<Rightarrow> bridgeCodec \<Rightarrow> (nat \<Rightarrow> turn) \<Rightarrow> nat \<Rightarrow> string \<Rightarrow> 'w Relay \<Rightarrow> bridgeError option \<times> 'w Relay" where
  "frameLoop wr co turns k s r =
     (case frameRead s of
        (Inl EndOfInput, _) \<Rightarrow> (None, r)
      | (Inl e, _) \<Rightarrow> (Some (ReadError e), r)
      | (Inr p, rest) \<Rightarrow>
          (case handleFrame wr co (turns k) p r of
             (Some e, r1) \<Rightarrow> (Some e, r1)
           | (None, r1) \<Rightarrow> frameLoop wr co turns (Suc k) rest r1))"
  by pat_completeness auto
termination
  by (relation "measure (\<lambda>(_, _, _, _, s, _). length s)") (auto dest: frameRead_shorter [OF sym])

declare frameLoop.simps [simp del]

definition runBridge :: "'w writer \<Rightarrow> bridgeCodec \<Rightarrow> (nat \<Rightarrow> turn) \<Rightarrow> string \<Rightarrow> 'w \<Rightarrow> bridgeError option \<times> 'w Relay" where
  "runBridge wr co turns s w = (case frameLoop wr co turns 0 s (newRelay w) of (e, r) \<Rightarrow> (e, closeRelay r))"

text \<open>\<open>main\<close>: an error with which the loop returned is the last message to the browser.\<close>

definition mainBridge ::
  "'w writer \<Rightarrow> bridgeCodec \<Rightarrow> (bridgeError \<Rightarrow> string) \<Rightarrow> (nat \<Rightarrow> turn) \<Rightarrow> string \<Rightarrow> 'w \<Rightarrow> 'w" where
  "mainBridge wr co txt turns s w =
     (case runBridge wr co turns s w of
        (None, r) \<Rightarrow> rlOut r
      | (Some e, r) \<Rightarrow> snd (frameWrite wr (ackText co (Some (txt e))) (rlOut r)))"

text \<open>\<open>getenv\<close> gives the empty text for a variable that is not set; \<open>join\<close> joins the parts of a path.\<close>

definition providerSocketPath :: "(string \<Rightarrow> string) \<Rightarrow> string \<Rightarrow> (string list \<Rightarrow> string) \<Rightarrow> string" where
  "providerSocketPath getenv tempDir join =
     (if getenv ''HWS_PROVIDER_SOCKET'' \<noteq> '''' then getenv ''HWS_PROVIDER_SOCKET''
      else let runtime = (if getenv ''XDG_RUNTIME_DIR'' = '''' then tempDir else getenv ''XDG_RUNTIME_DIR'')
      in join [runtime, ''hws'', ''providers.sock''])"

section \<open>Connections are never leaked\<close>

text \<open>Every connection that was dialled is held or closed, and closed once.\<close>

definition kept :: "'w Relay \<Rightarrow> bool" where
  "kept r \<longleftrightarrow> \<not> rlDone r \<and> distinct (rlClosed r) \<and>
     (\<forall>c. c < rlNext r \<longleftrightarrow> c \<in> set (rlClosed r) \<or> rlConn r = Some c) \<and>
     (\<forall>c. rlConn r = Some c \<longrightarrow> c \<notin> set (rlClosed r))"

lemma kept_new [simp]: "kept (newRelay w)"
  by (simp add: kept_def newRelay_def)

lemma kept_dropConn [simp]: "kept r \<Longrightarrow> kept (dropConn c r)"
  by (auto simp: kept_def dropConn_def)

lemma kept_writeNative [simp]: "kept r \<Longrightarrow> kept (snd (writeNative wr b r))"
  by (simp add: kept_def writeNative_def split: prod.split)

lemma kept_happen [simp]: "kept r \<Longrightarrow> kept (happen wr co evs r)"
proof (induction evs arbitrary: r)
  case (Cons ev evs)
  then have "kept (readCommands wr co ev r)" by (cases ev) (auto split: option.split)
  with Cons show ?case by (simp add: happen_def)
qed (simp add: happen_def)

lemma kept_ensureConn:
  assumes "kept r" and "ensureConn dial r = (res, r1)"
  shows "kept r1"
proof (cases "rlConn r = None \<and> dial = None")
  case True
  with assms(1) have old: "\<not> rlDone r" "distinct (rlClosed r)" "c < rlNext r \<longleftrightarrow> c \<in> set (rlClosed r)" for c
    by (simp_all add: kept_def)
  have "r1 = r\<lparr>rlConn := Some (rlNext r), rlNext := rlNext r + 1\<rparr>"
    using assms(2) True by (auto simp: ensureConn_def)
  moreover have "rlNext r \<notin> set (rlClosed r)" using old(3) [of "rlNext r"] by simp
  ultimately show ?thesis using old by (auto simp: kept_def less_Suc_eq)
next
  case False
  with assms(2) have "r1 = r" by (auto simp: ensureConn_def split: option.splits)
  with assms(1) show ?thesis by simp
qed

lemma kept_sent [simp]: "kept (r\<lparr>rlSent := xs\<rparr>) = kept r"
  by (simp add: kept_def)

lemma kept_forward:
  assumes "kept r" and "forward wr co t e r = (err, r1)"
  shows "kept r1"
proof -
  obtain res r0 where r0: "ensureConn (tuDial t) r = (res, r0)" by fastforce
  with assms(1) have "kept r0" by (rule kept_ensureConn)
  with r0 assms(2) show ?thesis by (auto simp: forward_def Let_def split: sum.splits option.splits)
qed

text \<open>The three ways in which a frame is handled.\<close>

lemma handleFrame_cases:
  assumes "handleFrame wr co t p r = (e, r1)"
  obtains (invalid) "\<not> bcObject co p" "e = None"
      "r1 = snd (writeNative wr (ackText co (Some ''invalid json'')) (happen wr co (tuBefore t) r))"
  | (failed) err r2 where "forward wr co t (bridgeEnvelope (tuNow t) p) (happen wr co (tuBefore t) r) = (Some err, r2)"
      "e = None" "r1 = snd (writeNative wr (ackText co (Some err)) (happen wr co (tuAfter t) r2))"
  | (sent) x r2 where "bcObject co p"
      "forward wr co t (bridgeEnvelope (tuNow t) p) (happen wr co (tuBefore t) r) = (None, r2)"
      "writeNative wr (ackText co None) (happen wr co (tuAfter t) r2) = (x, r1)" "e = map_option WriteError x"
proof (cases "bcObject co p")
  case False
  with assms invalid show thesis by (simp add: handleFrame_def Let_def)
next
  case True
  obtain err r2 where f: "forward wr co t (bridgeEnvelope (tuNow t) p) (happen wr co (tuBefore t) r) = (err, r2)" by fastforce
  show thesis
  proof (cases err)
    case None
    obtain x r3 where w: "writeNative wr (ackText co None) (happen wr co (tuAfter t) r2) = (x, r3)" by fastforce
    have "e = map_option WriteError x" "r1 = r3"
      using assms True f None w by (cases x; simp add: handleFrame_def Let_def)+
    with True f None w show thesis by (intro sent) simp_all
  next
    case (Some er)
    with assms True f show thesis by (intro failed) (auto simp: handleFrame_def Let_def)
  qed
qed

lemma kept_handleFrame:
  assumes "kept r" and "handleFrame wr co t p r = (e, r1)"
  shows "kept r1"
  using assms(2)
proof (cases rule: handleFrame_cases)
  case (sent x r2)
  then have "kept r2" using kept_forward kept_happen assms(1) by blast
  with sent(3) show ?thesis using kept_writeNative kept_happen by (metis snd_conv)
next
  case (failed err r2)
  then have "kept r2" using kept_forward [OF kept_happen [OF assms(1)]] by blast
  with failed show ?thesis by simp
qed (use assms(1) in simp)

lemma kept_frameLoop: "kept r \<Longrightarrow> kept (snd (frameLoop wr co turns k s r))"
proof (induction wr co turns k s r rule: frameLoop.induct)
  case (1 wr co turns k s r)
  show ?case
  proof (cases "frameRead s")
    case (Pair res rest)
    show ?thesis
    proof (cases res)
      case (Inl e)
      with Pair "1.prems" show ?thesis by (cases e) (simp_all add: frameLoop.simps [of wr co turns k s r])
    next
      case (Inr p)
      obtain e r1 where h: "handleFrame wr co (turns k) p r = (e, r1)" by fastforce
      have "kept r1" using h "1.prems" by (rule kept_handleFrame [rotated])
      with Pair Inr h "1.IH" [OF Pair [symmetric] Inr h [symmetric]] show ?thesis
        by (cases e) (simp_all add: frameLoop.simps [of wr co turns k s r])
    qed
  qed
qed

lemma kept_closeRelay:
  "kept r \<Longrightarrow> rlConn (closeRelay r) = None \<and> distinct (rlClosed (closeRelay r)) \<and>
     set (rlClosed (closeRelay r)) = {..<rlNext (closeRelay r)} \<and> rlOut (closeRelay r) = rlOut r \<and>
     rlSent (closeRelay r) = rlSent r"
  by (auto simp: closeRelay_def kept_def split: option.split)

section \<open>Every frame is acknowledged\<close>

text \<open>The writes of a list of messages, failed ones included.\<close>

definition performAll :: "'w writer \<Rightarrow> string list \<Rightarrow> 'w \<Rightarrow> 'w" where
  "performAll wr ms w = foldl (\<lambda>w m. snd (frameWrite wr m w)) w ms"

lemma performAll_simps [simp]: "performAll wr [] w = w" "performAll wr (m # ms) w = performAll wr ms (snd (frameWrite wr m w))"
  "performAll wr (ps @ qs) w = performAll wr qs (performAll wr ps w)"
  by (simp_all add: performAll_def)

lemma performAll_append: "performAll appendWriter ms w = writeAll ms w"
  by (induction ms arbitrary: w) simp_all

text \<open>The messages that can come from the socket.\<close>

definition commands :: "bridgeCodec \<Rightarrow> string list \<Rightarrow> bool" where
  "commands co cmds \<longleftrightarrow> (\<forall>m \<in> set cmds. \<exists>line. bcCommand co line = Some m)"

lemma writeNative_out:
  "rlOut (snd (writeNative wr b r)) = snd (frameWrite wr b (rlOut r))"
  "rlSent (snd (writeNative wr b r)) = rlSent r" "rlDone (snd (writeNative wr b r)) = rlDone r"
  "fst (writeNative wr b r) = fst (frameWrite wr b (rlOut r))"
  by (simp_all add: writeNative_def split: prod.split)

lemma dropConn_simps [simp]:
  "rlOut (dropConn c r) = rlOut r" "rlSent (dropConn c r) = rlSent r" "rlDone (dropConn c r) = rlDone r"
  by (simp_all add: dropConn_def)

lemma happen_out:
  "\<exists>cmds. rlOut (happen wr co evs r) = performAll wr cmds (rlOut r) \<and> commands co cmds \<and>
     rlSent (happen wr co evs r) = rlSent r"
proof (induction evs arbitrary: r)
  case Nil
  show ?case by (rule exI [of _ "[]"]) (simp add: happen_def commands_def)
next
  case (Cons ev evs)
  let ?r1 = "readCommands wr co ev r"
  have "\<exists>cs. rlOut ?r1 = performAll wr cs (rlOut r) \<and> commands co cs \<and> rlSent ?r1 = rlSent r"
  proof (cases ev)
    case (SocketLine line)
    show ?thesis
    proof (cases "bcCommand co line")
      case None
      then show ?thesis using SocketLine by (intro exI [of _ "[]"]) (simp add: commands_def)
    next
      case (Some m)
      then show ?thesis
        using SocketLine by (intro exI [of _ "[m]"]) (auto simp: commands_def writeNative_out)
    qed
  next
    case (SocketEnded c)
    then show ?thesis by (intro exI [of _ "[]"]) (simp add: commands_def)
  qed
  then obtain cs where cs: "rlOut ?r1 = performAll wr cs (rlOut r)" "commands co cs" "rlSent ?r1 = rlSent r" by blast
  from Cons.IH [of ?r1] obtain ds where
    "rlOut (happen wr co evs ?r1) = performAll wr ds (rlOut ?r1)" "commands co ds"
    "rlSent (happen wr co evs ?r1) = rlSent ?r1" by blast
  with cs show ?case
    by (intro exI [of _ "cs @ ds"]) (auto simp: happen_def commands_def)
qed

lemma ensureConn_out:
  "ensureConn dial r = (res, r1) \<Longrightarrow> rlOut r1 = rlOut r \<and> rlSent r1 = rlSent r"
  by (auto simp: ensureConn_def split: option.splits)

lemma forward_out:
  assumes "forward wr co t e (happen wr co evs r) = (err, r2)"
  shows "\<exists>cmds. rlOut r2 = performAll wr cmds (rlOut r) \<and> commands co cmds \<and>
    (case err of Some _ \<Rightarrow> rlSent r2 = rlSent r | None \<Rightarrow> map snd (rlSent r2) = map snd (rlSent r) @ [e])"
proof -
  obtain cs where cs: "rlOut (happen wr co evs r) = performAll wr cs (rlOut r)" "commands co cs"
    "rlSent (happen wr co evs r) = rlSent r" using happen_out by blast
  obtain res r1 where c: "ensureConn (tuDial t) (happen wr co evs r) = (res, r1)" by fastforce
  note out = ensureConn_out [OF c]
  obtain ds where ds: "rlOut (happen wr co (tuDuring t) r1) = performAll wr ds (rlOut r1)" "commands co ds"
    "rlSent (happen wr co (tuDuring t) r1) = rlSent r1" using happen_out by blast
  show ?thesis
  proof (cases res)
    case (Inl e')
    with assms c out cs show ?thesis by (intro exI [of _ cs]) (auto simp: forward_def)
  next
    case (Inr conn)
    with assms c out cs ds show ?thesis
      by (intro exI [of _ "cs @ ds"])
        (auto simp: forward_def Let_def commands_def split: option.splits)
  qed
qed

text \<open>
  A turn of the loop writes the commands that came meanwhile and then one acknowledgement, and sends the
  frame exactly when the acknowledgement says so. The loop goes on unless it could not write an
  acknowledgement without an error.
\<close>

definition turnResult ::
  "'w writer \<Rightarrow> bridgeCodec \<Rightarrow> turn \<Rightarrow> string \<Rightarrow> string option \<Rightarrow> string list \<Rightarrow> 'w Relay \<Rightarrow> bridgeError option \<Rightarrow> 'w Relay \<Rightarrow> bool" where
  "turnResult wr co t p outcome cmds r e r1 \<longleftrightarrow> commands co cmds \<and>
     rlOut r1 = performAll wr (cmds @ [ackText co outcome]) (rlOut r) \<and>
     (outcome = None \<longrightarrow> bcObject co p) \<and>
     map snd (rlSent r1) = map snd (rlSent r) @ (if outcome = None then [bridgeEnvelope (tuNow t) p] else []) \<and>
     e = (if outcome = None then map_option WriteError (fst (frameWrite wr (ackText co None) (performAll wr cmds (rlOut r))))
          else None)"

lemma handleFrame_result:
  assumes "handleFrame wr co t p r = (e, r1)"
  shows "\<exists>outcome cmds. turnResult wr co t p outcome cmds r e r1"
  using assms
proof (cases rule: handleFrame_cases)
  case invalid
  obtain cs where cs: "rlOut (happen wr co (tuBefore t) r) = performAll wr cs (rlOut r)" "commands co cs"
    "rlSent (happen wr co (tuBefore t) r) = rlSent r" using happen_out by blast
  with invalid have "turnResult wr co t p (Some ''invalid json'') cs r e r1"
    by (simp add: turnResult_def writeNative_out)
  then show ?thesis by blast
next
  case (failed err r2)
  obtain cs where cs: "rlOut r2 = performAll wr cs (rlOut r)" "commands co cs" "rlSent r2 = rlSent r"
    using forward_out [OF failed(1)] by force
  obtain ds where ds: "rlOut (happen wr co (tuAfter t) r2) = performAll wr ds (rlOut r2)" "commands co ds"
    "rlSent (happen wr co (tuAfter t) r2) = rlSent r2" using happen_out by blast
  have "turnResult wr co t p (Some err) (cs @ ds) r e r1"
    using cs ds failed by (auto simp: turnResult_def writeNative_out commands_def)
  then show ?thesis by blast
next
  case (sent x r2)
  obtain cs where cs: "rlOut r2 = performAll wr cs (rlOut r)" "commands co cs"
    "map snd (rlSent r2) = map snd (rlSent r) @ [bridgeEnvelope (tuNow t) p]"
    using forward_out [OF sent(2)] by force
  obtain ds where ds: "rlOut (happen wr co (tuAfter t) r2) = performAll wr ds (rlOut r2)" "commands co ds"
    "rlSent (happen wr co (tuAfter t) r2) = rlSent r2" using happen_out by blast
  have r1: "r1 = snd (writeNative wr (ackText co None) (happen wr co (tuAfter t) r2))"
    and x: "x = fst (writeNative wr (ackText co None) (happen wr co (tuAfter t) r2))" by (simp_all add: sent(3))
  have "turnResult wr co t p None (cs @ ds) r e r1"
    using cs ds sent(1,4) unfolding r1 x by (auto simp: turnResult_def writeNative_out commands_def)
  then show ?thesis by blast
qed

text \<open>What is sent for the frames from the \<open>k\<close>-th turn on, given the outcomes that were acknowledged.\<close>

definition delivered :: "(nat \<Rightarrow> turn) \<Rightarrow> nat \<Rightarrow> string option list \<Rightarrow> string list \<Rightarrow> Envelope list" where
  "delivered turns k outcomes ps =
     concat (map (\<lambda>(i, outcome, p). if outcome = None then [bridgeEnvelope (tuNow (turns i)) p] else [])
       (enumerate k (zip outcomes ps)))"

definition transcript :: "bridgeCodec \<Rightarrow> string list list \<Rightarrow> string option list \<Rightarrow> string list" where
  "transcript co cmds outcomes = concat (map (\<lambda>(cs, outcome). cs @ [ackText co outcome]) (zip cmds outcomes))"

text \<open>
  How the loop ends: at the end of the input after every frame, or with the error of the last write, which
  was that of an acknowledgement without an error.
\<close>

definition endsWith ::
  "'w writer \<Rightarrow> bridgeCodec \<Rightarrow> string list list \<Rightarrow> string option list \<Rightarrow> nat \<Rightarrow> 'w \<Rightarrow> bridgeError option \<Rightarrow> bool" where
  "endsWith wr co cmds outcomes n w e \<longleftrightarrow>
     (case e of
        None \<Rightarrow> length outcomes = n
      | Some e' \<Rightarrow> outcomes \<noteq> [] \<and> last outcomes = None \<and>
          (\<exists>err. e' = WriteError err \<and>
             fst (frameWrite wr (ackText co None) (performAll wr (butlast (transcript co cmds outcomes)) w)) = Some err))"

lemma frameLoop_frames:
  assumes "list_all frameOK ps"
  shows "\<exists>outcomes cmds e r1. frameLoop wr co turns k (writeAll ps []) r = (e, r1) \<and>
    length outcomes \<le> length ps \<and> length cmds = length outcomes \<and> list_all (commands co) cmds \<and>
    list_all2 (\<lambda>outcome p. outcome = None \<longrightarrow> bcObject co p) outcomes (take (length outcomes) ps) \<and>
    rlOut r1 = performAll wr (transcript co cmds outcomes) (rlOut r) \<and>
    endsWith wr co cmds outcomes (length ps) (rlOut r) e \<and>
    map snd (rlSent r1) = map snd (rlSent r) @ delivered turns k outcomes ps"
  using assms(1)
proof (induction ps arbitrary: k r)
  case Nil
  have "frameLoop wr co turns k [] r = (None, r)"
    by (subst frameLoop.simps) (simp add: frameRead_def)
  then show ?case
    by (intro exI [of _ "[]"] exI [of _ None] exI [of _ r]) (simp add: transcript_def delivered_def endsWith_def)
next
  case (Cons p ps)
  obtain e r1 where h: "handleFrame wr co (turns k) p r = (e, r1)" by fastforce
  obtain outcome cs where t: "turnResult wr co (turns k) p outcome cs r e r1"
    using handleFrame_result [OF h] by blast
  have "writeAll (p # ps) [] = leBytes (of_nat (length p)) @ p @ writeAll ps []"
    using Cons.prems by (simp add: writeAll_frames del: writeAll.simps)
  then have read: "frameRead (writeAll (p # ps) []) = (Inr p, writeAll ps [])"
    using Cons.prems by (simp add: frameRead_written del: writeAll.simps)
  show ?case
  proof (cases e)
    case (Some e')
    then have "frameLoop wr co turns k (writeAll (p # ps) []) r = (Some e', r1)"
      using h read by (subst frameLoop.simps) (simp del: writeAll.simps)
    moreover have none: "outcome = None" using t Some by (auto simp: turnResult_def split: if_splits)
    moreover have "Some e' = map_option WriteError (fst (frameWrite wr (ackText co None) (performAll wr cs (rlOut r))))"
      using t Some none by (simp add: turnResult_def)
    then obtain err where "e' = WriteError err"
      "fst (frameWrite wr (ackText co None) (performAll wr cs (rlOut r))) = Some err"
      by (cases "fst (frameWrite wr (ackText co None) (performAll wr cs (rlOut r)))") auto
    then have "endsWith wr co [cs] [outcome] (length (p # ps)) (rlOut r) (Some e')"
      using none by (simp add: endsWith_def transcript_def)
    ultimately show ?thesis
      using t
      by (intro exI [of _ "[outcome]"] exI [of _ "[cs]"] exI [of _ "Some e'"] exI [of _ r1])
        (simp add: transcript_def turnResult_def delivered_def del: writeAll.simps)
  next
    case None
    obtain outcomes cmds e2 r2 where rest: "frameLoop wr co turns (Suc k) (writeAll ps []) r1 = (e2, r2)"
      "length outcomes \<le> length ps" "length cmds = length outcomes" "list_all (commands co) cmds"
      "list_all2 (\<lambda>outcome p. outcome = None \<longrightarrow> bcObject co p) outcomes (take (length outcomes) ps)"
      "rlOut r2 = performAll wr (transcript co cmds outcomes) (rlOut r1)"
      "endsWith wr co cmds outcomes (length ps) (rlOut r1) e2"
      "map snd (rlSent r2) = map snd (rlSent r1) @ delivered turns (Suc k) outcomes ps"
      using Cons.IH [of "Suc k" r1] Cons.prems by auto
    have tr: "transcript co (cs # cmds) (outcome # outcomes) = (cs @ [ackText co outcome]) @ transcript co cmds outcomes"
      by (simp add: transcript_def)
    have out1: "rlOut r1 = performAll wr (cs @ [ackText co outcome]) (rlOut r)" using t by (simp add: turnResult_def)
    have ne: "transcript co cmds outcomes \<noteq> []" if "outcomes \<noteq> []"
      using that rest(3) by (cases outcomes; cases cmds) (simp_all add: transcript_def)
    have "frameLoop wr co turns k (writeAll (p # ps) []) r = (e2, r2)"
      using h None rest(1) read by (subst frameLoop.simps) (simp del: writeAll.simps)
    moreover have "rlOut r2 = performAll wr (transcript co (cs # cmds) (outcome # outcomes)) (rlOut r)"
      unfolding tr rest(6) out1 by simp
    moreover have "endsWith wr co (cs # cmds) (outcome # outcomes) (length (p # ps)) (rlOut r) e2"
      using rest(7) ne unfolding endsWith_def tr out1 by (auto simp: butlast_append split: option.splits)
    moreover have "map snd (rlSent r2) = map snd (rlSent r) @ delivered turns k (outcome # outcomes) (p # ps)"
      using rest(8) t by (simp add: delivered_def turnResult_def)
    moreover have "list_all2 (\<lambda>outcome p. outcome = None \<longrightarrow> bcObject co p) (outcome # outcomes)
        (take (length (outcome # outcomes)) (p # ps))"
      "list_all (commands co) (cs # cmds)" "length (outcome # outcomes) \<le> length (p # ps)"
      "length (cs # cmds) = length (outcome # outcomes)"
      using rest(2-5) t by (simp_all add: turnResult_def)
    ultimately show ?thesis by blast
  qed
qed

lemma okText_frame: "frameOK (ackText co None)"
  by (simp add: frameOK_def ackText_def MaxMessage_def push_bit_eq_mult)

text \<open>
  C11. The host is a faithful relay, whatever frames the browser sends, whatever the readers of the
  connections do between the steps, and whichever writes to the browser fail. Frame by frame, it writes
  the commands that came from the socket meanwhile and then one acknowledgement; a frame is sent to
  the daemon, unchanged and in order, exactly when the acknowledgement written for it is without an error,
  which it never is for one that is not decoded into a map. The loop ends at the end of the input, after
  the last frame, unless such an acknowledgement could not be written: then it ends there with the
  error of that write, so never with a writer that does not fail. Of the connections that were
  dialled, each is closed once.
\<close>

theorem bridge_relays:
  assumes "list_all frameOK ps"
  shows "\<exists>outcomes cmds e r. runBridge wr co turns (writeAll ps []) w = (e, r) \<and>
    length outcomes \<le> length ps \<and> length cmds = length outcomes \<and> list_all (commands co) cmds \<and>
    list_all2 (\<lambda>outcome p. outcome = None \<longrightarrow> bcObject co p) outcomes (take (length outcomes) ps) \<and>
    rlOut r = performAll wr (transcript co cmds outcomes) w \<and>
    endsWith wr co cmds outcomes (length ps) w e \<and>
    ((\<forall>p w. fst (wr p w) = None) \<longrightarrow> e = None \<and> length outcomes = length ps) \<and>
    map snd (rlSent r) = delivered turns 0 outcomes ps \<and>
    rlConn r = None \<and> distinct (rlClosed r) \<and> set (rlClosed r) = {..<rlNext r}"
proof -
  obtain outcomes cmds e r1 where l: "frameLoop wr co turns 0 (writeAll ps []) (newRelay w) = (e, r1)"
    "length outcomes \<le> length ps" "length cmds = length outcomes" "list_all (commands co) cmds"
    "list_all2 (\<lambda>outcome p. outcome = None \<longrightarrow> bcObject co p) outcomes (take (length outcomes) ps)"
    "rlOut r1 = performAll wr (transcript co cmds outcomes) (rlOut (newRelay w))"
    "endsWith wr co cmds outcomes (length ps) (rlOut (newRelay w)) e"
    "map snd (rlSent r1) = map snd (rlSent (newRelay w)) @ delivered turns 0 outcomes ps"
    using frameLoop_frames [OF assms, of wr co turns 0 "newRelay w"] by blast
  have new: "rlOut (newRelay w) = w" "rlSent (newRelay w) = []" by (simp_all add: newRelay_def)
  have "kept (snd (frameLoop wr co turns 0 (writeAll ps []) (newRelay w)))" by (simp add: kept_frameLoop)
  then have "kept r1" by (simp only: l(1) snd_conv)
  from kept_closeRelay [OF this] have "rlConn (closeRelay r1) = None" "distinct (rlClosed (closeRelay r1))"
    "set (rlClosed (closeRelay r1)) = {..<rlNext (closeRelay r1)}" "rlOut (closeRelay r1) = rlOut r1"
    "rlSent (closeRelay r1) = rlSent r1" by simp_all
  moreover have "runBridge wr co turns (writeAll ps []) w = (e, closeRelay r1)"
    using l(1) unfolding runBridge_def by simp
  moreover have "(\<forall>p w. fst (wr p w) = None) \<longrightarrow> e = None \<and> length outcomes = length ps"
  proof
    assume total: "\<forall>p w. fst (wr p w) = None"
    have "fst (frameWrite wr (ackText co None) v) = None" for v
      using okText_frame [of co] total by (auto simp: frameWrite_def frameOK_def split: prod.splits option.splits) (metis fst_conv option.distinct(1))+
    with l(7) show "e = None \<and> length outcomes = length ps" by (auto simp: endsWith_def split: option.splits)
  qed
  ultimately show ?thesis
    using l(2-8)
    by (intro exI [of _ outcomes] exI [of _ cmds] exI [of _ e] exI [of _ "closeRelay r1"] conjI)
      (simp_all only: append_Nil list.map new)
qed

section \<open>Samples\<close>

definition plainCodec :: bridgeCodec where
  "plainCodec = \<lparr>bcObject = (\<lambda>p. HasPrefix p ''{''), bcQuote = (\<lambda>e. [CHR 0x22] @ e @ [CHR 0x22]),
     bcCommand = (\<lambda>line. if HasPrefix line ''{'' then Some ''{cmd}'' else None)\<rparr>"

text \<open>The daemon is away in the first turn, and ends the connection that the second turn opens.\<close>

definition restartTurns :: "nat \<Rightarrow> turn" where
  "restartTurns k = \<lparr>tuNow = int k, tuDial = (if k = 0 then Some ''refused'' else None), tuSend = None,
     tuBefore = [], tuDuring = [], tuAfter = (if k = 1 then [SocketLine ''{x'', SocketEnded 0] else [])\<rparr>"

lemma bridge_relays_witness:
  "\<exists>outcomes cmds r. runBridge appendWriter plainCodec restartTurns (writeAll [''{a'', ''{b'', ''c'', ''{d''] []) [] = (None, r) \<and>
     length outcomes = 4 \<and> length cmds = 4 \<and> rlOut r = writeAll (transcript plainCodec cmds outcomes) [] \<and>
     map snd (rlSent r) = delivered restartTurns 0 outcomes [''{a'', ''{b'', ''c'', ''{d''] \<and>
     rlConn r = None \<and> set (rlClosed r) = {..<rlNext r}"
proof -
  have "list_all frameOK [''{a'', ''{b'', ''c'', ''{d'']" by (simp add: frameOK_def MaxMessage_def push_bit_eq_mult)
  moreover have "\<forall>p w. fst (appendWriter p w) = None" by (simp add: appendWriter_def)
  ultimately obtain outcomes cmds e r where
    "runBridge appendWriter plainCodec restartTurns (writeAll [''{a'', ''{b'', ''c'', ''{d''] []) [] = (e, r)"
    "length cmds = length outcomes" "e = None \<and> length outcomes = length [''{a'', ''{b'', ''c'', ''{d'']"
    "rlOut r = performAll appendWriter (transcript plainCodec cmds outcomes) []"
    "map snd (rlSent r) = delivered restartTurns 0 outcomes [''{a'', ''{b'', ''c'', ''{d'']"
    "rlConn r = None" "set (rlClosed r) = {..<rlNext r}"
    using bridge_relays [of "[''{a'', ''{b'', ''c'', ''{d'']" appendWriter plainCodec restartTurns "[]"] by metis
  then show ?thesis by (intro exI conjI) (simp_all add: performAll_append)
qed

text \<open>
  A frame whose header has arrived and whose body has not is taken for the end of the input: the host
  ends without an error and without an acknowledgement.
\<close>

lemma truncated_frame_is_silent:
  "mainBridge appendWriter plainCodec (\<lambda>_. ''error'') restartTurns (leBytes 5) [] = []"
proof -
  have "frameRead (leBytes 5) = (Inl EndOfInput, [])"
    by (simp add: frameRead_def leWord_leBytes MaxMessage_def push_bit_eq_mult)
  then have "frameLoop appendWriter plainCodec restartTurns 0 (leBytes 5) (newRelay []) = (None, newRelay [])"
    by (subst frameLoop.simps) simp
  then show ?thesis by (simp add: mainBridge_def runBridge_def closeRelay_def newRelay_def)
qed

end
