(* ===== verification/Hwsd.thy ===== *)
theory Hwsd
  imports DBusApi Runtime
begin

text \<open>
  The start of the daemon (\<open>cmd/hwsd/main.go\<close>): which failures end it and which are only logged, and
  what is cleaned up. The sockets, the collectors and the loops that run afterwards are started with
  what is built here; signals are not modelled.
\<close>

section \<open>Directories\<close>

text \<open>\<open>getenv\<close> gives the empty text for a variable that is not set; \<open>join\<close> joins the parts of a path.\<close>

record dirEnv =
  deGetenv :: "string \<Rightarrow> string"
  deUserHomeDir :: "string + string"
  deJoin :: "string list \<Rightarrow> string"

definition xdgHome :: "dirEnv \<Rightarrow> string \<Rightarrow> string list \<Rightarrow> string + string" where
  "xdgHome de envName fallback =
     (if deGetenv de envName \<noteq> '''' then Inr (deGetenv de envName)
      else case deUserHomeDir de of
        Inl e \<Rightarrow> Inl e
      | Inr home \<Rightarrow> Inr (deJoin de (home # fallback)))"

section \<open>Starting\<close>

datatype startError = NoRuntimeDir | NoHome string | LifecycleFailed runtimeError | SessionFailed sessionError

text \<open>What is logged: a configuration that was rejected, or a collector that is not available.\<close>

datatype startLog =
    PanelRejected hubError | HierarchyRejected runtimeError | CatalogRejected runtimeError
  | MprisUnavailable string | LauncherUnavailable string

record ('x, 'd) daemonState =
  dsRuntime :: "('x, 'd) Runtime"
  dsServer :: Server
  dsSocket :: string
  dsLog :: "startLog list"

text \<open>
  The services around the daemon: the store of the lifecycle, the answers of the bus, and the errors of the
  two collectors, if any. \<open>seLater\<close> is what happens to the files while a panel source is compiled.
\<close>

record ('w, 'd, 'x) startEnv =
  seDirs :: dirEnv
  seRuntime :: "('w, 'x) RtEnv"
  seStore :: "('w, 'd, 'x) StoreOps"
  seSession :: sessionAnswers
  seMpris :: "string option"
  seLauncher :: "string option"
  seLater :: "'w \<Rightarrow> 'w"
  seNow :: int

definition logged :: "('e \<Rightarrow> startLog) \<Rightarrow> 'e option \<Rightarrow> startLog list" where
  "logged f e = (case e of None \<Rightarrow> [] | Some e \<Rightarrow> [f e])"

text \<open>The hub, the runtime and the three configurations; their errors are only logged.\<close>

definition configureDaemon ::
  "('w, 'd, 'x) startEnv \<Rightarrow> string \<Rightarrow> 'w \<Rightarrow> ('x, 'd) Runtime \<times> startLog list \<times> 'w" where
  "configureDaemon se configHome w =
     (let env = seRuntime se; de = seDirs se; hub = SetActions (Some NewActions) (NewHub (Some []))
      in (case Hub_Configure (reHub env) (reFS env) (seLater se) (deJoin de [configHome, ''hws'', ''panel.hws.hcl''])
                 w (seNow se) hub of
            (e1, w1, hub1, _) \<Rightarrow>
         (case ConfigureHierarchy env (deJoin de [configHome, ''hws'', ''hierarchy.json'']) w1 (NewRuntime (Some hub1)) of
            (e2, w2, rt2) \<Rightarrow>
         (case ConfigureWorkspaces env (deJoin de [configHome, ''hws'', ''workspaces.json'']) w2 rt2 of
            (e3, w3, rt3) \<Rightarrow> (rt3, logged PanelRejected e1 @ logged HierarchyRejected e2 @ logged CatalogRejected e3, w3)))))"

text \<open>
  The notifiers are set after the bus has been opened, so that calls may arrive before; they are the emitters
  of the server (theory \<open>DBusApi\<close>).
\<close>

definition wireNotifiers :: "('x, 'd) Runtime \<Rightarrow> ('x, 'd) Runtime" where
  "wireNotifiers rt = SetWorkspaceNotifier True (SetTreeNotifier True (rt\<lparr>rtHub := SetNotifiers True True (rtHub rt)\<rparr>))"

text \<open>
  \<open>run\<close> up to the point where the daemon is ready. The deferred \<open>Shutdown\<close> runs when the session cannot
  be opened; what the server does to its connection is its second part.
\<close>

definition startDaemon ::
  "('w, 'd, 'x) startEnv \<Rightarrow> 'w \<Rightarrow> (startError + ('x, 'd) daemonState) \<times> busAction list \<times> 'w" where
  "startDaemon se w =
     (let de = seDirs se; env = seRuntime se; runtimeDir = deGetenv de ''XDG_RUNTIME_DIR''
      in if runtimeDir = '''' then (Inl NoRuntimeDir, [], w)
      else case xdgHome de ''XDG_CONFIG_HOME'' [''.config''] of
        Inl e \<Rightarrow> (Inl (NoHome e), [], w)
      | Inr configHome \<Rightarrow>
     (case xdgHome de ''XDG_STATE_HOME'' [''.local'', ''state''] of
        Inl e \<Rightarrow> (Inl (NoHome e), [], w)
      | Inr stateHome \<Rightarrow>
     (case configureDaemon se configHome w of
        (rt, logs, w1) \<Rightarrow>
     (case OpenWorkspaceLifecycle (seStore se) (reFS env) (deJoin de [stateHome, ''hws'', ''workspace-lifecycle'']) rt w1 of
        (Some e, rt1, w2) \<Rightarrow> (Inl (LifecycleFailed e), [], w2)
      | (None, rt1, w2) \<Rightarrow>
     (case OpenSession (seSession se) of
        (Inl e, acts) \<Rightarrow> (case Runtime_Shutdown (seStore se) rt1 w2 of (_, _, w3) \<Rightarrow> (Inl (SessionFailed e), acts, w3))
      | (Inr server, acts) \<Rightarrow>
          (Inr \<lparr>dsRuntime = wireNotifiers rt1, dsServer = server, dsSocket = deJoin de [runtimeDir, ''hws'', ''providers.sock''],
             dsLog = logs @ logged MprisUnavailable (seMpris se) @ logged LauncherUnavailable (seLauncher se)\<rparr>, acts, w2))))))"

text \<open>
  The deferred calls when the daemon ends: the server is closed first and then the lifecycle.
\<close>

definition stopDaemon ::
  "('w, 'd, 'x) startEnv \<Rightarrow> ('x, 'd) daemonState \<Rightarrow> 'w \<Rightarrow> busAction list \<times> ('x, 'd) daemonState \<times> 'w" where
  "stopDaemon se ds w =
     (case Server_Close (dsServer ds) of
        (server, acts) \<Rightarrow>
          (case Runtime_Shutdown (seStore se) (dsRuntime ds) w of
             (_, rt, w1) \<Rightarrow> (acts, ds\<lparr>dsServer := server, dsRuntime := rt\<rparr>, w1)))"

lemma stopDaemon_releases:
  assumes "dsServer ds = openServer" and "stopDaemon se ds w = (acts, ds1, w1)"
  shows "acts = [NameReleased, ConnectionClosed] \<and> rtLifecycle (dsRuntime ds1) = None \<and>
    snd (serverRun cs (dsServer ds1)) = []"
proof -
  have "Server_Close (dsServer ds) = (openServer\<lparr>srvClosed := True\<rparr>, [NameReleased, ConnectionClosed])"
    using assms(1) by (simp add: Server_Close_def openServer_def)
  with assms(2) show ?thesis
    by (auto simp: stopDaemon_def Runtime_Shutdown_def serverRun_closed split: prod.splits option.splits)
qed

section \<open>What ends the start\<close>

text \<open>
  Opening the store of the lifecycle and the engine over it, when both succeed: the store, the state of the
  engine and the world after it.
\<close>

definition openedStore :: "('w, 'd, 'x) StoreOps \<Rightarrow> 'w FS \<Rightarrow> string \<Rightarrow> 'w \<Rightarrow> ('d \<times> 'x \<times> 'w) option" where
  "openedStore so fs path w =
     (if blank path then None
      else case fsMkdirAll fs (fsDir fs path) w of
        (Some _, _) \<Rightarrow> None
      | (None, w1) \<Rightarrow>
          (case soOpen so path w1 of
             (Inl _, _) \<Rightarrow> None
           | (Inr d, w2) \<Rightarrow> (case soEngine so d w2 of (Inl _, _) \<Rightarrow> None | (Inr x, w3) \<Rightarrow> Some (d, x, w3))))"

lemma configureDaemon_lifecycle:
  assumes "configureDaemon se configHome w = (rt, logs, w1)"
  shows "rtLifecycle rt = None" and "rtStateRevision rt = 1" and "rtShellSnapshot rt = zeroShellSnapshot"
  using assms
  by (auto simp: configureDaemon_def ConfigureHierarchy_def ConfigureWorkspaces_def NewRuntime_def Let_def split: prod.splits)

lemma OpenWorkspaceLifecycle_opened:
  assumes "rtLifecycle rt = None"
  shows "case openedStore so fs path w of
      None \<Rightarrow> \<exists>e w'. OpenWorkspaceLifecycle so fs path rt w = (Some e, rt, w')
    | Some (d, x, w') \<Rightarrow> OpenWorkspaceLifecycle so fs path rt w = (None, rt\<lparr>rtLifecycle := Some (x, Some d)\<rparr>, w')"
  using assms
  by (auto simp: openedStore_def OpenWorkspaceLifecycle_def OpenProduction_def blank_def split: option.splits prod.splits sum.splits)

text \<open>A store over which the engine does not open is closed again.\<close>

lemma OpenProduction_closes:
  "soOpen so path w = (Inr d, w1) \<Longrightarrow> soEngine so d w1 = (Inl e, w2) \<Longrightarrow> \<not> blank path \<Longrightarrow>
   OpenProduction so path w = (Inl (StoreError e), snd (soClose so d w2))"
  by (simp add: OpenProduction_def blank_def split: prod.split)

text \<open>The path of the store, and the world and the runtime after the configurations.\<close>

definition storePath :: "('w, 'd, 'x) startEnv \<Rightarrow> string \<Rightarrow> string" where
  "storePath se stateHome = deJoin (seDirs se) [stateHome, ''hws'', ''workspace-lifecycle'']"

definition homes :: "('w, 'd, 'x) startEnv \<Rightarrow> string \<Rightarrow> string \<Rightarrow> bool" where
  "homes se configHome stateHome \<longleftrightarrow> deGetenv (seDirs se) ''XDG_RUNTIME_DIR'' \<noteq> '''' \<and>
     xdgHome (seDirs se) ''XDG_CONFIG_HOME'' [''.config''] = Inr configHome \<and>
     xdgHome (seDirs se) ''XDG_STATE_HOME'' [''.local'', ''state''] = Inr stateHome"

text \<open>The start, once the directories are known.\<close>

lemma startDaemon_homes:
  assumes "homes se configHome stateHome" and "configureDaemon se configHome w = (rt, logs, w1)"
  shows "case openedStore (seStore se) (reFS (seRuntime se)) (storePath se stateHome) w1 of
      None \<Rightarrow> \<exists>e w'. startDaemon se w = (Inl (LifecycleFailed e), [], w')
    | Some (d, x, w2) \<Rightarrow>
        (case OpenSession (seSession se) of
           (Inl e, acts) \<Rightarrow> startDaemon se w = (Inl (SessionFailed e), acts, snd (soClose (seStore se) d w2))
         | (Inr server, acts) \<Rightarrow>
             startDaemon se w = (Inr \<lparr>dsRuntime = wireNotifiers (rt\<lparr>rtLifecycle := Some (x, Some d)\<rparr>), dsServer = server,
               dsSocket = deJoin (seDirs se) [deGetenv (seDirs se) ''XDG_RUNTIME_DIR'', ''hws'', ''providers.sock''],
               dsLog = logs @ logged MprisUnavailable (seMpris se) @ logged LauncherUnavailable (seLauncher se)\<rparr>, acts, w2))"
  using OpenWorkspaceLifecycle_opened [OF configureDaemon_lifecycle(1) [OF assms(2)],
      of "seStore se" "reFS (seRuntime se)" "storePath se stateHome" w1] assms
  by (auto simp: startDaemon_def homes_def storePath_def Let_def Runtime_Shutdown_def Lifecycle_Shutdown_def
      split: option.splits prod.splits sum.splits)

lemma startDaemon_no_homes:
  "\<not> (\<exists>configHome stateHome. homes se configHome stateHome) \<Longrightarrow>
   \<exists>e. startDaemon se w = (Inl e, [], w) \<and> (e = NoRuntimeDir \<or> (\<exists>m. e = NoHome m))"
  by (auto simp: startDaemon_def homes_def Let_def split: sum.split)


section \<open>A sample\<close>

text \<open>Every source is rejected, nothing can be read, and no collector is there: the daemon starts.\<close>

definition plainJoin :: "string list \<Rightarrow> string" where
  "plainJoin ps = concat (map (\<lambda>p. ''/'' @ p) ps)"

definition bareEnv :: "(string, unit) RtEnv" where
  "bareEnv = \<lparr>reHub = sampleHubEnv, reShell = (\<lambda>_. Inl ''no''), reFS = sampleFS\<lparr>fsReadFile := (\<lambda>_ _. Inl ''unreadable'')\<rparr>,
     reTree = (\<lambda>_. Inl ConfigPathRequired), reCatalog = (\<lambda>_. Inl PathRequired),
     reEngine = \<lparr>enDispatch = (\<lambda>_ _ x. (None, x)), enState = (\<lambda>_ _. Inl ''no'')\<rparr>, reKeys = (\<lambda>m. m)\<rparr>"

definition bareStart :: "(string, unit, unit) startEnv" where
  "bareStart = \<lparr>seDirs = \<lparr>deGetenv = (\<lambda>n. if n = ''XDG_RUNTIME_DIR'' then ''run'' else ''''),
       deUserHomeDir = Inr ''home'', deJoin = plainJoin\<rparr>,
     seRuntime = bareEnv,
     seStore = \<lparr>soOpen = (\<lambda>_ w. (Inr (), w)), soEngine = (\<lambda>_ w. (Inr (), w)), soClose = (\<lambda>_ w. (None, w))\<rparr>,
     seSession = \<lparr>anConnect = None, anExport = None, anIntrospection = None, anRequestName = Inr 1\<rparr>,
     seMpris = Some ''no bus'', seLauncher = Some ''no bus'', seLater = (\<lambda>w. w), seNow = 0\<rparr>"


end
